(* ===== verification/Prelude.thy ===== *)
theory Prelude
  imports Main "HOL-Library.Word"
begin

unbundle bit_operations_syntax

text \<open>
  Shared vocabulary of the development: Rust's machine integers and their saturating, checked
  and converting operations, the crate-wide error type with the \<open>?\<close> operator, SQL statements
  over tables, and the state-machine interface that turns a one-step invariant into an
  invariant of every reachable state.

  Plain \<open>+\<close>, \<open>-\<close> and \<open>*\<close> on native integers are the wrapping operations of the release profile
  (\<open>src/Cargo.toml\<close> sets no overflow checks there); wherever a result depends on the absence of
  overflow, that is a hypothesis of the lemma and not part of the definition.
\<close>

named_theorems arith_defs \<open>definitions of the machine-integer operations\<close>
named_theorems unat_simps \<open>values of machine-integer operations as natural numbers\<close>
named_theorems res_simps \<open>inversion rules of the result type\<close>
named_theorems sql_simps \<open>facts about the SQL statements over tables\<close>

section \<open>Machine integers\<close>

type_synonym u8 = "8 word"
type_synonym u16 = "16 word"
type_synonym u32 = "32 word"
type_synonym u64 = "64 word"
type_synonym u128 = "128 word"
type_synonym u256 = "256 word"
type_synonym bytes = "u8 list"

definition sat_add :: "'a::len word \<Rightarrow> 'a word \<Rightarrow> 'a word" where
  [arith_defs]: "sat_add a b = (if unat a + unat b < 2 ^ LENGTH('a) then a + b else - 1)"

definition sat_sub :: "'a::len word \<Rightarrow> 'a word \<Rightarrow> 'a word" where
  [arith_defs]: "sat_sub a b = (if b \<le> a then a - b else 0)"

definition sat_mul :: "'a::len word \<Rightarrow> 'a word \<Rightarrow> 'a word" where
  [arith_defs]: "sat_mul a b = (if unat a * unat b < 2 ^ LENGTH('a) then a * b else - 1)"

definition checked_add :: "'a::len word \<Rightarrow> 'a word \<Rightarrow> 'a word option" where
  [arith_defs]: "checked_add a b = (if unat a + unat b < 2 ^ LENGTH('a) then Some (a + b) else None)"

definition checked_sub :: "'a::len word \<Rightarrow> 'a word \<Rightarrow> 'a word option" where
  [arith_defs]: "checked_sub a b = (if b \<le> a then Some (a - b) else None)"

definition checked_mul :: "'a::len word \<Rightarrow> 'a word \<Rightarrow> 'a word option" where
  [arith_defs]: "checked_mul a b = (if unat a * unat b < 2 ^ LENGTH('a) then Some (a * b) else None)"

text \<open>\<open>saturating_to\<close> and \<open>try_from\<close> between unsigned widths.\<close>

definition sat_to :: "'a::len word \<Rightarrow> 'b::len word" where
  [arith_defs]: "sat_to a = (if unat a < 2 ^ LENGTH('b) then ucast a else - 1)"

definition try_into :: "'a::len word \<Rightarrow> 'b::len word option" where
  [arith_defs]: "try_into a = (if unat a < 2 ^ LENGTH('b) then Some (ucast a) else None)"

text \<open>The same operations compared as integers, which evaluate in binary.\<close>

lemma unat_bound_uint:
  "unat a + unat b < 2 ^ n \<longleftrightarrow> uint a + uint b < 2 ^ n"
  "unat a * unat b < 2 ^ n \<longleftrightarrow> uint a * uint b < 2 ^ n"
  "unat a < 2 ^ n \<longleftrightarrow> uint a < 2 ^ n" for a b :: "'a::len word"
proof -
  have n: "(2 :: int) ^ n = int (2 ^ n)" by simp
  show "unat a + unat b < 2 ^ n \<longleftrightarrow> uint a + uint b < 2 ^ n"
    unfolding n by (simp only: uint_nat flip: of_nat_add of_nat_less_iff [where 'a=int])
  show "unat a * unat b < 2 ^ n \<longleftrightarrow> uint a * uint b < 2 ^ n"
    unfolding n by (simp only: uint_nat flip: of_nat_mult of_nat_less_iff [where 'a=int])
  show "unat a < 2 ^ n \<longleftrightarrow> uint a < 2 ^ n"
    unfolding n by (simp only: uint_nat flip: of_nat_less_iff [where 'a=int])
qed

lemmas arith_code [code] = sat_add_def [unfolded unat_bound_uint] sat_mul_def [unfolded unat_bound_uint]
  checked_add_def [unfolded unat_bound_uint] checked_mul_def [unfolded unat_bound_uint]
  sat_to_def [unfolded unat_bound_uint] try_into_def [unfolded unat_bound_uint]

lemma unat_minus_one_max [unat_simps]: "unat (- 1 :: 'a::len word) = 2 ^ LENGTH('a) - 1"
  by (simp add: unsigned_minus_1_eq_mask mask_eq_exp_minus_1)

lemma unat_add_no_overflow [unat_simps]:
  "unat a + unat b < 2 ^ LENGTH('a) \<Longrightarrow> unat (a + b) = unat a + unat (b :: 'a::len word)"
  by (simp add: unat_word_ariths)

lemma unat_mult_no_overflow [unat_simps]:
  "unat a * unat b < 2 ^ LENGTH('a) \<Longrightarrow> unat (a * b) = unat a * unat (b :: 'a::len word)"
  by (simp add: unat_word_ariths)

lemma unat_sub_le [unat_simps]: "b \<le> a \<Longrightarrow> unat (a - b) = unat a - unat (b :: 'a::len word)"
  by (simp add: unat_sub)

lemma unat_less_exp [simp]: "unat (a :: 'a::len word) < 2 ^ LENGTH('a)"
  by (rule unsigned_less)

lemma unat_sat_add [unat_simps]:
  "unat (sat_add a b) = min (unat a + unat b) (2 ^ LENGTH('a) - 1)" for a b :: "'a::len word"
  by (auto simp: sat_add_def unat_simps min_def)

lemma unat_sat_sub [unat_simps]: "unat (sat_sub a b) = unat a - unat b" for a b :: "'a::len word"
  by (auto simp: sat_sub_def unat_simps word_le_nat_alt)

lemma unat_sat_mul [unat_simps]:
  "unat (sat_mul a b) = min (unat a * unat b) (2 ^ LENGTH('a) - 1)" for a b :: "'a::len word"
proof (cases "unat a * unat b < 2 ^ LENGTH('a)")
  case True
  then have "unat a * unat b \<le> 2 ^ LENGTH('a) - 1" by simp
  with True show ?thesis by (simp add: sat_mul_def unat_simps)
next
  case False
  then have "2 ^ LENGTH('a) - 1 \<le> unat a * unat b" by simp
  with False show ?thesis by (simp add: sat_mul_def unat_simps min_def)
qed

lemma unat_sat_to [unat_simps]:
  "unat (sat_to a :: 'b::len word) = min (unat a) (2 ^ LENGTH('b) - 1)" for a :: "'a::len word"
proof (cases "unat a < 2 ^ LENGTH('b)")
  case True
  then have "unat (ucast a :: 'b word) = unat a"
    by (simp add: unsigned_ucast_eq take_bit_nat_eq_self)
  with True show ?thesis by (simp add: sat_to_def)
next
  case False
  then show ?thesis by (simp add: sat_to_def unat_simps)
qed

lemma checked_add_Some [unat_simps]:
  "checked_add a b = Some c \<Longrightarrow> unat c = unat a + unat b" for a b c :: "'a::len word"
  by (auto simp: checked_add_def unat_simps split: if_splits)

lemma checked_sub_Some [unat_simps]:
  "checked_sub a b = Some c \<Longrightarrow> unat c + unat b = unat a" for a b c :: "'a::len word"
  by (auto simp: checked_sub_def unat_simps word_le_nat_alt split: if_splits)

lemma checked_add_uint: "checked_add a b = Some c \<Longrightarrow> uint c = uint a + uint b" for a b c :: "'a::len word"
  by (drule checked_add_Some) (simp only: uint_nat of_nat_add)

lemma checked_sub_uint: "checked_sub a b = Some c \<Longrightarrow> uint c = uint a - uint b" for a b c :: "'a::len word"
  using checked_sub_Some [of a b c] by (metis add_diff_cancel_right' of_nat_add uint_nat)

lemma sat_sub_add: "b \<le> a \<Longrightarrow> sat_sub a b + b = a" for a b :: "'a::len word"
  by (simp add: sat_sub_def)

lemma unat_drop_bit_div [unat_simps]: "unat (drop_bit k x) = unat x div 2 ^ k" for x :: "'a::len word"
proof -
  have "unat (drop_bit k x) = drop_bit k (unat x)"
    unfolding unsigned_drop_bit_eq by (simp add: take_bit_nat_eq_self)
  then show ?thesis by (simp only: drop_bit_eq_div)
qed

lemma unat_exp: "k < LENGTH('a) \<Longrightarrow> unat ((2 :: 'a::len word) ^ k) = 2 ^ k"
proof -
  assume "k < LENGTH('a)"
  then have "(2 :: nat) ^ k < 2 ^ LENGTH('a)" by (rule power_strict_increasing) simp
  moreover have "(2 :: 'a word) ^ k = of_nat (2 ^ k)" by simp
  ultimately show ?thesis by (simp only: unat_of_nat mod_less)
qed

lemma unat_ucast_up: "LENGTH('a) \<le> LENGTH('b) \<Longrightarrow> unat (ucast (w :: 'a::len word) :: 'b::len word) = unat w"
proof -
  assume "LENGTH('a) \<le> LENGTH('b)"
  then have "unat w < 2 ^ LENGTH('b)"
    by (meson unat_less_exp less_le_trans power_increasing one_le_numeral)
  then show ?thesis by (simp add: unsigned_ucast_eq take_bit_nat_eq_self)
qed

lemma nat_div_add_le: "(a :: nat) div k + b div k \<le> (a + b) div k"
  unfolding div_add1_eq [of a b k] by simp

section \<open>Big-endian bytes\<close>

text \<open>
  \<open>to_be_bytes\<close> and \<open>from_be_bytes\<close>. A byte array \<open>[u8; n]\<close> of the sources is a word of \<open>8 * n\<close>
  bits here, whose bytes are read most significant first.
\<close>

definition be_bytes :: "'a::len word \<Rightarrow> bytes" where
  "be_bytes w = map (\<lambda>i. ucast (drop_bit (8 * i) w)) (rev [0..<LENGTH('a) div 8])"

definition from_be_bytes :: "bytes \<Rightarrow> 'a::len word" where
  "from_be_bytes bs = foldl (\<lambda>acc b. push_bit 8 acc OR ucast b) 0 bs"

lemma length_be_bytes [simp]: "length (be_bytes (w :: 'a::len word)) = LENGTH('a) div 8"
  by (simp add: be_bytes_def)

lemma bit_be_bytes_nth:
  "k < LENGTH('a) div 8 \<Longrightarrow> j < 8 \<Longrightarrow>
   bit (be_bytes w ! k) j \<longleftrightarrow> bit w (8 * (LENGTH('a) div 8 - Suc k) + j)" for w :: "'a::len word"
  by (simp add: be_bytes_def rev_nth bit_ucast_iff bit_drop_bit_eq)

lemma bit_from_be_bytes:
  "8 * length bs \<le> LENGTH('a) \<Longrightarrow>
   bit (from_be_bytes bs :: 'a::len word) i \<longleftrightarrow>
     i < 8 * length bs \<and> bit (bs ! (length bs - Suc (i div 8))) (i mod 8)"
proof (induction bs arbitrary: i rule: rev_induct)
  case Nil
  then show ?case by (simp add: from_be_bytes_def)
next
  case (snoc b bs)
  have step: "(from_be_bytes (bs @ [b]) :: 'a word) = push_bit 8 (from_be_bytes bs) OR ucast b"
    by (simp add: from_be_bytes_def)
  show ?case
  proof (cases "i < 8")
    case True
    with snoc.prems show ?thesis
      by (simp add: step bit_or_iff bit_push_bit_iff bit_ucast_iff nth_append)
  next
    case False
    then obtain j where j: "i = j + 8" by (metis add.commute le_add_diff_inverse not_less)
    have nb: "\<not> bit b (j + 8)"
    proof
      assume "bit b (j + 8)"
      then have "j + 8 < LENGTH(8)" by (rule bit_imp_le_length)
      then show False by simp
    qed
    have "bit (from_be_bytes (bs @ [b]) :: 'a word) i \<longleftrightarrow>
      i < LENGTH('a) \<and> bit (from_be_bytes bs :: 'a word) j"
      unfolding step j bit_or_iff bit_push_bit_iff bit_ucast_iff using nb by simp
    also have "\<dots> \<longleftrightarrow> j < 8 * length bs \<and> bit (bs ! (length bs - Suc (j div 8))) (j mod 8)"
    proof -
      have "8 * length bs \<le> LENGTH('a)" using snoc.prems by simp
      then show ?thesis using snoc.IH [of j] snoc.prems by (auto simp: j)
    qed
    also have "\<dots> \<longleftrightarrow> i < 8 * length (bs @ [b]) \<and>
        bit ((bs @ [b]) ! (length (bs @ [b]) - Suc (i div 8))) (i mod 8)"
    proof -
      have "(j + 8) div 8 = Suc (j div 8)" by simp
      then show ?thesis by (auto simp: j nth_append)
    qed
    finally show ?thesis .
  qed
qed

lemma from_be_bytes_be_bytes:
  "8 dvd LENGTH('a) \<Longrightarrow> from_be_bytes (be_bytes w) = (w :: 'a::len word)"
proof (rule bit_word_eqI)
  fix n assume dvd: "8 dvd LENGTH('a)" and n: "n < LENGTH('a)"
  let ?L = "LENGTH('a) div 8"
  have L: "8 * ?L = LENGTH('a)" using dvd by simp
  with n have d: "n div 8 < ?L" by (simp add: less_mult_imp_div_less mult.commute)
  have "bit (from_be_bytes (be_bytes w) :: 'a word) n \<longleftrightarrow> bit (be_bytes w ! (?L - Suc (n div 8))) (n mod 8)"
    using L n by (simp add: bit_from_be_bytes)
  also have "\<dots> \<longleftrightarrow> bit w (8 * (n div 8) + n mod 8)"
    using d by (simp add: bit_be_bytes_nth Suc_diff_Suc)
  finally show "bit (from_be_bytes (be_bytes w) :: 'a word) n \<longleftrightarrow> bit w n" by simp
qed

lemma be_bytes_from_be_bytes:
  assumes "8 * length bs = LENGTH('a)"
  shows "be_bytes (from_be_bytes bs :: 'a::len word) = bs"
proof (rule nth_equalityI)
  have L: "length bs = LENGTH('a) div 8" using assms by simp
  then show "length (be_bytes (from_be_bytes bs :: 'a word)) = length bs" by simp
  fix k assume "k < length (be_bytes (from_be_bytes bs :: 'a word))"
  then have k: "k < LENGTH('a) div 8" by simp
  show "be_bytes (from_be_bytes bs :: 'a word) ! k = bs ! k"
  proof (rule bit_word_eqI)
    fix j assume "j < LENGTH(8)"
    then have j: "j < 8" by simp
    have i: "8 * (length bs - Suc k) + j < 8 * length bs" "(8 * (length bs - Suc k) + j) div 8 = length bs - Suc k"
      using k j L by auto
    have "bit (be_bytes (from_be_bytes bs :: 'a word) ! k) j \<longleftrightarrow>
       bit (from_be_bytes bs :: 'a word) (8 * (length bs - Suc k) + j)"
      using k j L by (simp add: bit_be_bytes_nth)
    also have "\<dots> \<longleftrightarrow> bit (bs ! k) j"
      using i j k L assms by (simp add: bit_from_be_bytes)
    finally show "bit (be_bytes (from_be_bytes bs :: 'a word) ! k) j = bit (bs ! k) j" .
  qed
qed
section \<open>Results\<close>

text \<open>
  The crate's fallible functions return \<open>anyhow::Result\<close>, one error type for all of them; the
  constructors below name the failures the sources raise. \<open>Panic\<close> stands for an unwinding
  panic, which no \<open>match\<close> on an \<open>Err\<close> catches.
\<close>

datatype panic = DivisionByZero | UnwrapFailed | Unreachable

datatype error =
    Panic panic
  | AmountOutExceedsReserve
  | NoLpPosition
  | InsufficientLpShares
  | ValueExceedsU32
  | ValueExceedsI64
  | QueueFull
  | UnknownNonceLease
  | NonceLeaseConflict
  | SqlConstraint
  | SqlNoRows
  | PayloadUnreadable
  | Anyhow string

fun is_panic :: "error \<Rightarrow> bool" where
  "is_panic (Panic _) = True"
| "is_panic _ = False"

type_synonym 'a result = "error + 'a"

text \<open>The \<open>?\<close> operator.\<close>

definition and_then :: "'e + 'a \<Rightarrow> ('a \<Rightarrow> 'e + 'b) \<Rightarrow> 'e + 'b" where
  "and_then r f = (case r of Inl e \<Rightarrow> Inl e | Inr x \<Rightarrow> f x)"

definition ok_or :: "'a option \<Rightarrow> 'e \<Rightarrow> 'e + 'a" where
  "ok_or x e = (case x of None \<Rightarrow> Inl e | Some v \<Rightarrow> Inr v)"

lemma and_then_simps [simp]: "and_then (Inl e) f = Inl e" "and_then (Inr x) f = f x"
  by (simp_all add: and_then_def)

lemma ok_or_simps [simp]: "ok_or None e = Inl e" "ok_or (Some v) e = Inr v"
  by (simp_all add: ok_or_def)

text \<open>For evaluation: a continuation is simplified only once its argument is known.\<close>

lemma and_then_weak_cong: "r = r' \<Longrightarrow> and_then r f = and_then r' f"
  by simp

lemmas eval_cong = and_then_weak_cong let_weak_cong

lemma and_then_Inr [res_simps]: "and_then r f = Inr y \<longleftrightarrow> (\<exists>x. r = Inr x \<and> f x = Inr y)"
  by (cases r) auto

lemma and_then_InrE:
  assumes "and_then r f = Inr y" obtains x where "r = Inr x" "f x = Inr y"
  using assms by (cases r) auto

lemma ok_or_Inr [res_simps]: "ok_or x e = Inr v \<longleftrightarrow> x = Some v"
  by (cases x) auto

lemma if_Inl_Inr [res_simps]:
  "(if c then Inl e else r) = Inr y \<longleftrightarrow> \<not> c \<and> r = Inr y"
  "(if c then r else Inl e) = Inr y \<longleftrightarrow> c \<and> r = Inr y"
  by auto

text \<open>The same for code that also changes a state: an early return keeps the changes made so far.\<close>

definition st_then ::
  "('s \<Rightarrow> ('e + 'a) \<times> 's) \<Rightarrow> ('a \<Rightarrow> 's \<Rightarrow> ('e + 'b) \<times> 's) \<Rightarrow> 's \<Rightarrow> ('e + 'b) \<times> 's" where
  "st_then m f s = (case m s of (Inl e, s') \<Rightarrow> (Inl e, s') | (Inr x, s') \<Rightarrow> f x s')"

text \<open>Handling an error: panics are not caught.\<close>

definition catch_error ::
  "('s \<Rightarrow> (error + 'a) \<times> 's) \<Rightarrow> (error \<Rightarrow> 's \<Rightarrow> (error + 'a) \<times> 's) \<Rightarrow> 's \<Rightarrow> (error + 'a) \<times> 's" where
  "catch_error m h s = (case m s of (Inl e, s') \<Rightarrow> if is_panic e then (Inl e, s') else h e s' | (Inr x, s') \<Rightarrow> (Inr x, s'))"

lemma st_then_InrE:
  assumes "st_then m f s = (Inr y, t)" obtains x u where "m s = (Inr x, u)" "f x u = (Inr y, t)"
  using assms by (auto simp: st_then_def split: prod.splits sum.splits)

section \<open>SQL statements\<close>

text \<open>
  A table is the list of its rows in insertion order. An \<open>UPDATE\<close> rewrites the rows its \<open>WHERE\<close>
  clause selects and reports their number. A transaction body returns the new database or an
  error; \<open>atomically\<close> commits it, and on an error rolls back to the database it started from. A
  JSON column holds a value, or text that does not parse.
\<close>

definition sql_update :: "('r \<Rightarrow> bool) \<Rightarrow> ('r \<Rightarrow> 'r) \<Rightarrow> 'r list \<Rightarrow> 'r list" where
  "sql_update P f rows = map (\<lambda>r. if P r then f r else r) rows"

definition sql_count :: "('r \<Rightarrow> bool) \<Rightarrow> 'r list \<Rightarrow> nat" where
  "sql_count P rows = length (filter P rows)"

definition sql_exists :: "('r \<Rightarrow> bool) \<Rightarrow> 'r list \<Rightarrow> bool" where
  "sql_exists P rows = list_ex P rows"

definition atomically :: "('db \<Rightarrow> error + 'a \<times> 'db) \<Rightarrow> 'db \<Rightarrow> (error + 'a) \<times> 'db" where
  "atomically body db = (case body db of Inl e \<Rightarrow> (Inl e, db) | Inr (x, db') \<Rightarrow> (Inr x, db'))"

definition to_i64 :: "u64 \<Rightarrow> int result" where
  "to_i64 v = (if uint v < 2 ^ 63 then Inr (uint v) else Inl ValueExceedsI64)"

definition from_sql_u64 :: "int \<Rightarrow> u64 result" where
  "from_sql_u64 v = (if 0 \<le> v then Inr (word_of_int v) else Inl (Anyhow ''conversion''))"

definition to_u32 :: "int \<Rightarrow> u32 option" where
  "to_u32 v = (if 0 \<le> v \<and> v < 2 ^ 32 then Some (word_of_int v) else None)"

definition usize_i64 :: "nat \<Rightarrow> nat result" where
  "usize_i64 n = (if n < 2 ^ 63 then Inr n else Inl ValueExceedsI64)"

datatype 'a payload = Json 'a | Unreadable

fun from_json :: "'a payload \<Rightarrow> 'a result" where
  "from_json (Json x) = Inr x"
| "from_json Unreadable = Inl PayloadUnreadable"

lemma sql_exists_iff [sql_simps]: "sql_exists P rows \<longleftrightarrow> (\<exists>r\<in>set rows. P r)"
  by (simp add: sql_exists_def list_ex_iff)

lemma sql_count_0_iff [sql_simps]: "sql_count P rows = 0 \<longleftrightarrow> (\<forall>r\<in>set rows. \<not> P r)"
  by (simp add: sql_count_def filter_empty_conv)

lemma set_sql_update [sql_simps]: "set (sql_update P f rows) = (\<lambda>r. if P r then f r else r) ` set rows"
  by (simp add: sql_update_def)

lemma length_sql_update [simp]: "length (sql_update P f rows) = length rows"
  by (simp add: sql_update_def)

lemma map_sql_update_key:
  "(\<And>r. P r \<Longrightarrow> k (f r) = k r) \<Longrightarrow> map k (sql_update P f rows) = map k rows"
  by (simp add: sql_update_def)

lemma sql_update_None [simp]: "(\<And>r. r \<in> set rows \<Longrightarrow> \<not> P r) \<Longrightarrow> sql_update P f rows = rows"
  by (simp add: sql_update_def map_idI)

lemma atomically_Inl: "fst (atomically body db) = Inl e \<Longrightarrow> snd (atomically body db) = db"
  by (auto simp: atomically_def split: sum.splits)

lemma atomically_Inr: "atomically body db = (Inr x, db') \<longleftrightarrow> body db = Inr (x, db')"
  by (auto simp: atomically_def split: sum.splits)

lemma find_SomeD: "find P xs = Some x \<Longrightarrow> x \<in> set xs \<and> P x"
  by (induction xs) (auto split: if_splits)

lemma sort_key_head: "sort_key k xs = y # ys \<Longrightarrow> x \<in> set xs \<Longrightarrow> k y \<le> k x"
  by (metis (no_types, lifting) set_ConsD set_sort sorted_sort_key sorted_simps(2) list.simps(9) order_refl image_eqI list.set_map)

lemma sql_count_le1:
  assumes "sql_count P rows \<le> 1" "x \<in> set rows" "y \<in> set rows" "P x" "P y"
  shows "x = y"
proof -
  have "x \<in> set (filter P rows)" "y \<in> set (filter P rows)" "length (filter P rows) \<le> 1"
    using assms by (auto simp: sql_count_def)
  then show ?thesis by (cases "filter P rows") auto
qed

lemma distinct_filter_le1: "distinct (map f xs) \<Longrightarrow> length (filter (\<lambda>x. f x = y) xs) \<le> Suc 0"
  by (induction xs) (auto simp: filter_empty_conv image_iff)

lemma to_u32_uint: "to_u32 v = Some w \<Longrightarrow> uint w = v"
  by (auto simp: to_u32_def unsigned_of_int take_bit_int_eq_self split: if_splits)

lemma sql_count_update_le:
  "(\<And>r. P r \<Longrightarrow> \<not> Q (f r)) \<Longrightarrow> sql_count Q (sql_update P f rows) \<le> sql_count Q rows"
  by (induction rows) (auto simp: sql_count_def sql_update_def)

lemma sql_exists_updateI: "x \<in> set rows \<Longrightarrow> P x \<Longrightarrow> Q (f x) \<Longrightarrow> sql_exists Q (sql_update P f rows)"
  by (induction rows) (auto simp: sql_exists_def sql_update_def)

lemma find_row:
  assumes "\<exists>r\<in>set rows. P r"
  shows "\<exists>r. find P rows = Some r \<and> r \<in> set rows \<and> P r"
proof -
  obtain r where "find P rows = Some r" using assms by (cases "find P rows") (auto simp: find_None_iff)
  then show ?thesis using find_SomeD by metis
qed

lemma find_skip: "(\<And>x. x \<in> set xs \<Longrightarrow> \<not> P x) \<Longrightarrow> find P (xs @ ys) = find P ys"
  by (induction xs) auto

lemma find_append: "find P (xs @ ys) = (case find P xs of None \<Rightarrow> find P ys | Some x \<Rightarrow> Some x)"
  by (induction xs) auto

lemma to_u32_of_uint [simp]: "to_u32 (uint (w :: u32)) = Some w"
  using uint_bounded [of w] by (simp add: to_u32_def)

lemma snd_atomically:
  "(\<And>x db'. body db = Inr (x, db') \<Longrightarrow> Q db') \<Longrightarrow> Q db \<Longrightarrow> Q (snd (atomically body db))"
  by (auto simp: atomically_def split: sum.splits)

section \<open>State machines\<close>

inductive reachable :: "('s \<Rightarrow> bool) \<Rightarrow> ('s \<Rightarrow> 's \<Rightarrow> bool) \<Rightarrow> 's \<Rightarrow> bool"
  for init step where
  start: "init s \<Longrightarrow> reachable init step s"
| next_state: "reachable init step s \<Longrightarrow> step s t \<Longrightarrow> reachable init step t"

locale state_machine =
  fixes init :: "'s \<Rightarrow> bool"
    and step :: "'s \<Rightarrow> 's \<Rightarrow> bool"
    and inv :: "'s \<Rightarrow> bool"
  assumes init_inv: "init s \<Longrightarrow> inv s"
    and step_inv: "step s t \<Longrightarrow> inv s \<Longrightarrow> inv t"
begin

lemma reachable_inv: "reachable init step s \<Longrightarrow> inv s"
  by (induction rule: reachable.induct) (auto intro: init_inv step_inv)

lemma steps_inv: "step\<^sup>*\<^sup>* s t \<Longrightarrow> inv s \<Longrightarrow> inv t"
  by (induction rule: rtranclp_induct) (auto intro: step_inv)

end

end
