(* ===== verification/Nonce_Window.thy ===== *)
theory Nonce_Window
  imports Prelude
begin

unbundle bit_operations_syntax

text \<open>
  The per-user 96-slot sliding nonce window (\<open>src/src/nonce_window.rs\<close>) and the client-order
  UUIDs that carry a nonce. The window is a base nonce and three 32-bit limbs; its meaning is
  the pair of that base and the set of nonces it records as consumed, and \<open>consume\<close> refines the
  corresponding operation on that pair. The interface of a replay guard, whose clients need
  only three laws, is interpreted on the window.
\<close>

section \<open>The window\<close>

definition NONCE_WINDOW_SIZE :: u32 where
  "NONCE_WINDOW_SIZE = 96"

record nonce_window =
  base_nonce :: u32
  bitmap0 :: u32
  bitmap1 :: u32
  bitmap2 :: u32

datatype nonce_window_error = Stale | AlreadyConsumed

definition default_window :: nonce_window where
  "default_window = \<lparr>base_nonce = 0, bitmap0 = 0, bitmap1 = 0, bitmap2 = 0\<rparr>"

definition is_empty_window :: "nonce_window \<Rightarrow> bool" where
  "is_empty_window w \<longleftrightarrow> w = default_window"

definition bit_set :: "nonce_window \<Rightarrow> u32 \<Rightarrow> bool" where
  "bit_set w offset =
     (let (limb, b) = (if offset \<le> 31 then (bitmap0 w, offset)
                       else if offset \<le> 63 then (bitmap1 w, offset - 32)
                       else (bitmap2 w, offset - 64))
      in limb AND push_bit (unat b) 1 \<noteq> 0)"

definition set_bit :: "nonce_window \<Rightarrow> u32 \<Rightarrow> nonce_window" where
  "set_bit w offset =
     (if offset \<le> 31 then w\<lparr>bitmap0 := bitmap0 w OR push_bit (unat offset) 1\<rparr>
      else if offset \<le> 63 then w\<lparr>bitmap1 := bitmap1 w OR push_bit (unat (offset - 32)) 1\<rparr>
      else w\<lparr>bitmap2 := bitmap2 w OR push_bit (unat (offset - 64)) 1\<rparr>)"

text \<open>\<open>checked_shl(n).unwrap_or(0)\<close>: a shift by the full width gives 0.\<close>

definition checked_shl_or_0 :: "u32 \<Rightarrow> u32 \<Rightarrow> u32" where
  "checked_shl_or_0 x s = (if unat s < 32 then push_bit (unat s) x else 0)"

definition shift_right :: "nonce_window \<Rightarrow> u32 \<Rightarrow> nonce_window" where
  "shift_right w shift =
     (if shift = 0 then w
      else if NONCE_WINDOW_SIZE \<le> shift then w\<lparr>bitmap0 := 0, bitmap1 := 0, bitmap2 := 0\<rparr>
      else
        let b0 = bitmap0 w; b1 = bitmap1 w; b2 = bitmap2 w;
            (n0, n1, n2) =
              (if 64 \<le> shift then
                 let s = shift - 64 in (drop_bit (unat s) b2, 0, 0)
               else if 32 \<le> shift then
                 let s = shift - 32 in
                   (drop_bit (unat s) b1 OR checked_shl_or_0 b2 (32 - s), drop_bit (unat s) b2, 0)
               else
                 let s = shift in
                   (drop_bit (unat s) b0 OR checked_shl_or_0 b1 (32 - s),
                    drop_bit (unat s) b1 OR checked_shl_or_0 b2 (32 - s),
                    drop_bit (unat s) b2))
        in w\<lparr>bitmap0 := n0, bitmap1 := n1, bitmap2 := n2\<rparr>)"

definition consume :: "nonce_window \<Rightarrow> u32 \<Rightarrow> nonce_window_error + nonce_window" where
  "consume w nonce =
     (if nonce < base_nonce w then Inl Stale
      else
        let offset = nonce - base_nonce w;
            (w', offset') =
              (if NONCE_WINDOW_SIZE \<le> offset then
                 let new_base = nonce - (NONCE_WINDOW_SIZE - 1);
                     shift = new_base - base_nonce w;
                     w1 = (shift_right w shift)\<lparr>base_nonce := new_base\<rparr>
                 in (w1, nonce - base_nonce w1)
               else (w, offset))
        in if bit_set w' offset' then Inl AlreadyConsumed else Inr (set_bit w' offset'))"

section \<open>Storage word\<close>

text \<open>A storage word holds four field elements, here by their canonical 64-bit values.\<close>

type_synonym storage_word = "u64 \<times> u64 \<times> u64 \<times> u64"

definition felt_u32 :: "u64 \<Rightarrow> u32 result" where
  "felt_u32 v = ok_or (try_into v) ValueExceedsU32"

definition window_from_word :: "storage_word \<Rightarrow> nonce_window result" where
  "window_from_word = (\<lambda>(e0, e1, e2, e3).
     and_then (felt_u32 e0) (\<lambda>b.
     and_then (felt_u32 e1) (\<lambda>m0.
     and_then (felt_u32 e2) (\<lambda>m1.
     and_then (felt_u32 e3) (\<lambda>m2.
       Inr \<lparr>base_nonce = b, bitmap0 = m0, bitmap1 = m1, bitmap2 = m2\<rparr>)))))"

definition window_to_word :: "nonce_window \<Rightarrow> storage_word" where
  "window_to_word w =
     (ucast (base_nonce w), ucast (bitmap0 w), ucast (bitmap1 w), ucast (bitmap2 w))"

section \<open>Client-order UUIDs\<close>

text \<open>A UUID is its sixteen bytes, here one 128-bit word in big-endian byte order.\<close>

type_synonym uuid = "128 word"

definition client_order_id_for_nonce :: "u32 \<Rightarrow> 96 word \<Rightarrow> uuid" where
  "client_order_id_for_nonce nonce random_96_bits =
     from_be_bytes (be_bytes nonce @ be_bytes random_96_bits)"

definition nonce_from_client_order_id :: "uuid \<Rightarrow> u32" where
  "nonce_from_client_order_id client_order_id = from_be_bytes (take 4 (be_bytes client_order_id))"

section \<open>Meaning of a window\<close>

text \<open>Slot \<open>i\<close> of the concatenated 96-bit bitmap.\<close>

definition win_bit :: "nonce_window \<Rightarrow> nat \<Rightarrow> bool" where
  "win_bit w i =
     (if i < 32 then bit (bitmap0 w) i
      else if i < 64 then bit (bitmap1 w) (i - 32)
      else if i < 96 then bit (bitmap2 w) (i - 64) else False)"

definition window_abs :: "nonce_window \<Rightarrow> nat \<times> nat set" where
  "window_abs w = (unat (base_nonce w), {n. unat (base_nonce w) \<le> n \<and> win_bit w (n - unat (base_nonce w))})"

text \<open>The specification: a base and the set of consumed nonces at or above it.\<close>

definition spec_consume :: "nat \<times> nat set \<Rightarrow> nat \<Rightarrow> nonce_window_error + (nat \<times> nat set)" where
  "spec_consume = (\<lambda>(b, S) n.
     if n < b then Inl Stale
     else let b' = max b (n - 95); S' = {m \<in> S. b' \<le> m}
          in if n \<in> S' then Inl AlreadyConsumed else Inr (b', insert n S'))"

text \<open>The window \<open>consume\<close> works on once it has moved its base far enough to hold the nonce.\<close>

definition slide :: "nonce_window \<Rightarrow> u32 \<Rightarrow> nonce_window" where
  "slide w nonce =
     (if NONCE_WINDOW_SIZE \<le> nonce - base_nonce w then
        (shift_right w (nonce - (NONCE_WINDOW_SIZE - 1) - base_nonce w))
          \<lparr>base_nonce := nonce - (NONCE_WINDOW_SIZE - 1)\<rparr>
      else w)"

text \<open>The nonces of a request sequence that a guard accepts, each request seeing the state the
  earlier ones left; a refused request leaves the state as it was.\<close>

fun accepted_by :: "('s \<Rightarrow> 'n \<Rightarrow> 'e + 's) \<Rightarrow> 's \<Rightarrow> 'n list \<Rightarrow> 'n list" where
  "accepted_by consume_op s [] = []"
| "accepted_by consume_op s (n # ns) =
     (case consume_op s n of
        Inl _ \<Rightarrow> accepted_by consume_op s ns
      | Inr s' \<Rightarrow> n # accepted_by consume_op s' ns)"

section \<open>Bits of the limbs\<close>

lemma and_exp_bit: "(x AND 2 ^ n = 0) \<longleftrightarrow> \<not> bit x n" for x :: "'a::len word"
  by (rule and_exp_eq_0_iff_not_bit)

lemma bit_set_win_bit: "offset < NONCE_WINDOW_SIZE \<Longrightarrow> bit_set w offset \<longleftrightarrow> win_bit w (unat offset)"
  by (simp add: bit_set_def win_bit_def NONCE_WINDOW_SIZE_def and_exp_bit word_le_nat_alt
      word_less_nat_alt unat_sub)

lemma bit_or_exp: "bit (x OR 2 ^ n) i \<longleftrightarrow> bit x i \<or> (i = n \<and> n < LENGTH('a))" for x :: "'a::len word"
  by (auto simp: bit_or_iff bit_exp_iff)

lemma win_bit_set_bit:
  "offset < NONCE_WINDOW_SIZE \<Longrightarrow> win_bit (set_bit w offset) i \<longleftrightarrow> win_bit w i \<or> i = unat offset"
  by (auto simp: set_bit_def win_bit_def NONCE_WINDOW_SIZE_def bit_or_exp
        word_le_nat_alt word_less_nat_alt unat_sub)

lemma base_set_bit [simp]: "base_nonce (set_bit w offset) = base_nonce w"
  by (simp add: set_bit_def)

lemma base_shift_right [simp]: "base_nonce (shift_right w s) = base_nonce w"
  by (simp add: shift_right_def Let_def split: prod.splits)

lemma bit_u32_le: "bit (x :: u32) i \<Longrightarrow> i < 32"
  using bit_imp_le_length [of x i] by simp

lemma bit_checked_shl:
  "bit (checked_shl_or_0 x s) i \<longleftrightarrow> unat s \<le> i \<and> i < 32 \<and> bit x (i - unat s)"
  by (auto simp: checked_shl_or_0_def bit_push_bit_iff dest: bit_u32_le)

lemmas shift_simps = shift_right_def NONCE_WINDOW_SIZE_def word_le_nat_alt win_bit_def Let_def
  bit_or_iff bit_drop_bit_eq bit_checked_shl

lemma win_bit_shift_right: "win_bit (shift_right w shift) i \<longleftrightarrow> win_bit w (i + unat shift)"
proof -
  consider "shift = 0" | "0 < unat shift" "unat shift < 32" | "32 \<le> unat shift" "unat shift < 64"
    | "64 \<le> unat shift" "unat shift < 96" | "96 \<le> unat shift"
    using unat_gt_0 by (metis leI)
  then show ?thesis
  proof cases
    case 1
    then show ?thesis by (simp add: shift_right_def)
  next
    case 2
    then have s: "unat (32 - shift) = 32 - unat shift" "shift \<noteq> 0"
      by (auto simp add: unat_sub word_le_nat_alt)
    from 2 show ?thesis
      apply (simp add: shift_simps s)
      apply (auto simp: add.commute dest: bit_u32_le)
      done
  next
    case 3
    then have s: "unat (shift - 32) = unat shift - 32" "unat (64 - shift) = 64 - unat shift" "shift \<noteq> 0"
      by (auto simp add: unat_sub word_le_nat_alt)
    from 3 show ?thesis
      apply (simp add: shift_simps s)
      apply (auto simp: add.commute dest: bit_u32_le)
      done
  next
    case 4
    then have s: "unat (shift - 64) = unat shift - 64" "shift \<noteq> 0"
      by (auto simp add: unat_sub word_le_nat_alt)
    from 4 show ?thesis 
      apply (simp add: shift_simps s)
      apply (auto simp: add.commute dest: bit_u32_le)
      done
  next
    case 5
    then have "shift \<noteq> 0" by auto
    with 5 show ?thesis  by (simp add: shift_simps)
  qed
qed


lemma consume_slide:
  "consume w nonce =
     (if nonce < base_nonce w then Inl Stale
      else if bit_set (slide w nonce) (nonce - base_nonce (slide w nonce)) then Inl AlreadyConsumed
      else Inr (set_bit (slide w nonce) (nonce - base_nonce (slide w nonce))))"
  by (simp add: consume_def slide_def Let_def)

lemma win_bit_base_update [simp]: "win_bit (w\<lparr>base_nonce := b\<rparr>) i = win_bit w i"
  by (simp add: win_bit_def)

lemma win_bit_bound: "win_bit w i \<Longrightarrow> i < 96"
  by (auto simp: win_bit_def split: if_splits)

lemma slide_facts:
  assumes "base_nonce w \<le> nonce"
  shows "unat (base_nonce (slide w nonce)) = max (unat (base_nonce w)) (unat nonce - 95)"
    and "win_bit (slide w nonce) i \<longleftrightarrow>
      win_bit w (i + (unat (base_nonce (slide w nonce)) - unat (base_nonce w)))"
proof -
  have off: "unat (nonce - base_nonce w) = unat nonce - unat (base_nonce w)"
    using assms by (simp add: unat_sub)
  have le: "unat (base_nonce w) \<le> unat nonce" using assms by (simp add: word_le_nat_alt)
  show b: "unat (base_nonce (slide w nonce)) = max (unat (base_nonce w)) (unat nonce - 95)"
    using off le by (auto simp: slide_def NONCE_WINDOW_SIZE_def word_le_nat_alt unat_sub)
  show "win_bit (slide w nonce) i \<longleftrightarrow>
      win_bit w (i + (unat (base_nonce (slide w nonce)) - unat (base_nonce w)))"
  proof (cases "96 \<le> unat nonce - unat (base_nonce w)")
    case True
    then have n: "unat (nonce - 95) = unat nonce - 95"
      by (subst unat_sub) (auto simp: word_le_nat_alt)
    have "unat (nonce - 95 - base_nonce w) = unat nonce - 95 - unat (base_nonce w)"
      using True n by (subst unat_sub) (auto simp: word_le_nat_alt)
    with True off n show ?thesis
      by (simp add: slide_def NONCE_WINDOW_SIZE_def word_le_nat_alt win_bit_shift_right)
  next
    case False
    with off show ?thesis by (simp add: slide_def NONCE_WINDOW_SIZE_def word_le_nat_alt)
  qed
qed

section \<open>Refinement\<close>

lemma consume_abs:
  "map_sum id window_abs (consume w nonce) = spec_consume (window_abs w) (unat nonce)"
proof (cases "nonce < base_nonce w")
  case True
  then show ?thesis by (simp add: consume_def spec_consume_def window_abs_def word_less_nat_alt)
next
  case False
  let ?s = "slide w nonce" and ?b = "unat (base_nonce w)" and ?n = "unat nonce"
  let ?c = "unat (base_nonce ?s)"
  have le': "base_nonce w \<le> nonce" using False by (simp add: not_less)
  then have le: "?b \<le> ?n" by (simp add: word_le_nat_alt)
  note S = slide_facts [OF le']
  have c: "?c = max ?b (?n - 95)" by (rule S)
  with le have "base_nonce ?s \<le> nonce" by (simp add: word_le_nat_alt)
  then have off: "unat (nonce - base_nonce ?s) = ?n - ?c" by (simp add: unat_sub)
  with c le have small: "nonce - base_nonce ?s < NONCE_WINDOW_SIZE"
    by (simp add: NONCE_WINDOW_SIZE_def word_less_nat_alt)
  have bits: "\<And>m. ?c \<le> m \<Longrightarrow> win_bit ?s (m - ?c) \<longleftrightarrow> win_bit w (m - ?b)"
    using S c by simp
  have cn: "?c \<le> ?n" using c le by simp
  have dup: "bit_set ?s (nonce - base_nonce ?s) \<longleftrightarrow> win_bit w (?n - ?b)"
    using bit_set_win_bit [OF small] bits cn by (simp add: off)
  have set: "{m. ?c \<le> m \<and> win_bit (set_bit ?s (nonce - base_nonce ?s)) (m - ?c)}
     = insert ?n {m. ?c \<le> m \<and> win_bit w (m - ?b)}"
    using bits cn by (auto simp: win_bit_set_bit [OF small] off)
  have "{m. ?b \<le> m \<and> win_bit w (m - ?b) \<and> ?c \<le> m} = {m. ?c \<le> m \<and> win_bit w (m - ?b)}"
    using c by auto
  with False le cn dup set c show ?thesis
    by (auto simp: consume_slide spec_consume_def window_abs_def Let_def max_def not_less split: if_splits)
qed

text \<open>
  C27: \<open>NonceWindow::consume\<close> refines the abstract guard. For every window and nonce, its verdict
  (stale, already consumed, accepted) and the window it leaves are those of the specification
  that keeps a base and a set of consumed nonces, moves the base to \<open>nonce - 95\<close> when the nonce
  lies beyond the window, and forgets only nonces below the new base.
\<close>

theorem consume_refines_spec:
  "map_sum id window_abs (consume w nonce) = spec_consume (window_abs w) (unat nonce)"
  by (rule consume_abs)

section \<open>Replay protection\<close>

locale replay_guard =
  fixes consume_op :: "'s \<Rightarrow> 'n \<Rightarrow> 'e + 's"
    and refused :: "'s \<Rightarrow> 'n \<Rightarrow> bool"
  assumes refused_error: "refused s n \<Longrightarrow> \<exists>e. consume_op s n = Inl e"
    and consume_marks: "consume_op s n = Inr s' \<Longrightarrow> refused s' n"
    and refused_mono: "consume_op s n = Inr s' \<Longrightarrow> refused s m \<Longrightarrow> refused s' m"
begin

lemma accepted_not_refused: "n \<in> set (accepted_by consume_op s ns) \<Longrightarrow> \<not> refused s n"
proof (induction ns arbitrary: s)
  case (Cons m ns)
  show ?case
  proof (cases "consume_op s m")
    case (Inl e)
    with Cons show ?thesis by simp
  next
    case (Inr s')
    with Cons.prems consider "n = m" | "n \<in> set (accepted_by consume_op s' ns)" by auto
    then show ?thesis
    proof cases
      case 1
      with Inr refused_error [of s m] show ?thesis by auto
    next
      case 2
      with Cons.IH refused_mono Inr show ?thesis by blast
    qed
  qed
qed simp

lemma accepted_distinct: "distinct (accepted_by consume_op s ns)"
proof (induction ns arbitrary: s)
  case (Cons m ns)
  show ?case
  proof (cases "consume_op s m")
    case (Inr s')
    then have "m \<notin> set (accepted_by consume_op s' ns)"
      using accepted_not_refused consume_marks by blast
    with Inr Cons.IH show ?thesis by simp
  qed (simp add: Cons.IH)
qed simp

end

text \<open>A nonce the window refuses for good: below its base, or recorded.\<close>

definition window_refuses :: "nonce_window \<Rightarrow> u32 \<Rightarrow> bool" where
  "window_refuses w n \<longleftrightarrow> n < base_nonce w \<or> win_bit w (unat n - unat (base_nonce w))"

lemma window_refuses_abs:
  "window_refuses w n \<longleftrightarrow> unat n < fst (window_abs w) \<or> unat n \<in> snd (window_abs w)"
  by (auto simp: window_refuses_def window_abs_def word_less_nat_alt not_less)

lemma consume_Inl_iff: "(\<exists>e. consume w n = Inl e) \<longleftrightarrow> window_refuses w n"
proof -
  have "(\<exists>e. consume w n = Inl e) \<longleftrightarrow> (\<exists>e. map_sum id window_abs (consume w n) = Inl e)"
    by (cases "consume w n") auto
  also have "\<dots> \<longleftrightarrow> (\<exists>e. spec_consume (window_abs w) (unat n) = Inl e)"
    by (simp add: consume_abs)
  also have "\<dots> \<longleftrightarrow> window_refuses w n"
    by (auto simp: window_refuses_abs spec_consume_def Let_def split: prod.splits)
  finally show ?thesis .
qed

lemma consume_Inr_abs: "consume w n = Inr w' \<Longrightarrow> spec_consume (window_abs w) (unat n) = Inr (window_abs w')"
  using consume_abs [of w n] by simp

interpretation window_guard: replay_guard consume window_refuses
proof
  fix w n w' m
  show "window_refuses w n \<Longrightarrow> \<exists>e. consume w n = Inl e" by (simp add: consume_Inl_iff)
  assume "consume w n = Inr w'"
  then have *: "spec_consume (window_abs w) (unat n) = Inr (window_abs w')" by (rule consume_Inr_abs)
  then show "window_refuses w' n"
    by (cases "window_abs w'") (auto simp: window_refuses_abs spec_consume_def Let_def split: prod.splits if_splits)
  show "window_refuses w m \<Longrightarrow> window_refuses w' m"
    using * by (cases "window_abs w'") (auto simp: window_refuses_abs spec_consume_def Let_def split: prod.splits if_splits)
qed

text \<open>
  C2: no nonce is accepted twice. In every sequence of \<open>consume\<close> calls on one window, whatever
  the nonces and their order, the accepted ones are pairwise distinct and none of them was below
  the base or recorded in the window at the start.
\<close>

theorem consume_never_replays:
  "distinct (accepted_by consume w ns)
   \<and> list_all (\<lambda>n. \<not> window_refuses w n) (accepted_by consume w ns)"
  by (simp add: window_guard.accepted_distinct window_guard.accepted_not_refused list_all_iff)

lemma felt_u32_Inr: "felt_u32 v = Inr x \<longleftrightarrow> v = ucast x"
proof
  assume "felt_u32 v = Inr x"
  then have "unat v < 2 ^ 32" "x = ucast v" by (auto simp: felt_u32_def try_into_def res_simps split: if_splits)
  then show "v = ucast x" by (simp add: word_unat_eq_iff unsigned_ucast_eq take_bit_nat_eq_self)
next
  assume v: "v = ucast x"
  have "unat (ucast x :: u64) = unat x"
    using unat_less_exp [of x] by (simp add: unsigned_ucast_eq take_bit_nat_eq_self)
  moreover have "ucast (ucast x :: u64) = x"
    by (rule bit_word_eqI) (simp add: bit_ucast_iff)
  ultimately show "felt_u32 v = Inr x"
    using v unat_less_exp [of x] by (simp add: felt_u32_def try_into_def)
qed

lemma be_bytes_client_order_id:
  "be_bytes (client_order_id_for_nonce nonce r) = be_bytes nonce @ be_bytes r"
  by (simp add: client_order_id_for_nonce_def be_bytes_from_be_bytes)

lemma nonce_of_client_order_id: "nonce_from_client_order_id (client_order_id_for_nonce nonce r) = nonce"
  by (simp add: nonce_from_client_order_id_def be_bytes_client_order_id from_be_bytes_be_bytes)

text \<open>
  A window is stored losslessly. Reading the storage word a window was written to gives the
  window back, and a storage word that is read at all is the one its window is written to.
\<close>

theorem window_word_roundtrip:
  "window_from_word (window_to_word w) = Inr w
   \<and> (window_from_word e = Inr w \<longleftrightarrow> e = window_to_word w)"
proof -
  have f: "felt_u32 v = Inr x \<longleftrightarrow> v = ucast x" for v x by (rule felt_u32_Inr)
  show ?thesis
    by (cases e; cases w) (auto simp: window_from_word_def window_to_word_def f res_simps)
qed

text \<open>
  A client-order UUID carries its nonce: the nonce read from the UUID built for \<open>nonce\<close> is
  \<open>nonce\<close>, and the remaining twelve bytes are the random bits.
\<close>

theorem client_order_id_roundtrip:
  "nonce_from_client_order_id (client_order_id_for_nonce nonce r) = nonce
   \<and> drop 4 (be_bytes (client_order_id_for_nonce nonce r)) = be_bytes r"
  by (simp add: nonce_of_client_order_id be_bytes_client_order_id)

end
