(* ===== verification/Intent.thy ===== *)
theory Intent
  imports Nonce_Window
begin

unbundle bit_operations_syntax

text \<open>
  The signed swap intent (\<open>src/src/intent.rs\<close>): its tags, its sixteen canonical field elements,
  the four 32-bit limbs that carry the client-order UUID, and its expiry. The Poseidon2 hash is
  an argument: it is not part of the repository.
\<close>

section \<open>Account identifiers\<close>

text \<open>An account identifier is its two field elements, by their canonical 64-bit values.\<close>

record account_id =
  prefix :: u64
  suffix :: u64

section \<open>Constants\<close>

definition ascii :: "string \<Rightarrow> bytes" where
  "ascii s = map (\<lambda>c. of_nat (of_char c)) s"

definition INTENT_VERSION :: u8 where
  "INTENT_VERSION = 3"

definition SWAP_PURPOSE_TAG :: u64 where
  "SWAP_PURPOSE_TAG = from_be_bytes (ascii ''ZKSWPV3'' @ [0])"

definition INTENT_DOMAIN_TAG :: u64 where
  "INTENT_DOMAIN_TAG = from_be_bytes (ascii ''minizeke'')"

definition TESTNET_NETWORK_TAG :: u64 where
  "TESTNET_NETWORK_TAG = from_be_bytes (ascii ''testnet'' @ [0])"

definition INTENT_FELT_COUNT :: nat where
  "INTENT_FELT_COUNT = 16"

definition is_expired_at :: "u64 \<Rightarrow> u64 \<Rightarrow> bool" where
  "is_expired_at expires_at unix_timestamp_seconds \<longleftrightarrow> expires_at \<le> unix_timestamp_seconds"

section \<open>UUID limbs\<close>

type_synonym limbs = "u64 \<times> u64 \<times> u64 \<times> u64"

definition u32_at :: "bytes \<Rightarrow> nat \<Rightarrow> u64" where
  "u32_at bs i = ucast (from_be_bytes (take 4 (drop i bs)) :: u32)"

definition uuid_felts :: "uuid \<Rightarrow> limbs" where
  "uuid_felts uid =
     (let bs = be_bytes uid in (u32_at bs 0, u32_at bs 4, u32_at bs 8, u32_at bs 12))"

definition limb_bytes :: "u64 \<Rightarrow> bytes result" where
  "limb_bytes limb = and_then (ok_or (try_into limb :: u32 option) (Panic UnwrapFailed)) (\<lambda>v. Inr (be_bytes v))"

definition uuid_from_felts :: "limbs \<Rightarrow> uuid result" where
  "uuid_from_felts = (\<lambda>(l0, l1, l2, l3).
     and_then (limb_bytes l0) (\<lambda>b0.
     and_then (limb_bytes l1) (\<lambda>b1.
     and_then (limb_bytes l2) (\<lambda>b2.
     and_then (limb_bytes l3) (\<lambda>b3.
       Inr (from_be_bytes (b0 @ b1 @ b2 @ b3)))))))"

section \<open>Intents\<close>

record intent =
  purpose :: u64
  domain :: u64
  network :: u64
  user_suffix :: u64
  user_prefix :: u64
  sell_asset_suffix :: u64
  sell_asset_prefix :: u64
  sell_amount :: u64
  buy_asset_suffix :: u64
  buy_asset_prefix :: u64
  buy_amount :: u64
  client_order_id :: limbs
  expires_at :: u64

definition new_swap :: "account_id \<Rightarrow> account_id \<Rightarrow> u64 \<Rightarrow> account_id \<Rightarrow> u64 \<Rightarrow> uuid \<Rightarrow> u64 \<Rightarrow> intent" where
  "new_swap user_id sell_asset sell_amt buy_asset buy_amt order_id expiry =
     \<lparr>purpose = SWAP_PURPOSE_TAG, domain = INTENT_DOMAIN_TAG, network = TESTNET_NETWORK_TAG,
      user_suffix = suffix user_id, user_prefix = prefix user_id,
      sell_asset_suffix = suffix sell_asset, sell_asset_prefix = prefix sell_asset,
      sell_amount = sell_amt,
      buy_asset_suffix = suffix buy_asset, buy_asset_prefix = prefix buy_asset,
      buy_amount = buy_amt,
      client_order_id = uuid_felts order_id, expires_at = expiry\<rparr>"

definition canonical_felts :: "intent \<Rightarrow> u64 list" where
  "canonical_felts i =
     (let (l0, l1, l2, l3) = client_order_id i
      in [purpose i, domain i, network i, user_suffix i, user_prefix i,
          sell_asset_suffix i, sell_asset_prefix i, sell_amount i,
          buy_asset_suffix i, buy_asset_prefix i, buy_amount i,
          l0, l1, l2, l3, expires_at i])"

text \<open>The field modulus: \<open>Felt::new\<close> refuses values at or above it.\<close>

definition FELT_MODULUS :: u64 where
  "FELT_MODULUS = 0xFFFFFFFF00000001"

definition felts_valid :: "u64 list \<Rightarrow> bool" where
  "felts_valid felts \<longleftrightarrow> list_all (\<lambda>v. v < FELT_MODULUS) felts"

text \<open>\<open>hash_elements\<close> is Poseidon2's hash of a list of field elements.\<close>

definition message_word :: "(u64 list \<Rightarrow> 'w) \<Rightarrow> u64 list \<Rightarrow> 'w result" where
  "message_word hash_elements felts =
     (if felts_valid felts then Inr (hash_elements felts) else Inl (Panic UnwrapFailed))"

definition intent_message_word :: "(u64 list \<Rightarrow> 'w) \<Rightarrow> intent \<Rightarrow> 'w result" where
  "intent_message_word hash_elements i = message_word hash_elements (canonical_felts i)"

definition client_order_uuid :: "intent \<Rightarrow> uuid result" where
  "client_order_uuid i = uuid_from_felts (client_order_id i)"

definition order_nonce :: "intent \<Rightarrow> u32 result" where
  "order_nonce i = and_then (client_order_uuid i) (\<lambda>u. Inr (nonce_from_client_order_id u))"

section \<open>Limb lemmas\<close>

lemma limb_bytes_u32 [simp]: "limb_bytes (ucast (v :: u32)) = Inr (be_bytes v)"
proof -
  have "felt_u32 (ucast v) = Inr v" by (simp add: felt_u32_Inr)
  then have "try_into (ucast v :: u64) = Some v" by (simp add: felt_u32_def res_simps)
  then show ?thesis by (simp add: limb_bytes_def)
qed

lemma limb_bytes_Inr: "limb_bytes l = Inr b \<longleftrightarrow> (\<exists>v :: u32. l = ucast v \<and> b = be_bytes v)"
proof
  assume "limb_bytes l = Inr b"
  then obtain v :: u32 where v: "try_into l = Some v" "b = be_bytes v"
    by (auto simp: limb_bytes_def res_simps)
  from v(1) have "felt_u32 l = Inr v" by (simp add: felt_u32_def)
  with v(2) show "\<exists>v :: u32. l = ucast v \<and> b = be_bytes v" by (auto simp: felt_u32_Inr)
qed auto

lemma be_bytes_limb: "length b = 4 \<Longrightarrow> be_bytes (from_be_bytes b :: u32) = b"
  by (simp add: be_bytes_from_be_bytes)

lemma split_16: "length xs = 16 \<Longrightarrow>
  take 4 xs @ take 4 (drop 4 xs) @ take 4 (drop 8 xs) @ take 4 (drop 12 xs) = xs"
  by (simp add: list_eq_iff_nth_eq nth_append less_Suc_eq numeral_eq_Suc)

lemma uuid_from_felts_uuid_felts: "uuid_from_felts (uuid_felts uid) = Inr uid"
proof -
  let ?bs = "be_bytes uid"
  have len: "length ?bs = 16" by simp
  have "uuid_from_felts (uuid_felts uid)
    = Inr (from_be_bytes (take 4 ?bs @ take 4 (drop 4 ?bs) @ take 4 (drop 8 ?bs) @ take 4 (drop 12 ?bs)))"
    by (simp add: uuid_from_felts_def uuid_felts_def Let_def u32_at_def be_bytes_limb)
  also have "\<dots> = Inr uid" unfolding split_16 [OF len] by (simp add: from_be_bytes_be_bytes)
  finally show ?thesis .
qed

lemma from_be_bytes_u32: "from_be_bytes (be_bytes (v :: u32)) = v"
  by (simp add: from_be_bytes_be_bytes)

lemma uuid_felts_from_felts: "uuid_from_felts ls = Inr uid \<Longrightarrow> uuid_felts uid = ls"
  by (cases ls) (auto simp: uuid_from_felts_def res_simps limb_bytes_Inr uuid_felts_def Let_def
      u32_at_def be_bytes_from_be_bytes from_be_bytes_u32)

text \<open>
  UUID limbs are lossless in both directions: the limbs of a UUID rebuild it without a
  panic, and limbs that rebuild a UUID are exactly the limbs of that UUID (the conversion panics
  on every other quadruple, those with a limb of more than 32 bits).
\<close>

theorem uuid_felts_roundtrip:
  "uuid_from_felts (uuid_felts uid) = Inr uid
   \<and> (uuid_from_felts ls = Inr uid' \<longleftrightarrow> ls = uuid_felts uid')"
  using uuid_from_felts_uuid_felts uuid_felts_from_felts by blast

section \<open>What the signature covers\<close>

lemma account_id_eqI: "prefix a = prefix b \<Longrightarrow> suffix a = suffix b \<Longrightarrow> a = (b :: account_id)"
  by simp

text \<open>
  C19: the signed felts determine the swap. Two swap intents with the same canonical felts have
  the same user, assets, amounts, client order id and expiry, so that one signature never
  authorises two different swaps unless the hash collides.
\<close>

theorem canonical_felts_injective:
  "canonical_felts (new_swap u s sa b ba c e) = canonical_felts (new_swap u' s' sa' b' ba' c' e')
   \<longleftrightarrow> (u, s, sa, b, ba, c, e) = (u', s', sa', b', ba', c', e')"
proof -
  have "uuid_felts c = uuid_felts c' \<longleftrightarrow> c = c'"
    by (metis uuid_from_felts_uuid_felts sum.inject(2))
  then show ?thesis
    by (cases "uuid_felts c"; cases "uuid_felts c'")
      (auto simp: canonical_felts_def new_swap_def intro: account_id_eqI)
qed

lemma order_nonce_new_swap:
  "order_nonce (new_swap u s sa b ba (client_order_id_for_nonce n r) e) = Inr n"
  by (simp add: order_nonce_def client_order_uuid_def new_swap_def uuid_from_felts_uuid_felts
      nonce_of_client_order_id)

text \<open>
  A swap intent carries the nonce of its client order: for a UUID built for a nonce, the
  intent's nonce is that nonce, its first UUID felt is the nonce, its tags are the version-3
  tags, and its felts number \<open>INTENT_FELT_COUNT\<close>.
\<close>

theorem new_swap_carries_nonce:
  "order_nonce (new_swap u s sa b ba (client_order_id_for_nonce n r) e) = Inr n
   \<and> canonical_felts (new_swap u s sa b ba (client_order_id_for_nonce n r) e) ! 11 = ucast n
   \<and> length (canonical_felts (new_swap u s sa b ba (client_order_id_for_nonce n r) e)) = INTENT_FELT_COUNT
   \<and> take 3 (canonical_felts (new_swap u s sa b ba (client_order_id_for_nonce n r) e))
     = [6506385721141900032, 7883954021992852325, 8387236824952960000]"
proof -
  have tags: "SWAP_PURPOSE_TAG = 6506385721141900032" "INTENT_DOMAIN_TAG = 7883954021992852325"
    "TESTNET_NETWORK_TAG = 8387236824952960000"
    by (simp_all add: SWAP_PURPOSE_TAG_def INTENT_DOMAIN_TAG_def TESTNET_NETWORK_TAG_def ascii_def
        from_be_bytes_def)
  have "be_bytes (client_order_id_for_nonce n r) = be_bytes n @ be_bytes r"
    by (rule be_bytes_client_order_id)
  then have limb: "fst (uuid_felts (client_order_id_for_nonce n r)) = ucast n"
    by (simp add: uuid_felts_def Let_def u32_at_def from_be_bytes_u32)
  show ?thesis
    using limb by (intro conjI order_nonce_new_swap; cases "uuid_felts (client_order_id_for_nonce n r)";
      simp add: canonical_felts_def new_swap_def tags INTENT_FELT_COUNT_def)
qed

end
