(* ===== verification/Curve.thy ===== *)
theory Curve
  imports Prelude Complex_Main "HOL-Library.Signed_Division"
begin

unbundle bit_operations_syntax

text \<open>
  The curve arithmetic of \<open>src/src/curve.rs\<close> (\<open>ZoroCurve\<close>) over 256-bit integers with 18 decimals:
  fixed-point products and quotients, decimal conversion, the binary logarithm, the Newton square
  root, the quadratic solver and the three curve functions. \<open>U256\<close> operators wrap and division by
  zero panics. An \<open>I256\<close> is its two's complement bit pattern, so that \<open>from_raw\<close> and
  \<open>into_raw\<close> are the identity, its \<open>+\<close>, \<open>-\<close> and \<open>*\<close> wrap, and \<open>sint\<close> reads it.
\<close>

section \<open>256-bit operations\<close>

type_synonym i256 = "256 word"

definition u_div :: "u256 \<Rightarrow> u256 \<Rightarrow> u256 result" where
  "u_div a b = (if b = 0 then Inl (Panic DivisionByZero) else Inr (a div b))"

definition u_pow10 :: "u256 \<Rightarrow> u256" where
  "u_pow10 e = 10 ^ unat e"

definition clamp_i256 :: "int \<Rightarrow> i256" where
  "clamp_i256 x = word_of_int (max (- (2 ^ 255)) (min x (2 ^ 255 - 1)))"

definition i_saturating_mul :: "i256 \<Rightarrow> i256 \<Rightarrow> i256" where
  "i_saturating_mul a b = clamp_i256 (sint a * sint b)"

definition i_saturating_div :: "i256 \<Rightarrow> i256 \<Rightarrow> i256 result" where
  "i_saturating_div a b =
     (if b = 0 then Inl (Panic DivisionByZero) else Inr (clamp_i256 (sint a sdiv sint b)))"

definition i_negative :: "i256 \<Rightarrow> bool" where
  "i_negative a \<longleftrightarrow> sint a < 0"

text \<open>Parsing the decimal print of an unsigned value as a signed one, and back: the only
  failures are a value above \<open>I256::MAX\<close> and a minus sign.\<close>

definition u256_to_i256 :: "u256 \<Rightarrow> i256 result" where
  "u256_to_i256 v = (if unat v < 2 ^ 255 then Inr v else Inl (Panic UnwrapFailed))"

lemmas u256_to_i256_code [code] = u256_to_i256_def [unfolded unat_bound_uint]

definition i256_to_u256 :: "i256 \<Rightarrow> u256 result" where
  "i256_to_u256 v = (if i_negative v then Inl (Panic UnwrapFailed) else Inr v)"

definition I256_MAX :: u256 where
  "I256_MAX = 2 ^ 255 - 1"

section \<open>Fixed-point arithmetic\<close>

definition DECIMALS :: u256 where
  "DECIMALS = 18"

definition MANTISSA :: u256 where
  "MANTISSA = 1000000000000000000"

definition mul_u :: "u256 \<Rightarrow> u256 \<Rightarrow> u256" where
  "mul_u a b = sat_mul a b div MANTISSA"

definition mul_i :: "i256 \<Rightarrow> i256 \<Rightarrow> i256 result" where
  "mul_i a b = i_saturating_div (i_saturating_mul a b) MANTISSA"

definition div_u :: "u256 \<Rightarrow> u256 \<Rightarrow> u256 result" where
  "div_u a b = u_div (sat_mul a MANTISSA) b"

definition div_i :: "i256 \<Rightarrow> i256 \<Rightarrow> i256 result" where
  "div_i a b = i_saturating_div (i_saturating_mul a MANTISSA) b"

section \<open>The curve\<close>

record zoro_curve =
  beta :: u256
  c :: u256

definition convert_to_external_decimals :: "u256 \<Rightarrow> u256 \<Rightarrow> u256 result" where
  "convert_to_external_decimals val decimals =
     (if DECIMALS < decimals then Inr (val * u_pow10 (decimals - DECIMALS))
      else u_div val (u_pow10 (DECIMALS - decimals)))"

definition convert_to_internal_decimals :: "u256 \<Rightarrow> u256 \<Rightarrow> u256 result" where
  "convert_to_internal_decimals val decimals =
     (if DECIMALS < decimals then u_div val (u_pow10 (decimals - DECIMALS))
      else Inr (val * u_pow10 (DECIMALS - decimals)))"

text \<open>One of the eight steps of the logarithm: halve the remaining bits when the upper part is
  occupied. The last one leaves the value alone in the source; nothing reads it afterwards.\<close>

definition log2_step :: "nat \<Rightarrow> u256 \<times> u256 \<Rightarrow> u256 \<times> u256" where
  "log2_step k = (\<lambda>(val, res).
     if 0 < drop_bit k val then (drop_bit k val, res + of_nat k) else (val, res))"

definition log2 :: "u256 \<Rightarrow> u256" where
  "log2 val =
     (let s = log2_step 128 (val, 0);
          s = log2_step 64 s;
          s = log2_step 32 s;
          s = log2_step 16 s;
          s = log2_step 8 s;
          s = log2_step 4 s;
          s = log2_step 2 s
      in if 0 < drop_bit 1 (fst s) then snd s + 1 else snd s)"

definition newton_step :: "u256 \<Rightarrow> u256 \<Rightarrow> u256 result" where
  "newton_step scaled_a res =
     and_then (u_div scaled_a res) (\<lambda>q. Inr (drop_bit 1 (res + q)))"

definition sqrt_u :: "u256 \<Rightarrow> u256 result" where
  "sqrt_u a =
     (let scaled_a = a * MANTISSA
      in if scaled_a = 0 then Inr 0
         else
           and_then (newton_step scaled_a (push_bit (unat (drop_bit 1 (log2 scaled_a))) 1)) (\<lambda>r.
           and_then (newton_step scaled_a r) (\<lambda>r.
           and_then (newton_step scaled_a r) (\<lambda>r.
           and_then (newton_step scaled_a r) (\<lambda>r.
           and_then (newton_step scaled_a r) (\<lambda>r.
           and_then (newton_step scaled_a r) (\<lambda>r.
           and_then (newton_step scaled_a r) (\<lambda>r.
           and_then (u_div scaled_a r) (\<lambda>q. Inr (min r q))))))))))"

definition solve_quadratic :: "i256 \<Rightarrow> i256 \<Rightarrow> i256 \<Rightarrow> u256 result" where
  "solve_quadratic qa qb qc =
     and_then (mul_i qb qb) (\<lambda>bb.
     and_then (mul_i (4 * qa) qc) (\<lambda>ac4.
       let signed_discriminant = bb - ac4;
           discriminant = (if i_negative signed_discriminant then 0 else signed_discriminant)
       in and_then (sqrt_u discriminant) (\<lambda>root.
          and_then (u256_to_i256 root) (\<lambda>sqrt_discriminant.
          and_then (div_i (sqrt_discriminant - qb) (2 * qa)) (\<lambda>almost_solution.
            Inr (if i_negative almost_solution then 0 else almost_solution))))))"

definition psi :: "zoro_curve \<Rightarrow> u256 \<Rightarrow> u256 \<Rightarrow> u256 \<Rightarrow> u256 result" where
  "psi cv b l decimals =
     and_then (convert_to_internal_decimals b decimals) (\<lambda>i_b.
     and_then (convert_to_internal_decimals l decimals) (\<lambda>i_l.
       if i_b = 0 \<and> i_l = 0 then Inr 0
       else
         let diff = (if i_l < i_b then i_b - i_l else i_l - i_b);
             diff_squared = mul_u diff diff
         in and_then (div_u (mul_u (beta cv) diff_squared) (i_b + mul_u (c cv) i_l)) (\<lambda>q.
              convert_to_external_decimals (q + i_b) decimals)))"

definition inverse_diagonal :: "zoro_curve \<Rightarrow> u256 \<Rightarrow> u256 \<Rightarrow> u256 \<Rightarrow> u256 \<Rightarrow> u256 result" where
  "inverse_diagonal cv b l capital_b decimals =
     and_then (convert_to_internal_decimals b decimals) (\<lambda>i_b.
     and_then (convert_to_internal_decimals l decimals) (\<lambda>i_l.
     and_then (convert_to_internal_decimals capital_b decimals) (\<lambda>i_capital_b.
       let quadratic_a = MANTISSA + c cv;
           quadratic_b = i_b + mul_u (c cv) i_l - mul_u (i_capital_b - i_b) quadratic_a;
           quadratic_b = (if I256_MAX < quadratic_b then I256_MAX else quadratic_b);
           factor = mul_u (i_b - i_l) (i_b - i_l)
       in and_then (u256_to_i256 (mul_u (beta cv) factor)) (\<lambda>c1.
          and_then (u256_to_i256 (mul_u (i_capital_b - i_b) (i_b + mul_u (c cv) i_l))) (\<lambda>c2.
          and_then (u256_to_i256 quadratic_a) (\<lambda>qa.
          and_then (u256_to_i256 quadratic_b) (\<lambda>qb.
          and_then (solve_quadratic qa qb (c1 - c2)) (\<lambda>t.
            convert_to_external_decimals t decimals))))))))"

text \<open>A signed argument of \<open>inverse_horizontal\<close>: printed, parsed as unsigned, scaled, printed and
  parsed as signed again.\<close>

definition internal_signed :: "i256 \<Rightarrow> u256 \<Rightarrow> i256 result" where
  "internal_signed v decimals =
     and_then (i256_to_u256 v) (\<lambda>u.
     and_then (convert_to_internal_decimals u decimals) u256_to_i256)"

definition inverse_horizontal :: "zoro_curve \<Rightarrow> i256 \<Rightarrow> i256 \<Rightarrow> i256 \<Rightarrow> u256 \<Rightarrow> u256 result" where
  "inverse_horizontal cv b l capital_b decimals =
     and_then (internal_signed b decimals) (\<lambda>i_b.
     and_then (internal_signed l decimals) (\<lambda>i_l.
     and_then (internal_signed capital_b decimals) (\<lambda>i_capital_b.
     let quadratic_a = MANTISSA + beta cv in
     and_then (u256_to_i256 (beta cv)) (\<lambda>i_beta.
     and_then (mul_i (2 * i_beta) (i_b - i_l)) (\<lambda>m1.
     and_then (u256_to_i256 (c cv)) (\<lambda>i_c.
     and_then (mul_i i_c i_l) (\<lambda>m2.
     let quadratic_b = m1 - i_capital_b + 2 * i_b + m2 in
     and_then (mul_i (i_b - i_l) (i_b - i_l)) (\<lambda>factor.
     and_then (mul_i i_beta factor) (\<lambda>c1.
     and_then (mul_i (i_capital_b - i_b) (i_b + m2)) (\<lambda>c2.
     let quadratic_c = c1 - c2 in
     and_then (u256_to_i256 quadratic_a) (\<lambda>qa.
     and_then (solve_quadratic qa quadratic_b quadratic_c) (\<lambda>t.
       convert_to_external_decimals t decimals))))))))))))"

lemmas curve_eval = inverse_diagonal_def inverse_horizontal_def internal_signed_def solve_quadratic_def
  convert_to_internal_decimals_def convert_to_external_decimals_def u_pow10_def DECIMALS_def u_div_def
  mul_u_def sat_mul_def MANTISSA_def mul_i_def i_saturating_mul_def i_saturating_div_def clamp_i256_def
  i_negative_def u256_to_i256_def i256_to_u256_def I256_MAX_def div_i_def sqrt_u_def newton_step_def
  log2_def log2_step_def psi_def div_u_def

section \<open>Binary logarithm\<close>

definition log2_inv :: "nat \<Rightarrow> u256 \<Rightarrow> u256 \<times> u256 \<Rightarrow> bool" where
  "log2_inv k v = (\<lambda>(x, r). unat x = unat v div 2 ^ unat r \<and> unat x < 2 ^ k \<and> unat r + k \<le> 256
     \<and> (v \<noteq> 0 \<longrightarrow> x \<noteq> 0))"

lemma log2_step_inv:
  assumes "log2_inv (2 * k) v s"
  shows "log2_inv k v (log2_step k s)"
proof -
  obtain x r where s: "s = (x, r)" by (cases s)
  from assms have x: "unat x = unat v div 2 ^ unat r" "unat x < 2 ^ (2 * k)" "unat r + 2 * k \<le> 256"
    "v \<noteq> 0 \<longrightarrow> x \<noteq> 0"
    by (auto simp: s log2_inv_def)
  show ?thesis
  proof (cases "0 < drop_bit k x")
    case True
    have "k < 2 ^ 256" using x(3) by simp
    then have k: "unat (of_nat k :: u256) = k"
      by (simp add: unat_of_nat take_bit_nat_eq_self)
    have "unat r + k < 2 ^ 256" using x(3) by simp
    then have r: "unat (r + of_nat k) = unat r + k"
      by (subst unat_add_no_overflow) (simp_all add: k)
    have b: "unat x div 2 ^ k < 2 ^ k"
      using x(2) by (intro less_mult_imp_div_less) (simp only: power_add [symmetric] mult_2)
    have d: "unat (drop_bit k x) = unat v div 2 ^ (unat r + k)"
      unfolding unat_drop_bit_div x(1) by (simp only: div_mult2_eq power_add)
    have "drop_bit k x \<noteq> 0" using True by auto
    then show ?thesis
      using True x(3) b d unfolding s log2_step_def log2_inv_def by (simp add: r unat_drop_bit_div)
  next
    case False
    then have "drop_bit k x = 0" by (simp add: word_gt_0)
    then have "unat x div 2 ^ k = 0" by (metis unat_drop_bit_div unat_0)
    then have "unat x < 2 ^ k" by (simp add: div_eq_0_iff)
    with False x show ?thesis by (simp add: s log2_step_def log2_inv_def)
  qed
qed

lemma log2_inv_start: "log2_inv (2 * 128) v (v, 0)"
  using unat_less_exp [of v] by (simp add: log2_inv_def)

lemma log2_steps: "log2_inv 1 v (log2_step 1 (log2_step 2 (log2_step 4 (log2_step 8 (log2_step 16
   (log2_step 32 (log2_step 64 (log2_step 128 (v, 0)))))))))"
  using log2_inv_start [of v]
    log2_step_inv [of 128] log2_step_inv [of 64] log2_step_inv [of 32] log2_step_inv [of 16]
    log2_step_inv [of 8] log2_step_inv [of 4] log2_step_inv [of 2] log2_step_inv [of 1]
  by simp

lemma log2_last: "(if 0 < drop_bit 1 (fst s) then snd s + 1 else snd s) = snd (log2_step 1 s)"
  by (cases s) (simp add: log2_step_def)

lemma log2_as_steps: "log2 v = snd (log2_step 1 (log2_step 2 (log2_step 4 (log2_step 8 (log2_step 16
   (log2_step 32 (log2_step 64 (log2_step 128 (v, 0)))))))))"
  unfolding log2_def Let_def log2_last ..

lemma log2_bounds:
  assumes "v \<noteq> 0"
  shows "2 ^ unat (log2 v) \<le> unat v" "unat v < 2 ^ Suc (unat (log2 v))" "unat (log2 v) < 256"
proof -
  obtain x r where s: "log2_step 1 (log2_step 2 (log2_step 4 (log2_step 8 (log2_step 16
   (log2_step 32 (log2_step 64 (log2_step 128 (v, 0)))))))) = (x, r)"
    by (rule prod.exhaust)
  have r: "log2 v = r" unfolding log2_as_steps s by simp
  have i: "unat x = unat v div 2 ^ unat r" "unat x < 2" "unat r + 1 \<le> 256" "x \<noteq> 0"
    using log2_steps [of v] assms unfolding s log2_inv_def by auto
  moreover have "unat x \<noteq> 0" using i(4) by (simp add: unat_0_iff)
  ultimately have "unat x = 1" by simp
  with i(1) have d: "unat v div 2 ^ unat r = 1" by simp
  then show "2 ^ unat (log2 v) \<le> unat v" by (metis r div_less not_less zero_neq_one)
  have "unat v = 2 ^ unat r * (unat v div 2 ^ unat r) + unat v mod 2 ^ unat r"
    by (rule mult_div_mod_eq [symmetric])
  also have "\<dots> < 2 ^ Suc (unat r)" by (simp add: d)
  finally show "unat v < 2 ^ Suc (unat (log2 v))" by (simp add: r)
  show "unat (log2 v) < 256" using i r by simp
qed


section \<open>Square root\<close>

definition newton :: "nat \<Rightarrow> nat \<Rightarrow> nat" where
  "newton n r = (r + n div r) div 2"

lemma newton_real:
  assumes "r > 0" shows "real (newton n r) \<le> (real r + real n / real r) / 2"
proof -
  have "real (n div r) * real r \<le> real n"
    by (metis div_times_less_eq_dividend of_nat_le_iff of_nat_mult)
  then have q: "real (n div r) \<le> real n / real r" using assms by (simp add: field_simps)
  have "2 * newton n r \<le> r + n div r" by (simp add: newton_def)
  then have "2 * real (newton n r) \<le> real r + real (n div r)"
    by (metis of_nat_add of_nat_le_iff of_nat_mult of_nat_numeral)
  with q show ?thesis by simp
qed

lemma amgm: "x > 0 \<Longrightarrow> (x + n / x) / 2 - sqrt n = (x - sqrt n)\<^sup>2 / (2 * x)" if "n \<ge> 0" for x n :: real
  using that by (simp add: field_simps power2_eq_square)

lemma newton_ge:
  assumes "r > 0" "S\<^sup>2 \<le> n"
  shows "S \<le> newton n r"
proof -
  have "2 * S \<le> r + n div r"
  proof (rule ccontr)
    assume "\<not> ?thesis"
    then have d: "n div r < 2 * S - r" and r: "r < 2 * S" by auto
    from d have "n < (2 * S - r) * r" using assms(1) by (simp only: div_less_iff_less_mult)
    then have "n < r * (2 * S - r)" by (simp only: mult.commute)
    moreover have "r * (2 * S - r) \<le> S\<^sup>2"
    proof -
      have "int (r * (2 * S - r)) = int r * (2 * int S - int r)" using r by (simp add: of_nat_diff)
      also have "\<dots> = (int S)\<^sup>2 - (int S - int r)\<^sup>2" by (simp add: power2_eq_square algebra_simps)
      also have "\<dots> \<le> (int S)\<^sup>2" by simp
      finally show ?thesis by (metis of_nat_le_iff of_nat_power)
    qed
    ultimately show False using assms(2) by simp
  qed
  then show ?thesis by (simp add: newton_def)
qed

text \<open>The square root bounds, in natural numbers.\<close>

definition isqrt_at :: "nat \<Rightarrow> nat \<Rightarrow> bool" where
  "isqrt_at n S \<longleftrightarrow> S\<^sup>2 \<le> n \<and> n < (Suc S)\<^sup>2"

lemma sqrt_less_Suc: "isqrt_at n S \<Longrightarrow> sqrt n < real (Suc S)"
proof -
  assume "isqrt_at n S"
  then have "real n < real ((Suc S)\<^sup>2)" unfolding isqrt_at_def of_nat_less_iff by simp
  then have "sqrt n < sqrt ((real (Suc S))\<^sup>2)" unfolding of_nat_power by (rule real_sqrt_less_mono)
  then show ?thesis by simp
qed

lemma newton_error:
  assumes "r > 0" shows "real (newton n r) - sqrt n \<le> (real r - sqrt n)\<^sup>2 / (2 * real r)"
proof -
  have "(real r + n / real r) / 2 - sqrt n = (real r - sqrt n)\<^sup>2 / (2 * real r)"
    by (rule amgm) (use assms in auto)
  with newton_real [OF assms, of n] show ?thesis by linarith
qed

text \<open>Where an iterate may be: at the root, one above it and near the next square, or above it
  with a relative error of at most e.\<close>

definition newton_near :: "nat \<Rightarrow> nat \<Rightarrow> real \<Rightarrow> nat \<Rightarrow> bool" where
  "newton_near n S e r \<longleftrightarrow> r = S \<or> (r = Suc S \<and> S * Suc S \<le> n)
     \<or> (S < r \<and> real r \<le> sqrt n * (1 + e))"

lemma newton_from_root:
  assumes "isqrt_at n S" "0 < S"
  shows "newton n S = S \<or> newton n S = Suc S \<and> S * Suc S \<le> n"
proof -
  have n: "S * S \<le> n" "n \<le> S * S + 2 * S" using assms by (auto simp: isqrt_at_def power2_eq_square)
  have lo: "S \<le> n div S" using n(1) assms(2) by (simp add: less_eq_div_iff_mult_less_eq)
  have "n div S \<le> (S * (S + 2)) div S" using n(2) by (intro div_le_mono) (simp add: algebra_simps)
  then have hi: "n div S \<le> S + 2" using assms(2) by simp
  consider "n div S \<le> S + 1" | "n div S = S + 2" using hi by linarith
  then show ?thesis
  proof cases
    case 1
    with lo show ?thesis by (auto simp: newton_def)
  next
    case 2
    then have "(S + 2) * S \<le> n" by (metis div_times_less_eq_dividend)
    then have "S * Suc S \<le> n" by (simp add: algebra_simps)
    moreover have "newton n S = Suc S" using 2 by (simp add: newton_def)
    ultimately show ?thesis by simp
  qed
qed

lemma newton_from_next:
  assumes "isqrt_at n S" "0 < S"
  shows "newton n (Suc S) = S"
proof -
  have n: "n < Suc S * Suc S" using assms by (simp add: isqrt_at_def power2_eq_square)
  then have "n div Suc S < Suc S" by (intro less_mult_imp_div_less)
  then have "newton n (Suc S) \<le> S" by (simp add: newton_def)
  moreover have "S \<le> newton n (Suc S)"
    using assms by (intro newton_ge) (auto simp: isqrt_at_def)
  ultimately show ?thesis by simp
qed

lemma newton_from_above:
  assumes "isqrt_at n S" "0 < S" "S < r" "real r \<le> sqrt n * (1 + e)" 
  shows "newton n r = S \<or> S < newton n r \<and> real (newton n r) \<le> sqrt n * (1 + e\<^sup>2 / 2)"
proof -
  have r: "r > 0" using assms by simp
  have s: "0 < sqrt n" using assms by (auto simp: isqrt_at_def intro!: Nat.gr0I)
  have sr: "sqrt n \<le> real r" using sqrt_less_Suc [OF assms(1)] assms(3) by simp
  have "real (newton n r) - sqrt n \<le> (real r - sqrt n)\<^sup>2 / (2 * real r)"
    by (rule newton_error [OF r])
  also have "\<dots> \<le> (sqrt n * e)\<^sup>2 / (2 * sqrt n)"
  proof (rule frac_le)
    show "(real r - sqrt n)\<^sup>2 \<le> (sqrt n * e)\<^sup>2"
      using sr assms(4) by (intro power_mono) (simp_all add: algebra_simps)
  qed (use s sr in auto)
  also have "\<dots> = sqrt n * (e\<^sup>2 / 2)" using s by (simp add: power2_eq_square)
  finally have "real (newton n r) \<le> sqrt n * (1 + e\<^sup>2 / 2)" by (simp add: algebra_simps)
  moreover have "S \<le> newton n r" using assms r by (intro newton_ge) (auto simp: isqrt_at_def)
  ultimately show ?thesis by auto
qed

lemma newton_near_step:
  assumes "isqrt_at n S" "0 < S" "newton_near n S e r"
  shows "newton_near n S (e\<^sup>2 / 2) (newton n r)"
  using assms(3) newton_from_root [OF assms(1,2)] newton_from_next [OF assms(1,2)]
    newton_from_above [OF assms(1,2), of r e]
  unfolding newton_near_def by metis

lemma newton_first:
  assumes "isqrt_at n S" "0 < S" "0 < r" "real r \<le> sqrt n" "sqrt n \<le> 2 * real r"
  shows "newton_near n S (1 / 4) (newton n r)"
proof -
  have s: "0 < sqrt n" using assms by (auto simp: isqrt_at_def intro!: Nat.gr0I)
  have "real (newton n r) - sqrt n \<le> (real r - sqrt n)\<^sup>2 / (2 * real r)"
    by (rule newton_error [OF assms(3)])
  also have "\<dots> \<le> (sqrt n / 2)\<^sup>2 / (2 * (sqrt n / 2))"
  proof (rule frac_le)
    have "(sqrt n - real r)\<^sup>2 \<le> (sqrt n / 2)\<^sup>2" using assms by (intro power_mono) auto
    then show "(real r - sqrt n)\<^sup>2 \<le> (sqrt n / 2)\<^sup>2" by (simp add: power2_commute)
  qed (use s assms in auto)
  also have "\<dots> = sqrt n / 4" using s by (simp add: power2_eq_square real_div_sqrt)
  finally have "real (newton n r) \<le> sqrt n * (1 + 1 / 4)" by simp
  moreover have "S \<le> newton n r" using assms by (intro newton_ge) (auto simp: isqrt_at_def)
  ultimately show ?thesis unfolding newton_near_def by (metis le_neq_implies_less)
qed

lemma newton_last:
  assumes n: "isqrt_at n S" "0 < S" "n < 2 ^ 256" and near: "newton_near n S (1 / 2 ^ 191) r"
  shows "min r (n div r) = S"
proof -
  have root: "S \<le> n div S" using n by (simp add: isqrt_at_def power2_eq_square less_eq_div_iff_mult_less_eq)
  have next_val: "S * Suc S \<le> n \<Longrightarrow> n div Suc S = S"
    using n(1) by (intro div_nat_eqI) (auto simp: isqrt_at_def power2_eq_square)
  from near consider "r = S" | "r = Suc S" "S * Suc S \<le> n" | "S < r" "real r \<le> sqrt n * (1 + 1 / 2 ^ 191)"
    unfolding newton_near_def by blast
  then show ?thesis
  proof cases
    case 3
    have "real n < 2 ^ 256" using n(3) by simp
    then have "sqrt n < sqrt (2 ^ 256)" by (rule real_sqrt_less_mono)
    also have "sqrt (2 ^ 256 :: real) = 2 ^ 128" by (rule real_sqrt_unique) simp_all
    finally have s: "sqrt n < 2 ^ 128" .
    have sS: "sqrt n < real (Suc S)" by (rule sqrt_less_Suc [OF n(1)])
    have "real r \<le> sqrt n + 1 / 2" using 3(2) s by (simp add: algebra_simps)
    then have r: "r = Suc S" and "real S + 1 / 2 \<le> sqrt n" using 3(1) sS by auto
    then have "(real S + 1 / 2)\<^sup>2 \<le> (sqrt n)\<^sup>2" by (intro power_mono) auto
    then have "real (S * Suc S) \<le> real n" by (simp add: power2_eq_square algebra_simps)
    then have "S * Suc S \<le> n" by (simp only: of_nat_le_iff)
    with r next_val show ?thesis by (simp add: min_def)
  qed (use root next_val in \<open>auto simp: min_def\<close>)
qed


lemma newton_step_unat:
  assumes "0 < r" "unat r + unat a div unat r < 2 ^ 256"
  shows "newton_step a r = Inr (drop_bit 1 (r + a div r))" 
    and "unat (drop_bit 1 (r + a div r)) = newton (unat a) (unat r)"
proof -
  show "newton_step a r = Inr (drop_bit 1 (r + a div r))"
    using assms(1) by (auto simp: newton_step_def u_div_def)
  have "unat (r + a div r) = unat r + unat a div unat r"
    using assms(2) by (subst unat_add_no_overflow) (simp_all add: unat_div)
  then show "unat (drop_bit 1 (r + a div r)) = newton (unat a) (unat r)"
    unfolding unat_drop_bit_div newton_def by simp
qed

lemma newton_near_bound: "newton_near n S e r \<Longrightarrow> isqrt_at n S \<Longrightarrow> 0 \<le> e \<Longrightarrow> e \<le> 1 \<Longrightarrow> r \<le> 2 * S + 2"
proof -
  assume a: "newton_near n S e r" "isqrt_at n S" "0 \<le> e" "e \<le> 1"
  have "sqrt n < real (Suc S)" using a(2) by (rule sqrt_less_Suc)
  moreover have "sqrt n * (1 + e) \<le> sqrt n * 2" using a by (intro mult_left_mono) auto
  ultimately have "sqrt n * (1 + e) < real (2 * S + 2)" by simp
  with a(1) show ?thesis unfolding newton_near_def by fastforce
qed

lemma isqrt_bounds:
  assumes "isqrt_at n S" "n < 2 ^ 256" "0 < n"
  shows "0 < S" "S < 2 ^ 128" "n div S \<le> S + 2"
proof -
  show S: "0 < S" using assms by (auto simp: isqrt_at_def intro!: Nat.gr0I)
  have "S\<^sup>2 < (2 ^ 128)\<^sup>2" using assms by (simp add: isqrt_at_def)
  then show "S < 2 ^ 128" by (rule power_less_imp_less_base) simp
  have "n \<le> S * (S + 2)" using assms by (simp add: isqrt_at_def power2_eq_square)
  then have "n div S \<le> (S * (S + 2)) div S" by (rule div_le_mono)
  then show "n div S \<le> S + 2" using S by simp
qed

lemma newton_word_step:
  assumes n: "isqrt_at (unat a) S" "0 < a" and e: "newton_near (unat a) S e (unat r)" "0 \<le> e" "e \<le> 1"
  shows "\<exists>r'. newton_step a r = Inr r' \<and> newton_near (unat a) S (e\<^sup>2 / 2) (unat r')"
proof -
  have lt: "unat a < 2 ^ 256" using unat_less_exp [of a] by simp
  have pos: "0 < unat a" using n(2) by (simp add: word_gt_0 unat_gt_0)
  note S = isqrt_bounds [OF n(1) lt pos]
  have le: "S \<le> unat r" using e(1) unfolding newton_near_def by auto
  then have r: "0 < r" using S(1) by (metis unat_gt_0 word_gt_0 less_le_trans)
  have "unat a div unat r \<le> unat a div S" using le S(1) by (intro div_le_mono2) auto
  with S newton_near_bound [OF e(1) n(1) e(2,3)] have "unat r + unat a div unat r < 2 ^ 256"
    by simp
  from newton_step_unat [OF r this] newton_near_step [OF n(1) S(1) e(1)] show ?thesis by metis
qed

lemma isqrt_exists: "\<exists>S. isqrt_at n S"
proof (induction n)
  case 0
  show ?case by (rule exI [of _ 0]) (simp add: isqrt_at_def)
next
  case (Suc n)
  then obtain S where S: "isqrt_at n S" by blast
  show ?case
  proof (cases "Suc n = (Suc S)\<^sup>2")
    case True
    then have "isqrt_at (Suc n) (Suc S)" by (simp add: isqrt_at_def power2_eq_square)
    then show ?thesis by blast
  next
    case False
    with S have "isqrt_at (Suc n) S" by (auto simp: isqrt_at_def)
    then show ?thesis by blast
  qed
qed

lemma newton_start:
  assumes "v \<noteq> 0"
  shows "unat (push_bit (unat (drop_bit 1 (log2 v))) (1 :: u256)) = 2 ^ (unat (log2 v) div 2)"
    and "real (2 ^ (unat (log2 v) div 2)) \<le> sqrt (unat v)"
    and "sqrt (unat v) \<le> 2 * real (2 ^ (unat (log2 v) div 2))"
    and "unat v div 2 ^ (unat (log2 v) div 2) \<le> 4 * 2 ^ (unat (log2 v) div 2)"
proof -
  let ?L = "unat (log2 v)"
  note L = log2_bounds [OF assms]
  have h: "?L div 2 < 256" using L(3) by simp
  then show "unat (push_bit (unat (drop_bit 1 (log2 v))) (1 :: u256)) = 2 ^ (?L div 2)"
    unfolding unat_drop_bit_div push_bit_eq_mult by (simp add: unat_exp)
  have "(2 :: nat) ^ (2 * (?L div 2)) \<le> 2 ^ ?L" by (rule power_increasing) simp_all
  with L(1) have "(2 :: nat) ^ (2 * (?L div 2)) \<le> unat v" by (rule le_trans [rotated])
  then have "(2 ^ (?L div 2))\<^sup>2 \<le> unat v" by (simp add: power_mult [symmetric] mult.commute)
  then have "real ((2 ^ (?L div 2))\<^sup>2) \<le> real (unat v)" by (simp only: of_nat_le_iff)
  then show "real (2 ^ (?L div 2)) \<le> sqrt (unat v)" by (intro real_le_rsqrt) simp
  have "(2 :: nat) ^ Suc ?L \<le> 2 ^ (2 * (?L div 2) + 2)" by (rule power_increasing) simp_all
  with L(2) have le: "unat v \<le> (2 * 2 ^ (?L div 2))\<^sup>2"
    by (simp add: power_mult [symmetric] power_mult_distrib mult.commute)
  then have "unat v div 2 ^ (?L div 2) \<le> (2 * 2 ^ (?L div 2))\<^sup>2 div 2 ^ (?L div 2)" by (rule div_le_mono)
  also have "\<dots> = 4 * 2 ^ (?L div 2)" by (simp add: power2_eq_square)
  finally show "unat v div 2 ^ (?L div 2) \<le> 4 * 2 ^ (?L div 2)" .
  from le have "real (unat v) \<le> real ((2 * 2 ^ (?L div 2))\<^sup>2)" by (simp only: of_nat_le_iff)
  then show "sqrt (unat v) \<le> 2 * real (2 ^ (?L div 2))" by (intro real_le_lsqrt) simp_all
qed

lemma newton_first_word:
  assumes S: "isqrt_at (unat v) S" and nz: "0 < v" and r0_def: "r0 = push_bit (unat (drop_bit 1 (log2 v))) 1"
  shows "\<exists>r1. newton_step v r0 = Inr r1 \<and> newton_near (unat v) S (1 / 4) (unat r1)"
proof -
  have lt: "unat v < 2 ^ 256" using unat_less_exp [of v] by simp
  have nz1: "v \<noteq> 0" using nz by auto
  then have pos: "0 < unat v" by (simp add: unat_gt_0)
  note B = isqrt_bounds [OF S lt pos]
  note R = newton_start [OF nz1]
  have r0: "unat r0 = 2 ^ (unat (log2 v) div 2)" unfolding r0_def by (rule R)
  have "0 < r0" using r0 by (metis unat_gt_0 word_gt_0 zero_less_numeral zero_less_power)
  have "unat r0 \<le> S"
  proof -
    have "real (unat r0) < real (Suc S)" using R(2) sqrt_less_Suc [OF S] r0 by simp
    then show ?thesis unfolding of_nat_less_iff by simp
  qed
  then have "unat r0 + unat v div unat r0 < 2 ^ 256" using R(4) B(2) unfolding r0 by simp
  note st = newton_step_unat [OF \<open>0 < r0\<close> this]
  have "newton_near (unat v) S (1 / 4) (newton (unat v) (unat r0))"
    using R(2,3) r0 by (intro newton_first [OF S B(1)]) simp_all
  with st show ?thesis by metis
qed

lemma sqrt_u_isqrt: "\<exists>r. sqrt_u a = Inr r \<and> isqrt_at (unat (a * MANTISSA)) (unat r)"
proof (cases "a * MANTISSA = 0")
  case True
  then show ?thesis by (simp add: sqrt_u_def isqrt_at_def)
next
  case False
  define v where "v = a * MANTISSA"
  have nz: "v \<noteq> 0" "0 < v" using False by (auto simp: v_def word_gt_0)
  obtain S where S: "isqrt_at (unat v) S" using isqrt_exists by blast
  have lt: "unat v < 2 ^ 256" using unat_less_exp [of v] by simp
  have pos: "0 < unat v" using nz by (simp add: unat_gt_0)
  note B = isqrt_bounds [OF S lt pos]
  define r0 :: u256 where "r0 = push_bit (unat (drop_bit 1 (log2 v))) 1"
  obtain r1 where s1: "newton_step v r0 = Inr r1" and n1: "newton_near (unat v) S (1 / 4) (unat r1)"
    using newton_first_word [OF S nz(2) r0_def] by blast
  obtain r2 where s2: "newton_step v r1 = Inr r2" "newton_near (unat v) S (1 / 2 ^ 5) (unat r2)"
    using newton_word_step [OF S nz(2) n1] by (auto simp: power2_eq_square)
  obtain r3 where s3: "newton_step v r2 = Inr r3" "newton_near (unat v) S (1 / 2 ^ 11) (unat r3)"
    using newton_word_step [OF S nz(2) s2(2)] by (auto simp: power2_eq_square)
  obtain r4 where s4: "newton_step v r3 = Inr r4" "newton_near (unat v) S (1 / 2 ^ 23) (unat r4)"
    using newton_word_step [OF S nz(2) s3(2)] by (auto simp: power2_eq_square)
  obtain r5 where s5: "newton_step v r4 = Inr r5" "newton_near (unat v) S (1 / 2 ^ 47) (unat r5)"
    using newton_word_step [OF S nz(2) s4(2)] by (auto simp: power2_eq_square)
  obtain r6 where s6: "newton_step v r5 = Inr r6" "newton_near (unat v) S (1 / 2 ^ 95) (unat r6)"
    using newton_word_step [OF S nz(2) s5(2)] by (auto simp: power2_eq_square)
  obtain r7 where s7: "newton_step v r6 = Inr r7" "newton_near (unat v) S (1 / 2 ^ 191) (unat r7)"
    using newton_word_step [OF S nz(2) s6(2)] by (auto simp: power2_eq_square)
  have "unat r7 \<noteq> 0" using s7(2) B(1) unfolding newton_near_def by auto
  then have "r7 \<noteq> 0" by auto
  then have "sqrt_u a = Inr (min r7 (v div r7))"
    unfolding sqrt_u_def Let_def v_def [symmetric] r0_def [symmetric] s1 and_then_simps s2 s3 s4 s5 s6 s7
    using nz(1) by (simp add: u_div_def)
  moreover have "unat (min r7 (v div r7)) = min (unat r7) (unat v div unat r7)"
    by (simp add: min_def word_le_nat_alt unat_div)
  ultimately show ?thesis
    using newton_last [OF S B(1) lt s7(2)] S by (auto simp: v_def)
qed

lemma unat_mul_MANTISSA: "unat a * 10 ^ 18 < 2 ^ 256 \<Longrightarrow> unat (a * MANTISSA) = unat a * 10 ^ 18"
  unfolding MANTISSA_def by (subst unat_mult_no_overflow) simp_all

text \<open>
  C32: the unrolled Newton iteration computes the integer square root. Started from half the
  binary logarithm, seven steps and the final minimum give exactly the floor of the square root
  of the scaled argument, for every argument whose scaling does not overflow, and no division in
  between is by zero.
\<close>

theorem sqrt_u_floor:
  assumes "unat a * 10 ^ 18 < 2 ^ 256"
  shows "\<exists>r. sqrt_u a = Inr r \<and> (unat r)\<^sup>2 \<le> unat a * 10 ^ 18 \<and> unat a * 10 ^ 18 < (unat r + 1)\<^sup>2"
  using sqrt_u_isqrt [of a] unat_mul_MANTISSA [OF assms] by (auto simp: isqrt_at_def)

theorem sqrt_u_floor_witness:
  "\<exists>r. sqrt_u 3 = Inr r \<and> (unat r)\<^sup>2 \<le> 3 * 10 ^ 18 \<and> 3 * 10 ^ 18 < (unat r + 1)\<^sup>2"
  using sqrt_u_floor [of 3] by simp

text \<open>
  The eight-step logarithm is the position of the highest set bit: for every non-zero
  value, two to the result is at most the value and twice that exceeds it.
\<close>

theorem log2_floor:
  assumes "v \<noteq> 0"
  shows "2 ^ unat (log2 v) \<le> unat v \<and> unat v < 2 ^ Suc (unat (log2 v))"
  using log2_bounds [OF assms] by blast

theorem log2_floor_witness:
  "2 ^ unat (log2 1000) \<le> unat (1000 :: u256) \<and> unat (1000 :: u256) < 2 ^ Suc (unat (log2 1000))"
  using log2_floor [of 1000] by simp

section \<open>The curve functions never fail in range\<close>

lemma unat_MANTISSA [unat_simps]: "unat MANTISSA = 10 ^ 18"
  by (simp add: MANTISSA_def)

lemma unat_mul_u: "unat (mul_u a b) = min (unat a * unat b) (2 ^ 256 - 1) div 10 ^ 18"
  unfolding mul_u_def unat_div unat_sat_mul unat_MANTISSA by simp

lemma mul_u_small: "unat (mul_u a b) < 2 ^ 197"
proof -
  have "unat (mul_u a b) \<le> (2 ^ 256 - 1) div 10 ^ 18"
    unfolding unat_mul_u by (intro div_le_mono) simp
  also have "((2 :: nat) ^ 256 - 1) div 10 ^ 18 < 2 ^ 197" by simp
  finally show ?thesis .
qed

lemma u256_to_i256_mul_u [simp]: "u256_to_i256 (mul_u a b) = Inr (mul_u a b)"
  using mul_u_small [of a b] by (simp add: u256_to_i256_def)

lemma u256_to_i256_clip [simp]:
  "u256_to_i256 (if I256_MAX < q then I256_MAX else q) = Inr (if I256_MAX < q then I256_MAX else q)"
  by (auto simp: u256_to_i256_def I256_MAX_def word_less_nat_alt)

lemma pow10_no_overflow: "e \<le> 18 \<Longrightarrow> unat (u_pow10 e) = 10 ^ unat e"
proof -
  have len: "LENGTH(256) = 256" by simp
  assume "e \<le> 18"
  then have e: "unat e \<le> 18" by (simp add: word_le_nat_alt)
  have "(10 :: nat) ^ unat e \<le> 10 ^ 18" using e by (intro power_increasing) simp_all
  then have "(10 :: nat) ^ unat e < 2 ^ 256" by simp
  then have "unat (of_nat (10 ^ unat e) :: u256) = 10 ^ unat e"
    by (simp only: unat_of_nat len mod_less)
  then show ?thesis unfolding u_pow10_def by (simp only: of_nat_power of_nat_numeral)
qed

lemma DECIMALS_sub: "decimals \<le> 18 \<Longrightarrow> DECIMALS - decimals \<le> 18 \<and> unat (DECIMALS - decimals) = 18 - unat decimals"
  by (simp add: DECIMALS_def unat_sub word_le_nat_alt)

lemma mul_i_eq: "mul_i a b = Inr (clamp_i256 (sint (i_saturating_mul a b) sdiv sint MANTISSA))"
  by (simp add: mul_i_def i_saturating_div_def MANTISSA_def)

lemma div_i_total: "b \<noteq> 0 \<Longrightarrow> \<exists>v. div_i a b = Inr v"
  by (simp add: div_i_def i_saturating_div_def)

lemma sqrt_u_total: "\<exists>r. sqrt_u a = Inr r \<and> unat r < 2 ^ 128"
proof -
  obtain r where r: "sqrt_u a = Inr r" "isqrt_at (unat (a * MANTISSA)) (unat r)" using sqrt_u_isqrt by blast
  have "(unat r)\<^sup>2 \<le> unat (a * MANTISSA)" using r(2) by (simp add: isqrt_at_def)
  also have "\<dots> < 2 ^ 256" using unat_less_exp [of "a * MANTISSA"] by simp
  finally have "(unat r)\<^sup>2 < (2 ^ 128)\<^sup>2" by simp
  then have "unat r < 2 ^ 128" by (rule power_less_imp_less_base) simp
  with r show ?thesis by blast
qed

lemma double_nonzero: "q \<noteq> 0 \<Longrightarrow> unat q < 2 ^ 255 \<Longrightarrow> 2 * q \<noteq> (0 :: u256)"
proof
  assume q: "q \<noteq> 0" "unat q < 2 ^ 255" "2 * q = 0"
  have "unat (2 * q) = 2 * unat q" using q(2) by (subst unat_mult_no_overflow) simp_all
  with q show False by (simp add: unat_0_iff)
qed

lemma solve_quadratic_total:
  assumes "qa \<noteq> 0" "unat qa < 2 ^ 255"
  shows "\<exists>t. solve_quadratic qa qb qc = Inr t"
proof -
  obtain bb where bb: "mul_i qb qb = Inr bb" using mul_i_eq by blast
  obtain ac where ac: "mul_i (4 * qa) qc = Inr ac" using mul_i_eq by blast
  obtain r where r: "sqrt_u (if i_negative (bb - ac) then 0 else bb - ac) = Inr r" "unat r < 2 ^ 128"
    using sqrt_u_total by blast
  obtain s where s: "div_i (r - qb) (2 * qa) = Inr s"
    using div_i_total double_nonzero [OF assms] by blast
  have "u256_to_i256 r = Inr r" using r(2) by (simp add: u256_to_i256_def)
  with bb ac r s show ?thesis by (simp add: solve_quadratic_def Let_def)
qed

lemma convert_external_total: "decimals \<le> 18 \<Longrightarrow> \<exists>x. convert_to_external_decimals v decimals = Inr x"
proof -
  assume d: "decimals \<le> 18"
  then have "unat (u_pow10 (DECIMALS - decimals)) \<noteq> 0" using DECIMALS_sub by (simp add: pow10_no_overflow)
  then have "u_pow10 (DECIMALS - decimals) \<noteq> 0" by auto
  with d show ?thesis by (simp add: convert_to_external_decimals_def u_div_def DECIMALS_def)
qed

lemma convert_internal_total: "decimals \<le> 18 \<Longrightarrow>
   convert_to_internal_decimals v decimals = Inr (v * u_pow10 (DECIMALS - decimals))"
  by (auto simp: convert_to_internal_decimals_def DECIMALS_def)

lemma quadratic_a_ok:
  assumes "unat p + 10 ^ 18 < 2 ^ 255"
  shows "u256_to_i256 (MANTISSA + p) = Inr (MANTISSA + p)" "MANTISSA + p \<noteq> 0" "unat (MANTISSA + p) < 2 ^ 255"
proof -
  have u: "unat (MANTISSA + p) = 10 ^ 18 + unat p"
    using assms by (subst unat_add_no_overflow) (simp_all add: unat_MANTISSA)
  then show "unat (MANTISSA + p) < 2 ^ 255" using assms by simp
  then show "u256_to_i256 (MANTISSA + p) = Inr (MANTISSA + p)" by (simp add: u256_to_i256_def)
  show "MANTISSA + p \<noteq> 0" using u by auto
qed

lemma inverse_diagonal_total:
  assumes "decimals \<le> 18" "unat (c cv) + 10 ^ 18 < 2 ^ 255"
  shows "\<exists>t. inverse_diagonal cv b l capital_b decimals = Inr t"
proof -
  note qa = quadratic_a_ok [OF assms(2)]
  show ?thesis
    using solve_quadratic_total [OF qa(2,3)] convert_external_total [OF assms(1)] qa(1)
    unfolding inverse_diagonal_def convert_internal_total [OF assms(1)] and_then_simps Let_def
      u256_to_i256_mul_u u256_to_i256_clip
    by (metis and_then_simps(2))
qed

definition internal_fits :: "u256 \<Rightarrow> u256 \<Rightarrow> bool" where
  "internal_fits v decimals \<longleftrightarrow> unat v * 10 ^ (18 - unat decimals) < 2 ^ 255"

lemma unat_internal:
  assumes "decimals \<le> 18" "internal_fits v decimals"
  shows "unat (v * u_pow10 (DECIMALS - decimals)) = unat v * 10 ^ (18 - unat decimals)"
  using assms by (subst unat_mult_no_overflow)
    (simp_all add: internal_fits_def pow10_no_overflow DECIMALS_sub)

lemma i_negative_small: "unat v < 2 ^ 255 \<Longrightarrow> \<not> i_negative v"
proof -
  assume "unat v < 2 ^ 255"
  then have "int (unat v) < int (2 ^ 255)" by (simp only: of_nat_less_iff)
  then have "uint v < 2 ^ 255" by simp
  then have "signed_take_bit 255 (uint v) = uint v" 
    using unsigned_greater_eq [of v, where 'a=int] by (intro signed_take_bit_int_eq_self) linarith+
  then show ?thesis by (simp add: i_negative_def sint_uint)
qed

lemma internal_signed_total:
  assumes "decimals \<le> 18" "internal_fits v decimals"
  shows "internal_signed v decimals = Inr (v * u_pow10 (DECIMALS - decimals))"
proof -
  have "unat v * 1 \<le> unat v * 10 ^ (18 - unat decimals)" by (intro mult_left_mono) simp_all
  also have "\<dots> < 2 ^ 255" using assms(2) by (simp only: internal_fits_def)
  finally have "unat v < 2 ^ 255" by simp
  then have "\<not> i_negative v" by (rule i_negative_small)
  moreover have "u256_to_i256 (v * u_pow10 (DECIMALS - decimals)) = Inr (v * u_pow10 (DECIMALS - decimals))"
    using unat_internal [OF assms] assms(2) by (simp add: u256_to_i256_def internal_fits_def)
  ultimately show ?thesis
    by (simp add: internal_signed_def i256_to_u256_def convert_internal_total [OF assms(1)])
qed

lemma inverse_horizontal_total:
  assumes "decimals \<le> 18" "unat (beta cv) + 10 ^ 18 < 2 ^ 255" "unat (c cv) < 2 ^ 255"
    and "internal_fits b decimals" "internal_fits l decimals" "internal_fits capital_b decimals"
  shows "\<exists>t. inverse_horizontal cv b l capital_b decimals = Inr t"
proof -
  note qa = quadratic_a_ok [OF assms(2)]
  have params: "u256_to_i256 (beta cv) = Inr (beta cv)" "u256_to_i256 (c cv) = Inr (c cv)"
    using assms(2,3) by (simp_all add: u256_to_i256_def)
  note ins = assms(4,5,6) [THEN internal_signed_total [OF assms(1)]]
  show ?thesis
    unfolding inverse_horizontal_def ins params mul_i_eq and_then_simps Let_def qa(1)
    using solve_quadratic_total [OF qa(2,3)] convert_external_total [OF assms(1)]
    by (metis and_then_simps(2))
qed

lemma psi_total_ge:
  assumes d: "decimals \<le> 18" and b: "internal_fits b decimals" "2 \<le> unat b * 10 ^ (18 - unat decimals)"
  shows "\<exists>p. psi cv b l decimals = Inr p \<and> b \<le> p \<and> (l = b \<longrightarrow> p = b)"
proof -
  let ?f = "10 ^ (18 - unat decimals) :: nat"
  define i_b where "i_b = b * u_pow10 (DECIMALS - decimals)"
  define i_l where "i_l = l * u_pow10 (DECIMALS - decimals)"
  have ib: "unat i_b = unat b * ?f" unfolding i_b_def by (rule unat_internal [OF d b(1)])
  then have ib2: "unat i_b < 2 ^ 255" "2 \<le> unat i_b" using b by (simp_all add: internal_fits_def)
  let ?y = "i_b + mul_u (c cv) i_l"
  have y: "unat ?y = unat i_b + unat (mul_u (c cv) i_l)"
    using ib2(1) mul_u_small [of "c cv" i_l] by (subst unat_add_no_overflow) simp_all
  then have y2: "2 \<le> unat ?y" using ib2 by simp
  then have ynz: "?y \<noteq> 0" by auto
  define x where "x = mul_u (beta cv) (mul_u (if i_l < i_b then i_b - i_l else i_l - i_b) (if i_l < i_b then i_b - i_l else i_l - i_b))"
  define q where "q = sat_mul x MANTISSA div ?y"
  have "unat q \<le> unat (sat_mul x MANTISSA) div 2" unfolding q_def unat_div by (intro div_le_mono2 y2) simp
  also have "\<dots> < 2 ^ 255" using unat_less_exp [of "sat_mul x MANTISSA"] by simp
  finally have sum: "unat (q + i_b) = unat q + unat i_b"
    using ib2(1) by (subst unat_add_no_overflow) simp_all
  have pw: "unat (u_pow10 (DECIMALS - decimals)) = ?f"
    using d by (simp add: pow10_no_overflow DECIMALS_sub)
  then have pnz: "u_pow10 (DECIMALS - decimals) \<noteq> 0" by auto
  have ib0: "i_b \<noteq> 0" using ib2(2) by auto
  have "\<not> DECIMALS < decimals" using d by (auto simp: DECIMALS_def)
  then have "psi cv b l decimals = Inr ((q + i_b) div u_pow10 (DECIMALS - decimals))"
    unfolding psi_def convert_internal_total [OF d] and_then_simps Let_def
      i_b_def [symmetric] i_l_def [symmetric] x_def [symmetric] div_u_def u_div_def q_def
    using ib0 ynz pnz by (simp add: convert_to_external_decimals_def u_div_def)
  moreover have "unat ((q + i_b) div u_pow10 (DECIMALS - decimals)) = unat q div ?f + unat b"
    unfolding unat_div pw sum ib by (simp add: div_mult_self1 add.commute)
  moreover have "l = b \<Longrightarrow> q = 0"
    by (simp add: q_def x_def i_b_def i_l_def mul_u_def sat_mul_def)
  ultimately show ?thesis
    by (intro exI [of _ "(q + i_b) div u_pow10 (DECIMALS - decimals)"])
      (simp add: word_le_nat_alt word_unat_eq_iff)
qed

text \<open>
  The curve value of a pool never falls below its reserve and equals it at balance. For at
  most 18 decimals, a reserve that fits internally and at least two internal units of it, \<open>psi\<close>
  returns (its divisor is not zero and its sum does not wrap, whatever \<open>beta\<close>, \<open>c\<close> and the
  liabilities), the value is at least the reserve, and it is the reserve when the liabilities
  equal it.
\<close>

theorem psi_dominates_reserve:
  assumes "decimals \<le> 18" "internal_fits b decimals" "2 \<le> unat b * 10 ^ (18 - unat decimals)"
  shows "\<exists>p. psi cv b l decimals = Inr p \<and> b \<le> p \<and> (l = b \<longrightarrow> p = b)"
  by (rule psi_total_ge [OF assms])

theorem psi_dominates_reserve_witness:
  "\<exists>p. psi \<lparr>beta = 10000000000000000, c = 16000000000000000000\<rparr> 500000000 700000000 8 = Inr p
     \<and> 500000000 \<le> p \<and> (700000000 = (500000000 :: u256) \<longrightarrow> p = 500000000)"
  by (rule psi_dominates_reserve) (simp_all add: internal_fits_def)

text \<open>
  C40: inverting the curve never panics. For at most 18 decimals and a \<open>c\<close> that leaves room for
  the mantissa, \<open>inverse_diagonal\<close> returns for every reserve, liabilities and target, even where
  its unsigned differences wrap: every parse succeeds, the square root is below \<open>2 ^ 128\<close> and the
  divisor is not zero. \<open>inverse_horizontal\<close> returns whenever its three arguments fit internally.
\<close>

theorem curve_inverses_return:
  assumes "decimals \<le> 18" "unat (beta cv) + 10 ^ 18 < 2 ^ 255" "unat (c cv) + 10 ^ 18 < 2 ^ 255"
    and "internal_fits b' decimals" "internal_fits l' decimals" "internal_fits capital_b' decimals"
  shows "(\<exists>t. inverse_diagonal cv b l capital_b decimals = Inr t)
    \<and> (\<exists>t. inverse_horizontal cv b' l' capital_b' decimals = Inr t)"
  using assms inverse_diagonal_total inverse_horizontal_total by simp

theorem curve_inverses_return_witness:
  "(\<exists>t. inverse_diagonal \<lparr>beta = 10000000000000000, c = 16000000000000000000\<rparr> 5 7 3 8 = Inr t)
    \<and> (\<exists>t. inverse_horizontal \<lparr>beta = 10000000000000000, c = 16000000000000000000\<rparr>
          500000000 700000000 900000000 8 = Inr t)"
  by (rule curve_inverses_return) (simp_all add: internal_fits_def)

end
