(* ===== verification/Pool.thy ===== *)
theory Pool
  imports Curve Intent
begin

unbundle bit_operations_syntax

text \<open>
  Pool accounting (\<open>src/src/pool.rs\<close>) and the parts of the vault view it reads
  (\<open>src/src/vault.rs\<close>): balances and settings, minting and redeeming LP shares against the curve,
  the per-depositor share ledger, and the derived user balances. On-chain storage is an argument,
  a lookup from slot names and keys to storage words.
\<close>

section \<open>Pool state\<close>

record pool_balances =
  reserve :: u256
  reserve_with_slippage :: u256
  total_liabilities :: u256

datatype fee_source = FeeNone | Automatic | Manual

record pool_settings =
  settings_beta :: i256
  settings_c :: i256
  swap_fee :: u256
  backstop_fee :: u256
  protocol_fee :: u256
  volatility_fee_in :: u256
  volatility_fee_out :: u256
  volatility_fee_valid_until :: u64
  volatility_fee_version :: u64
  volatility_fee_source :: fee_source

record pool_metadata =
  pool_name :: string
  asset_decimals :: u8

record pool_state =
  settings :: pool_settings
  balances :: pool_balances
  lp_total_supply :: u64
  metadata :: pool_metadata

definition POOL_ASSET_DECIMALS :: u8 where
  "POOL_ASSET_DECIMALS = 8"

definition default_balances :: pool_balances where
  "default_balances = \<lparr>reserve = 0, reserve_with_slippage = 0, total_liabilities = 0\<rparr>"

definition default_settings :: pool_settings where
  "default_settings =
     \<lparr>settings_beta = 10000000000000000, settings_c = 16000000000000000000,
      swap_fee = 200, backstop_fee = 300, protocol_fee = 0,
      volatility_fee_in = 0, volatility_fee_out = 0, volatility_fee_valid_until = 0,
      volatility_fee_version = 0, volatility_fee_source = FeeNone\<rparr>"

definition default_metadata :: pool_metadata where
  "default_metadata = \<lparr>pool_name = ''Default pool'', asset_decimals = POOL_ASSET_DECIMALS\<rparr>"

definition default_with_settings :: "pool_settings \<Rightarrow> pool_state" where
  "default_with_settings s =
     \<lparr>settings = s, balances = default_balances, lp_total_supply = 0, metadata = default_metadata\<rparr>"

definition new_pool_state :: "pool_settings \<Rightarrow> pool_balances \<Rightarrow> u64 \<Rightarrow> pool_metadata \<Rightarrow> pool_state" where
  "new_pool_state s b supply m =
     \<lparr>settings = s, balances = b, lp_total_supply = supply, metadata = m\<rparr>"

definition update_state :: "pool_state \<Rightarrow> pool_balances \<Rightarrow> u64 \<Rightarrow> pool_state" where
  "update_state p b supply = p\<lparr>balances := b, lp_total_supply := supply\<rparr>"

definition update_balances :: "pool_state \<Rightarrow> pool_balances \<Rightarrow> pool_state" where
  "update_balances p b = p\<lparr>balances := b\<rparr>"

definition update_settings :: "pool_state \<Rightarrow> pool_settings \<Rightarrow> pool_state" where
  "update_settings p s = p\<lparr>settings := s\<rparr>"

definition pool_curve :: "pool_state \<Rightarrow> zoro_curve" where
  "pool_curve p = \<lparr>beta = settings_beta (settings p), c = settings_c (settings p)\<rparr>"

section \<open>Liquidity\<close>

definition get_deposit_lp_amount_out :: "pool_state \<Rightarrow> u256 \<Rightarrow> (u256 \<times> u64 \<times> pool_balances) result" where
  "get_deposit_lp_amount_out p deposit_amount =
     (let supply = ucast (lp_total_supply p) :: u256;
          old_total_liabilities = total_liabilities (balances p);
          old_reserve = reserve (balances p);
          new_reserve_with_slippage = reserve_with_slippage (balances p) + deposit_amount
      in and_then (inverse_diagonal (pool_curve p) old_reserve old_total_liabilities
                     new_reserve_with_slippage (ucast (asset_decimals (metadata p)))) (\<lambda>inv.
         let reserve_increment = (if inv < deposit_amount then deposit_amount else inv)
         in and_then (if 0 < old_total_liabilities
                      then u_div (reserve_increment * supply) old_total_liabilities
                      else Inr reserve_increment) (\<lambda>new_lp_amount.
            Inr (new_lp_amount,
                 sat_to (sat_add supply new_lp_amount),
                 \<lparr>reserve = old_reserve + reserve_increment,
                  reserve_with_slippage = new_reserve_with_slippage,
                  total_liabilities = old_total_liabilities + reserve_increment\<rparr>))))"

definition get_withdraw_asset_amount_out :: "pool_state \<Rightarrow> u256 \<Rightarrow> (u256 \<times> u64 \<times> pool_balances) result" where
  "get_withdraw_asset_amount_out p withdraw_amount =
     (let supply = ucast (lp_total_supply p) :: u256;
          old_total_liabilities = total_liabilities (balances p);
          old_reserve = reserve (balances p);
          old_rws = reserve_with_slippage (balances p)
      in and_then (if supply = 0 then Inr 0
                   else u_div (withdraw_amount * old_total_liabilities) supply) (\<lambda>reserve_decrement.
         and_then (psi (pool_curve p) (old_reserve - reserve_decrement)
                     (old_total_liabilities - reserve_decrement)
                     (ucast (asset_decimals (metadata p)))) (\<lambda>value.
         let new_rws = (if old_rws < value then old_rws else value);
             payout = old_rws - new_rws;
             payout = (if reserve_decrement < payout then reserve_decrement else payout)
         in Inr (payout,
                 sat_to (sat_sub supply withdraw_amount),
                 \<lparr>reserve = old_reserve - reserve_decrement,
                  reserve_with_slippage = old_rws - payout,
                  total_liabilities = old_total_liabilities - reserve_decrement\<rparr>))))"

section \<open>Share ledger\<close>

text \<open>The nested hash maps: pool faucet, then depositor.\<close>

record lp_ledger =
  shares :: "account_id \<rightharpoonup> (account_id \<rightharpoonup> u64)"

definition default_ledger :: lp_ledger where
  "default_ledger = \<lparr>shares = Map.empty\<rparr>"

definition or_default :: "'a option \<Rightarrow> 'a \<Rightarrow> 'a" where
  "or_default x d = (case x of None \<Rightarrow> d | Some v \<Rightarrow> v)"

definition mint :: "lp_ledger \<Rightarrow> account_id \<Rightarrow> account_id \<Rightarrow> u64 \<Rightarrow> lp_ledger" where
  "mint l faucet_id depositor lp_amount =
     (let m = or_default (shares l faucet_id) Map.empty;
          entry = or_default (m depositor) 0
      in l\<lparr>shares := (shares l)(faucet_id \<mapsto> m(depositor \<mapsto> sat_add entry lp_amount))\<rparr>)"

definition burn :: "lp_ledger \<Rightarrow> account_id \<Rightarrow> account_id \<Rightarrow> u64 \<Rightarrow> lp_ledger result" where
  "burn l faucet_id depositor lp_amount =
     (case shares l faucet_id of
        None \<Rightarrow> Inl NoLpPosition
      | Some m \<Rightarrow>
          (case m depositor of
             None \<Rightarrow> Inl NoLpPosition
           | Some entry \<Rightarrow>
               if entry < lp_amount then Inl InsufficientLpShares
               else Inr (l\<lparr>shares := (shares l)(faucet_id \<mapsto> m(depositor \<mapsto> entry - lp_amount))\<rparr>)))"

definition shares_of :: "lp_ledger \<Rightarrow> account_id \<Rightarrow> account_id \<Rightarrow> u64" where
  "shares_of l faucet_id depositor =
     (case shares l faucet_id of
        None \<Rightarrow> 0
      | Some m \<Rightarrow> (case m depositor of None \<Rightarrow> 0 | Some v \<Rightarrow> v))"

section \<open>Vault view and user cells\<close>

record vault_user_asset_info =
  total_funding :: u64
  total_initiated_redeems :: u64
  total_redeems :: u64

definition pending_redeem :: "vault_user_asset_info \<Rightarrow> u64" where
  "pending_redeem v = sat_sub (total_initiated_redeems v) (total_redeems v)"

record vault_lp_info =
  entitlement :: u64
  withdrawn :: u64

definition withdrawable :: "vault_lp_info \<Rightarrow> u64" where
  "withdrawable v = sat_sub (entitlement v) (withdrawn v)"

record pool_cell =
  bought :: u64
  sold :: u64

definition cell_from_word :: "storage_word \<Rightarrow> pool_cell" where
  "cell_from_word = (\<lambda>(e0, e1, _, _). \<lparr>bought = e0, sold = e1\<rparr>)"

definition derive_balance_details :: "vault_user_asset_info \<Rightarrow> u64 \<Rightarrow> u64 \<Rightarrow> u64 \<times> u64" where
  "derive_balance_details v b s =
     (let balance = total_funding v + b - total_redeems v - s;
          available = sat_sub balance (pending_redeem v)
      in (balance, available))"

definition asset_user_key :: "account_id \<Rightarrow> account_id \<Rightarrow> storage_word" where
  "asset_user_key asset user = (suffix asset, prefix asset, suffix user, prefix user)"

definition vault_user_key :: "account_id \<Rightarrow> storage_word" where
  "vault_user_key user = (suffix user, prefix user, 0, 0)"

text \<open>
  A fetched account storage: a map slot read by name and key (an absent key reads as the zero
  word, an absent slot is an error), and its value slots with the two felts of their slot id.
\<close>

record account_storage =
  get_map_item :: "string \<Rightarrow> storage_word \<Rightarrow> storage_word result"
  slots :: "((u64 \<times> u64) \<times> storage_word) list"

abbreviation zero_word :: storage_word where
  "zero_word \<equiv> (0, 0, 0, 0)"

definition pool_cell_from_storage :: "account_storage \<Rightarrow> account_id \<Rightarrow> account_id \<Rightarrow> pool_cell result" where
  "pool_cell_from_storage st asset user =
     and_then (get_map_item st ''zoropool::cell_index'' (asset_user_key asset user)) (\<lambda>w.
       if w = zero_word then Inr \<lparr>bought = 0, sold = 0\<rparr>
       else case find (\<lambda>(sid, _). sid = (fst w, fst (snd w))) (slots st) of
              None \<Rightarrow> Inl (Anyhow ''pool cell index references an unknown slot'')
            | Some (_, value) \<Rightarrow> Inr (cell_from_word value))"

definition word_first :: "storage_word \<Rightarrow> u64" where
  "word_first = fst"

definition vault_user_asset_info_from_storage ::
  "account_storage \<Rightarrow> account_id \<Rightarrow> account_id \<Rightarrow> vault_user_asset_info result" where
  "vault_user_asset_info_from_storage st asset user =
     (let key = asset_user_key asset user;
          read = (\<lambda>slot. and_then (get_map_item st slot key) (\<lambda>w. Inr (word_first w)))
      in and_then (read ''zorovault::user_asset_total_funding'') (\<lambda>f.
         and_then (read ''zorovault::user_asset_total_initiated_redeems'') (\<lambda>i.
         and_then (read ''zorovault::user_asset_total_redeems'') (\<lambda>r.
           Inr \<lparr>total_funding = f, total_initiated_redeems = i, total_redeems = r\<rparr>))))"

definition vault_lp_info_from_storage ::
  "account_storage \<Rightarrow> account_id \<Rightarrow> account_id \<Rightarrow> vault_lp_info result" where
  "vault_lp_info_from_storage st asset lp =
     (let key = asset_user_key asset lp;
          read = (\<lambda>slot. and_then (get_map_item st slot key) (\<lambda>w. Inr (word_first w)))
      in and_then (read ''zorovault::lp_entitlements'') (\<lambda>e.
         and_then (read ''zorovault::lp_withdrawn'') (\<lambda>w.
           Inr \<lparr>entitlement = e, withdrawn = w\<rparr>)))"

definition vault_user_registration :: "account_storage \<Rightarrow> account_id \<Rightarrow> storage_word option result" where
  "vault_user_registration st user =
     and_then (get_map_item st ''zorovault::user_pubkeys'' (vault_user_key user)) (\<lambda>pubkey.
       Inr (if pubkey = zero_word then None else Some pubkey))"

text \<open>\<open>try_from_elements\<close> validates two felts as an account identifier.\<close>

definition user_pool_from_storage ::
  "(u64 \<Rightarrow> u64 \<Rightarrow> account_id result) \<Rightarrow> account_storage \<Rightarrow> account_id \<Rightarrow> account_id option result" where
  "user_pool_from_storage try_from_elements st user =
     and_then (get_map_item st ''zorovault::user_pool'' (vault_user_key user)) (\<lambda>pool.
       if pool = zero_word then Inr None
       else and_then (get_map_item st ''zorovault::authorized_pools'' pool) (\<lambda>authorized.
            if word_first authorized \<noteq> 1 then Inl (Anyhow ''user is bound to unauthorized pool'')
            else and_then (try_from_elements (fst pool) (fst (snd pool))) (\<lambda>p. Inr (Some p))))"

definition user_placement_from_storage ::
  "(u64 \<Rightarrow> u64 \<Rightarrow> account_id result) \<Rightarrow> account_storage \<Rightarrow> account_id \<Rightarrow> account_id option result" where
  "user_placement_from_storage try_from_elements st user =
     and_then (vault_user_registration st user) (\<lambda>reg.
       case reg of
         None \<Rightarrow> Inr None
       | Some _ \<Rightarrow>
           and_then (user_pool_from_storage try_from_elements st user) (\<lambda>pool.
             case pool of
               None \<Rightarrow> Inl (Anyhow ''registered user has no assigned pool shard'')
             | Some p \<Rightarrow> Inr (Some p)))"

text \<open>\<open>get_user_balance_details_from_pool\<close>, on the two storages it fetches.\<close>

definition user_balance_details ::
  "account_storage \<Rightarrow> account_storage \<Rightarrow> account_id \<Rightarrow> account_id \<Rightarrow> (u64 \<times> u64) result" where
  "user_balance_details vault_storage pool_storage asset user =
     and_then (vault_user_asset_info_from_storage vault_storage asset user) (\<lambda>v.
     and_then (pool_cell_from_storage pool_storage asset user) (\<lambda>cell.
       Inr (derive_balance_details v (bought cell) (sold cell))))"

section \<open>Deposits and withdrawals\<close>

lemma decimals_u256: "d \<le> 18 \<Longrightarrow> (ucast (d :: u8) :: u256) \<le> 18"
  by (simp add: word_le_nat_alt unat_ucast_up)

lemma deposit_cases:
  assumes "asset_decimals (metadata p) \<le> 18" "unat (settings_c (settings p)) + 10 ^ 18 < 2 ^ 255"
  shows "\<exists>inc lp. d \<le> inc
     \<and> lp = (if total_liabilities (balances p) = 0 then inc
            else inc * ucast (lp_total_supply p) div total_liabilities (balances p))
     \<and> get_deposit_lp_amount_out p d =
        Inr (lp, sat_to (sat_add (ucast (lp_total_supply p)) lp),
          \<lparr>reserve = reserve (balances p) + inc,
           reserve_with_slippage = reserve_with_slippage (balances p) + d,
           total_liabilities = total_liabilities (balances p) + inc\<rparr>)"
proof -
  have "unat (c (pool_curve p)) + 10 ^ 18 < 2 ^ 255" using assms(2) by (simp add: pool_curve_def)
  from inverse_diagonal_total [OF decimals_u256 [OF assms(1)] this]
  obtain inv where inv: "inverse_diagonal (pool_curve p) (reserve (balances p))
      (total_liabilities (balances p)) (reserve_with_slippage (balances p) + d)
      (ucast (asset_decimals (metadata p))) = Inr inv" by blast
  define inc where "inc = (if inv < d then d else inv)"
  define lp where "lp = (if total_liabilities (balances p) = 0 then inc
      else inc * ucast (lp_total_supply p) div total_liabilities (balances p))"
  have "d \<le> inc" by (auto simp: inc_def not_less)
  moreover have "(if 0 < total_liabilities (balances p)
      then u_div (inc * ucast (lp_total_supply p)) (total_liabilities (balances p))
      else Inr inc) = Inr lp"
    by (simp add: lp_def u_div_def word_gt_0)
  ultimately show ?thesis
    unfolding get_deposit_lp_amount_out_def Let_def inv and_then_simps inc_def [symmetric]
    using lp_def by auto
qed

lemma unat_sat_supply:
  "unat (sat_to (sat_add (ucast (s :: u64) :: u256) lp) :: u64) = min (unat s + unat lp) (2 ^ 64 - 1)"
  unfolding unat_sat_to unat_sat_add by (simp add: unat_ucast_up)

text \<open>
  A deposit is credited in full. For at most 18 decimals and a \<open>c\<close> that leaves room for the
  mantissa, the deposit quote never fails; reserve and liabilities grow by one and the same
  increment, which is at least the deposit; the slippage reserve grows by exactly the deposit;
  the shares are the increment scaled by supply over liabilities (the increment itself in an
  empty pool); the supply grows by the shares, saturating at the 64-bit bound.
\<close>

theorem deposit_credits_in_full:
  assumes "asset_decimals (metadata p) \<le> 18" "unat (settings_c (settings p)) + 10 ^ 18 < 2 ^ 255"
  shows "\<exists>lp s' b' inc. get_deposit_lp_amount_out p d = Inr (lp, s', b')
     \<and> d \<le> inc
     \<and> reserve b' = reserve (balances p) + inc
     \<and> total_liabilities b' = total_liabilities (balances p) + inc
     \<and> reserve_with_slippage b' = reserve_with_slippage (balances p) + d
     \<and> lp = (if total_liabilities (balances p) = 0 then inc
            else inc * ucast (lp_total_supply p) div total_liabilities (balances p))
     \<and> unat s' = min (unat (lp_total_supply p) + unat lp) (2 ^ 64 - 1)"
proof -
  obtain inc lp where *: "d \<le> inc" "lp = (if total_liabilities (balances p) = 0 then inc
            else inc * ucast (lp_total_supply p) div total_liabilities (balances p))"
    "get_deposit_lp_amount_out p d =
        Inr (lp, sat_to (sat_add (ucast (lp_total_supply p)) lp),
          \<lparr>reserve = reserve (balances p) + inc,
           reserve_with_slippage = reserve_with_slippage (balances p) + d,
           total_liabilities = total_liabilities (balances p) + inc\<rparr>)"
    using deposit_cases [OF assms, of d] by blast
  show ?thesis
    by (intro exI conjI, rule *(3), rule *(1)) (simp, simp, simp, rule *(2), rule unat_sat_supply)
qed

theorem deposit_credits_in_full_witness:
  "\<exists>lp s' b' inc. get_deposit_lp_amount_out (default_with_settings default_settings) 1000 = Inr (lp, s', b')
     \<and> 1000 \<le> inc \<and> reserve b' = 0 + inc \<and> total_liabilities b' = 0 + inc
     \<and> reserve_with_slippage b' = 0 + 1000 \<and> lp = inc \<and> unat s' = min (0 + unat lp) (2 ^ 64 - 1)"
  using deposit_credits_in_full [of "default_with_settings default_settings" 1000]
  by (simp add: default_with_settings_def default_metadata_def default_settings_def
      default_balances_def POOL_ASSET_DECIMALS_def)

definition withdraw_decrement :: "pool_state \<Rightarrow> u256 \<Rightarrow> u256" where
  "withdraw_decrement p w = (if lp_total_supply p = 0 then 0
     else w * total_liabilities (balances p) div ucast (lp_total_supply p))"

lemma ucast_supply_zero: "(ucast (s :: u64) :: u256) = 0 \<longleftrightarrow> s = 0"
proof -
  have "unat (ucast s :: u256) = unat s" by (simp add: unat_ucast_up)
  then show ?thesis by (metis unat_0_iff)
qed

lemma withdraw_unfold:
  "get_withdraw_asset_amount_out p w =
     and_then (psi (pool_curve p) (reserve (balances p) - withdraw_decrement p w)
        (total_liabilities (balances p) - withdraw_decrement p w) (ucast (asset_decimals (metadata p)))) (\<lambda>v.
     let pay = min (withdraw_decrement p w)
                 (reserve_with_slippage (balances p) - min (reserve_with_slippage (balances p)) v)
     in Inr (pay, sat_to (sat_sub (ucast (lp_total_supply p)) w),
          \<lparr>reserve = reserve (balances p) - withdraw_decrement p w,
           reserve_with_slippage = reserve_with_slippage (balances p) - pay,
           total_liabilities = total_liabilities (balances p) - withdraw_decrement p w\<rparr>))"
proof -
  have "(if (ucast (lp_total_supply p) :: u256) = 0 then Inr 0
      else u_div (w * total_liabilities (balances p)) (ucast (lp_total_supply p)))
     = Inr (withdraw_decrement p w)"
    by (simp add: withdraw_decrement_def u_div_def ucast_supply_zero)
  moreover have "(if q < r then q else r) = min q r" for q r :: u256
    by (auto simp: min_def)
  ultimately show ?thesis unfolding get_withdraw_asset_amount_out_def Let_def by (simp only: and_then_simps)
qed


lemma withdraw_decrement_le:
  assumes "w \<le> ucast (lp_total_supply p)" "unat w * unat (total_liabilities (balances p)) < 2 ^ 256"
  shows "unat (withdraw_decrement p w) = unat w * unat (total_liabilities (balances p)) div unat (lp_total_supply p)"
    and "withdraw_decrement p w \<le> total_liabilities (balances p)"
proof -
  let ?S = "unat (lp_total_supply p)" and ?L = "unat (total_liabilities (balances p))"
  have s: "unat (ucast (lp_total_supply p) :: u256) = ?S" by (simp add: unat_ucast_up)
  show d: "unat (withdraw_decrement p w) = unat w * ?L div ?S"
    using assms(2) by (auto simp: withdraw_decrement_def unat_div s unat_mult_no_overflow)
  have "unat w \<le> ?S" using assms(1) by (simp add: word_le_nat_alt s)
  then have "unat w * ?L div ?S \<le> ?S * ?L div ?S" by (intro div_le_mono mult_right_mono) simp_all
  also have "\<dots> \<le> ?L" by (cases "?S = 0") simp_all
  finally show "withdraw_decrement p w \<le> total_liabilities (balances p)" by (simp add: word_le_nat_alt d)
qed

text \<open>
  C22: a withdrawal pays at most its share and keeps the books. For shares within the supply and
  a remaining reserve of at least two internal units, the withdrawal quote returns; the payout is
  at most the redeemed share of the liabilities and at most the slippage reserve; reserve and
  liabilities fall by exactly that share, the slippage reserve by exactly the payout, the supply
  by exactly the shares.
\<close>

theorem withdraw_pays_at_most_share:
  assumes "asset_decimals (metadata p) \<le> 18"
    and "w \<le> ucast (lp_total_supply p)" "unat w * unat (total_liabilities (balances p)) < 2 ^ 256"
    and "withdraw_decrement p w \<le> reserve (balances p)"
    and "internal_fits (reserve (balances p) - withdraw_decrement p w) (ucast (asset_decimals (metadata p)))"
    and "2 \<le> unat (reserve (balances p) - withdraw_decrement p w) * 10 ^ (18 - unat (asset_decimals (metadata p)))"
  shows "\<exists>pay s' b'. get_withdraw_asset_amount_out p w = Inr (pay, s', b')
     \<and> pay \<le> withdraw_decrement p w
     \<and> unat (reserve b') + unat (withdraw_decrement p w) = unat (reserve (balances p))
     \<and> unat (total_liabilities b') + unat (withdraw_decrement p w) = unat (total_liabilities (balances p))
     \<and> unat (reserve_with_slippage b') + unat pay = unat (reserve_with_slippage (balances p))
     \<and> unat s' + unat w = unat (lp_total_supply p)"
proof -
  let ?d = "withdraw_decrement p w" and ?rws = "reserve_with_slippage (balances p)"
  have dec: "unat (ucast (asset_decimals (metadata p)) :: u256) = unat (asset_decimals (metadata p))"
    by (simp add: unat_ucast_up)
  obtain v where v: "psi (pool_curve p) (reserve (balances p) - ?d)
      (total_liabilities (balances p) - ?d) (ucast (asset_decimals (metadata p))) = Inr v"
    using psi_total_ge [OF decimals_u256 [OF assms(1)] assms(5)] assms(6) unfolding dec by blast
  define pay where "pay = min ?d (?rws - min ?rws v)"
  have "?rws - min ?rws v \<le> ?rws" by (metis min.cobounded1 word_sub_le)
  then have pay: "pay \<le> ?d" "pay \<le> ?rws" unfolding pay_def by (auto intro: min.coboundedI2)
  have w: "unat w \<le> unat (lp_total_supply p)" using assms(2) by (simp add: word_le_nat_alt unat_ucast_up)
  have "unat (sat_to (sat_sub (ucast (lp_total_supply p)) w) :: u64) = unat (lp_total_supply p) - unat w"
    unfolding unat_sat_to unat_sat_sub using unat_less_exp [of "lp_total_supply p"] by (simp add: unat_ucast_up)
  with w have s: "unat (sat_to (sat_sub (ucast (lp_total_supply p)) w) :: u64) + unat w = unat (lp_total_supply p)"
    by simp
  have sub: "unat (x - y) + unat y = unat x" if "y \<le> x" for x y :: u256
    using that by (simp add: unat_sub word_le_nat_alt)
  show ?thesis
    unfolding withdraw_unfold v and_then_simps Let_def pay_def [symmetric]
    using pay s sub assms(4) withdraw_decrement_le(2) [OF assms(2,3)] by auto
qed

definition example_pool :: pool_state where
  "example_pool = new_pool_state default_settings
     \<lparr>reserve = 1000000, reserve_with_slippage = 1000000, total_liabilities = 1000000\<rparr> 500000 default_metadata"

theorem withdraw_pays_at_most_share_witness:
  "\<exists>pay s' b'. get_withdraw_asset_amount_out example_pool 100000 = Inr (pay, s', b')
     \<and> pay \<le> withdraw_decrement example_pool 100000
     \<and> unat (reserve b') + unat (withdraw_decrement example_pool 100000) = unat (reserve (balances example_pool))
     \<and> unat (total_liabilities b') + unat (withdraw_decrement example_pool 100000)
        = unat (total_liabilities (balances example_pool))
     \<and> unat (reserve_with_slippage b') + unat pay = unat (reserve_with_slippage (balances example_pool))
     \<and> unat s' + unat (100000 :: u256) = unat (lp_total_supply example_pool)"
  by (rule withdraw_pays_at_most_share)
    (simp_all add: example_pool_def new_pool_state_def default_metadata_def POOL_ASSET_DECIMALS_def
      withdraw_decrement_def internal_fits_def)

text \<open>
  C25: depositing and redeeming at once never dilutes the liabilities owed to the other providers. When the
  shares of a deposit are redeemed right after it, the liabilities left are at least those before the
  deposit, the payout is at most what the deposit added to them, and the supply is back where it
  was, as long as the 256-bit products and the 64-bit supply do not overflow. What a deposit adds to the
  liabilities may exceed the amount deposited, when the slippage reserve is above the curve, so the payout is
  not bounded by the deposit: \<open>surplus_paid_to_depositor\<close> below is a case.
\<close>

theorem deposit_then_withdraw_no_dilution:
  assumes dep: "get_deposit_lp_amount_out p d = Inr (lp, s', b')"
    and wd: "get_withdraw_asset_amount_out (update_state p b' s') lp = Inr (pay, s'', b'')"
    and L: "0 < total_liabilities (balances p)"
    and no_overflow:
      "unat (total_liabilities (balances p)) \<le> unat (total_liabilities b')"
      "unat (total_liabilities b' - total_liabilities (balances p)) * unat (lp_total_supply p) < 2 ^ 256"
      "unat (lp_total_supply p) + unat lp < 2 ^ 64"
      "unat lp * unat (total_liabilities b') < 2 ^ 256"
  shows "total_liabilities (balances p) \<le> total_liabilities b''
    \<and> pay \<le> total_liabilities b' - total_liabilities (balances p)
    \<and> s'' = lp_total_supply p"
proof -
  let ?L = "total_liabilities (balances p)" and ?S = "lp_total_supply p"
  define inc where "inc = total_liabilities b' - ?L"
  have lp: "lp = inc * ucast ?S div ?L" and s': "s' = sat_to (sat_add (ucast ?S) lp)"
    using dep L by (auto simp: get_deposit_lp_amount_out_def Let_def res_simps u_div_def inc_def split: if_splits)
  have us': "unat s' = unat ?S + unat lp"
    using no_overflow(3) unfolding s' unat_sat_supply by simp
  have "unat lp = unat inc * unat ?S div unat ?L"
    using no_overflow(2) unfolding lp unat_div inc_def by (subst unat_mult_no_overflow) (simp_all add: unat_ucast_up)
  then have "unat lp * unat ?L \<le> unat inc * unat ?S" by (metis div_times_less_eq_dividend)
  moreover have incL: "unat (total_liabilities b') = unat ?L + unat inc"
    using no_overflow(1) by (simp add: inc_def unat_sub word_le_nat_alt)
  ultimately have key: "unat lp * unat (total_liabilities b') \<le> unat inc * unat s'"
    unfolding us' incL by (simp add: algebra_simps)
  define dd where "dd = withdraw_decrement (update_state p b' s') lp"
  have lpS: "lp \<le> ucast s'" by (simp add: word_le_nat_alt unat_ucast_up us')
  note D = withdraw_decrement_le [of lp "update_state p b' s'"]
  have ud: "unat dd = unat lp * unat (total_liabilities b') div unat s'"
    unfolding dd_def using D(1) lpS no_overflow(4) by (simp add: update_state_def)
  have dd_le: "unat dd \<le> unat inc"
  proof (cases "unat s' = 0")
    case False
    then show ?thesis unfolding ud using div_le_mono [OF key, of "unat s'"] by simp
  qed (simp add: ud)
  from wd have r: "pay \<le> dd" "total_liabilities b'' = total_liabilities b' - dd"
      "s'' = sat_to (sat_sub (ucast s') lp)"
    unfolding withdraw_unfold dd_def
    by (auto simp: res_simps Let_def update_state_def)
  have "unat s'' = unat ?S"
    unfolding r(3) unat_sat_to unat_sat_sub using us' unat_less_exp [of ?S] by (simp add: unat_ucast_up)
  moreover have "dd \<le> total_liabilities b'" using dd_le incL by (simp add: word_le_nat_alt)
  then have "unat (total_liabilities b'') = unat ?L + (unat inc - unat dd)"
    unfolding r(2) using incL dd_le by (simp add: unat_sub)
  ultimately show ?thesis
    using r(1) dd_le by (auto simp: word_le_nat_alt word_unat_eq_iff inc_def [symmetric])
qed

lemmas pool_eval = example_pool_def new_pool_state_def default_metadata_def default_settings_def
  get_deposit_lp_amount_out_def get_withdraw_asset_amount_out_def pool_curve_def
  POOL_ASSET_DECIMALS_def sat_to_def sat_add_def sat_sub_def

theorem deposit_then_withdraw_no_dilution_witness:
  "\<exists>lp s' b' pay s'' b''. get_deposit_lp_amount_out example_pool 1000 = Inr (lp, s', b')
    \<and> get_withdraw_asset_amount_out (update_state example_pool b' s') lp = Inr (pay, s'', b'')
    \<and> total_liabilities (balances example_pool) \<le> total_liabilities b''
    \<and> pay \<le> total_liabilities b' - total_liabilities (balances example_pool)
    \<and> s'' = lp_total_supply example_pool"
proof -
  have dep: "get_deposit_lp_amount_out example_pool 1000 =
     Inr (500, 500500, \<lparr>reserve = 1001000, reserve_with_slippage = 1001000, total_liabilities = 1001000\<rparr>)"
    by (simp add: curve_eval pool_eval cong: eval_cong)
  have wd: "get_withdraw_asset_amount_out (update_state example_pool
       \<lparr>reserve = 1001000, reserve_with_slippage = 1001000, total_liabilities = 1001000\<rparr> 500500) 500 =
     Inr (1000, 500000, \<lparr>reserve = 1000000, reserve_with_slippage = 1000000, total_liabilities = 1000000\<rparr>)"
    by (simp add: curve_eval pool_eval update_state_def cong: eval_cong)
  show ?thesis
    using deposit_then_withdraw_no_dilution [OF dep wd] dep wd
    by (simp add: example_pool_def new_pool_state_def)
qed

text \<open>A pool whose slippage reserve is 100 above its reserve: a deposit of 1000 is paid back as 1100, and the
  100 come out of the slippage reserve.\<close>

definition surplus_pool :: pool_state where
  "surplus_pool = update_balances example_pool \<lparr>reserve = 1000000, reserve_with_slippage = 1000100, total_liabilities = 1000000\<rparr>"

lemma surplus_paid_to_depositor:
  "\<exists>lp s' b' s'' b''. get_deposit_lp_amount_out surplus_pool 1000 = Inr (lp, s', b')
     \<and> get_withdraw_asset_amount_out (update_state surplus_pool b' s') lp = Inr (1100, s'', b'')
     \<and> total_liabilities b'' = total_liabilities (balances surplus_pool)
     \<and> reserve_with_slippage b'' + 100 = reserve_with_slippage (balances surplus_pool)"
  by (simp add: surplus_pool_def update_balances_def update_state_def curve_eval pool_eval cong: eval_cong)

section \<open>The ledger\<close>

text \<open>
  What a client of the ledger relies on: shares move only for the pool and depositor named, by
  the amount named, and a burn is refused exactly when the shares do not cover it.
\<close>

locale share_ledger =
  fixes balance_of :: "'l \<Rightarrow> 'k \<Rightarrow> u64"
    and credit :: "'l \<Rightarrow> 'k \<Rightarrow> u64 \<Rightarrow> 'l"
    and debit :: "'l \<Rightarrow> 'k \<Rightarrow> u64 \<Rightarrow> error + 'l"
  assumes credit_same: "balance_of (credit l k n) k = sat_add (balance_of l k) n"
    and credit_other: "k' \<noteq> k \<Longrightarrow> balance_of (credit l k n) k' = balance_of l k'"
    and debit_same: "debit l k n = Inr l' \<Longrightarrow> n \<le> balance_of l k \<and> balance_of l' k = balance_of l k - n"
    and debit_other: "debit l k n = Inr l' \<Longrightarrow> k' \<noteq> k \<Longrightarrow> balance_of l' k' = balance_of l k'"
    and debit_defined: "0 < balance_of l k \<Longrightarrow> n \<le> balance_of l k \<Longrightarrow> \<exists>l'. debit l k n = Inr l'"
begin

lemma credit_debit:
  assumes "unat (balance_of l k) + unat n < 2 ^ 64" "0 < n"
  shows "\<exists>l'. debit (credit l k n) k n = Inr l' \<and> balance_of l' = balance_of l"
proof -
  have s: "balance_of (credit l k n) k = balance_of l k + n"
    using assms by (simp add: credit_same sat_add_def)
  have u: "unat (balance_of l k + n) = unat (balance_of l k) + unat n"
    using assms(1) by (simp add: unat_add_no_overflow)
  have "0 < unat n" using assms(2) by (simp add: unat_gt_0 word_gt_0)
  then have "0 < balance_of l k + n" "n \<le> balance_of l k + n"
    by (simp_all add: word_less_nat_alt word_le_nat_alt u)
  then obtain l' where l': "debit (credit l k n) k n = Inr l'" using debit_defined [of "credit l k n" k n] s by auto
  have "balance_of l' k' = balance_of l k'" for k'
    using debit_same [OF l'] debit_other [OF l', of k'] credit_other [of k' k l n] s by (cases "k' = k") auto
  with l' show ?thesis by blast
qed

text \<open>The shares of a set of keys.\<close>

lemma total_credit:
  assumes "finite K" "k \<in> K" "unat (balance_of l k) + unat n < 2 ^ 64"
  shows "(\<Sum>j\<in>K. unat (balance_of (credit l k n) j)) = (\<Sum>j\<in>K. unat (balance_of l j)) + unat n"
proof -
  have "(\<Sum>j\<in>K - {k}. unat (balance_of (credit l k n) j)) = (\<Sum>j\<in>K - {k}. unat (balance_of l j))"
    by (rule sum.cong) (auto simp: credit_other)
  then show ?thesis
    using assms by (simp add: sum.remove [OF assms(1,2)] credit_same unat_sat_add)
qed

lemma total_debit:
  assumes "finite K" "k \<in> K" "debit l k n = Inr l'"
  shows "(\<Sum>j\<in>K. unat (balance_of l' j)) + unat n = (\<Sum>j\<in>K. unat (balance_of l j))"
proof -
  have "(\<Sum>j\<in>K - {k}. unat (balance_of l' j)) = (\<Sum>j\<in>K - {k}. unat (balance_of l j))"
    using assms by (intro sum.cong) (auto simp: debit_other)
  moreover have "unat (balance_of l' k) + unat n = unat (balance_of l k)"
    using debit_same [OF assms(3)] by (simp add: unat_sub word_le_nat_alt)
  ultimately show ?thesis by (simp add: sum.remove [OF assms(1,2)])
qed

end

interpretation lp_ledger: share_ledger
  "\<lambda>l (f, d). shares_of l f d" "\<lambda>l (f, d) n. mint l f d n" "\<lambda>l (f, d) n. burn l f d n"
  by unfold_locales
    (auto simp: shares_of_def mint_def burn_def or_default_def Let_def split: option.splits if_splits prod.splits)

text \<open>
  The ledger conserves shares. Over any finite set of depositors of a pool, a mint that does
  not saturate raises the sum of their shares by exactly the minted amount; a successful burn
  lowers it by exactly the burnt amount and needs the depositor to own it; both leave every other
  pool's shares alone; and burning a mint of a positive amount succeeds and restores all shares.
\<close>

theorem lp_ledger_conserves_shares:
  assumes "finite D" "d \<in> D" "unat (shares_of l f d) + unat n < 2 ^ 64" "0 < n"
  shows "(\<Sum>j\<in>D. unat (shares_of (mint l f d n) f j)) = (\<Sum>j\<in>D. unat (shares_of l f j)) + unat n
    \<and> (\<forall>l'. burn l f d n = Inr l' \<longrightarrow>
         (\<Sum>j\<in>D. unat (shares_of l' f j)) + unat n = (\<Sum>j\<in>D. unat (shares_of l f j)))
    \<and> (\<forall>f' j. f' \<noteq> f \<longrightarrow> shares_of (mint l f d n) f' j = shares_of l f' j)
    \<and> (\<exists>l'. burn (mint l f d n) f d n = Inr l' \<and> shares_of l' = shares_of l)"
proof (intro conjI allI impI)
  have over: "(\<Sum>k\<in>{f} \<times> D. g k) = (\<Sum>j\<in>D. g (f, j))" for g :: "account_id \<times> account_id \<Rightarrow> nat"
  proof -
    have "{f} \<times> D = Pair f ` D" by auto
    then show ?thesis by (simp add: sum.reindex inj_on_def)
  qed
  have K: "finite ({f} \<times> D)" "(f, d) \<in> {f} \<times> D" using assms(1,2) by auto
  show "(\<Sum>j\<in>D. unat (shares_of (mint l f d n) f j)) = (\<Sum>j\<in>D. unat (shares_of l f j)) + unat n"
    using lp_ledger.total_credit [OF K, of l n] assms(3) by (simp add: over)
  fix l' assume "burn l f d n = Inr l'"
  then show "(\<Sum>j\<in>D. unat (shares_of l' f j)) + unat n = (\<Sum>j\<in>D. unat (shares_of l f j))"
    using lp_ledger.total_debit [OF K, of l n l'] by (simp add: over)
next
  fix f' j assume "f' \<noteq> f"
  then show "shares_of (mint l f d n) f' j = shares_of l f' j"
    using lp_ledger.credit_other [of "(f', j)" "(f, d)" l n] by simp
next
  obtain l' where "burn (mint l f d n) f d n = Inr l'"
    "(\<lambda>(f, d). shares_of l' f d) = (\<lambda>(f, d). shares_of l f d)"
    using lp_ledger.credit_debit [of l "(f, d)" n] assms(3,4) by auto
  then show "\<exists>l'. burn (mint l f d n) f d n = Inr l' \<and> shares_of l' = shares_of l"
    by (auto simp: fun_eq_iff)
qed

definition example_account :: account_id where
  "example_account = \<lparr>prefix = 7, suffix = 9\<rparr>"

theorem lp_ledger_conserves_shares_witness:
  "(\<Sum>j\<in>{example_account}. unat (shares_of (mint default_ledger example_account example_account 5) example_account j)) = 5"
  using lp_ledger_conserves_shares [of "{example_account}" example_account default_ledger example_account 5]
  by (simp add: default_ledger_def shares_of_def)

text \<open>
  The derived balance is the exact book balance and pending redeems only restrict what is
  available. When funding and purchases cover redeems and sales without overflow, the balance is
  funding plus bought minus redeemed minus sold, and the available amount is that balance minus
  the initiated but uncompleted redeems, or zero.
\<close>

theorem derived_balance_exact:
  assumes "unat (total_funding v) + unat b < 2 ^ 64"
    and "unat (total_redeems v) + unat s \<le> unat (total_funding v) + unat b"
  shows "unat (fst (derive_balance_details v b s))
      = unat (total_funding v) + unat b - unat (total_redeems v) - unat s
    \<and> unat (snd (derive_balance_details v b s))
      = unat (fst (derive_balance_details v b s))
        - (unat (total_initiated_redeems v) - unat (total_redeems v))"
proof -
  have 1: "unat (total_funding v + b) = unat (total_funding v) + unat b"
    using assms(1) by (simp add: unat_add_no_overflow)
  then have 2: "unat (total_funding v + b - total_redeems v)
      = unat (total_funding v) + unat b - unat (total_redeems v)"
    using assms(2) by (simp add: unat_sub word_le_nat_alt)
  then have "unat (total_funding v + b - total_redeems v - s)
      = unat (total_funding v) + unat b - unat (total_redeems v) - unat s"
    using assms(2) by (simp add: unat_sub word_le_nat_alt)
  then show ?thesis by (simp add: derive_balance_details_def Let_def unat_sat_sub pending_redeem_def)
qed

theorem derived_balance_exact_witness:
  "unat (fst (derive_balance_details
      \<lparr>total_funding = 1000, total_initiated_redeems = 400, total_redeems = 100\<rparr> 200 50)) = 1050
   \<and> unat (snd (derive_balance_details
      \<lparr>total_funding = 1000, total_initiated_redeems = 400, total_redeems = 100\<rparr> 200 50)) = 750"
  using derived_balance_exact
    [of "\<lparr>total_funding = 1000, total_initiated_redeems = 400, total_redeems = 100\<rparr>" 200 50]
  by simp

end
