(* ===== verification/Swap_Quote.thy ===== *)
theory Swap_Quote
  imports Pool
begin

unbundle bit_operations_syntax

text \<open>
  Swap quotes: the curve swap of \<open>src/src/curve.rs\<close> with its fee breakdown and the credit of a
  signed minimum, and the order-book depth that \<open>src/src/market.rs\<close> derives from repeated quotes.
\<close>

section \<open>Quotes\<close>

definition FEE_PRECISION :: u256 where
  "FEE_PRECISION = 1000000"

definition PRICE_SCALING_FACTOR :: u256 where
  "PRICE_SCALING_FACTOR = 1000000000000"

record swap_fee_breakdown =
  fee_raw_amount_out :: u256
  fee_backstop :: u256
  fee_protocol :: u256
  fee_volatility :: u256
  fee_lp :: u256
  fee_max_lp :: u256

record swap_quote =
  amount_out :: u256
  credited_amount_out :: u256
  retained_surplus :: u256
  new_base_pool_balances :: pool_balances
  new_quote_pool_balances :: pool_balances
  fees :: swap_fee_breakdown

definition credit_to :: "swap_quote \<Rightarrow> u256 \<Rightarrow> swap_quote" where
  "credit_to q credited =
     (let credited = min credited (amount_out q);
          surplus = amount_out q - credited;
          b = new_quote_pool_balances q
      in q\<lparr>retained_surplus := surplus,
           credited_amount_out := credited,
           new_quote_pool_balances :=
             b\<lparr>reserve := sat_add (reserve b) surplus,
               reserve_with_slippage := sat_add (reserve_with_slippage b) surplus\<rparr>\<rparr>)"

definition zero_quote :: "pool_state \<Rightarrow> pool_state \<Rightarrow> swap_quote" where
  "zero_quote base_pool quote_pool =
     \<lparr>amount_out = 0, credited_amount_out = 0, retained_surplus = 0,
      new_base_pool_balances = balances base_pool,
      new_quote_pool_balances = balances quote_pool,
      fees = \<lparr>fee_raw_amount_out = 0, fee_backstop = 0, fee_protocol = 0, fee_volatility = 0,
              fee_lp = 0, fee_max_lp = 0\<rparr>\<rparr>"

definition get_curve_amount_out_with_volatility_fee ::
  "pool_state \<Rightarrow> pool_state \<Rightarrow> u256 \<Rightarrow> u256 \<Rightarrow> u256 \<Rightarrow> u256 \<Rightarrow> u256 \<Rightarrow> swap_quote result" where
  "get_curve_amount_out_with_volatility_fee base_pool quote_pool decimals_in decimals_out
     amount_in price volatility_fee =
     (let base = balances base_pool;
          quote = balances quote_pool;
          lp_fee = swap_fee (settings quote_pool)
      in and_then (u256_to_i256 (reserve base)) (\<lambda>i_reserve.
         and_then (u256_to_i256 (total_liabilities base)) (\<lambda>i_liabilities.
         and_then (u256_to_i256 (reserve_with_slippage base + amount_in)) (\<lambda>i_target.
         and_then (inverse_horizontal (pool_curve base_pool) i_reserve i_liabilities i_target decimals_in)
           (\<lambda>effective_amount_in.
         if 2 * total_liabilities base < reserve base + effective_amount_in
         then Inr (zero_quote base_pool quote_pool)
         else
         and_then (if decimals_out < decimals_in
                   then Inr (PRICE_SCALING_FACTOR * u_pow10 (decimals_in - decimals_out))
                   else u_div PRICE_SCALING_FACTOR (u_pow10 (decimals_out - decimals_in)))
           (\<lambda>scaling_factor.
         and_then (u_div (effective_amount_in * price) scaling_factor) (\<lambda>raw_amount_out.
         let backstop_amount = raw_amount_out * backstop_fee (settings quote_pool) div FEE_PRECISION;
             protocol_amount = raw_amount_out * protocol_fee (settings quote_pool) div FEE_PRECISION;
             volatility_amount = raw_amount_out * volatility_fee div FEE_PRECISION;
             fee_amount = backstop_amount + protocol_amount + volatility_amount;
             max_lp_fee = raw_amount_out * lp_fee div FEE_PRECISION;
             reduced_reserve_out = reserve quote - raw_amount_out + fee_amount
         in and_then (inverse_diagonal (pool_curve quote_pool) reduced_reserve_out
                        (total_liabilities quote) (reserve_with_slippage quote) decimals_out)
              (\<lambda>inv.
            let actual_lp_fee_amount = min inv max_lp_fee;
                actual_reduced_reserve_out = reduced_reserve_out + actual_lp_fee_amount;
                actual_total_liabilities_out = total_liabilities quote + actual_lp_fee_amount
            in and_then (psi (pool_curve quote_pool) actual_reduced_reserve_out
                           actual_total_liabilities_out decimals_out) (\<lambda>value.
               let rws_after = min value (reserve_with_slippage quote)
               in if rws_after \<le> 0 then Inl AmountOutExceedsReserve
                  else
                    let out = reserve_with_slippage quote - rws_after
                    in Inr \<lparr>amount_out = out, credited_amount_out = out, retained_surplus = 0,
                            new_base_pool_balances =
                              \<lparr>reserve = reserve base + effective_amount_in,
                               reserve_with_slippage = reserve_with_slippage base + amount_in,
                               total_liabilities = total_liabilities base\<rparr>,
                            new_quote_pool_balances =
                              \<lparr>reserve = actual_reduced_reserve_out,
                               reserve_with_slippage = rws_after,
                               total_liabilities = actual_total_liabilities_out\<rparr>,
                            fees = \<lparr>fee_raw_amount_out = raw_amount_out,
                                    fee_backstop = backstop_amount,
                                    fee_protocol = protocol_amount,
                                    fee_volatility = volatility_amount,
                                    fee_lp = actual_lp_fee_amount,
                                    fee_max_lp = max_lp_fee\<rparr>\<rparr>)))))))))"

definition get_curve_amount_out ::
  "pool_state \<Rightarrow> pool_state \<Rightarrow> u256 \<Rightarrow> u256 \<Rightarrow> u256 \<Rightarrow> u256 \<Rightarrow> swap_quote result" where
  "get_curve_amount_out base_pool quote_pool decimals_in decimals_out amount_in price =
     get_curve_amount_out_with_volatility_fee base_pool quote_pool decimals_in decimals_out
       amount_in price 0"

section \<open>Market depth\<close>

definition PRICE_SCALE :: u128 where
  "PRICE_SCALE = 1000000000000"

definition to_u128 :: "u64 \<Rightarrow> u128" where
  "to_u128 v = ucast v"

definition canonical_oracle_price :: "u64 \<Rightarrow> u64 \<Rightarrow> u64 option" where
  "canonical_oracle_price price0 price1 =
     (if price1 = 0 then None
      else case checked_mul (to_u128 price0) PRICE_SCALE of
             None \<Rightarrow> None
           | Some m \<Rightarrow> try_into (m div to_u128 price1))"

record depth_level =
  level_price :: u64
  level_amount :: u64
  level_cumulative :: u64

record depth_response =
  mid_price :: u64
  depth_timestamp :: u64
  bids :: "depth_level list"
  asks :: "depth_level list"

definition depth_step :: "pool_state \<Rightarrow> nat \<Rightarrow> u64 result" where
  "depth_step pool levels =
     and_then (u_div (total_liabilities (balances pool)) (of_nat (100 * levels))) (\<lambda>s.
       let step = sat_to s :: u64
       in if step = 0 then Inl (Anyhow ''pool liabilities are too small to derive depth'') else Inr step)"

text \<open>\<open>derive_side\<close>'s loop: \<open>n\<close> levels are left, the next one is number \<open>index\<close>.\<close>

fun depth_loop :: "pool_state \<Rightarrow> pool_state \<Rightarrow> u64 \<Rightarrow> u64 \<Rightarrow> bool \<Rightarrow> nat \<Rightarrow> nat \<Rightarrow> u64 \<Rightarrow> u64 \<Rightarrow> depth_level list result" where
  "depth_loop input_pool output_pool input_step curve_price input_is_base 0 index previous_input previous_output = Inr []"
| "depth_loop input_pool output_pool input_step curve_price input_is_base (Suc n) index previous_input previous_output =
     and_then (ok_or (checked_mul input_step (of_nat index)) (Anyhow ''depth input overflow'')) (\<lambda>cumulative_input.
     and_then (get_curve_amount_out input_pool output_pool
                 (ucast (asset_decimals (metadata input_pool))) (ucast (asset_decimals (metadata output_pool)))
                 (ucast cumulative_input) (ucast curve_price)) (\<lambda>quote.
     let cumulative_output = sat_to (amount_out quote) :: u64
     in if cumulative_output = 0 \<or> cumulative_output \<le> previous_output then Inr []
        else
          let marginal_input = cumulative_input - previous_input;
              marginal_output = cumulative_output - previous_output;
              (base_amount, cumulative_base, quote_amount) =
                (if input_is_base then (marginal_input, cumulative_input, marginal_output)
                 else (marginal_output, cumulative_output, marginal_input))
          in if base_amount = 0 then Inr []
             else
               and_then (ok_or (checked_mul (to_u128 quote_amount) PRICE_SCALE) (Anyhow ''depth price overflow'')) (\<lambda>scaled.
               and_then (ok_or (try_into (scaled div to_u128 base_amount)) (Anyhow ''out of range integral type conversion'')) (\<lambda>price.
               and_then (depth_loop input_pool output_pool input_step curve_price input_is_base n (Suc index)
                           cumulative_input cumulative_output) (\<lambda>rest.
                 Inr (\<lparr>level_price = price, level_amount = base_amount, level_cumulative = cumulative_base\<rparr> # rest))))))"

definition derive_side :: "pool_state \<Rightarrow> pool_state \<Rightarrow> u64 \<Rightarrow> nat \<Rightarrow> u64 \<Rightarrow> bool \<Rightarrow> depth_level list result" where
  "derive_side input_pool output_pool input_step levels curve_price input_is_base =
     depth_loop input_pool output_pool input_step curve_price input_is_base levels 1 0 0"

definition derive_depth :: "pool_state \<Rightarrow> pool_state \<Rightarrow> u64 \<Rightarrow> u64 \<Rightarrow> nat \<Rightarrow> u64 \<Rightarrow> depth_response result" where
  "derive_depth base_pool quote_pool base_oracle_price quote_oracle_price levels timestamp =
     (if levels = 0 \<or> 100 < levels then Inl (Anyhow ''levels must be between 1 and 100'')
      else
        and_then (ok_or (canonical_oracle_price base_oracle_price quote_oracle_price)
                    (Anyhow ''invalid zero quote oracle price'')) (\<lambda>mid.
        and_then (depth_step base_pool levels) (\<lambda>base_step.
        and_then (depth_step quote_pool levels) (\<lambda>quote_step.
        and_then (derive_side base_pool quote_pool base_step levels mid True) (\<lambda>bid_levels.
        and_then (ok_or (checked_mul PRICE_SCALE PRICE_SCALE) (Anyhow ''inverse price overflow'')) (\<lambda>scale2.
        and_then (if to_u128 mid = 0 then Inl (Panic DivisionByZero) else Inr (scale2 div to_u128 mid)) (\<lambda>inv.
        and_then (ok_or (try_into inv) (Anyhow ''out of range integral type conversion'')) (\<lambda>inverse_mid.
        and_then (derive_side quote_pool base_pool quote_step levels inverse_mid False) (\<lambda>ask_levels.
          Inr \<lparr>mid_price = mid, depth_timestamp = timestamp, bids = bid_levels, asks = ask_levels\<rparr>)))))))))"

section \<open>Conservation\<close>

text \<open>The books of a quote that trades: what each pool gains and loses.\<close>

definition quote_balanced :: "pool_state \<Rightarrow> pool_state \<Rightarrow> u256 \<Rightarrow> swap_quote \<Rightarrow> bool" where
  "quote_balanced base_pool quote_pool amount_in q \<longleftrightarrow>
     reserve_with_slippage (new_base_pool_balances q) = reserve_with_slippage (balances base_pool) + amount_in
   \<and> total_liabilities (new_base_pool_balances q) = total_liabilities (balances base_pool)
   \<and> 0 < reserve_with_slippage (new_quote_pool_balances q)
   \<and> unat (reserve_with_slippage (new_quote_pool_balances q)) + unat (amount_out q)
       = unat (reserve_with_slippage (balances quote_pool))
   \<and> total_liabilities (new_quote_pool_balances q) = total_liabilities (balances quote_pool) + fee_lp (fees q)
   \<and> reserve (new_quote_pool_balances q) + fee_raw_amount_out (fees q)
       = reserve (balances quote_pool) + fee_backstop (fees q) + fee_protocol (fees q)
         + fee_volatility (fees q) + fee_lp (fees q)
   \<and> fee_lp (fees q) \<le> fee_max_lp (fees q)
   \<and> credited_amount_out q = amount_out q \<and> retained_surplus q = 0"

lemma rws_after_pays: "unat (min v rws) + unat (rws - min v rws) = unat rws" for v rws :: u256
  by (simp add: min_def unat_sub word_le_nat_alt)

lemma quote_Inr_cases:
  assumes "get_curve_amount_out_with_volatility_fee bp qp di do amt price vf = Inr q"
  shows "q = zero_quote bp qp \<or> quote_balanced bp qp amt q"
  using assms unfolding get_curve_amount_out_with_volatility_fee_def
  by (auto simp: res_simps Let_def quote_balanced_def rws_after_pays algebra_simps word_le_0_iff word_gt_0 split: if_splits)

text \<open>The scaling of the pair price between the decimals of the two assets.\<close>

definition scaling :: "u256 \<Rightarrow> u256 \<Rightarrow> u256" where
  "scaling di do = (if do < di then PRICE_SCALING_FACTOR * u_pow10 (di - do)
     else PRICE_SCALING_FACTOR div u_pow10 (do - di))"

lemma scaling_ok:
  assumes "di \<le> 18" "do \<le> 18" "unat do \<le> unat di + 12"
  shows "scaling di do \<noteq> 0"
    and "(if do < di then Inr (PRICE_SCALING_FACTOR * u_pow10 (di - do))
      else u_div PRICE_SCALING_FACTOR (u_pow10 (do - di))) = (Inr (scaling di do) :: u256 result)"
proof -
  have u: "unat PRICE_SCALING_FACTOR = 10 ^ 12" by (simp add: PRICE_SCALING_FACTOR_def)
  show "scaling di do \<noteq> 0"
  proof (cases "do < di")
    case True
    then have "di - do \<le> 18" "unat (di - do) \<le> 18"
      using assms(1) by (simp_all add: unat_sub word_le_nat_alt word_less_nat_alt)
    then have p: "unat (u_pow10 (di - do)) = 10 ^ unat (di - do)" "(10 :: nat) ^ unat (di - do) \<le> 10 ^ 18"
      using power_increasing [of "unat (di - do)" 18 "10 :: nat"] by (simp_all add: pow10_no_overflow)
    then have "0 < unat (u_pow10 (di - do))" by simp
    moreover have "10 ^ 12 * unat (u_pow10 (di - do)) \<le> 10 ^ 12 * 10 ^ 18" using p by simp
    then have "unat (PRICE_SCALING_FACTOR * u_pow10 (di - do)) = 10 ^ 12 * unat (u_pow10 (di - do))"
      by (subst unat_mult_no_overflow) (simp_all add: u)
    ultimately show ?thesis
      using True unfolding scaling_def by (metis mult_is_0 neq0_conv unat_0 zero_less_numeral zero_less_power)
  next
    case False
    then have d: "do - di \<le> 18" "unat (do - di) = unat do - unat di"
      using assms(2) by (simp_all add: unat_sub word_le_nat_alt not_less)
    then have "unat (u_pow10 (do - di)) = 10 ^ (unat do - unat di)" by (simp add: pow10_no_overflow)
    also have "\<dots> \<le> 10 ^ 12" using assms(3) by (intro power_increasing) simp_all
    finally have le: "unat (u_pow10 (do - di)) \<le> 10 ^ 12" .
    have "0 < unat (u_pow10 (do - di))" using d by (simp add: pow10_no_overflow)
    with le have "0 < 10 ^ 12 div unat (u_pow10 (do - di))" by (simp add: div_greater_zero_iff)
    then have "0 < unat (scaling di do)" using False by (simp add: scaling_def unat_div u)
    then show ?thesis by auto
  qed
  have "u_pow10 (do - di) \<noteq> 0" if "\<not> do < di"
  proof -
    have "do - di \<le> 18" using that assms(2) by (simp add: unat_sub word_le_nat_alt not_less)
    then have "unat (u_pow10 (do - di)) \<noteq> 0" by (simp add: pow10_no_overflow)
    then show ?thesis by auto
  qed
  then show "(if do < di then Inr (PRICE_SCALING_FACTOR * u_pow10 (di - do))
      else u_div PRICE_SCALING_FACTOR (u_pow10 (do - di))) = (Inr (scaling di do) :: u256 result)"
    by (simp add: scaling_def u_div_def)
qed

text \<open>A share of an amount in parts per million.\<close>

definition fee_share :: "u256 \<Rightarrow> u256 \<Rightarrow> u256" where
  "fee_share amount rate = amount * rate div FEE_PRECISION"

lemma unat_fee_share:
  assumes "unat amount < 2 ^ 128" "unat rate \<le> 10 ^ 6"
  shows "unat (fee_share amount rate) = unat amount * unat rate div 10 ^ 6"
proof -
  have "unat amount * unat rate \<le> 2 ^ 128 * 10 ^ 6" using assms by (intro mult_le_mono) simp_all
  then show ?thesis
    unfolding fee_share_def unat_div by (subst unat_mult_no_overflow) (simp_all add: FEE_PRECISION_def)
qed

lemma fee_shares_le:
  assumes "unat amount < 2 ^ 128" "unat r1 + unat r2 + unat r3 \<le> 10 ^ 6"
  shows "unat (fee_share amount r1) + unat (fee_share amount r2) + unat (fee_share amount r3) \<le> unat amount"
proof -
  let ?a = "unat amount"
  have "?a * unat r1 div 10 ^ 6 + ?a * unat r2 div 10 ^ 6 + ?a * unat r3 div 10 ^ 6
      \<le> (?a * unat r1 + ?a * unat r2 + ?a * unat r3) div 10 ^ 6"
    using nat_div_add_le [of "?a * unat r1" "10 ^ 6" "?a * unat r2"]
      nat_div_add_le [of "?a * unat r1 + ?a * unat r2" "10 ^ 6" "?a * unat r3"] by linarith
  also have "\<dots> = ?a * (unat r1 + unat r2 + unat r3) div 10 ^ 6" by (simp add: distrib_left)
  also have "\<dots> \<le> ?a * 10 ^ 6 div 10 ^ 6" using assms(2) by (intro div_le_mono mult_left_mono) simp_all
  finally show ?thesis using assms by (simp add: unat_fee_share)
qed

section \<open>Quoting succeeds\<close>

text \<open>Pools whose parameters and balances leave room in 256 bits, with at most 18 decimals.\<close>

definition pool_in_range :: "pool_state \<Rightarrow> u256 \<Rightarrow> bool" where
  "pool_in_range p decimals \<longleftrightarrow> decimals \<le> 18
     \<and> unat (settings_beta (settings p)) + 10 ^ 18 < 2 ^ 255
     \<and> unat (settings_c (settings p)) + 10 ^ 18 < 2 ^ 255
     \<and> unat (reserve (balances p)) < 2 ^ 128 \<and> unat (total_liabilities (balances p)) < 2 ^ 128
     \<and> unat (reserve_with_slippage (balances p)) < 2 ^ 128"

definition fees_in_range :: "pool_settings \<Rightarrow> u256 \<Rightarrow> bool" where
  "fees_in_range s volatility_fee \<longleftrightarrow>
     unat (backstop_fee s) + unat (protocol_fee s) + unat volatility_fee \<le> 10 ^ 6 \<and> unat (swap_fee s) \<le> 10 ^ 6"

lemma fits_128: "unat v < 2 ^ 130 \<Longrightarrow> internal_fits v d"
proof -
  assume v: "unat v < 2 ^ 130"
  have "(10 :: nat) ^ (18 - unat d) \<le> 10 ^ 18" by (intro power_increasing) simp_all
  then have "unat v * 10 ^ (18 - unat d) \<le> unat v * 10 ^ 18" by (rule mult_left_mono) simp
  also have "\<dots> < 2 ^ 130 * 10 ^ 18" using v by simp
  finally show ?thesis by (simp add: internal_fits_def)
qed

text \<open>The effective amount in: the inverse of the input curve at the slippage reserve plus the amount.\<close>

definition effective_amount :: "pool_state \<Rightarrow> u256 \<Rightarrow> u256 \<Rightarrow> u256 result" where
  "effective_amount p decimals amt =
     inverse_horizontal (pool_curve p) (reserve (balances p)) (total_liabilities (balances p))
       (reserve_with_slippage (balances p) + amt) decimals"

lemma effective_amount_total:
  assumes "pool_in_range p d" "unat amt < 2 ^ 128"
  shows "\<exists>eff. effective_amount p d amt = Inr eff"
    and "unat (reserve_with_slippage (balances p) + amt) < 2 ^ 130"
proof -
  have "unat (reserve_with_slippage (balances p) + amt) = unat (reserve_with_slippage (balances p)) + unat amt"
    using assms by (subst unat_add_no_overflow) (simp_all add: pool_in_range_def)
  then show t: "unat (reserve_with_slippage (balances p) + amt) < 2 ^ 130"
    using assms by (simp add: pool_in_range_def)
  show "\<exists>eff. effective_amount p d amt = Inr eff"
    unfolding effective_amount_def using assms t
    by (intro inverse_horizontal_total fits_128) (simp_all add: pool_in_range_def pool_curve_def)
qed

text \<open>The quote of a trade, from the raw amount, the reserve reduced by it and refilled by the fees,
  the liquidity fee and the slippage reserve after the trade.\<close>

definition traded_quote :: "pool_state \<Rightarrow> pool_state \<Rightarrow> u256 \<Rightarrow> u256 \<Rightarrow> u256 \<Rightarrow> u256 \<Rightarrow> u256 \<Rightarrow> u256 \<Rightarrow> u256 \<Rightarrow> swap_quote" where
  "traded_quote bp qp amt eff raw vf red lp rws =
     (let out = reserve_with_slippage (balances qp) - rws in
       \<lparr>amount_out = out, credited_amount_out = out, retained_surplus = 0,
            new_base_pool_balances =
              \<lparr>reserve = reserve (balances bp) + eff,
               reserve_with_slippage = reserve_with_slippage (balances bp) + amt,
               total_liabilities = total_liabilities (balances bp)\<rparr>,
            new_quote_pool_balances =
              \<lparr>reserve = red + lp, reserve_with_slippage = rws,
               total_liabilities = total_liabilities (balances qp) + lp\<rparr>,
            fees = \<lparr>fee_raw_amount_out = raw,
                    fee_backstop = fee_share raw (backstop_fee (settings qp)),
                    fee_protocol = fee_share raw (protocol_fee (settings qp)),
                    fee_volatility = fee_share raw vf,
                    fee_lp = lp, fee_max_lp = fee_share raw (swap_fee (settings qp))\<rparr>\<rparr>)"

lemma quote_inputs_parse:
  assumes "pool_in_range bp di" "unat amt < 2 ^ 128"
  shows "u256_to_i256 (reserve (balances bp)) = Inr (reserve (balances bp))"
    "u256_to_i256 (total_liabilities (balances bp)) = Inr (total_liabilities (balances bp))"
    "u256_to_i256 (reserve_with_slippage (balances bp) + amt) = Inr (reserve_with_slippage (balances bp) + amt)"
proof -
  have small: "u256_to_i256 v = Inr v" if "unat v < 2 ^ 130" for v
    using that by (simp add: u256_to_i256_def)
  show "u256_to_i256 (reserve (balances bp)) = Inr (reserve (balances bp))"
    "u256_to_i256 (total_liabilities (balances bp)) = Inr (total_liabilities (balances bp))"
    "u256_to_i256 (reserve_with_slippage (balances bp) + amt) = Inr (reserve_with_slippage (balances bp) + amt)"
    using assms effective_amount_total(2) [OF assms] by (auto intro!: small simp: pool_in_range_def)
qed

lemma quote_over_limit:
  assumes "pool_in_range bp di" "unat amt < 2 ^ 128" "effective_amount bp di amt = Inr eff"
    and "2 * total_liabilities (balances bp) < reserve (balances bp) + eff"
  shows "get_curve_amount_out_with_volatility_fee bp qp di do amt price vf = Inr (zero_quote bp qp)"
  using assms(4) unfolding get_curve_amount_out_with_volatility_fee_def Let_def
    quote_inputs_parse [OF assms(1,2)] and_then_simps assms(3) [unfolded effective_amount_def]
  by simp

lemma quote_unfold:
  assumes bp: "pool_in_range bp di" and amt: "unat amt < 2 ^ 128"
    and eff: "effective_amount bp di amt = Inr eff"
    and limit: "\<not> 2 * total_liabilities (balances bp) < reserve (balances bp) + eff"
    and qp: "pool_in_range qp do" and d12: "unat do \<le> unat di + 12"
    and raw: "raw = eff * price div scaling di do"
    and red: "red = reserve (balances qp) - raw + (fee_share raw (backstop_fee (settings qp))
        + fee_share raw (protocol_fee (settings qp)) + fee_share raw vf)"
  shows "\<exists>lp. lp \<le> fee_share raw (swap_fee (settings qp))
    \<and> get_curve_amount_out_with_volatility_fee bp qp di do amt price vf =
     and_then (psi (pool_curve qp) (red + lp) (total_liabilities (balances qp) + lp) do) (\<lambda>v.
       let rws = min v (reserve_with_slippage (balances qp)) in
       if rws \<le> 0 then Inl AmountOutExceedsReserve
       else Inr (traded_quote bp qp amt eff raw vf red lp rws))"
proof -
  note ins = quote_inputs_parse [OF bp amt]
  have sc: "scaling di do \<noteq> 0"
    "(if do < di then Inr (PRICE_SCALING_FACTOR * u_pow10 (di - do))
      else u_div PRICE_SCALING_FACTOR (u_pow10 (do - di))) = (Inr (scaling di do) :: u256 result)"
    using scaling_ok [of di do] bp qp d12 by (auto simp: pool_in_range_def)
  have ud: "u_div (eff * price) (scaling di do) = Inr raw" using sc(1) by (simp add: u_div_def raw)
  obtain inv where inv: "inverse_diagonal (pool_curve qp) red (total_liabilities (balances qp))
      (reserve_with_slippage (balances qp)) do = Inr inv"
    using inverse_diagonal_total [of do "pool_curve qp"] qp by (fastforce simp: pool_in_range_def pool_curve_def)
  let ?lp = "min inv (fee_share raw (swap_fee (settings qp)))"
  note f = fee_share_def [symmetric]
  show ?thesis
    by (rule exI [of _ ?lp], rule conjI, rule min.cobounded2)
      (simp only: get_curve_amount_out_with_volatility_fee_def Let_def ins and_then_simps
        eff [unfolded effective_amount_def] limit if_False sc(2) ud f red [symmetric] inv traded_quote_def)
qed

lemma unat_reduced:
  fixes raw res f lp :: u256
  assumes "unat raw + 2 \<le> unat res" "unat res < 2 ^ 128" "unat f \<le> unat raw" "unat lp \<le> unat raw"
  shows "unat (res - raw + f + lp) = unat res - unat raw + unat f + unat lp"
    and "2 \<le> unat (res - raw + f + lp)" "unat (res - raw + f + lp) < 2 ^ 130"
proof -
  have s: "unat (res - raw) = unat res - unat raw" using assms(1) by (simp add: unat_sub word_le_nat_alt)
  have "unat (res - raw + f) = unat res - unat raw + unat f"
    using assms by (subst unat_add_no_overflow) (simp_all add: s)
  then show "unat (res - raw + f + lp) = unat res - unat raw + unat f + unat lp"
    using assms by (subst unat_add_no_overflow) simp_all
  with assms show "2 \<le> unat (res - raw + f + lp)" "unat (res - raw + f + lp) < 2 ^ 130" by simp_all
qed

lemma quote_pays_at_most_priced:
  fixes v rws red lp :: u256
  assumes "red \<le> v" "unat red = unat res - unat raw + fee + l" "unat rws \<le> unat res" "unat raw \<le> unat res"
  shows "unat (rws - min v rws) = 0 \<or> unat (rws - min v rws) + fee + l \<le> unat raw"
  using assms by (auto simp: min_def unat_sub word_le_nat_alt)

lemma swap_quote_trades:
  assumes bp: "pool_in_range bp di" and amt: "unat amt < 2 ^ 128"
    and eff: "effective_amount bp di amt = Inr eff"
    and limit: "\<not> 2 * total_liabilities (balances bp) < reserve (balances bp) + eff"
    and qp: "pool_in_range qp do" and d12: "unat do \<le> unat di + 12"
    and fees: "fees_in_range (settings qp) vf" and rws: "0 < reserve_with_slippage (balances qp)"
    and raw: "unat (eff * price div scaling di do) + 2 \<le> unat (reserve (balances qp))"
  shows "\<exists>q. get_curve_amount_out_with_volatility_fee bp qp di do amt price vf = Inr q
    \<and> quote_balanced bp qp amt q
    \<and> (unat (reserve_with_slippage (balances qp)) \<le> unat (reserve (balances qp)) \<longrightarrow>
        unat (amount_out q) = 0
        \<or> unat (amount_out q) + (unat (fee_backstop (fees q)) + unat (fee_protocol (fees q))
           + unat (fee_volatility (fees q))) + unat (fee_lp (fees q)) \<le> unat (fee_raw_amount_out (fees q)))"
proof -
  define r where "r = eff * price div scaling di do"
  let ?res = "reserve (balances qp)" and ?rws = "reserve_with_slippage (balances qp)"
  let ?f = "fee_share r (backstop_fee (settings qp)) + fee_share r (protocol_fee (settings qp)) + fee_share r vf"
  have r: "unat r + 2 \<le> unat ?res" "unat ?res < 2 ^ 128" using raw qp by (simp_all add: r_def pool_in_range_def)
  then have rs: "unat r < 2 ^ 128" by simp
  have le: "unat (fee_share r (backstop_fee (settings qp))) + unat (fee_share r (protocol_fee (settings qp)))
      + unat (fee_share r vf) \<le> unat r"
    using fees by (intro fee_shares_le rs) (simp add: fees_in_range_def)
  have add3: "unat (x + y + z) = unat x + unat y + unat z" if "unat x + unat y + unat z < 2 ^ 256" for x y z :: u256
    using that by (simp add: unat_add_no_overflow)
  have fu: "unat ?f = unat (fee_share r (backstop_fee (settings qp)))
      + unat (fee_share r (protocol_fee (settings qp))) + unat (fee_share r vf)"
    using le rs by (intro add3) simp
  obtain lp where lp: "lp \<le> fee_share r (swap_fee (settings qp))"
    and q: "get_curve_amount_out_with_volatility_fee bp qp di do amt price vf =
     and_then (psi (pool_curve qp) (?res - r + ?f + lp) (total_liabilities (balances qp) + lp) do) (\<lambda>v.
       let rws = min v ?rws in
       if rws \<le> 0 then Inl AmountOutExceedsReserve
       else Inr (traded_quote bp qp amt eff r vf (?res - r + ?f) lp rws))"
    using quote_unfold [OF bp amt eff limit qp d12 r_def refl] by blast
  have "unat (fee_share r (swap_fee (settings qp))) \<le> unat r"
    using fee_shares_le [OF rs, of "swap_fee (settings qp)" 0 0] fees by (simp add: fees_in_range_def)
  then have lpu: "unat lp \<le> unat r" using lp by (simp add: word_le_nat_alt)
  note red = unat_reduced [OF r le [folded fu] lpu]
  have d18: "do \<le> 18" using qp by (simp add: pool_in_range_def)
  have "2 \<le> unat (?res - r + ?f + lp) * 10 ^ (18 - unat do)"
    using mult_le_mono [OF red(2), of 1 "10 ^ (18 - unat do)"] by simp
  then obtain v where v: "psi (pool_curve qp) (?res - r + ?f + lp) (total_liabilities (balances qp) + lp) do = Inr v"
      "?res - r + ?f + lp \<le> v"
    using psi_total_ge [OF d18 fits_128 [OF red(3)]] by blast
  have "0 < ?res - r + ?f + lp" using red(2) by (simp add: word_less_nat_alt)
  then have v0: "0 < v" using v(2) by (rule less_le_trans)
  then have pos: "\<not> min v ?rws \<le> 0" using rws by (auto simp: min_def)
  have rle: "unat r \<le> unat ?res" using r(1) by linarith
  define t where "t = traded_quote bp qp amt eff r vf (?res - r + ?f) lp (min v ?rws)"
  have "get_curve_amount_out_with_volatility_fee bp qp di do amt price vf = Inr t"
    using q pos by (simp add: v(1) t_def)
  moreover have "quote_balanced bp qp amt t"
    using lp v0 rws rws_after_pays [of v ?rws]
    by (simp add: t_def traded_quote_def Let_def quote_balanced_def algebra_simps)
  moreover have "unat ?rws \<le> unat ?res \<Longrightarrow> unat (?rws - min v ?rws) = 0
      \<or> unat (?rws - min v ?rws) + unat ?f + unat lp \<le> unat r"
    by (rule quote_pays_at_most_priced [OF v(2) red(1) _ rle])
  ultimately show ?thesis unfolding fu by (auto simp: t_def traded_quote_def Let_def)
qed

text \<open>
  C7: quoting a swap succeeds and conserves. For pools in range (at most 18 decimals, 128-bit
  balances, fee rates of at most a million in total), when the raw output leaves two units of the
  output reserve, the quote returns. It is the zero quote, which leaves both pools unchanged,
  exactly when the input reserve would exceed twice its liabilities. Otherwise the input pool's
  slippage reserve gains exactly the amount in, the output pool's loses exactly the amount out
  and stays positive, its liabilities grow by exactly the liquidity fee, its reserve falls by the
  raw amount and keeps every fee, the liquidity fee is within its maximum; and unless the output
  pool's slippage reserve exceeds its reserve, the output plus all fees is at most the raw amount
  at the oracle price.
\<close>

theorem swap_quote_succeeds_and_conserves:
  assumes "pool_in_range bp di" "pool_in_range qp do" "unat amt < 2 ^ 128" "unat do \<le> unat di + 12"
    and "fees_in_range (settings qp) vf" "0 < reserve_with_slippage (balances qp)"
    and "effective_amount bp di amt = Inr eff"
    and "unat (eff * price div scaling di do) + 2 \<le> unat (reserve (balances qp))"
  shows "\<exists>q. get_curve_amount_out_with_volatility_fee bp qp di do amt price vf = Inr q
    \<and> (if 2 * total_liabilities (balances bp) < reserve (balances bp) + eff then q = zero_quote bp qp
       else quote_balanced bp qp amt q
         \<and> (unat (reserve_with_slippage (balances qp)) \<le> unat (reserve (balances qp)) \<longrightarrow>
             unat (amount_out q) = 0
             \<or> unat (amount_out q) + (unat (fee_backstop (fees q)) + unat (fee_protocol (fees q))
                + unat (fee_volatility (fees q))) + unat (fee_lp (fees q))
                \<le> unat (fee_raw_amount_out (fees q))))"
proof (cases "2 * total_liabilities (balances bp) < reserve (balances bp) + eff")
  case True
  then show ?thesis using quote_over_limit [OF assms(1,3,7)] by simp
next
  case False
  then show ?thesis using swap_quote_trades [OF assms(1,3,7) False assms(2,4,5,6,8)] by simp
qed

theorem swap_quote_succeeds_and_conserves_witness:
  "\<exists>q. get_curve_amount_out_with_volatility_fee example_pool example_pool 8 8 1000 1000000000000 100 = Inr q
    \<and> quote_balanced example_pool example_pool 1000 q
    \<and> (unat (amount_out q) = 0
        \<or> unat (amount_out q) + (unat (fee_backstop (fees q)) + unat (fee_protocol (fees q))
           + unat (fee_volatility (fees q))) + unat (fee_lp (fees q)) \<le> unat (fee_raw_amount_out (fees q)))"
proof -
  have eff: "effective_amount example_pool 8 1000 = Inr 999"
    by (simp add: effective_amount_def curve_eval pool_eval cong: eval_cong)
  show ?thesis
    using swap_quote_succeeds_and_conserves [of example_pool 8 example_pool 8 1000 100 999 1000000000000] eff
    by (simp add: pool_in_range_def fees_in_range_def scaling_def PRICE_SCALING_FACTOR_def u_pow10_def pool_eval)
qed

section \<open>Crediting the signed minimum\<close>

text \<open>
  Crediting a signed minimum keeps the books. For a balanced quote, the credited output is the
  signed amount capped by the quote, credited and retained parts add up to the quoted output, the
  output pool's slippage reserve ends lower by exactly the credited amount, its reserve gains the
  retained part, and the input pool and the liabilities are untouched.
\<close>

theorem credit_to_conserves:
  assumes "quote_balanced bp qp amt q"
    and "unat (reserve (new_quote_pool_balances q)) + unat (amount_out q) < 2 ^ 256"
  shows "credited_amount_out (credit_to q m) = min m (amount_out q)
    \<and> unat (credited_amount_out (credit_to q m)) + unat (retained_surplus (credit_to q m)) = unat (amount_out q)
    \<and> unat (reserve_with_slippage (new_quote_pool_balances (credit_to q m)))
        + unat (credited_amount_out (credit_to q m)) = unat (reserve_with_slippage (balances qp))
    \<and> unat (reserve (new_quote_pool_balances (credit_to q m)))
        = unat (reserve (new_quote_pool_balances q)) + unat (retained_surplus (credit_to q m))
    \<and> total_liabilities (new_quote_pool_balances (credit_to q m)) = total_liabilities (new_quote_pool_balances q)
    \<and> new_base_pool_balances (credit_to q m) = new_base_pool_balances q
    \<and> fees (credit_to q m) = fees q"
proof -
  let ?c = "min m (amount_out q)" and ?b = "new_quote_pool_balances q"
  have s: "unat ?c + unat (amount_out q - ?c) = unat (amount_out q)" by (rule rws_after_pays)
  have r: "unat (reserve_with_slippage ?b) + unat (amount_out q) = unat (reserve_with_slippage (balances qp))"
    using assms(1) by (simp add: quote_balanced_def)
  moreover have "unat (reserve_with_slippage (balances qp)) < 2 ^ 256"
    using unat_less_exp [of "reserve_with_slippage (balances qp)"] by simp
  ultimately have "unat (reserve_with_slippage ?b) + unat (amount_out q) \<le> 2 ^ 256 - 1" by linarith
  then show ?thesis
    using s r assms(2) by (simp add: credit_to_def Let_def unat_sat_add)
qed

definition example_quote :: swap_quote where
  "example_quote =
    \<lparr>amount_out = 990, credited_amount_out = 990, retained_surplus = 0,
     new_base_pool_balances = \<lparr>reserve = 1000999, reserve_with_slippage = 1001000, total_liabilities = 1000000\<rparr>,
     new_quote_pool_balances = \<lparr>reserve = 999009, reserve_with_slippage = 999010, total_liabilities = 1000008\<rparr>,
     fees = \<lparr>fee_raw_amount_out = 999, fee_backstop = 0, fee_protocol = 0, fee_volatility = 0, fee_lp = 8, fee_max_lp = 9\<rparr>\<rparr>"

theorem credit_to_conserves_witness:
  "quote_balanced example_pool example_pool 1000 example_quote
   \<and> credited_amount_out (credit_to example_quote 900) = min 900 (amount_out example_quote)
   \<and> unat (reserve_with_slippage (new_quote_pool_balances (credit_to example_quote 900)))
       + unat (credited_amount_out (credit_to example_quote 900)) = unat (reserve_with_slippage (balances example_pool))"
proof -
  have "quote_balanced example_pool example_pool 1000 example_quote"
    by (simp add: quote_balanced_def example_quote_def pool_eval)
  moreover have "unat (reserve (new_quote_pool_balances example_quote)) + unat (amount_out example_quote) < 2 ^ 256"
    by (simp add: example_quote_def)
  ultimately show ?thesis using credit_to_conserves [of example_pool example_pool 1000 example_quote 900] by blast
qed

section \<open>Depth\<close>

text \<open>Levels that continue one another: each adds a positive amount to the cumulative one before.\<close>

fun levels_chain :: "u64 \<Rightarrow> depth_level list \<Rightarrow> bool" where
  "levels_chain p [] \<longleftrightarrow> True"
| "levels_chain p (l # ls) \<longleftrightarrow>
     0 < level_amount l \<and> unat p + unat (level_amount l) = unat (level_cumulative l)
     \<and> levels_chain (level_cumulative l) ls"

lemma unat_step_mul:
  fixes step :: u64
  assumes "checked_mul step (of_nat i) = Some ci" "i < 2 ^ 64"
  shows "unat ci = unat step * i"
  using assms by (auto simp: checked_mul_def unat_mult_no_overflow unat_of_nat split: if_splits)

lemma depth_loop_chain:
  assumes "depth_loop ip op step price is_base n index pin pout = Inr ls"
    and "unat pin = unat step * (index - 1)" "1 \<le> index" "index + n < 2 ^ 64"
  shows "levels_chain (if is_base then pin else pout) ls \<and> length ls \<le> n"
  using assms
proof (induction n arbitrary: index pin pout ls)
  case (Suc n)
  show ?case
  proof (cases ls)
    case (Cons l rest)
    obtain ci co where ci: "checked_mul step (of_nat index) = Some ci"
      and *: "depth_loop ip op step price is_base n (Suc index) ci co = Inr rest" "\<not> co \<le> pout"
      "level_amount l = (if is_base then ci - pin else co - pout)" "level_amount l \<noteq> 0"
      "level_cumulative l = (if is_base then ci else co)"
      using Suc.prems(1) Cons
      by (simp add: res_simps Let_def split: if_splits prod.splits) (elim exE conjE; fastforce)+
    have u: "unat ci = unat step * index" using unat_step_mul [OF ci] Suc.prems(4) by simp
    then have "levels_chain (if is_base then ci else co) rest \<and> length rest \<le> n"
      using Suc.prems by (intro Suc.IH [OF *(1)]) simp_all
    moreover have "pin \<le> ci" using u Suc.prems(2) by (simp add: word_le_nat_alt)
    moreover have "pout \<le> co" using *(2) by simp
    ultimately show ?thesis
      using *(3,4,5) Cons by (auto simp: word_gt_0 unat_sub word_le_nat_alt)
  qed simp
qed simp

lemma levels_chain_sorted:
  "levels_chain p ls \<Longrightarrow> sorted_wrt (<) (p # map level_cumulative ls)"
proof (induction ls arbitrary: p)
  case (Cons l ls)
  then have "p < level_cumulative l"
    by (simp add: word_less_nat_alt)
  moreover have "sorted_wrt (<) (level_cumulative l # map level_cumulative ls)"
    using Cons.IH [of "level_cumulative l"] Cons.prems by simp
  ultimately show ?case by (auto intro: less_trans)
qed simp

text \<open>
  A depth response is a proper order book side. When the depth of two pools is derived, each
  side has at most the requested number of levels, every level's amount is positive, cumulative
  amounts are the running sums of the amounts and increase strictly.
\<close>

theorem derive_depth_sides_ascend:
  assumes "derive_depth bp qp p0 p1 levels ts = Inr d"
  shows "levels_chain 0 (bids d) \<and> levels_chain 0 (asks d)
    \<and> sorted_wrt (<) (map level_cumulative (bids d)) \<and> sorted_wrt (<) (map level_cumulative (asks d))
    \<and> length (bids d) \<le> levels \<and> length (asks d) \<le> levels"
proof -
  obtain bs bstep mid qstep inv as where s: "levels \<le> 100"
    "depth_loop bp qp bstep mid True levels 1 0 0 = Inr (bids d)"
    "depth_loop qp bp qstep inv False levels 1 0 0 = Inr (asks d)"
    using assms by (auto simp: derive_depth_def derive_side_def res_simps split: if_splits)
  from depth_loop_chain [OF s(2)] depth_loop_chain [OF s(3)] s(1)
  have c: "levels_chain 0 (bids d)" "levels_chain 0 (asks d)" "length (bids d) \<le> levels" "length (asks d) \<le> levels"
    by auto
  then show ?thesis using levels_chain_sorted [of 0] by (metis sorted_wrt.simps(2))
qed

lemmas depth_eval = derive_depth_def derive_side_def depth_step_def canonical_oracle_price_def to_u128_def
  PRICE_SCALE_def checked_mul_def try_into_def get_curve_amount_out_def zero_quote_def
  get_curve_amount_out_with_volatility_fee_def PRICE_SCALING_FACTOR_def FEE_PRECISION_def

theorem derive_depth_sides_ascend_witness:
  "\<exists>d. derive_depth example_pool example_pool 100 100 1 7 = Inr d
    \<and> levels_chain 0 (bids d) \<and> levels_chain 0 (asks d) \<and> bids d \<noteq> []"
proof -
  have "\<exists>d. derive_depth example_pool example_pool 100 100 1 7 = Inr d \<and> bids d \<noteq> []"
    by (simp add: depth_eval curve_eval pool_eval cong: eval_cong)
  then show ?thesis using derive_depth_sides_ascend [of example_pool example_pool 100 100 1 7] by blast
qed

text \<open>A zero mid price is not refused: after the bids are derived, its inverse is a division by
  zero.\<close>

lemma derive_depth_zero_price_panics:
  "derive_depth example_pool example_pool 0 100 1 7 = Inl (Panic DivisionByZero)"
  by (simp add: depth_eval curve_eval pool_eval cong: eval_cong)

end
