(* ===== verification/Orders.thy ===== *)
theory Orders
  imports Intent
begin

text \<open>
  Orders (\<open>src/src/order.rs\<close>): the typestates of an order and their transitions, the restart-safe
  record of an admitted order, the snapshots sent to clients, and the in-memory order book with
  one map per status. Time is the number of milliseconds since the epoch, the clock's reading is
  an argument of every transition, and so are the signature scheme's codecs.
\<close>

section \<open>Data\<close>

datatype order_type = Spot | Deposit | Withdraw

record order_details =
  asset_in :: account_id
  amount_in :: u64
  asset_out :: account_id
  min_amount_out :: u64

type_synonym date_time = int

record order_timing =
  created_at :: date_time
  last_updated_at :: date_time
  t_started_processing :: "date_time option"
  t_processed :: "date_time option"
  t_submitted :: "date_time option"
  t_confirmed :: "date_time option"
  t_failed :: "date_time option"
  t_executed :: "date_time option"
  t_settled :: "date_time option"

definition new_timing :: "date_time \<Rightarrow> order_timing" where
  "new_timing now =
     \<lparr>created_at = now, last_updated_at = now, t_started_processing = None, t_processed = None,
      t_submitted = None, t_confirmed = None, t_failed = None, t_executed = None, t_settled = None\<rparr>"

definition timing_start_processing :: "date_time \<Rightarrow> order_timing \<Rightarrow> order_timing" where
  "timing_start_processing now t = t\<lparr>last_updated_at := now, t_started_processing := Some now\<rparr>"

definition timing_processed :: "date_time \<Rightarrow> order_timing \<Rightarrow> order_timing" where
  "timing_processed now t = t\<lparr>last_updated_at := now, t_processed := Some now\<rparr>"

definition timing_submitted :: "date_time \<Rightarrow> order_timing \<Rightarrow> order_timing" where
  "timing_submitted now t = t\<lparr>last_updated_at := now, t_submitted := Some now\<rparr>"

definition timing_confirmed :: "date_time \<Rightarrow> order_timing \<Rightarrow> order_timing" where
  "timing_confirmed now t = t\<lparr>last_updated_at := now, t_confirmed := Some now\<rparr>"

definition timing_failed :: "date_time \<Rightarrow> order_timing \<Rightarrow> order_timing" where
  "timing_failed now t = t\<lparr>last_updated_at := now, t_failed := Some now\<rparr>"

definition timing_executed :: "date_time \<Rightarrow> order_timing \<Rightarrow> order_timing" where
  "timing_executed now t = t\<lparr>last_updated_at := now, t_executed := Some now\<rparr>"

definition timing_settled :: "date_time \<Rightarrow> order_timing \<Rightarrow> order_timing" where
  "timing_settled now t = t\<lparr>last_updated_at := now, t_settled := Some now\<rparr>"

datatype order_status =
  SCreated | SProcessing | SProcessed | SSubmitted | SConfirmed | SExecuted | SSettled | SFailed

fun status_str :: "order_status \<Rightarrow> string" where
  "status_str SCreated = ''created''"
| "status_str SProcessing = ''processing''"
| "status_str SProcessed = ''processed''"
| "status_str SSubmitted = ''submitted''"
| "status_str SConfirmed = ''confirmed''"
| "status_str SExecuted = ''executed''"
| "status_str SSettled = ''settled''"
| "status_str SFailed = ''failed''"

record order_execution_result =
  result_amount_out :: u64

datatype order_failure_reason =
  Expired | MinOutNotMet | InsufficientBalance | ExecutionError | StaleQueue

text \<open>The typestates.\<close>

datatype created = Created

datatype processing = Processing

datatype processed = Processed order_execution_result

datatype submitted = Submitted string order_execution_result

datatype confirmed = Confirmed string order_execution_result

datatype executed = Executed string order_execution_result

datatype settled = Settled string order_execution_result

datatype failed = Failed order_failure_reason "string option" "order_execution_result option"

text \<open>An order carries a signature and a public key of the signature scheme's types.\<close>

record ('sg, 'pk, 'state) order =
  state :: 'state
  order_id :: uuid
  order_intent :: intent
  order_details :: order_details
  order_kind :: order_type
  order_user_id :: account_id
  signed_order :: 'sg
  order_pubkey :: 'pk
  order_timing :: order_timing

datatype ('sg, 'pk) order_update =
    UNew "('sg, 'pk, created) order"
  | UStartedProcessing "('sg, 'pk, processing) order"
  | UProcessed "('sg, 'pk, processed) order"
  | USubmitted "('sg, 'pk, submitted) order"
  | UConfirmed "('sg, 'pk, confirmed) order"
  | UExecuted "('sg, 'pk, executed) order"
  | USettled "('sg, 'pk, settled) order"
  | UFailed "('sg, 'pk, failed) order"

section \<open>Transitions\<close>

text \<open>Every transition rebuilds the order with a new state and timing and keeps the other fields.\<close>

definition with_state ::
  "('sg, 'pk, 's) order \<Rightarrow> 't \<Rightarrow> order_timing \<Rightarrow> ('sg, 'pk, 't) order" where
  "with_state ord st tm =
     \<lparr>state = st, order_id = order_id ord, order_intent = order_intent ord,
      order_details = order_details ord, order_kind = order_kind ord,
      order_user_id = order_user_id ord, signed_order = signed_order ord,
      order_pubkey = order_pubkey ord, order_timing = tm\<rparr>"

definition new_with_id ::
  "date_time \<Rightarrow> uuid \<Rightarrow> 'sg \<Rightarrow> account_id \<Rightarrow> order_details \<Rightarrow> 'pk \<Rightarrow> intent \<Rightarrow> ('sg, 'pk, created) order" where
  "new_with_id now oid sg user dts pk intn =
     \<lparr>state = Created, order_id = oid, order_intent = intn, order_details = dts, order_kind = Spot,
      order_user_id = user, signed_order = sg, order_pubkey = pk, order_timing = new_timing now\<rparr>"

definition start_processing :: "date_time \<Rightarrow> ('sg, 'pk, created) order \<Rightarrow> ('sg, 'pk, processing) order" where
  "start_processing now ord = with_state ord Processing (timing_start_processing now (order_timing ord))"

text \<open>\<open>from_timestamp_millis\<close> is the date library's conversion; it refuses dates out of range.\<close>

definition with_admitted_at_ms ::
  "(int \<Rightarrow> date_time option) \<Rightarrow> u64 \<Rightarrow> ('sg, 'pk, created) order \<Rightarrow> ('sg, 'pk, created) order" where
  "with_admitted_at_ms from_timestamp_millis admitted_at_ms ord =
     (case from_timestamp_millis (sint admitted_at_ms) of
        None \<Rightarrow> ord
      | Some dt \<Rightarrow> ord\<lparr>order_timing := (order_timing ord)\<lparr>created_at := dt, last_updated_at := dt\<rparr>\<rparr>)"

definition admitted_at_ms :: "('sg, 'pk, 's) order \<Rightarrow> u64" where
  "admitted_at_ms ord = word_of_int (max (created_at (order_timing ord)) 0)"

definition processing_processed ::
  "date_time \<Rightarrow> order_execution_result \<Rightarrow> ('sg, 'pk, processing) order \<Rightarrow> ('sg, 'pk, processed) order" where
  "processing_processed now res ord = with_state ord (Processed res) (timing_processed now (order_timing ord))"

definition processing_failed ::
  "date_time \<Rightarrow> order_failure_reason \<Rightarrow> ('sg, 'pk, processing) order \<Rightarrow> ('sg, 'pk, failed) order" where
  "processing_failed now reason ord =
     with_state ord (Failed reason None None) (timing_failed now (order_timing ord))"

fun processed_result :: "processed \<Rightarrow> order_execution_result" where
  "processed_result (Processed r) = r"

definition processed_submitted ::
  "date_time \<Rightarrow> string \<Rightarrow> ('sg, 'pk, processed) order \<Rightarrow> ('sg, 'pk, submitted) order" where
  "processed_submitted now tx_hash ord =
     with_state ord (Submitted tx_hash (processed_result (state ord))) (timing_submitted now (order_timing ord))"

fun submitted_confirmed_state :: "submitted \<Rightarrow> confirmed" where
  "submitted_confirmed_state (Submitted h r) = Confirmed h r"

definition submitted_confirmed ::
  "date_time \<Rightarrow> ('sg, 'pk, submitted) order \<Rightarrow> ('sg, 'pk, confirmed) order" where
  "submitted_confirmed now ord =
     with_state ord (submitted_confirmed_state (state ord)) (timing_confirmed now (order_timing ord))"

definition processed_confirmed ::
  "date_time \<Rightarrow> date_time \<Rightarrow> string \<Rightarrow> ('sg, 'pk, processed) order \<Rightarrow> ('sg, 'pk, confirmed) order" where
  "processed_confirmed now now' tx_hash ord = submitted_confirmed now' (processed_submitted now tx_hash ord)"

definition processed_executed ::
  "date_time \<Rightarrow> string \<Rightarrow> order_execution_result \<Rightarrow> ('sg, 'pk, processed) order \<Rightarrow> ('sg, 'pk, executed) order" where
  "processed_executed now tx_hash res ord =
     with_state ord (Executed tx_hash res) (timing_executed now (order_timing ord))"

definition processed_failed ::
  "date_time \<Rightarrow> order_failure_reason \<Rightarrow> order_execution_result option
     \<Rightarrow> ('sg, 'pk, processed) order \<Rightarrow> ('sg, 'pk, failed) order" where
  "processed_failed now reason res ord =
     with_state ord (Failed reason None res) (timing_failed now (order_timing ord))"

fun executed_settled_state :: "executed \<Rightarrow> settled" where
  "executed_settled_state (Executed h r) = Settled h r"

definition executed_settled ::
  "date_time \<Rightarrow> ('sg, 'pk, executed) order \<Rightarrow> ('sg, 'pk, settled) order" where
  "executed_settled now ord =
     with_state ord (executed_settled_state (state ord)) (timing_settled now (order_timing ord))"

section \<open>Durable orders\<close>

record durable_order =
  dur_id :: uuid
  dur_user_id :: account_id
  dur_details :: order_details
  dur_signed_order :: string
  dur_pubkey :: string
  dur_intent :: intent

text \<open>Base64 and the signature scheme's byte codecs.\<close>

record ('sg, 'pk) codec =
  b64_encode :: "bytes \<Rightarrow> string"
  b64_decode :: "string \<Rightarrow> bytes result"
  sig_to_bytes :: "'sg \<Rightarrow> bytes"
  sig_from_bytes :: "bytes \<Rightarrow> 'sg result"
  pk_to_bytes :: "'pk \<Rightarrow> bytes"
  pk_from_bytes :: "bytes \<Rightarrow> 'pk result"

definition durable :: "('sg, 'pk) codec \<Rightarrow> ('sg, 'pk, 's) order \<Rightarrow> durable_order" where
  "durable cd ord =
     \<lparr>dur_id = order_id ord, dur_user_id = order_user_id ord, dur_details = order_details ord,
      dur_signed_order = b64_encode cd (sig_to_bytes cd (signed_order ord)),
      dur_pubkey = b64_encode cd (pk_to_bytes cd (order_pubkey ord)),
      dur_intent = order_intent ord\<rparr>"

definition into_created :: "('sg, 'pk) codec \<Rightarrow> date_time \<Rightarrow> durable_order \<Rightarrow> ('sg, 'pk, created) order result" where
  "into_created cd now d =
     and_then (b64_decode cd (dur_signed_order d)) (\<lambda>sb.
     and_then (sig_from_bytes cd sb) (\<lambda>sg.
     and_then (b64_decode cd (dur_pubkey d)) (\<lambda>pb.
     and_then (pk_from_bytes cd pb) (\<lambda>pk.
       Inr (new_with_id now (dur_id d) sg (dur_user_id d) (dur_details d) pk (dur_intent d))))))"

definition into_processed ::
  "('sg, 'pk) codec \<Rightarrow> date_time \<Rightarrow> date_time \<Rightarrow> date_time \<Rightarrow> u64 \<Rightarrow> durable_order
     \<Rightarrow> ('sg, 'pk, processed) order result" where
  "into_processed cd now now' now'' out d =
     and_then (into_created cd now d) (\<lambda>ord.
       Inr (processing_processed now'' \<lparr>result_amount_out = out\<rparr> (start_processing now' ord)))"

section \<open>Snapshots\<close>

record order_snapshot =
  snap_id :: uuid
  snap_client_order_id :: uuid
  snap_expires_at :: u64
  snap_details :: order_details
  snap_order_type :: order_type
  snap_user_id :: account_id
  snap_timing :: order_timing
  snap_status :: order_status
  snap_failure_reason :: "order_failure_reason option"
  snap_execution_result :: "order_execution_result option"
  snap_tx_hash :: "string option"

definition common_snapshot ::
  "('sg, 'pk, 's) order \<Rightarrow> order_status \<Rightarrow> order_failure_reason option
     \<Rightarrow> order_execution_result option \<Rightarrow> string option \<Rightarrow> order_snapshot result" where
  "common_snapshot ord st failure res tx_hash =
     and_then (client_order_uuid (order_intent ord)) (\<lambda>cid.
       Inr \<lparr>snap_id = order_id ord, snap_client_order_id = cid,
            snap_expires_at = expires_at (order_intent ord), snap_details = order_details ord,
            snap_order_type = order_kind ord, snap_user_id = order_user_id ord,
            snap_timing = order_timing ord, snap_status = st, snap_failure_reason = failure,
            snap_execution_result = res, snap_tx_hash = tx_hash\<rparr>)"

fun snapshot :: "('sg, 'pk) order_update \<Rightarrow> order_snapshot result" where
  "snapshot (UNew ord) = common_snapshot ord SCreated None None None"
| "snapshot (UStartedProcessing ord) = common_snapshot ord SProcessing None None None"
| "snapshot (UProcessed ord) =
     (case state ord of Processed r \<Rightarrow> common_snapshot ord SProcessed None (Some r) None)"
| "snapshot (USubmitted ord) =
     (case state ord of Submitted h r \<Rightarrow> common_snapshot ord SSubmitted None (Some r) (Some h))"
| "snapshot (UConfirmed ord) =
     (case state ord of Confirmed h r \<Rightarrow> common_snapshot ord SConfirmed None (Some r) (Some h))"
| "snapshot (UExecuted ord) =
     (case state ord of Executed h r \<Rightarrow> common_snapshot ord SExecuted None (Some r) (Some h))"
| "snapshot (USettled ord) =
     (case state ord of Settled h r \<Rightarrow> common_snapshot ord SSettled None (Some r) (Some h))"
| "snapshot (UFailed ord) =
     (case state ord of Failed reason h r \<Rightarrow> common_snapshot ord SFailed (Some reason) r h)"

section \<open>The order book\<close>

record ('sg, 'pk) orders =
  book_new :: "uuid \<rightharpoonup> ('sg, 'pk, created) order"
  book_in_processing :: "uuid \<rightharpoonup> ('sg, 'pk, processing) order"
  book_processed :: "uuid \<rightharpoonup> ('sg, 'pk, processed) order"
  book_submitted :: "uuid \<rightharpoonup> ('sg, 'pk, submitted) order"
  book_confirmed :: "uuid \<rightharpoonup> ('sg, 'pk, confirmed) order"
  book_executed :: "uuid \<rightharpoonup> ('sg, 'pk, executed) order"
  book_settled :: "uuid \<rightharpoonup> ('sg, 'pk, settled) order"
  book_failed :: "uuid \<rightharpoonup> ('sg, 'pk, failed) order"

definition empty_book :: "('sg, 'pk) orders" where
  "empty_book =
     \<lparr>book_new = Map.empty, book_in_processing = Map.empty, book_processed = Map.empty,
      book_submitted = Map.empty, book_confirmed = Map.empty, book_executed = Map.empty,
      book_settled = Map.empty, book_failed = Map.empty\<rparr>"

fun apply_order_update :: "('sg, 'pk) orders \<Rightarrow> ('sg, 'pk) order_update \<Rightarrow> ('sg, 'pk) orders" where
  "apply_order_update b (UNew ord) = b\<lparr>book_new := (book_new b)(order_id ord \<mapsto> ord)\<rparr>"
| "apply_order_update b (UStartedProcessing ord) =
     b\<lparr>book_new := (book_new b)(order_id ord := None),
       book_in_processing := (book_in_processing b)(order_id ord \<mapsto> ord)\<rparr>"
| "apply_order_update b (UProcessed ord) =
     b\<lparr>book_in_processing := (book_in_processing b)(order_id ord := None),
       book_processed := (book_processed b)(order_id ord \<mapsto> ord)\<rparr>"
| "apply_order_update b (USubmitted ord) =
     b\<lparr>book_processed := (book_processed b)(order_id ord := None),
       book_submitted := (book_submitted b)(order_id ord \<mapsto> ord)\<rparr>"
| "apply_order_update b (UConfirmed ord) =
     b\<lparr>book_submitted := (book_submitted b)(order_id ord := None),
       book_confirmed := (book_confirmed b)(order_id ord \<mapsto> ord)\<rparr>"
| "apply_order_update b (UExecuted ord) =
     b\<lparr>book_processed := (book_processed b)(order_id ord := None),
       book_executed := (book_executed b)(order_id ord \<mapsto> ord)\<rparr>"
| "apply_order_update b (USettled ord) =
     b\<lparr>book_executed := (book_executed b)(order_id ord := None),
       book_settled := (book_settled b)(order_id ord \<mapsto> ord)\<rparr>"
| "apply_order_update b (UFailed ord) =
     b\<lparr>book_new := (book_new b)(order_id ord := None),
       book_in_processing := (book_in_processing b)(order_id ord := None),
       book_processed := (book_processed b)(order_id ord := None),
       book_submitted := (book_submitted b)(order_id ord := None),
       book_confirmed := (book_confirmed b)(order_id ord := None),
       book_executed := (book_executed b)(order_id ord := None),
       book_settled := (book_settled b)(order_id ord := None),
       book_failed := (book_failed b)(order_id ord \<mapsto> ord)\<rparr>"

definition get_order :: "('sg, 'pk) orders \<Rightarrow> uuid \<Rightarrow> ('sg, 'pk) order_update option" where
  "get_order b oid =
     (case book_new b oid of Some ord \<Rightarrow> Some (UNew ord) | None \<Rightarrow>
     (case book_in_processing b oid of Some ord \<Rightarrow> Some (UStartedProcessing ord) | None \<Rightarrow>
     (case book_processed b oid of Some ord \<Rightarrow> Some (UProcessed ord) | None \<Rightarrow>
     (case book_submitted b oid of Some ord \<Rightarrow> Some (USubmitted ord) | None \<Rightarrow>
     (case book_confirmed b oid of Some ord \<Rightarrow> Some (UConfirmed ord) | None \<Rightarrow>
     (case book_executed b oid of Some ord \<Rightarrow> Some (UExecuted ord) | None \<Rightarrow>
     (case book_settled b oid of Some ord \<Rightarrow> Some (USettled ord) | None \<Rightarrow>
     (case book_failed b oid of Some ord \<Rightarrow> Some (UFailed ord) | None \<Rightarrow> None))))))))"

record order_stats =
  stats_total :: nat
  stats_open :: nat
  stats_closed :: nat
  stats_by_status :: "order_status \<Rightarrow> nat"

definition status_count :: "('sg, 'pk) orders \<Rightarrow> order_status \<Rightarrow> nat" where
  "status_count b s =
     (case s of
        SCreated \<Rightarrow> card (dom (book_new b))
      | SProcessing \<Rightarrow> card (dom (book_in_processing b))
      | SProcessed \<Rightarrow> card (dom (book_processed b))
      | SSubmitted \<Rightarrow> card (dom (book_submitted b))
      | SConfirmed \<Rightarrow> card (dom (book_confirmed b))
      | SExecuted \<Rightarrow> card (dom (book_executed b))
      | SSettled \<Rightarrow> card (dom (book_settled b))
      | SFailed \<Rightarrow> card (dom (book_failed b)))"

definition stats :: "('sg, 'pk) orders \<Rightarrow> order_stats" where
  "stats b =
     (let by_status = status_count b;
          open_count = by_status SCreated + by_status SProcessing + by_status SProcessed + by_status SSubmitted;
          closed_count = by_status SConfirmed + by_status SExecuted + by_status SSettled + by_status SFailed
      in \<lparr>stats_total = open_count + closed_count, stats_open = open_count, stats_closed = closed_count,
          stats_by_status = by_status\<rparr>)"

section \<open>Where an order is\<close>

fun in_status :: "('sg, 'pk) orders \<Rightarrow> order_status \<Rightarrow> uuid \<Rightarrow> bool" where
  "in_status b SCreated oid \<longleftrightarrow> book_new b oid \<noteq> None"
| "in_status b SProcessing oid \<longleftrightarrow> book_in_processing b oid \<noteq> None"
| "in_status b SProcessed oid \<longleftrightarrow> book_processed b oid \<noteq> None"
| "in_status b SSubmitted oid \<longleftrightarrow> book_submitted b oid \<noteq> None"
| "in_status b SConfirmed oid \<longleftrightarrow> book_confirmed b oid \<noteq> None"
| "in_status b SExecuted oid \<longleftrightarrow> book_executed b oid \<noteq> None"
| "in_status b SSettled oid \<longleftrightarrow> book_settled b oid \<noteq> None"
| "in_status b SFailed oid \<longleftrightarrow> book_failed b oid \<noteq> None"

fun update_status :: "('sg, 'pk) order_update \<Rightarrow> order_status" where
  "update_status (UNew _) = SCreated"
| "update_status (UStartedProcessing _) = SProcessing"
| "update_status (UProcessed _) = SProcessed"
| "update_status (USubmitted _) = SSubmitted"
| "update_status (UConfirmed _) = SConfirmed"
| "update_status (UExecuted _) = SExecuted"
| "update_status (USettled _) = SSettled"
| "update_status (UFailed _) = SFailed"

fun update_id :: "('sg, 'pk) order_update \<Rightarrow> uuid" where
  "update_id (UNew ord) = order_id ord"
| "update_id (UStartedProcessing ord) = order_id ord"
| "update_id (UProcessed ord) = order_id ord"
| "update_id (USubmitted ord) = order_id ord"
| "update_id (UConfirmed ord) = order_id ord"
| "update_id (UExecuted ord) = order_id ord"
| "update_id (USettled ord) = order_id ord"
| "update_id (UFailed ord) = order_id ord"

text \<open>The statuses an update may find its order in: the one it leaves, or its own when the update
  is repeated. A failure may find it anywhere.\<close>

fun leaves :: "order_status \<Rightarrow> order_status set" where
  "leaves SCreated = {}"
| "leaves SProcessing = {SCreated}"
| "leaves SProcessed = {SProcessing}"
| "leaves SSubmitted = {SProcessed}"
| "leaves SConfirmed = {SSubmitted}"
| "leaves SExecuted = {SProcessed}"
| "leaves SSettled = {SExecuted}"
| "leaves SFailed = UNIV"

definition legal_update :: "('sg, 'pk) orders \<Rightarrow> ('sg, 'pk) order_update \<Rightarrow> bool" where
  "legal_update b u \<longleftrightarrow>
     (\<forall>s. in_status b s (update_id u) \<longrightarrow> s \<in> insert (update_status u) (leaves (update_status u)))"

inductive book_step :: "('sg, 'pk) orders \<Rightarrow> ('sg, 'pk) orders \<Rightarrow> bool" where
  "legal_update b u \<Longrightarrow> book_step b (apply_order_update b u)"

inductive_cases book_stepE: "book_step b b'"

definition book_inv :: "('sg, 'pk) orders \<Rightarrow> bool" where
  "book_inv b \<longleftrightarrow>
     (\<forall>oid s t. in_status b s oid \<longrightarrow> in_status b t oid \<longrightarrow> s = t)
     \<and> (\<forall>s. finite {oid. in_status b s oid})"

section \<open>One status per order\<close>

lemma in_status_apply:
  "in_status (apply_order_update b u) s oid \<longleftrightarrow>
     (if oid = update_id u then s = update_status u \<or> (s \<notin> leaves (update_status u) \<and> in_status b s oid)
      else in_status b s oid)"
  by (cases u; cases s) auto

lemma get_order_other: "oid \<noteq> update_id u \<Longrightarrow> get_order (apply_order_update b u) oid = get_order b oid"
  by (cases u) (simp_all add: get_order_def cong: option.case_cong)

lemma get_order_None_iff: "get_order b oid = None \<longleftrightarrow> (\<forall>s. \<not> in_status b s oid)"
proof
  assume *: "get_order b oid = None"
  show "\<forall>s. \<not> in_status b s oid"
  proof
    fix s show "\<not> in_status b s oid"
      using * by (cases s) (auto simp: get_order_def split: option.splits)
  qed
next
  assume *: "\<forall>s. \<not> in_status b s oid"
  from *[rule_format, of SCreated] *[rule_format, of SProcessing] *[rule_format, of SProcessed]
    *[rule_format, of SSubmitted] *[rule_format, of SConfirmed] *[rule_format, of SExecuted]
    *[rule_format, of SSettled] *[rule_format, of SFailed]
  show "get_order b oid = None" by (simp add: get_order_def)
qed

lemma apply_unique:
  assumes "book_inv b" "legal_update b u"
  shows "in_status (apply_order_update b u) s (update_id u) \<longleftrightarrow> s = update_status u"
  using assms by (auto simp: in_status_apply legal_update_def)

lemma get_order_same:
  assumes "book_inv b" "legal_update b u"
  shows "get_order (apply_order_update b u) (update_id u) = Some u"
proof -
  have other: "\<not> in_status (apply_order_update b u) s (update_id u)" if "s \<noteq> update_status u" for s
    using that apply_unique [OF assms] by simp
  show ?thesis
    using other [of SCreated] other [of SProcessing] other [of SProcessed] other [of SSubmitted]
      other [of SConfirmed] other [of SExecuted] other [of SSettled] other [of SFailed]
    by (cases u) (simp_all add: get_order_def)
qed

lemma book_inv_apply:
  assumes "book_inv b" "legal_update b u"
  shows "book_inv (apply_order_update b u)"
proof -
  have "{oid. in_status (apply_order_update b u) s oid} \<subseteq> insert (update_id u) {oid. in_status b s oid}" for s
    by (auto simp: in_status_apply split: if_splits)
  moreover have "finite {oid. in_status b s oid}" for s using assms(1) by (simp add: book_inv_def)
  ultimately have "finite {oid. in_status (apply_order_update b u) s oid}" for s
    by (metis finite_insert finite_subset)
  moreover have "s = t" if "in_status (apply_order_update b u) s oid" "in_status (apply_order_update b u) t oid" for oid s t
    using that apply_unique [OF assms] assms(1) by (cases "oid = update_id u") (auto simp: in_status_apply book_inv_def)
  ultimately show ?thesis by (auto simp: book_inv_def)
qed

lemma book_inv_empty: "book_inv (empty_book :: ('sg, 'pk) orders)"
proof -
  have "\<not> in_status (empty_book :: ('sg, 'pk) orders) s oid" for s oid by (cases s) (simp_all add: empty_book_def)
  then show ?thesis by (simp add: book_inv_def)
qed

interpretation order_book: state_machine "\<lambda>b. b = empty_book" book_step book_inv
  by unfold_locales (auto simp: book_inv_empty elim!: book_stepE intro: book_inv_apply)

text \<open>
  C36: the order book shows every order in exactly one status. In every book reached by legal
  updates (each finds its order absent, in the status it leaves, or repeated in its own), no id is
  in two status maps; applying a further legal update makes \<open>get_order\<close> return exactly that
  update for its id and leaves every other id's answer unchanged.
\<close>

theorem order_book_single_status:
  assumes "reachable (\<lambda>b. b = empty_book) book_step b"
  shows "(\<forall>oid s t. in_status b s oid \<longrightarrow> in_status b t oid \<longrightarrow> s = t)
    \<and> (legal_update b u \<longrightarrow> get_order (apply_order_update b u) (update_id u) = Some u
         \<and> (\<forall>oid. oid \<noteq> update_id u \<longrightarrow> get_order (apply_order_update b u) oid = get_order b oid))"
  using order_book.reachable_inv [OF assms] get_order_same get_order_other
  unfolding book_inv_def by blast

definition example_user :: account_id where
  "example_user = \<lparr>prefix = 1, suffix = 2\<rparr>"

definition example_details :: order_details where
  "example_details = \<lparr>asset_in = \<lparr>prefix = 3, suffix = 4\<rparr>, amount_in = 1000,
     asset_out = \<lparr>prefix = 5, suffix = 6\<rparr>, min_amount_out = 990\<rparr>"

definition example_intent :: intent where
  "example_intent = new_swap example_user (asset_in example_details) (amount_in example_details)
     (asset_out example_details) (min_amount_out example_details) (client_order_id_for_nonce 7 0) 1800000000"

definition example_order :: "(bytes, bytes, created) order" where
  "example_order = new_with_id 0 42 [1, 2] example_user example_details [3] example_intent"

lemma reachable_new: "reachable (\<lambda>b. b = empty_book) book_step (apply_order_update empty_book (UNew example_order))"
proof (rule reachable.next_state)
  show "reachable (\<lambda>b. b = (empty_book :: (bytes, bytes) orders)) book_step empty_book"
    by (rule reachable.start) simp
  have "\<not> in_status (empty_book :: (bytes, bytes) orders) s oid" for s oid
    by (cases s) (simp_all add: empty_book_def)
  then show "book_step empty_book (apply_order_update empty_book (UNew example_order))"
    by (intro book_step.intros) (simp add: legal_update_def)
qed

theorem order_book_single_status_witness:
  "get_order (apply_order_update (apply_order_update empty_book (UNew example_order))
      (UStartedProcessing (start_processing 5 example_order))) 42
   = Some (UStartedProcessing (start_processing 5 example_order))"
proof -
  let ?b = "apply_order_update empty_book (UNew example_order)"
  let ?u = "UStartedProcessing (start_processing 5 example_order)"
  have oid: "update_id ?u = 42" by (simp add: start_processing_def with_state_def example_order_def new_with_id_def)
  have "s = SCreated" if "in_status ?b s 42" for s
    using that by (cases s) (auto simp: empty_book_def)
  then have "legal_update ?b ?u" unfolding legal_update_def oid by auto
  then show ?thesis using order_book_single_status [OF reachable_new, of ?u] unfolding oid by blast
qed

lemma status_sets:
  "{oid. in_status b s oid} =
     (case s of SCreated \<Rightarrow> dom (book_new b) | SProcessing \<Rightarrow> dom (book_in_processing b)
      | SProcessed \<Rightarrow> dom (book_processed b) | SSubmitted \<Rightarrow> dom (book_submitted b)
      | SConfirmed \<Rightarrow> dom (book_confirmed b) | SExecuted \<Rightarrow> dom (book_executed b)
      | SSettled \<Rightarrow> dom (book_settled b) | SFailed \<Rightarrow> dom (book_failed b))"
  by (cases s) auto

lemma status_count_card: "status_count b s = card {oid. in_status b s oid}"
  unfolding status_sets status_count_def by (cases s) simp_all

lemma UNIV_order_status:
  "UNIV = {SCreated, SProcessing, SProcessed, SSubmitted, SConfirmed, SExecuted, SSettled, SFailed}"
proof -
  have "s \<in> {SCreated, SProcessing, SProcessed, SSubmitted, SConfirmed, SExecuted, SSettled, SFailed}" for s
    by (cases s) simp_all
  then show ?thesis by blast
qed

lemma finite_order_status: "finite (UNIV :: order_status set)"
  unfolding UNIV_order_status by simp

lemma stats_total_sum: "stats_total (stats b) = (\<Sum>s\<in>UNIV. status_count b s)"
  unfolding UNIV_order_status stats_def Let_def by simp

text \<open>
  The statistics count every order once. In every reachable book the total is the number of
  ids \<open>get_order\<close> knows, and open and closed orders add up to it.
\<close>

theorem order_stats_count_orders:
  assumes "reachable (\<lambda>b. b = empty_book) book_step b"
  shows "stats_total (stats b) = card {oid. get_order b oid \<noteq> None}
    \<and> stats_total (stats b) = stats_open (stats b) + stats_closed (stats b)"
proof -
  have inv: "book_inv b" by (rule order_book.reachable_inv [OF assms])
  have "{oid. get_order b oid \<noteq> None} = (\<Union>s. {oid. in_status b s oid})"
    by (auto simp: get_order_None_iff)
  moreover have "card (\<Union>s. {oid. in_status b s oid}) = (\<Sum>s\<in>UNIV. card {oid. in_status b s oid})"
    using inv by (intro card_UN_disjoint finite_order_status) (auto simp: book_inv_def)
  ultimately have "stats_total (stats b) = card {oid. get_order b oid \<noteq> None}"
    unfolding stats_total_sum status_count_card by simp
  moreover have "stats_total (stats b) = stats_open (stats b) + stats_closed (stats b)"
    by (simp add: stats_def Let_def)
  ultimately show ?thesis ..
qed

theorem order_stats_count_orders_witness:
  "stats_total (stats (apply_order_update empty_book (UNew example_order)))
   = card {oid. get_order (apply_order_update empty_book (UNew example_order)) oid \<noteq> None}"
  using order_stats_count_orders [OF reachable_new] by blast

section \<open>Restart\<close>

text \<open>The codecs round-trip: decoding what was encoded gives it back.\<close>

definition codec_ok :: "('sg, 'pk) codec \<Rightarrow> bool" where
  "codec_ok cd \<longleftrightarrow> (\<forall>bs. b64_decode cd (b64_encode cd bs) = Inr bs)
     \<and> (\<forall>sg. sig_from_bytes cd (sig_to_bytes cd sg) = Inr sg)
     \<and> (\<forall>pk. pk_from_bytes cd (pk_to_bytes cd pk) = Inr pk)"

text \<open>
  An admitted order survives a restart. Restoring the durable form of an order in any state
  succeeds when the codecs round-trip, keeps its id, user, details, intent, signature and public
  key, and what is restored has the same durable form again; the same holds when it is restored
  as a processed order, whose result is the recorded output.
\<close>

theorem durable_order_roundtrip:
  assumes "codec_ok cd"
  shows "into_created cd now (durable cd ord)
      = Inr (new_with_id now (order_id ord) (signed_order ord) (order_user_id ord) (order_details ord)
               (order_pubkey ord) (order_intent ord))
    \<and> (\<exists>pr. into_processed cd now now' now'' out (durable cd ord) = Inr pr
         \<and> durable cd pr = durable cd ord \<and> processed_result (state pr) = \<lparr>result_amount_out = out\<rparr>
         \<and> created_at (order_timing pr) = now \<and> t_processed (order_timing pr) = Some now'')"
  using assms
  by (simp add: codec_ok_def into_processed_def into_created_def durable_def processing_processed_def
      start_processing_def with_state_def new_with_id_def timing_processed_def timing_start_processing_def new_timing_def)

definition example_codec :: "(bytes, bytes) codec" where
  "example_codec = \<lparr>b64_encode = map (\<lambda>b. char_of (unat b)), b64_decode = \<lambda>s. Inr (map (\<lambda>ch. of_nat (of_char ch)) s),
     sig_to_bytes = \<lambda>s. s, sig_from_bytes = Inr, pk_to_bytes = \<lambda>s. s, pk_from_bytes = Inr\<rparr>"

lemma example_codec_ok: "codec_ok example_codec"
proof -
  have "of_nat (of_char (char_of (unat b) :: char)) = b" for b :: u8
    using unat_less_exp [of b] by (simp add: of_char_of)
  then show ?thesis by (simp add: codec_ok_def example_codec_def comp_def)
qed

theorem durable_order_roundtrip_witness:
  "\<exists>pr. into_processed example_codec 1 2 3 991 (durable example_codec example_order) = Inr pr
     \<and> durable example_codec pr = durable example_codec example_order"
  using durable_order_roundtrip [OF example_codec_ok, of 1 example_order 2 3 991] by blast

end
