(* ===== verification/Execution_Store.thy ===== *)
theory Execution_Store
  imports Orders Pool "HOL-Library.Product_Lexorder" "HOL-Library.List_Lexorder" "HOL-Library.Char_ord"
begin

text \<open>
  The durable execution store (\<open>src/src/execution_store.rs\<close>): nonce leases, admission, claiming,
  batching, submission, reconciliation, the lifecycle log and the outbox. The database is a record
  of tables; UUIDs and account ids stand for their text columns, order and batch states for their
  strings, and deduplication keys for the strings they are formatted to. The text order of UUIDs
  is the order of their 128-bit values. Random bytes, fresh UUIDs, the clock, the queue limit and
  the signature codecs are arguments.
\<close>

section \<open>Rows\<close>

datatype intent_reservation = RNew uuid | RExisting uuid | RConflict

record nonce_lease =
  lease_nonce :: u32
  lease_client_order_id :: uuid

record finalized_swap =
  fs_event_id :: uuid
  fs_user_id :: account_id
  fs_pool_id :: account_id
  fs_asset_in :: account_id
  fs_asset_out :: account_id
  fs_quote_asset :: string
  fs_amount_in :: u64
  fs_amount_out :: u64
  fs_quote_value :: u128
  fs_lp_fee_quote :: u128
  fs_protocol_fee_quote :: u128
  fs_backstop_fee_quote :: u128
  fs_volatility_fee_quote :: u128
  fs_requested_amount_out :: "u64 option"
  fs_quoted_amount_out :: "u64 option"
  fs_event_time :: u64

record swap_finalization =
  fin_user_id :: account_id
  fin_sell_faucet :: account_id
  fin_buy_faucet :: account_id
  fin_amount_in :: u64
  fin_amount_out :: u64
  fin_sell_before :: "u256 \<times> u256 \<times> u256"
  fin_sell_after :: "u256 \<times> u256 \<times> u256"
  fin_buy_before :: "u256 \<times> u256 \<times> u256"
  fin_buy_after :: "u256 \<times> u256 \<times> u256"
  fin_analytics_swap :: finalized_swap

record proposed_swap =
  ps_order_id :: uuid
  ps_user_id :: account_id
  ps_asset_in :: account_id
  ps_asset_out :: account_id
  ps_amount_in :: u64
  ps_amount_out :: u64
  ps_quoted_amount_out :: u256
  ps_raw_amount_out :: u256
  ps_lp_fee :: u256
  ps_backstop_fee :: u256
  ps_protocol_fee :: u256
  ps_volatility_fee :: u256
  ps_oracle_price_in :: "u64 option"
  ps_oracle_price_out :: "u64 option"
  ps_fee_version :: u64
  ps_finalization :: swap_finalization

record durable_batch_order =
  dbo_order :: durable_order
  dbo_amount_out :: u64

record ('sg, 'pk) claimed_execution_batch =
  claimed_id :: uuid
  claimed_orders :: "('sg, 'pk, processed) order list"

record batch_order_outcome =
  outcome_order_id :: uuid
  outcome_tx_hash :: "string option"
  outcome_error :: "string option"

record ('sg, 'pk) recovered_execution_batch =
  recovered_id :: uuid
  recovered_orders :: "('sg, 'pk, processed) order list"
  recovered_outcomes :: "batch_order_outcome list"

datatype order_row_state =
  Admitted | ProcessingClaimed | Batched | OrdSubmitted | OrdConfirmed | OrdExecuted | OrdFailed

datatype batch_row_state = Pending | Claimed | Reconciling | Terminal

datatype submission_row_state = SubSubmitted | SubConfirmed | SubFailed

datatype swap_row_status = Proposed | SwSubmitted | SwConfirmed | SwExecuted | SwFailed

record reservation_row =
  ir_client_order_id :: uuid
  ir_commitment :: string
  ir_order_id :: uuid
  ir_created_at :: int

record allocator_row =
  al_user_id :: account_id
  al_next_nonce :: int

record lease_row =
  nl_client_order_id :: uuid
  nl_user_id :: account_id
  nl_nonce :: int
  nl_created_at :: int

record order_row =
  do_order_id :: uuid
  do_client_order_id :: uuid
  do_order_nonce :: int
  do_payload :: "durable_order payload"
  do_state :: order_row_state
  do_claim_owner :: "string option"
  do_claim_until :: "int option"
  do_batch_id :: "uuid option"
  do_terminal_error :: "string option"
  do_tx_hash :: "string option"
  do_created_at :: int
  do_updated_at :: int

datatype dedupe_key =
    KAdmitted uuid
  | KProcessingClaim uuid string u64
  | KTerminal uuid
  | KBatched uuid
  | KSubmitted uuid

datatype event_detail = NoDetail | TextDetail string | BatchDetail uuid

record event_row =
  ev_order_id :: uuid
  ev_type :: string
  ev_detail :: event_detail
  ev_dedupe_key :: dedupe_key
  ev_created_at :: int

record batch_row =
  eb_batch_id :: uuid
  eb_payload :: "durable_batch_order list payload"
  eb_state :: batch_row_state
  eb_claim_owner :: "string option"
  eb_claim_until :: "int option"
  eb_terminal_error :: "string option"
  eb_created_at :: int
  eb_updated_at :: int

record submission_row =
  es_tx_hash :: string
  es_tx_id :: bytes
  es_batch_id :: uuid
  es_pool_id :: account_id
  es_order_ids :: "uuid list"
  es_transaction_update :: bytes
  es_expected_initial_state :: bytes
  es_expected_final_state :: bytes
  es_submission_height :: u32
  es_expiration_height :: u32
  es_state :: submission_row_state
  es_local_applied :: bool
  es_attempts :: int
  es_last_error :: "string option"
  es_submitted_at :: int
  es_updated_at :: int
  es_confirmed_block :: "u32 option"

record outbox_row =
  ob_topic :: string
  ob_aggregate_id :: uuid
  ob_created_at :: int
  ob_delivered_at :: "int option"

record swap_row =
  sw_order_id :: uuid
  sw_swap :: proposed_swap
  sw_amount_in :: int
  sw_amount_out :: int
  sw_retained_surplus :: u256
  sw_finalization :: "swap_finalization payload option"
  sw_status :: swap_row_status
  sw_tx_hash :: "string option"
  sw_created_at :: int
  sw_finalized_at :: "int option"

record snapshot_row =
  pr_faucet_id :: account_id
  pr_balances :: pool_balances
  pr_lp_total_supply :: int
  pr_beta :: i256
  pr_c :: i256
  pr_swap_fee :: u256
  pr_backstop_fee :: u256
  pr_protocol_fee :: u256
  pr_asset_decimals :: u8
  pr_updated_at :: int

record lp_note_row =
  ln_note_id :: string
  ln_faucet_id :: account_id
  ln_lp_shares :: int
  ln_applied_at :: int

text \<open>The outbox row id is its position, counted from one: rows are only ever appended.\<close>

record execution_db =
  pool_snapshots :: "snapshot_row list"
  applied_lp_notes :: "lp_note_row list"
  swap_accounting :: "swap_row list"
  intent_reservations :: "reservation_row list"
  user_nonce_allocators :: "allocator_row list"
  nonce_leases :: "lease_row list"
  durable_orders :: "order_row list"
  order_lifecycle_events :: "event_row list"
  execution_batches :: "batch_row list"
  execution_submissions :: "submission_row list"
  execution_outbox :: "outbox_row list"

definition open_db :: execution_db where
  "open_db =
     \<lparr>pool_snapshots = [], applied_lp_notes = [], swap_accounting = [], intent_reservations = [],
      user_nonce_allocators = [], nonce_leases = [], durable_orders = [],
      order_lifecycle_events = [], execution_batches = [], execution_submissions = [],
      execution_outbox = []\<rparr>"

text \<open>The codecs and the clock readings a restored order depends on.\<close>

record ('sg, 'pk) runtime =
  rt_codec :: "('sg, 'pk) codec"
  rt_clock :: date_time
  rt_from_millis :: "int \<Rightarrow> date_time option"

section \<open>Shared statements\<close>

definition append_event ::
  "execution_db \<Rightarrow> uuid \<Rightarrow> string \<Rightarrow> event_detail \<Rightarrow> dedupe_key \<Rightarrow> u64 \<Rightarrow> execution_db result" where
  "append_event db oid event_type detail key now =
     and_then (to_i64 now) (\<lambda>t.
       Inr (if sql_exists (\<lambda>r. ev_dedupe_key r = key) (order_lifecycle_events db) then db
            else db\<lparr>order_lifecycle_events := order_lifecycle_events db @
                      [\<lparr>ev_order_id = oid, ev_type = event_type, ev_detail = detail,
                        ev_dedupe_key = key, ev_created_at = t\<rparr>]\<rparr>))"

definition enqueue_outbox :: "execution_db \<Rightarrow> string \<Rightarrow> uuid \<Rightarrow> u64 \<Rightarrow> execution_db result" where
  "enqueue_outbox db topic aggregate now =
     and_then (to_i64 now) (\<lambda>t.
       Inr (if sql_exists (\<lambda>r. ob_topic r = topic \<and> ob_aggregate_id r = aggregate) (execution_outbox db) then db
            else db\<lparr>execution_outbox := execution_outbox db @
                      [\<lparr>ob_topic = topic, ob_aggregate_id = aggregate, ob_created_at = t,
                        ob_delivered_at = None\<rparr>]\<rparr>))"

definition mark_delivered :: "execution_db \<Rightarrow> string \<Rightarrow> uuid \<Rightarrow> int \<Rightarrow> execution_db" where
  "mark_delivered db topic aggregate t =
     db\<lparr>execution_outbox :=
          sql_update (\<lambda>r. ob_topic r = topic \<and> ob_aggregate_id r = aggregate \<and> ob_delivered_at r = None)
            (\<lambda>r. r\<lparr>ob_delivered_at := Some t\<rparr>) (execution_outbox db)\<rparr>"

definition update_orders :: "execution_db \<Rightarrow> (order_row \<Rightarrow> bool) \<Rightarrow> (order_row \<Rightarrow> order_row) \<Rightarrow> execution_db" where
  "update_orders db P f = db\<lparr>durable_orders := sql_update P f (durable_orders db)\<rparr>"

definition update_swaps :: "execution_db \<Rightarrow> (swap_row \<Rightarrow> bool) \<Rightarrow> (swap_row \<Rightarrow> swap_row) \<Rightarrow> execution_db" where
  "update_swaps db P f = db\<lparr>swap_accounting := sql_update P f (swap_accounting db)\<rparr>"

definition update_batches :: "execution_db \<Rightarrow> (batch_row \<Rightarrow> bool) \<Rightarrow> (batch_row \<Rightarrow> batch_row) \<Rightarrow> execution_db" where
  "update_batches db P f = db\<lparr>execution_batches := sql_update P f (execution_batches db)\<rparr>"

text \<open>The two partial unique indexes on the batches.\<close>

definition batch_indexes_ok :: "batch_row list \<Rightarrow> bool" where
  "batch_indexes_ok rows \<longleftrightarrow>
     sql_count (\<lambda>r. eb_state r = Pending) rows \<le> 1 \<and> sql_count (\<lambda>r. eb_state r = Claimed) rows \<le> 1"

definition insert_order ::
  "execution_db \<Rightarrow> uuid \<Rightarrow> uuid \<Rightarrow> u32 \<Rightarrow> durable_order \<Rightarrow> u64 \<Rightarrow> execution_db result" where
  "insert_order db oid client_id nonce payload now =
     and_then (to_i64 now) (\<lambda>t.
       if sql_exists (\<lambda>r. do_order_id r = oid \<or> do_client_order_id r = client_id) (durable_orders db)
       then Inl SqlConstraint
       else Inr (db\<lparr>durable_orders := durable_orders db @
              [\<lparr>do_order_id = oid, do_client_order_id = client_id, do_order_nonce = uint nonce,
                do_payload = Json payload, do_state = Admitted, do_claim_owner = None,
                do_claim_until = None, do_batch_id = None, do_terminal_error = None,
                do_tx_hash = None, do_created_at = t, do_updated_at = t\<rparr>]\<rparr>))"

fun finalize_batch_if_ready :: "execution_db \<Rightarrow> uuid \<Rightarrow> u64 \<Rightarrow> (bool \<times> execution_db) result" where
  "finalize_batch_if_ready db batch_id now =
     (if sql_count (\<lambda>r. do_batch_id r = Some batch_id
            \<and> do_state r \<notin> {OrdConfirmed, OrdExecuted, OrdFailed}) (durable_orders db) \<noteq> 0
      then Inr (False, db)
      else
        and_then (to_i64 now) (\<lambda>t.
        let terminal_error =
              (case find (\<lambda>r. do_batch_id r = Some batch_id \<and> do_terminal_error r \<noteq> None) (durable_orders db) of
                 None \<Rightarrow> None | Some r \<Rightarrow> do_terminal_error r);
            P = (\<lambda>r. eb_batch_id r = batch_id \<and> eb_state r \<in> {Claimed, Reconciling});
            changed = sql_count P (execution_batches db);
            db' = update_batches db P (\<lambda>r. r\<lparr>eb_state := Terminal, eb_terminal_error := terminal_error,
                    eb_claim_owner := None, eb_claim_until := None, eb_updated_at := t\<rparr>)
        in if changed = 1
           then and_then (enqueue_outbox db' ''batch_terminal'' batch_id now) (\<lambda>db''. Inr (True, db''))
           else Inr (False, db')))"

definition opt_to_i64 :: "u64 option \<Rightarrow> int option result" where
  "opt_to_i64 v = (case v of None \<Rightarrow> Inr None | Some x \<Rightarrow> and_then (to_i64 x) (\<lambda>i. Inr (Some i)))"

definition insert_proposed_swap :: "execution_db \<Rightarrow> proposed_swap \<Rightarrow> u64 \<Rightarrow> execution_db result" where
  "insert_proposed_swap db swap now =
     and_then (to_i64 (ps_amount_in swap)) (\<lambda>ai.
     and_then (to_i64 (ps_amount_out swap)) (\<lambda>ao.
     and_then (opt_to_i64 (ps_oracle_price_in swap)) (\<lambda>_.
     and_then (opt_to_i64 (ps_oracle_price_out swap)) (\<lambda>_.
     and_then (to_i64 (ps_fee_version swap)) (\<lambda>_.
     and_then (to_i64 now) (\<lambda>t.
       Inr (if sql_exists (\<lambda>r. sw_order_id r = ps_order_id swap) (swap_accounting db) then db
            else db\<lparr>swap_accounting := swap_accounting db @
              [\<lparr>sw_order_id = ps_order_id swap, sw_swap = swap, sw_amount_in = ai, sw_amount_out = ao,
                sw_retained_surplus = sat_sub (ps_quoted_amount_out swap) (ucast (ps_amount_out swap)),
                sw_finalization = Some (Json (ps_finalization swap)), sw_status = Proposed,
                sw_tx_hash = None, sw_created_at = t, sw_finalized_at = None\<rparr>]\<rparr>)))))))"

definition upsert_pool_state :: "execution_db \<Rightarrow> account_id \<Rightarrow> pool_state \<Rightarrow> u64 \<Rightarrow> execution_db result" where
  "upsert_pool_state db faucet_id st now =
     and_then (to_i64 (lp_total_supply st)) (\<lambda>supply.
     and_then (to_i64 now) (\<lambda>t.
       let row = \<lparr>pr_faucet_id = faucet_id, pr_balances = balances st, pr_lp_total_supply = supply,
                  pr_beta = settings_beta (settings st), pr_c = settings_c (settings st),
                  pr_swap_fee = swap_fee (settings st), pr_backstop_fee = backstop_fee (settings st),
                  pr_protocol_fee = protocol_fee (settings st),
                  pr_asset_decimals = asset_decimals (metadata st), pr_updated_at = t\<rparr>
       in Inr (db\<lparr>pool_snapshots :=
            (if sql_exists (\<lambda>r. pr_faucet_id r = faucet_id) (pool_snapshots db)
             then sql_update (\<lambda>r. pr_faucet_id r = faucet_id) (\<lambda>_. row) (pool_snapshots db)
             else pool_snapshots db @ [row])\<rparr>)))"

definition validate_nonce_lease :: "execution_db \<Rightarrow> uuid \<Rightarrow> account_id \<Rightarrow> u32 result" where
  "validate_nonce_lease db client_id user =
     (case find (\<lambda>r. nl_client_order_id r = client_id) (nonce_leases db) of
        None \<Rightarrow> Inl UnknownNonceLease
      | Some r \<Rightarrow>
          and_then (ok_or (to_u32 (nl_nonce r)) (Anyhow ''stored nonce lease overflowed u32'')) (\<lambda>nonce.
            if nl_user_id r \<noteq> user \<or> nonce \<noteq> nonce_from_client_order_id client_id
            then Inl NonceLeaseConflict else Inr nonce))"

section \<open>Nonce leases and admission\<close>

definition lease_tx :: "account_id \<Rightarrow> 96 word \<Rightarrow> u64 \<Rightarrow> execution_db \<Rightarrow> (nonce_lease \<times> execution_db) result" where
  "lease_tx user random now db =
     (let allocs = (if sql_exists (\<lambda>r. al_user_id r = user) (user_nonce_allocators db)
                    then user_nonce_allocators db
                    else user_nonce_allocators db @ [\<lparr>al_user_id = user, al_next_nonce = 0\<rparr>])
      in case find (\<lambda>r. al_user_id r = user) allocs of
           None \<Rightarrow> Inl SqlNoRows
         | Some r \<Rightarrow>
             and_then (ok_or (to_u32 (al_next_nonce r)) (Anyhow ''nonce allocator overflowed u32'')) (\<lambda>nonce.
             let client_id = client_order_id_for_nonce nonce random;
                 allocs' = sql_update (\<lambda>r. al_user_id r = user) (\<lambda>r. r\<lparr>al_next_nonce := uint nonce + 1\<rparr>) allocs
             in and_then (to_i64 now) (\<lambda>t.
                if sql_exists (\<lambda>r. nl_client_order_id r = client_id
                     \<or> (nl_user_id r = user \<and> nl_nonce r = uint nonce)) (nonce_leases db)
                then Inl SqlConstraint
                else Inr (\<lparr>lease_nonce = nonce, lease_client_order_id = client_id\<rparr>,
                  db\<lparr>user_nonce_allocators := allocs',
                     nonce_leases := nonce_leases db @
                       [\<lparr>nl_client_order_id = client_id, nl_user_id = user, nl_nonce = uint nonce,
                         nl_created_at = t\<rparr>]\<rparr>))))"

definition allocate_nonce_lease ::
  "account_id \<Rightarrow> 96 word \<Rightarrow> u64 \<Rightarrow> execution_db \<Rightarrow> (error + nonce_lease) \<times> execution_db" where
  "allocate_nonce_lease user random now = atomically (lease_tx user random now)"

definition reserve_tx :: "uuid \<Rightarrow> string \<Rightarrow> uuid \<Rightarrow> u64 \<Rightarrow> execution_db \<Rightarrow> (intent_reservation \<times> execution_db) result" where
  "reserve_tx client_id commitment proposed now db =
     and_then (to_i64 now) (\<lambda>t.
     if \<not> sql_exists (\<lambda>r. ir_client_order_id r = client_id \<or> ir_order_id r = proposed) (intent_reservations db)
     then Inr (RNew proposed,
       db\<lparr>intent_reservations := intent_reservations db @
         [\<lparr>ir_client_order_id = client_id, ir_commitment = commitment, ir_order_id = proposed,
           ir_created_at = t\<rparr>]\<rparr>)
     else case find (\<lambda>r. ir_client_order_id r = client_id) (intent_reservations db) of
            None \<Rightarrow> Inl (Anyhow ''intent reservation insert conflicted without a UUID row'')
          | Some r \<Rightarrow>
              if ir_commitment r \<noteq> commitment then Inr (RConflict, db)
              else Inr (RExisting (ir_order_id r), db))"

definition reserve_intent ::
  "uuid \<Rightarrow> string \<Rightarrow> uuid \<Rightarrow> u64 \<Rightarrow> execution_db \<Rightarrow> (error + intent_reservation) \<times> execution_db" where
  "reserve_intent client_id commitment proposed now = atomically (reserve_tx client_id commitment proposed now)"

text \<open>The admission transaction. The order is given with its durable form.\<close>

definition admit_tx ::
  "uuid \<Rightarrow> string \<Rightarrow> durable_order \<Rightarrow> u64 \<Rightarrow> nat \<Rightarrow> execution_db \<Rightarrow> (intent_reservation \<times> execution_db) result" where
  "admit_tx client_id commitment order now queue_limit db =
     and_then (validate_nonce_lease db client_id (dur_user_id order)) (\<lambda>nonce.
     case find (\<lambda>r. ir_client_order_id r = client_id) (intent_reservations db) of
       Some r \<Rightarrow>
         let oid = ir_order_id r;
             durable_exists = sql_exists (\<lambda>r. do_order_id r = oid) (durable_orders db)
         in and_then
              (if ir_commitment r = commitment \<and> \<not> durable_exists
               then and_then (insert_order db oid client_id nonce (order\<lparr>dur_id := oid\<rparr>) now) (\<lambda>db1.
                    and_then (append_event db1 oid ''admitted'' (TextDetail ''recovered reservation'')
                                (KAdmitted oid) now) (\<lambda>db2.
                    enqueue_outbox db2 ''order_admitted'' oid now))
               else Inr db) (\<lambda>db'.
            if ir_commitment r \<noteq> commitment then Inr (RConflict, db')
            else Inr (RExisting oid, db'))
     | None \<Rightarrow>
         let queued = sql_count (\<lambda>r. do_state r \<in> {Admitted, ProcessingClaimed}) (durable_orders db)
         in and_then (usize_i64 queue_limit) (\<lambda>limit.
            if limit \<le> queued then Inl QueueFull
            else
              let oid = dur_id order
              in and_then (to_i64 now) (\<lambda>t.
                 if sql_exists (\<lambda>r. ir_client_order_id r = client_id \<or> ir_order_id r = oid) (intent_reservations db)
                 then Inl SqlConstraint
                 else
                   let db0 = db\<lparr>intent_reservations := intent_reservations db @
                         [\<lparr>ir_client_order_id = client_id, ir_commitment = commitment,
                           ir_order_id = oid, ir_created_at = t\<rparr>]\<rparr>
                   in and_then (insert_order db0 oid client_id nonce order now) (\<lambda>db1.
                      and_then (append_event db1 oid ''admitted'' NoDetail (KAdmitted oid) now) (\<lambda>db2.
                      and_then (enqueue_outbox db2 ''order_admitted'' oid now) (\<lambda>db3.
                        Inr (RNew oid, db3)))))))"

definition admit_order_with_limit ::
  "('sg, 'pk) codec \<Rightarrow> uuid \<Rightarrow> string \<Rightarrow> ('sg, 'pk, created) order \<Rightarrow> u64 \<Rightarrow> nat
     \<Rightarrow> execution_db \<Rightarrow> (error + intent_reservation) \<times> execution_db" where
  "admit_order_with_limit cd client_id commitment order now queue_limit =
     atomically (admit_tx client_id commitment (durable cd order) now queue_limit)"

text \<open>\<open>max_admitted_orders\<close> is the parsed environment variable, if it parses.\<close>

definition max_admitted_orders :: "nat option \<Rightarrow> nat" where
  "max_admitted_orders env = max (case env of None \<Rightarrow> 64 | Some n \<Rightarrow> n) 1"

definition max_admitted_age_ms :: "u64 option \<Rightarrow> u64" where
  "max_admitted_age_ms env = max (case env of None \<Rightarrow> 60000 | Some n \<Rightarrow> n) 1"

definition admit_order ::
  "nat option \<Rightarrow> ('sg, 'pk) codec \<Rightarrow> uuid \<Rightarrow> string \<Rightarrow> ('sg, 'pk, created) order \<Rightarrow> u64
     \<Rightarrow> execution_db \<Rightarrow> (error + intent_reservation) \<times> execution_db" where
  "admit_order env cd client_id commitment order now =
     admit_order_with_limit cd client_id commitment order now (max_admitted_orders env)"

section \<open>Claiming admitted orders\<close>

definition claimable :: "int \<Rightarrow> order_row \<Rightarrow> bool" where
  "claimable t r \<longleftrightarrow>
     do_state r = Admitted
     \<or> (do_state r = ProcessingClaimed \<and> (case do_claim_until r of None \<Rightarrow> False | Some u \<Rightarrow> u < t))"

definition claim_one ::
  "('sg, 'pk) runtime \<Rightarrow> string \<Rightarrow> u64 \<Rightarrow> u64 \<Rightarrow> execution_db \<Rightarrow> order_row
     \<Rightarrow> (('sg, 'pk, created) order \<times> execution_db) result" where
  "claim_one rt worker now claim_until db row =
     and_then (from_sql_u64 (do_created_at row)) (\<lambda>admitted.
     and_then (to_i64 claim_until) (\<lambda>cu.
     and_then (to_i64 now) (\<lambda>t.
     let oid = do_order_id row;
         db1 = update_orders db (\<lambda>r. do_order_id r = oid)
                 (\<lambda>r. r\<lparr>do_state := ProcessingClaimed, do_claim_owner := Some worker,
                        do_claim_until := Some cu, do_updated_at := t\<rparr>)
     in and_then (append_event db1 oid ''processing_claimed'' (TextDetail worker)
                    (KProcessingClaim oid worker now) now) (\<lambda>db2.
        and_then (from_json (do_payload row)) (\<lambda>d.
        and_then (into_created (rt_codec rt) (rt_clock rt) d) (\<lambda>ord.
          Inr (with_admitted_at_ms (rt_from_millis rt) admitted ord,
               mark_delivered db2 ''order_admitted'' oid t)))))))"

fun claim_rows ::
  "('sg, 'pk) runtime \<Rightarrow> string \<Rightarrow> u64 \<Rightarrow> u64 \<Rightarrow> execution_db \<Rightarrow> order_row list
     \<Rightarrow> (('sg, 'pk, created) order list \<times> execution_db) result" where
  "claim_rows rt worker now claim_until db [] = Inr ([], db)"
| "claim_rows rt worker now claim_until db (row # rows) =
     and_then (claim_one rt worker now claim_until db row) (\<lambda>(ord, db').
     and_then (claim_rows rt worker now claim_until db' rows) (\<lambda>(ords, db'').
       Inr (ord # ords, db'')))"

definition claim_tx ::
  "('sg, 'pk) runtime \<Rightarrow> string \<Rightarrow> u64 \<Rightarrow> u64 \<Rightarrow> nat \<Rightarrow> execution_db
     \<Rightarrow> (('sg, 'pk, created) order list \<times> execution_db) result" where
  "claim_tx rt worker now lease_ms limit db =
     (if sql_exists (\<lambda>b. eb_state b = Pending) (execution_batches db) then Inr ([], db)
      else
        and_then (to_i64 now) (\<lambda>t.
        and_then (usize_i64 limit) (\<lambda>n.
        let rows = take n (sort_key (\<lambda>r. (do_created_at r, do_order_id r))
                             (filter (claimable t) (durable_orders db)))
        in claim_rows rt worker now (sat_add now lease_ms) db rows)))"

definition claim_admitted_orders ::
  "('sg, 'pk) runtime \<Rightarrow> string \<Rightarrow> u64 \<Rightarrow> u64 \<Rightarrow> nat \<Rightarrow> execution_db
     \<Rightarrow> (error + ('sg, 'pk, created) order list) \<times> execution_db" where
  "claim_admitted_orders rt worker now lease_ms limit = atomically (claim_tx rt worker now lease_ms limit)"

definition fail_row :: "string \<Rightarrow> int \<Rightarrow> order_row \<Rightarrow> order_row" where
  "fail_row reason t r =
     r\<lparr>do_state := OrdFailed, do_terminal_error := Some reason, do_claim_owner := None,
       do_claim_until := None, do_updated_at := t\<rparr>"

definition fail_claimed_tx ::
  "uuid \<Rightarrow> string \<Rightarrow> string \<Rightarrow> u64 \<Rightarrow> execution_db \<Rightarrow> (bool \<times> execution_db) result" where
  "fail_claimed_tx oid worker reason now db =
     and_then (to_i64 now) (\<lambda>t.
     let P = (\<lambda>r. do_order_id r = oid \<and> do_state r = ProcessingClaimed \<and> do_claim_owner r = Some worker);
         changed = sql_count P (durable_orders db);
         db' = update_orders db P (fail_row reason t)
     in if changed = 1
        then and_then (append_event db' oid ''failed'' (TextDetail reason) (KTerminal oid) now) (\<lambda>db''. Inr (True, db''))
        else Inr (False, db'))"

definition fail_claimed_order ::
  "uuid \<Rightarrow> string \<Rightarrow> string \<Rightarrow> u64 \<Rightarrow> execution_db \<Rightarrow> (error + bool) \<times> execution_db" where
  "fail_claimed_order oid worker reason now = atomically (fail_claimed_tx oid worker reason now)"

definition prebatch :: "order_row \<Rightarrow> bool" where
  "prebatch r \<longleftrightarrow> do_state r \<in> {Admitted, ProcessingClaimed}"

fun split_payloads :: "order_row list \<Rightarrow> durable_order list \<times> uuid list" where
  "split_payloads [] = ([], [])"
| "split_payloads (r # rs) =
     (let (ords, bad) = split_payloads rs
      in case do_payload r of Json d \<Rightarrow> (d # ords, bad) | Unreadable \<Rightarrow> (ords, do_order_id r # bad))"

definition list_prebatch_orders :: "execution_db \<Rightarrow> durable_order list \<times> uuid list" where
  "list_prebatch_orders db = split_payloads (filter prebatch (durable_orders db))"

fun fail_ids :: "uuid list \<Rightarrow> string \<Rightarrow> u64 \<Rightarrow> execution_db \<Rightarrow> (nat \<times> execution_db) result" where
  "fail_ids [] reason now db = Inr (0, db)"
| "fail_ids (oid # ids) reason now db =
     and_then (to_i64 now) (\<lambda>t.
     let P = (\<lambda>r. do_order_id r = oid \<and> prebatch r);
         changed = sql_count P (durable_orders db);
         db1 = update_orders db P (fail_row reason t)
     in and_then (if changed = 1
                  then append_event db1 oid ''failed'' (TextDetail reason) (KTerminal oid) now
                  else Inr db1) (\<lambda>db2.
        and_then (fail_ids ids reason now db2) (\<lambda>(n, db3).
          Inr ((if changed = 1 then Suc n else n), db3))))"

definition fail_orders_by_ids ::
  "uuid list \<Rightarrow> string \<Rightarrow> u64 \<Rightarrow> execution_db \<Rightarrow> (error + nat) \<times> execution_db" where
  "fail_orders_by_ids ids reason now db =
     (if ids = [] then (Inr 0, db) else atomically (fail_ids ids reason now) db)"

definition fail_stale_prebatch_orders ::
  "(durable_order \<Rightarrow> bool) \<Rightarrow> string \<Rightarrow> u64 \<Rightarrow> execution_db \<Rightarrow> (error + nat) \<times> execution_db" where
  "fail_stale_prebatch_orders is_stale reason now db =
     (let (ords, bad) = list_prebatch_orders db
      in fail_orders_by_ids (bad @ map dur_id (filter is_stale ords)) reason now db)"

section \<open>Batches\<close>

fun batch_orders :: "string \<Rightarrow> uuid \<Rightarrow> uuid list \<Rightarrow> u64 \<Rightarrow> execution_db \<Rightarrow> execution_db result" where
  "batch_orders worker batch_id [] now db = Inr db"
| "batch_orders worker batch_id (oid # ids) now db =
     and_then (to_i64 now) (\<lambda>t.
     let P = (\<lambda>r. do_order_id r = oid \<and> do_state r = ProcessingClaimed \<and> do_claim_owner r = Some worker);
         changed = sql_count P (durable_orders db);
         db1 = update_orders db P (\<lambda>r. r\<lparr>do_state := Batched, do_batch_id := Some batch_id,
                 do_claim_owner := None, do_claim_until := None, do_updated_at := t\<rparr>)
     in if changed \<noteq> 1 then Inl (Anyhow ''order is not claimed by worker'')
        else and_then (append_event db1 oid ''batched'' (BatchDetail batch_id) (KBatched oid) now)
               (batch_orders worker batch_id ids now))"

fun insert_swaps :: "proposed_swap list \<Rightarrow> u64 \<Rightarrow> execution_db \<Rightarrow> execution_db result" where
  "insert_swaps [] now db = Inr db"
| "insert_swaps (s # ss) now db = and_then (insert_proposed_swap db s now) (insert_swaps ss now)"

definition insert_batch ::
  "uuid \<Rightarrow> durable_batch_order list \<Rightarrow> u64 \<Rightarrow> execution_db \<Rightarrow> execution_db result" where
  "insert_batch batch_id payload now db =
     and_then (to_i64 now) (\<lambda>t.
     let rows = execution_batches db @
           [\<lparr>eb_batch_id = batch_id, eb_payload = Json payload, eb_state = Pending,
             eb_claim_owner = None, eb_claim_until = None, eb_terminal_error = None,
             eb_created_at = t, eb_updated_at = t\<rparr>]
     in if sql_exists (\<lambda>r. eb_batch_id r = batch_id) (execution_batches db) \<or> \<not> batch_indexes_ok rows
        then Inl SqlConstraint else Inr (db\<lparr>execution_batches := rows\<rparr>))"

definition create_batch_tx ::
  "string \<Rightarrow> uuid \<Rightarrow> durable_batch_order list \<Rightarrow> proposed_swap list \<Rightarrow> u64 \<Rightarrow> execution_db
     \<Rightarrow> (uuid option \<times> execution_db) result" where
  "create_batch_tx worker batch_id entries swaps now db =
     and_then (batch_orders worker batch_id (map (\<lambda>e. dur_id (dbo_order e)) entries) now db) (\<lambda>db1.
     and_then (insert_swaps swaps now db1) (\<lambda>db2.
     and_then (insert_batch batch_id entries now db2) (\<lambda>db3.
     and_then (enqueue_outbox db3 ''batch_pending'' batch_id now) (\<lambda>db4.
       Inr (Some batch_id, db4)))))"

definition batch_entries :: "('sg, 'pk) codec \<Rightarrow> ('sg, 'pk, processed) order list \<Rightarrow> durable_batch_order list" where
  "batch_entries cd orders =
     map (\<lambda>ord. \<lparr>dbo_order = durable cd ord, dbo_amount_out = result_amount_out (processed_result (state ord))\<rparr>) orders"

definition create_execution_batch ::
  "('sg, 'pk) codec \<Rightarrow> string \<Rightarrow> uuid \<Rightarrow> ('sg, 'pk, processed) order list \<Rightarrow> proposed_swap list \<Rightarrow> u64
     \<Rightarrow> execution_db \<Rightarrow> (error + uuid option) \<times> execution_db" where
  "create_execution_batch cd worker batch_id orders swaps now db =
     (if orders = [] then (Inr None, db)
      else if length orders \<noteq> length swaps
      then (Inl (Anyhow ''processed orders and proposed swaps differ in length''), db)
      else if \<not> list_all2 (\<lambda>ord s. ps_order_id s = order_id ord) orders swaps
      then (Inl (Anyhow ''proposed swap does not match processed order''), db)
      else atomically (create_batch_tx worker batch_id (batch_entries cd orders) swaps now) db)"

definition begin_reconciliation_tx ::
  "uuid \<Rightarrow> string \<Rightarrow> u64 \<Rightarrow> execution_db \<Rightarrow> (bool \<times> execution_db) result" where
  "begin_reconciliation_tx batch_id worker now db =
     (if sql_count (\<lambda>r. do_batch_id r = Some batch_id \<and> do_state r = Batched) (durable_orders db) \<noteq> 0
      then Inl (Anyhow ''batch still has unsubmitted orders'')
      else
        and_then (to_i64 now) (\<lambda>t.
        let P = (\<lambda>r. eb_batch_id r = batch_id \<and> eb_state r = Claimed \<and> eb_claim_owner r = Some worker);
            changed = sql_count P (execution_batches db);
            db' = update_batches db P (\<lambda>r. r\<lparr>eb_state := Reconciling, eb_claim_owner := None,
                    eb_claim_until := None, eb_updated_at := t\<rparr>)
        in if changed = 1
           then and_then (finalize_batch_if_ready db' batch_id now) (\<lambda>(_, db''). Inr (True, db''))
           else Inr (False, db')))"

definition begin_reconciliation ::
  "uuid \<Rightarrow> string \<Rightarrow> u64 \<Rightarrow> execution_db \<Rightarrow> (error + bool) \<times> execution_db" where
  "begin_reconciliation batch_id worker now = atomically (begin_reconciliation_tx batch_id worker now)"

definition batch_claimable :: "int \<Rightarrow> batch_row list \<Rightarrow> batch_row \<Rightarrow> bool" where
  "batch_claimable t rows r \<longleftrightarrow>
     (eb_state r = Claimed \<and> (case eb_claim_until r of None \<Rightarrow> False | Some u \<Rightarrow> u < t))
     \<or> (eb_state r = Pending \<and>
         \<not> sql_exists (\<lambda>b. eb_state b = Claimed \<and> (case eb_claim_until b of None \<Rightarrow> True | Some u \<Rightarrow> t \<le> u)) rows)"

text \<open>The first transaction: pick a batch, preferring an expired claim, and take it.\<close>

definition claim_batch_tx ::
  "string \<Rightarrow> u64 \<Rightarrow> u64 \<Rightarrow> execution_db \<Rightarrow> (batch_row option \<times> execution_db) result" where
  "claim_batch_tx worker now lease_ms db =
     and_then (to_i64 now) (\<lambda>t.
     case sort_key (\<lambda>r. (if eb_state r = Claimed then 0 else 1 :: int, eb_created_at r))
            (filter (batch_claimable t (execution_batches db)) (execution_batches db)) of
       [] \<Rightarrow> Inr (None, db)
     | row # _ \<Rightarrow>
         and_then (to_i64 (sat_add now lease_ms)) (\<lambda>cu.
         let db' = update_batches db (\<lambda>r. eb_batch_id r = eb_batch_id row)
               (\<lambda>r. r\<lparr>eb_state := Claimed, eb_claim_owner := Some worker, eb_claim_until := Some cu,
                      eb_updated_at := t\<rparr>)
         in if \<not> batch_indexes_ok (execution_batches db') then Inl SqlConstraint
            else Inr (Some row, mark_delivered db' ''batch_pending'' (eb_batch_id row) t)))"

text \<open>Then the orders of the batch that still await submission, read outside the transaction.\<close>

fun batched_orders ::
  "('sg, 'pk) runtime \<Rightarrow> execution_db \<Rightarrow> uuid \<Rightarrow> durable_batch_order list \<Rightarrow> ('sg, 'pk, processed) order list result" where
  "batched_orders rt db batch_id [] = Inr []"
| "batched_orders rt db batch_id (e # es) =
     (case find (\<lambda>r. do_order_id r = dur_id (dbo_order e) \<and> do_batch_id r = Some batch_id) (durable_orders db) of
        None \<Rightarrow> Inl SqlNoRows
      | Some r \<Rightarrow>
          if do_state r = Batched
          then and_then (into_processed (rt_codec rt) (rt_clock rt) (rt_clock rt) (rt_clock rt)
                           (dbo_amount_out e) (dbo_order e)) (\<lambda>ord.
               and_then (batched_orders rt db batch_id es) (\<lambda>ords. Inr (ord # ords)))
          else batched_orders rt db batch_id es)"

definition claim_pending_batch ::
  "('sg, 'pk) runtime \<Rightarrow> string \<Rightarrow> u64 \<Rightarrow> u64 \<Rightarrow> execution_db
     \<Rightarrow> (error + ('sg, 'pk) claimed_execution_batch option) \<times> execution_db" where
  "claim_pending_batch rt worker now lease_ms db =
     (case atomically (claim_batch_tx worker now lease_ms) db of
        (Inl e, db') \<Rightarrow> (Inl e, db')
      | (Inr None, db') \<Rightarrow> (Inr None, db')
      | (Inr (Some row), db') \<Rightarrow>
          (case and_then (from_json (eb_payload row)) (batched_orders rt db' (eb_batch_id row)) of
             Inl e \<Rightarrow> (Inl e, db')
           | Inr [] \<Rightarrow>
               (case begin_reconciliation (eb_batch_id row) worker now db' of
                  (Inl e, db'') \<Rightarrow> (Inl e, db'')
                | (Inr _, db'') \<Rightarrow> (Inr None, db''))
           | Inr orders \<Rightarrow> (Inr (Some \<lparr>claimed_id = eb_batch_id row, claimed_orders = orders\<rparr>), db')))"

section \<open>Submission and completion\<close>

definition has_order :: "uuid \<Rightarrow> swap_row \<Rightarrow> bool" where
  "has_order oid r \<longleftrightarrow> sw_order_id r = oid"

definition fail_proposed_swap :: "uuid \<Rightarrow> int \<Rightarrow> execution_db \<Rightarrow> execution_db" where
  "fail_proposed_swap oid t db =
     update_swaps db (\<lambda>r. has_order oid r \<and> sw_status r = Proposed)
       (\<lambda>r. r\<lparr>sw_status := SwFailed, sw_finalized_at := Some t\<rparr>)"

definition opt_detail :: "string option \<Rightarrow> event_detail" where
  "opt_detail s = (case s of None \<Rightarrow> NoDetail | Some x \<Rightarrow> TextDetail x)"

fun complete_outcomes ::
  "uuid \<Rightarrow> batch_order_outcome list \<Rightarrow> u64 \<Rightarrow> execution_db \<Rightarrow> execution_db result" where
  "complete_outcomes batch_id [] now db = Inr db"
| "complete_outcomes batch_id (out # outs) now db =
     and_then (to_i64 now) (\<lambda>t.
     let oid = outcome_order_id out;
         st = (if outcome_error out \<noteq> None then OrdFailed else OrdExecuted);
         event = (if outcome_error out \<noteq> None then ''failed'' else ''executed'');
         db1 = update_orders db (\<lambda>r. do_order_id r = oid \<and> do_batch_id r = Some batch_id \<and> do_state r = Batched)
                 (\<lambda>r. r\<lparr>do_state := st, do_tx_hash := outcome_tx_hash out,
                        do_terminal_error := outcome_error out, do_updated_at := t\<rparr>)
     in and_then (append_event db1 oid event
                    (opt_detail (case outcome_error out of Some e \<Rightarrow> Some e | None \<Rightarrow> outcome_tx_hash out))
                    (KTerminal oid) now) (\<lambda>db2.
        let db3 = (if outcome_error out \<noteq> None then fail_proposed_swap oid t db2
                   else update_swaps db2 (\<lambda>r. has_order oid r \<and> sw_status r = Proposed)
                          (\<lambda>r. r\<lparr>sw_status := SwExecuted,
                                 sw_tx_hash := (case outcome_tx_hash out of None \<Rightarrow> sw_tx_hash r | Some h \<Rightarrow> Some h),
                                 sw_finalized_at := Some t\<rparr>))
        in complete_outcomes batch_id outs now db3))"

definition first_error :: "batch_order_outcome list \<Rightarrow> string option" where
  "first_error outs =
     (case find (\<lambda>x. outcome_error x \<noteq> None) outs of None \<Rightarrow> None | Some x \<Rightarrow> outcome_error x)"

definition complete_batch_tx ::
  "uuid \<Rightarrow> string \<Rightarrow> batch_order_outcome list \<Rightarrow> u64 \<Rightarrow> execution_db \<Rightarrow> (bool \<times> execution_db) result" where
  "complete_batch_tx batch_id worker outcomes now db =
     (case find (\<lambda>r. eb_batch_id r = batch_id \<and> eb_state r = Claimed \<and> eb_claim_owner r = Some worker)
             (execution_batches db) of
        None \<Rightarrow> Inr (False, db)
      | Some row \<Rightarrow>
          and_then (from_json (eb_payload row)) (\<lambda>entries.
          let expected = set (map (\<lambda>e. dur_id (dbo_order e)) entries);
              actual = set (map outcome_order_id outcomes)
          in if expected \<noteq> actual \<or> length outcomes \<noteq> card expected
             then Inl (Anyhow ''batch cannot become terminal until every order has one outcome'')
             else
               and_then (complete_outcomes batch_id outcomes now db) (\<lambda>db1.
               and_then (to_i64 now) (\<lambda>t.
               let db2 = update_batches db1 (\<lambda>r. eb_batch_id r = batch_id \<and> eb_claim_owner r = Some worker)
                     (\<lambda>r. r\<lparr>eb_state := Terminal, eb_terminal_error := first_error outcomes,
                            eb_claim_owner := None, eb_claim_until := None, eb_updated_at := t\<rparr>)
               in and_then (enqueue_outbox db2 ''batch_terminal'' batch_id now) (\<lambda>db3. Inr (True, db3))))))"

definition complete_batch ::
  "uuid \<Rightarrow> string \<Rightarrow> batch_order_outcome list \<Rightarrow> u64 \<Rightarrow> execution_db \<Rightarrow> (error + bool) \<times> execution_db" where
  "complete_batch batch_id worker outcomes now = atomically (complete_batch_tx batch_id worker outcomes now)"

fun submit_orders :: "uuid \<Rightarrow> string \<Rightarrow> uuid list \<Rightarrow> u64 \<Rightarrow> execution_db \<Rightarrow> execution_db result" where
  "submit_orders batch_id tx_hash [] now db = Inr db"
| "submit_orders batch_id tx_hash (oid # ids) now db =
     and_then (to_i64 now) (\<lambda>t.
     let P = (\<lambda>r. do_order_id r = oid \<and> do_batch_id r = Some batch_id \<and> do_state r = Batched);
         changed = sql_count P (durable_orders db);
         db1 = update_orders db P (\<lambda>r. r\<lparr>do_state := OrdSubmitted, do_tx_hash := Some tx_hash, do_updated_at := t\<rparr>)
     in if changed \<noteq> 1 then Inl (Anyhow ''order was not awaiting submission'')
        else
          let db2 = update_swaps db1 (\<lambda>r. has_order oid r \<and> sw_status r = Proposed)
                (\<lambda>r. r\<lparr>sw_status := SwSubmitted, sw_tx_hash := Some tx_hash\<rparr>)
          in and_then (append_event db2 oid ''submitted'' (TextDetail tx_hash) (KSubmitted oid) now)
               (submit_orders batch_id tx_hash ids now))"

definition owned_claim :: "uuid \<Rightarrow> string \<Rightarrow> batch_row \<Rightarrow> bool" where
  "owned_claim batch_id worker r \<longleftrightarrow>
     eb_batch_id r = batch_id \<and> eb_state r = Claimed \<and> eb_claim_owner r = Some worker"

text \<open>The row to insert carries the transaction's columns; its state, time and batch are set here.\<close>

definition record_submission_tx ::
  "uuid \<Rightarrow> string \<Rightarrow> submission_row \<Rightarrow> u64 \<Rightarrow> execution_db \<Rightarrow> (bool \<times> execution_db) result" where
  "record_submission_tx batch_id worker sub now db =
     (if \<not> sql_exists (owned_claim batch_id worker) (execution_batches db) then Inr (False, db)
      else
        and_then (to_i64 now) (\<lambda>t.
        if sql_exists (\<lambda>r. es_tx_hash r = es_tx_hash sub) (execution_submissions db) then Inr (True, db)
        else
          let row = sub\<lparr>es_batch_id := batch_id, es_state := SubSubmitted, es_local_applied := False,
                es_attempts := 0, es_last_error := None, es_submitted_at := t, es_updated_at := t,
                es_confirmed_block := None\<rparr>;
              db1 = db\<lparr>execution_submissions := execution_submissions db @ [row]\<rparr>
          in and_then (submit_orders batch_id (es_tx_hash sub) (es_order_ids sub) now db1) (\<lambda>db2.
               Inr (True, db2))))"

definition record_submission ::
  "uuid \<Rightarrow> string \<Rightarrow> submission_row \<Rightarrow> u64 \<Rightarrow> execution_db \<Rightarrow> (error + bool) \<times> execution_db" where
  "record_submission batch_id worker sub now = atomically (record_submission_tx batch_id worker sub now)"

definition fail_batched_row :: "string \<Rightarrow> int \<Rightarrow> order_row \<Rightarrow> order_row" where
  "fail_batched_row reason t r =
     r\<lparr>do_state := OrdFailed, do_terminal_error := Some reason, do_updated_at := t\<rparr>"

fun pre_submission_fail ::
  "uuid \<Rightarrow> string \<Rightarrow> uuid list \<Rightarrow> string \<Rightarrow> u64 \<Rightarrow> execution_db \<Rightarrow> execution_db result" where
  "pre_submission_fail batch_id worker [] reason now db = Inr db"
| "pre_submission_fail batch_id worker (oid # ids) reason now db =
     and_then (to_i64 now) (\<lambda>t.
     let P = (\<lambda>r. do_order_id r = oid \<and> do_batch_id r = Some batch_id \<and> do_state r = Batched
               \<and> sql_exists (owned_claim batch_id worker) (execution_batches db));
         changed = sql_count P (durable_orders db);
         db1 = update_orders db P (fail_batched_row reason t)
     in and_then (if changed = 1
                  then append_event (fail_proposed_swap oid t db1) oid ''failed'' (TextDetail reason) (KTerminal oid) now
                  else Inr db1)
          (pre_submission_fail batch_id worker ids reason now))"

definition mark_pre_submission_failed ::
  "uuid \<Rightarrow> string \<Rightarrow> uuid list \<Rightarrow> string \<Rightarrow> u64 \<Rightarrow> execution_db \<Rightarrow> (error + unit) \<times> execution_db" where
  "mark_pre_submission_failed batch_id worker ids reason now =
     atomically (\<lambda>db. and_then (pre_submission_fail batch_id worker ids reason now db) (\<lambda>db'. Inr ((), db')))"

fun fail_remaining :: "uuid \<Rightarrow> uuid list \<Rightarrow> string \<Rightarrow> u64 \<Rightarrow> execution_db \<Rightarrow> (uuid list \<times> execution_db) result" where
  "fail_remaining batch_id [] reason now db = Inr ([], db)"
| "fail_remaining batch_id (oid # ids) reason now db =
     and_then (to_i64 now) (\<lambda>t.
     let P = (\<lambda>r. do_order_id r = oid \<and> do_batch_id r = Some batch_id \<and> do_state r = Batched);
         changed = sql_count P (durable_orders db);
         db1 = update_orders db P (fail_batched_row reason t)
     in if changed \<noteq> 1 then fail_remaining batch_id ids reason now db1
        else
          and_then (append_event (fail_proposed_swap oid t db1) oid ''failed'' (TextDetail reason) (KTerminal oid) now) (\<lambda>db2.
          and_then (fail_remaining batch_id ids reason now db2) (\<lambda>(failed, db3).
            Inr (oid # failed, db3))))"

definition fail_remaining_batched_orders ::
  "uuid \<Rightarrow> string \<Rightarrow> string \<Rightarrow> u64 \<Rightarrow> execution_db \<Rightarrow> (error + uuid list) \<times> execution_db" where
  "fail_remaining_batched_orders batch_id worker reason now =
     atomically (\<lambda>db.
       let rows = (if sql_exists (owned_claim batch_id worker) (execution_batches db)
                   then filter (\<lambda>r. do_batch_id r = Some batch_id \<and> do_state r = Batched) (durable_orders db)
                   else [])
       in fail_remaining batch_id
            (map do_order_id (sort_key (\<lambda>r. (do_created_at r, do_order_id r)) rows)) reason now db)"

section \<open>Reconciliation\<close>

text \<open>The listed columns convert back to unsigned integers or the whole listing fails.\<close>

definition submission_converts :: "submission_row \<Rightarrow> bool" where
  "submission_converts r \<longleftrightarrow> to_u32 (es_attempts r) \<noteq> None \<and> 0 \<le> es_submitted_at r \<and> 0 \<le> es_updated_at r"

definition submitted_transactions :: "execution_db \<Rightarrow> submission_row list result" where
  "submitted_transactions db =
     (let rows = sort_key (\<lambda>r. (es_submitted_at r, es_tx_hash r))
                   (filter (\<lambda>r. es_state r = SubSubmitted) (execution_submissions db))
      in if list_all submission_converts rows then Inr rows else Inl (Anyhow ''out of range integral type conversion''))"

definition update_submissions ::
  "execution_db \<Rightarrow> (submission_row \<Rightarrow> bool) \<Rightarrow> (submission_row \<Rightarrow> submission_row) \<Rightarrow> execution_db" where
  "update_submissions db P f = db\<lparr>execution_submissions := sql_update P f (execution_submissions db)\<rparr>"

definition mark_submission_local_applied :: "string \<Rightarrow> u64 \<Rightarrow> execution_db \<Rightarrow> (error + unit) \<times> execution_db" where
  "mark_submission_local_applied tx_hash now =
     atomically (\<lambda>db. and_then (to_i64 now) (\<lambda>t.
       Inr ((), update_submissions db (\<lambda>r. es_tx_hash r = tx_hash \<and> es_state r = SubSubmitted)
                  (\<lambda>r. r\<lparr>es_local_applied := True, es_last_error := None, es_updated_at := t\<rparr>))))"

definition record_reconciliation_attempt ::
  "string \<Rightarrow> string option \<Rightarrow> u64 \<Rightarrow> execution_db \<Rightarrow> (error + unit) \<times> execution_db" where
  "record_reconciliation_attempt tx_hash err now =
     atomically (\<lambda>db. and_then (to_i64 now) (\<lambda>t.
       Inr ((), update_submissions db (\<lambda>r. es_tx_hash r = tx_hash \<and> es_state r = SubSubmitted)
                  (\<lambda>r. r\<lparr>es_attempts := es_attempts r + 1, es_last_error := err, es_updated_at := t\<rparr>))))"

fun resolve_orders ::
  "string \<Rightarrow> bool \<Rightarrow> string option \<Rightarrow> uuid list \<Rightarrow> u64 \<Rightarrow> execution_db \<Rightarrow> execution_db result" where
  "resolve_orders tx_hash is_confirmed reason [] now db = Inr db"
| "resolve_orders tx_hash is_confirmed reason (oid # ids) now db =
     and_then (to_i64 now) (\<lambda>t.
     let db1 = update_orders db (\<lambda>r. do_order_id r = oid \<and> do_state r = OrdSubmitted \<and> do_tx_hash r = Some tx_hash)
                 (\<lambda>r. r\<lparr>do_state := (if is_confirmed then OrdConfirmed else OrdFailed),
                        do_terminal_error := reason, do_updated_at := t\<rparr>);
         db2 = update_swaps db1 (\<lambda>r. has_order oid r \<and> sw_status r = SwSubmitted)
                 (\<lambda>r. r\<lparr>sw_status := (if is_confirmed then SwConfirmed else SwFailed), sw_finalized_at := Some t\<rparr>)
     in and_then (append_event db2 oid (if is_confirmed then ''confirmed'' else ''failed'')
                    (TextDetail (case reason of None \<Rightarrow> tx_hash | Some x \<Rightarrow> x)) (KTerminal oid) now)
          (resolve_orders tx_hash is_confirmed reason ids now))"

definition resolve_submission_tx ::
  "string \<Rightarrow> bool \<Rightarrow> u32 option \<Rightarrow> string option \<Rightarrow> u64 \<Rightarrow> execution_db \<Rightarrow> (bool \<times> execution_db) result" where
  "resolve_submission_tx tx_hash is_confirmed block reason now db =
     (case find (\<lambda>r. es_tx_hash r = tx_hash \<and> es_state r = SubSubmitted) (execution_submissions db) of
        None \<Rightarrow> Inr (False, db)
      | Some row \<Rightarrow>
          and_then (to_i64 now) (\<lambda>t.
          let db1 = update_submissions db (\<lambda>r. es_tx_hash r = tx_hash)
                (\<lambda>r. r\<lparr>es_state := (if is_confirmed then SubConfirmed else SubFailed),
                       es_confirmed_block := block, es_last_error := reason, es_updated_at := t\<rparr>)
          in and_then (resolve_orders tx_hash is_confirmed reason (es_order_ids row) now db1) (\<lambda>db2.
             and_then (finalize_batch_if_ready db2 (es_batch_id row) now) (\<lambda>(_, db3).
               Inr (True, db3)))))"

definition resolve_submission ::
  "string \<Rightarrow> bool \<Rightarrow> u32 option \<Rightarrow> string option \<Rightarrow> u64 \<Rightarrow> execution_db \<Rightarrow> (error + bool) \<times> execution_db" where
  "resolve_submission tx_hash is_confirmed block reason now =
     atomically (resolve_submission_tx tx_hash is_confirmed block reason now)"

definition confirm_submission :: "string \<Rightarrow> u32 \<Rightarrow> u64 \<Rightarrow> execution_db \<Rightarrow> (error + bool) \<times> execution_db" where
  "confirm_submission tx_hash block now = resolve_submission tx_hash True (Some block) None now"

definition fail_submission :: "string \<Rightarrow> string \<Rightarrow> u64 \<Rightarrow> execution_db \<Rightarrow> (error + bool) \<times> execution_db" where
  "fail_submission tx_hash reason now = resolve_submission tx_hash False None (Some reason) now"

definition pending_outbox :: "nat \<Rightarrow> execution_db \<Rightarrow> (nat \<times> string \<times> uuid) list result" where
  "pending_outbox limit db =
     and_then (usize_i64 limit) (\<lambda>n.
       Inr (take n (map (\<lambda>(i, r). (i, ob_topic r, ob_aggregate_id r))
              (filter (\<lambda>(i, r). ob_delivered_at r = None) (enumerate 1 (execution_outbox db))))))"

definition mark_outbox_delivered :: "nat \<Rightarrow> u64 \<Rightarrow> execution_db \<Rightarrow> (error + bool) \<times> execution_db" where
  "mark_outbox_delivered i now =
     atomically (\<lambda>db. and_then (to_i64 now) (\<lambda>t.
       if 1 \<le> i \<and> i \<le> length (execution_outbox db) \<and> ob_delivered_at (execution_outbox db ! (i - 1)) = None
       then Inr (True, db\<lparr>execution_outbox :=
              (execution_outbox db)[i - 1 := (execution_outbox db ! (i - 1))\<lparr>ob_delivered_at := Some t\<rparr>]\<rparr>)
       else Inr (False, db)))"

definition terminal_state :: "order_row_state \<Rightarrow> bool" where
  "terminal_state s \<longleftrightarrow> s \<in> {OrdExecuted, OrdConfirmed, OrdFailed}"

fun recover_entries ::
  "('sg, 'pk) runtime \<Rightarrow> execution_db \<Rightarrow> uuid \<Rightarrow> durable_batch_order list
     \<Rightarrow> (('sg, 'pk, processed) order list \<times> batch_order_outcome list) result" where
  "recover_entries rt db batch_id [] = Inr ([], [])"
| "recover_entries rt db batch_id (e # es) =
     (let oid = dur_id (dbo_order e)
      in case find (\<lambda>r. do_order_id r = oid \<and> do_batch_id r = Some batch_id) (durable_orders db) of
           None \<Rightarrow> Inl SqlNoRows
         | Some r \<Rightarrow>
             if \<not> terminal_state (do_state r) then Inl (Anyhow ''terminal batch contains non-terminal order'')
             else
               and_then (into_processed (rt_codec rt) (rt_clock rt) (rt_clock rt) (rt_clock rt)
                           (dbo_amount_out e) (dbo_order e)) (\<lambda>ord.
               and_then (recover_entries rt db batch_id es) (\<lambda>(ords, outs).
                 Inr (ord # ords,
                      \<lparr>outcome_order_id = oid, outcome_tx_hash = do_tx_hash r,
                       outcome_error = do_terminal_error r\<rparr> # outs))))"

definition recover_terminal_batch ::
  "('sg, 'pk) runtime \<Rightarrow> uuid \<Rightarrow> execution_db \<Rightarrow> ('sg, 'pk) recovered_execution_batch option result" where
  "recover_terminal_batch rt batch_id db =
     (case find (\<lambda>r. eb_batch_id r = batch_id \<and> eb_state r = Terminal) (execution_batches db) of
        None \<Rightarrow> Inr None
      | Some row \<Rightarrow>
          and_then (from_json (eb_payload row)) (\<lambda>entries.
          and_then (recover_entries rt db batch_id entries) (\<lambda>(ords, outs).
            Inr (Some \<lparr>recovered_id = batch_id, recovered_orders = ords, recovered_outcomes = outs\<rparr>))))"

section \<open>Swap accounting and pool snapshots\<close>

definition finalize_swap :: "uuid \<Rightarrow> string option \<Rightarrow> u64 \<Rightarrow> execution_db \<Rightarrow> (error + unit) \<times> execution_db" where
  "finalize_swap oid tx_hash now =
     atomically (\<lambda>db. and_then (to_i64 now) (\<lambda>t.
       Inr ((), update_swaps db (has_order oid)
                  (\<lambda>r. r\<lparr>sw_status := SwExecuted,
                         sw_tx_hash := (case tx_hash of None \<Rightarrow> sw_tx_hash r | Some h \<Rightarrow> Some h),
                         sw_finalized_at := Some t\<rparr>))))"

definition fail_swap :: "uuid \<Rightarrow> u64 \<Rightarrow> execution_db \<Rightarrow> (error + unit) \<times> execution_db" where
  "fail_swap oid now =
     atomically (\<lambda>db. and_then (to_i64 now) (\<lambda>t.
       Inr ((), update_swaps db (has_order oid) (\<lambda>r. r\<lparr>sw_status := SwFailed, sw_finalized_at := Some t\<rparr>))))"

definition executed_swap :: "uuid \<Rightarrow> execution_db \<Rightarrow> bool" where
  "executed_swap oid db =
     (case find (has_order oid) (swap_accounting db) of None \<Rightarrow> False | Some r \<Rightarrow> sw_status r = SwExecuted)"

definition get_swap_finalization :: "uuid \<Rightarrow> execution_db \<Rightarrow> swap_finalization option result" where
  "get_swap_finalization oid db =
     (case find (has_order oid) (swap_accounting db) of
        None \<Rightarrow> Inr None
      | Some r \<Rightarrow> (case sw_finalization r of
                    None \<Rightarrow> Inr None
                  | Some p \<Rightarrow> and_then (from_json p) (\<lambda>f. Inr (Some f))))"

text \<open>The pool states to save, in the iteration order of their map.\<close>

fun upsert_pools :: "(account_id \<times> pool_state) list \<Rightarrow> u64 \<Rightarrow> execution_db \<Rightarrow> execution_db result" where
  "upsert_pools [] now db = Inr db"
| "upsert_pools ((f, st) # ps) now db = and_then (upsert_pool_state db f st now) (upsert_pools ps now)"

definition save_pool_states ::
  "(account_id \<times> pool_state) list \<Rightarrow> u64 \<Rightarrow> execution_db \<Rightarrow> (error + unit) \<times> execution_db" where
  "save_pool_states pools now =
     atomically (\<lambda>db. and_then (upsert_pools pools now db) (\<lambda>db'. Inr ((), db')))"

definition lp_application_tx ::
  "string \<Rightarrow> account_id \<Rightarrow> u64 \<Rightarrow> (account_id \<times> pool_state) list \<Rightarrow> u64 \<Rightarrow> execution_db \<Rightarrow> (bool \<times> execution_db) result" where
  "lp_application_tx note_id faucet_id lp_shares pools now db =
     (if sql_exists (\<lambda>r. ln_note_id r = note_id) (applied_lp_notes db) then Inr (False, db)
      else
        and_then (upsert_pools pools now db) (\<lambda>db1.
        and_then (to_i64 lp_shares) (\<lambda>sh.
        and_then (to_i64 now) (\<lambda>t.
          Inr (True, db1\<lparr>applied_lp_notes := applied_lp_notes db1 @
            [\<lparr>ln_note_id = note_id, ln_faucet_id = faucet_id, ln_lp_shares = sh, ln_applied_at = t\<rparr>]\<rparr>)))))"

definition save_lp_application ::
  "string \<Rightarrow> account_id \<Rightarrow> u64 \<Rightarrow> (account_id \<times> pool_state) list \<Rightarrow> u64 \<Rightarrow> execution_db
     \<Rightarrow> (error + bool) \<times> execution_db" where
  "save_lp_application note_id faucet_id lp_shares pools now =
     atomically (lp_application_tx note_id faucet_id lp_shares pools now)"

definition applied_lp_shares :: "string \<Rightarrow> execution_db \<Rightarrow> u64 option result" where
  "applied_lp_shares note_id db =
     (case find (\<lambda>r. ln_note_id r = note_id) (applied_lp_notes db) of
        None \<Rightarrow> Inr None
      | Some r \<Rightarrow> and_then (from_sql_u64 (ln_lp_shares r)) (\<lambda>v. Inr (Some v)))"

definition restored_pool :: "snapshot_row \<Rightarrow> pool_state result" where
  "restored_pool r =
     (if 0 \<le> pr_lp_total_supply r
      then Inr (new_pool_state
                  (default_settings\<lparr>settings_beta := pr_beta r, settings_c := pr_c r,
                     swap_fee := pr_swap_fee r, backstop_fee := pr_backstop_fee r,
                     protocol_fee := pr_protocol_fee r\<rparr>)
                  (pr_balances r) (word_of_int (pr_lp_total_supply r))
                  \<lparr>pool_name = ''Restored pool'', asset_decimals = pr_asset_decimals r\<rparr>)
      else Inl (Anyhow ''negative LP supply''))"

fun restore_rows :: "snapshot_row list \<Rightarrow> (account_id \<rightharpoonup> pool_state) \<Rightarrow> (account_id \<rightharpoonup> pool_state) result" where
  "restore_rows [] m = Inr m"
| "restore_rows (r # rs) m =
     and_then (restored_pool r) (\<lambda>p. restore_rows rs (m(pr_faucet_id r \<mapsto> p)))"

definition latest_pool_states :: "execution_db \<Rightarrow> (account_id \<rightharpoonup> pool_state) result" where
  "latest_pool_states db = restore_rows (pool_snapshots db) Map.empty"

end
