(* ===== verification/Execution_Invariants.thy ===== *)
theory Execution_Invariants
  imports Execution_Store
begin

text \<open>
  Invariants of the execution store: orders move only along their lifecycle, at most one batch is
  pending and one is claimed, terminal batches hold only terminal orders, nonces are leased once,
  every durable order has its reservation, and the queue respects its limit. The step relation is
  the union of the operations the server calls.
\<close>

section \<open>The order lifecycle\<close>

text \<open>The abstract lifecycle of an admitted order: the edges a state may follow.\<close>

inductive lifecycle :: "order_row_state \<Rightarrow> order_row_state \<Rightarrow> bool" where
  "lifecycle Admitted ProcessingClaimed"
| "lifecycle Admitted OrdFailed"
| "lifecycle ProcessingClaimed OrdFailed"
| "lifecycle ProcessingClaimed Batched"
| "lifecycle Batched OrdSubmitted"
| "lifecycle Batched OrdFailed"
| "lifecycle OrdSubmitted OrdConfirmed"
| "lifecycle OrdSubmitted OrdFailed"

inductive_simps lifecycle_simps [simp]:
  "lifecycle Admitted s" "lifecycle ProcessingClaimed s" "lifecycle Batched s" "lifecycle OrdSubmitted s"
  "lifecycle OrdConfirmed s" "lifecycle OrdExecuted s" "lifecycle OrdFailed s"

inductive_cases lifecycleE: "lifecycle s t"

definition prebatch_state :: "order_row_state \<Rightarrow> bool" where
  "prebatch_state s \<longleftrightarrow> s \<in> {Admitted, ProcessingClaimed}"

lemma prebatch_iff: "prebatch r \<longleftrightarrow> prebatch_state (do_state r)"
  by (simp add: prebatch_def prebatch_state_def)

lemma lifecycle_terminal: "lifecycle\<^sup>*\<^sup>* s t \<Longrightarrow> terminal_state s \<Longrightarrow> t = s"
  by (induction rule: rtranclp_induct) (auto simp: terminal_state_def)

lemma lifecycle_prebatch: "lifecycle\<^sup>*\<^sup>* s t \<Longrightarrow> prebatch_state t \<Longrightarrow> prebatch_state s"
  by (induction rule: rtranclp_induct) (auto simp: prebatch_state_def elim: lifecycleE)

text \<open>A row carries an error exactly when its order failed.\<close>

definition error_matches :: "order_row \<Rightarrow> bool" where
  "error_matches r \<longleftrightarrow> (do_terminal_error r \<noteq> None \<longleftrightarrow> do_state r = OrdFailed)"

text \<open>How a row may change: its identity stays, its state follows the lifecycle, an error is recorded
  only with a failure, and its batch is set once, when it leaves the queue, to one of the batches
  named.\<close>

definition row_evolves :: "uuid set \<Rightarrow> order_row \<Rightarrow> order_row \<Rightarrow> bool" where
  "row_evolves bs r r' \<longleftrightarrow>
     do_order_id r' = do_order_id r \<and> do_client_order_id r' = do_client_order_id r
     \<and> do_order_nonce r' = do_order_nonce r \<and> do_payload r' = do_payload r
     \<and> do_created_at r' = do_created_at r
     \<and> lifecycle\<^sup>*\<^sup>* (do_state r) (do_state r') \<and> (error_matches r \<longrightarrow> error_matches r')
     \<and> (do_batch_id r' = do_batch_id r
        \<or> prebatch r \<and> \<not> prebatch r' \<and> (\<exists>b\<in>bs. do_batch_id r' = Some b))"

lemma row_evolves_refl [simp]: "row_evolves bs r r"
  by (simp add: row_evolves_def)

lemma row_evolves_trans: "row_evolves bs r s \<Longrightarrow> row_evolves bs s t \<Longrightarrow> row_evolves bs r t"
  unfolding row_evolves_def prebatch_iff
  by (metis (no_types, opaque_lifting) lifecycle_prebatch rtranclp_trans)

lemma row_evolves_mono: "row_evolves {} r s \<Longrightarrow> row_evolves bs r s"
  by (auto simp: row_evolves_def)

abbreviation rows_evolve :: "uuid set \<Rightarrow> order_row list \<Rightarrow> order_row list \<Rightarrow> bool" where
  "rows_evolve bs \<equiv> list_all2 (row_evolves bs)"

lemma rows_evolve_refl [simp]: "rows_evolve bs rows rows"
  by (simp add: list_all2_same)

lemma rows_evolve_trans [trans]: "rows_evolve bs a b \<Longrightarrow> rows_evolve bs b d \<Longrightarrow> rows_evolve bs a d"
  using list_all2_trans [of "row_evolves bs" "row_evolves bs" "row_evolves bs"] row_evolves_trans by blast

lemma rows_evolve_mono: "rows_evolve {} a b \<Longrightarrow> rows_evolve bs a b"
  by (erule list_all2_mono) (rule row_evolves_mono)

lemma rows_evolve_update:
  "(\<And>r. r \<in> set rows \<Longrightarrow> P r \<Longrightarrow> row_evolves bs r (f r)) \<Longrightarrow> rows_evolve bs rows (sql_update P f rows)"
  by (simp add: sql_update_def list_all2_map2 list_all2_same)

section \<open>Frames\<close>

text \<open>The tables besides the orders that the invariants speak of.\<close>

definition others :: "execution_db \<Rightarrow> batch_row list \<times> reservation_row list \<times> allocator_row list
    \<times> lease_row list \<times> lp_note_row list" where
  "others db = (execution_batches db, intent_reservations db, user_nonce_allocators db, nonce_leases db, applied_lp_notes db)"

text \<open>A statement sequence that only moves orders along their lifecycle.\<close>

definition order_effect :: "uuid set \<Rightarrow> execution_db \<Rightarrow> execution_db \<Rightarrow> bool" where
  "order_effect bs db db' \<longleftrightarrow> others db' = others db \<and> rows_evolve bs (durable_orders db) (durable_orders db')"

lemma order_effect_refl [simp]: "order_effect bs db db"
  by (simp add: order_effect_def)

lemma order_effect_trans [trans]: "order_effect bs a b \<Longrightarrow> order_effect bs b d \<Longrightarrow> order_effect bs a d"
  unfolding order_effect_def using rows_evolve_trans by metis

lemma order_effect_append_event:
  "append_event db oid ty d k now = Inr db' \<Longrightarrow> order_effect bs db db'"
  by (auto simp: append_event_def res_simps order_effect_def others_def split: if_splits)

lemma order_effect_enqueue: "enqueue_outbox db topic agg now = Inr db' \<Longrightarrow> order_effect bs db db'"
  by (auto simp: enqueue_outbox_def res_simps order_effect_def others_def split: if_splits)

lemma order_effect_delivered [simp]: "order_effect bs db (mark_delivered db topic agg t)"
  by (simp add: mark_delivered_def order_effect_def others_def)

lemma order_effect_swaps [simp]: "order_effect bs db (update_swaps db P f)"
  by (simp add: update_swaps_def order_effect_def others_def)

lemma order_effect_fail_swap [simp]: "order_effect bs db (fail_proposed_swap oid t db)"
  by (simp add: fail_proposed_swap_def)

lemma order_effect_insert_swap: "insert_proposed_swap db s now = Inr db' \<Longrightarrow> order_effect bs db db'"
  by (auto simp: insert_proposed_swap_def res_simps order_effect_def others_def split: if_splits)

lemma order_effect_upsert: "upsert_pool_state db f st now = Inr db' \<Longrightarrow> order_effect bs db db'"
  by (auto simp: upsert_pool_state_def res_simps order_effect_def others_def Let_def split: if_splits)

lemma order_effect_update_orders:
  "(\<And>r. r \<in> set (durable_orders db) \<Longrightarrow> P r \<Longrightarrow> row_evolves bs r (f r)) \<Longrightarrow> order_effect bs db (update_orders db P f)"
  by (simp add: order_effect_def others_def update_orders_def rows_evolve_update)

lemmas order_effects = order_effect_append_event order_effect_enqueue order_effect_insert_swap order_effect_upsert

section \<open>Effects of the loops\<close>

lemma row_evolves_step:
  assumes "do_order_id r' = do_order_id r" "do_client_order_id r' = do_client_order_id r"
    "do_order_nonce r' = do_order_nonce r" "do_payload r' = do_payload r" "do_created_at r' = do_created_at r"
    "do_state r' = do_state r \<or> lifecycle (do_state r) (do_state r')"
    "do_batch_id r' = do_batch_id r \<or> prebatch r \<and> \<not> prebatch r' \<and> (\<exists>b\<in>bs. do_batch_id r' = Some b)"
    "error_matches r \<Longrightarrow> error_matches r'"
  shows "row_evolves bs r r'"
  using assms by (auto simp: row_evolves_def)

lemma claim_one_effect:
  assumes "claim_one rt worker now cu db row = Inr (ord, db')"
    and pre: "\<And>r. r \<in> set (durable_orders db) \<Longrightarrow> do_order_id r = do_order_id row \<Longrightarrow> prebatch r"
  shows "order_effect bs db db'
    \<and> (\<forall>r\<in>set (durable_orders db'). r \<in> set (durable_orders db) \<or> prebatch r)"
proof -
  let ?f = "\<lambda>t cu r. r\<lparr>do_state := ProcessingClaimed, do_claim_owner := Some worker, do_claim_until := Some cu, do_updated_at := t\<rparr>"
  obtain t c db2 where s: "append_event (update_orders db (\<lambda>r. do_order_id r = do_order_id row) (?f t c))
      (do_order_id row) ''processing_claimed'' (TextDetail worker) (KProcessingClaim (do_order_id row) worker now) now = Inr db2"
    and db': "db' = mark_delivered db2 ''order_admitted'' (do_order_id row) t"
    using assms(1) by (auto simp: claim_one_def res_simps Let_def)
  have "order_effect bs db (update_orders db (\<lambda>r. do_order_id r = do_order_id row) (?f t c))"
  proof (rule order_effect_update_orders, rule row_evolves_step)
    fix r assume "r \<in> set (durable_orders db)" "do_order_id r = do_order_id row"
    then have "prebatch r" by (rule pre)
    then show "do_state (?f t c r) = do_state r \<or> lifecycle (do_state r) (do_state (?f t c r))"
      by (auto simp: prebatch_def)
    show "error_matches (?f t c r)" if "error_matches r" using that \<open>prebatch r\<close> by (auto simp: prebatch_def error_matches_def)
  qed simp_all
  also have "order_effect bs \<dots> db2" using s by (rule order_effect_append_event)
  also have "order_effect bs db2 db'" by (simp add: db')
  finally have "order_effect bs db db'" .
  moreover have "durable_orders db' = sql_update (\<lambda>r. do_order_id r = do_order_id row) (?f t c) (durable_orders db)"
    using s by (auto simp: db' append_event_def res_simps update_orders_def mark_delivered_def split: if_splits)
  ultimately show ?thesis by (auto simp: sql_simps prebatch_def)
qed

lemma claim_rows_effect:
  assumes "claim_rows rt worker now cu db rows = Inr (ords, db')"
    and "\<And>row r. row \<in> set rows \<Longrightarrow> r \<in> set (durable_orders db) \<Longrightarrow> do_order_id r = do_order_id row \<Longrightarrow> prebatch r"
  shows "order_effect bs db db'"
  using assms
proof (induction rows arbitrary: db ords)
  case (Cons row rows)
  then obtain ord db1 ords' where 1: "claim_one rt worker now cu db row = Inr (ord, db1)"
    and 2: "claim_rows rt worker now cu db1 rows = Inr (ords', db')"
    by (auto simp: res_simps)
  have e: "order_effect bs db db1 \<and> (\<forall>r\<in>set (durable_orders db1). r \<in> set (durable_orders db) \<or> prebatch r)"
    using Cons.prems(2) by (intro claim_one_effect [OF 1]) auto
  then have "order_effect bs db1 db'"
    using Cons.prems(2) by (intro Cons.IH [OF 2]) auto
  with e show ?case using order_effect_trans by blast
qed simp

lemma fail_ids_effect: "fail_ids ids reason now db = Inr (n, db') \<Longrightarrow> order_effect bs db db'"
proof (induction ids arbitrary: db n)
  case (Cons oid ids)
  let ?P = "\<lambda>r. do_order_id r = oid \<and> prebatch r"
  from Cons.prems obtain t db2 m where
    s: "(if sql_count ?P (durable_orders db) = 1
         then append_event (update_orders db ?P (fail_row reason t)) oid ''failed'' (TextDetail reason) (KTerminal oid) now
         else Inr (update_orders db ?P (fail_row reason t))) = Inr db2"
    and rest: "fail_ids ids reason now db2 = Inr (m, db')"
    by (auto simp: res_simps Let_def split: prod.splits)
  have "order_effect bs db (update_orders db ?P (fail_row reason t))"
    by (rule order_effect_update_orders) (auto simp: prebatch_def fail_row_def error_matches_def intro!: row_evolves_step)
  also have "order_effect bs \<dots> db2" using s by (auto split: if_splits intro: order_effect_append_event)
  also have "order_effect bs db2 db'" using rest by (rule Cons.IH)
  finally show ?case .
qed simp

lemma batch_orders_effect:
  "batch_orders worker b ids now db = Inr db' \<Longrightarrow> order_effect {b} db db'"
proof (induction ids arbitrary: db)
  case (Cons oid ids)
  let ?P = "\<lambda>r. do_order_id r = oid \<and> do_state r = ProcessingClaimed \<and> do_claim_owner r = Some worker"
  from Cons.prems obtain t db2 where
    s: "append_event (update_orders db ?P (\<lambda>r. r\<lparr>do_state := Batched, do_batch_id := Some b,
                 do_claim_owner := None, do_claim_until := None, do_updated_at := t\<rparr>)) oid ''batched''
          (BatchDetail b) (KBatched oid) now = Inr db2"
    and rest: "batch_orders worker b ids now db2 = Inr db'"
    by (auto simp: res_simps Let_def)
  have "order_effect {b} db (update_orders db ?P (\<lambda>r. r\<lparr>do_state := Batched, do_batch_id := Some b,
                 do_claim_owner := None, do_claim_until := None, do_updated_at := t\<rparr>))"
    by (rule order_effect_update_orders) (auto simp: prebatch_def error_matches_def intro!: row_evolves_step)
  also have "order_effect {b} \<dots> db2" using s by (rule order_effect_append_event)
  also have "order_effect {b} db2 db'" using rest by (rule Cons.IH)
  finally show ?case .
qed simp

lemma insert_swaps_effect: "insert_swaps ss now db = Inr db' \<Longrightarrow> order_effect bs db db'"
  by (induction ss arbitrary: db)
    (auto simp: res_simps intro: order_effect_trans [OF order_effect_insert_swap])

lemma submit_orders_effect: "submit_orders b h ids now db = Inr db' \<Longrightarrow> order_effect bs db db'"
proof (induction ids arbitrary: db)
  case (Cons oid ids)
  let ?P = "\<lambda>r. do_order_id r = oid \<and> do_batch_id r = Some b \<and> do_state r = Batched"
  from Cons.prems obtain t db2 where
    s: "append_event (update_swaps (update_orders db ?P (\<lambda>r. r\<lparr>do_state := OrdSubmitted,
            do_tx_hash := Some h, do_updated_at := t\<rparr>)) (\<lambda>r. has_order oid r \<and> sw_status r = Proposed)
            (\<lambda>r. r\<lparr>sw_status := SwSubmitted, sw_tx_hash := Some h\<rparr>))
          oid ''submitted'' (TextDetail h) (KSubmitted oid) now = Inr db2"
    and rest: "submit_orders b h ids now db2 = Inr db'"
    by (auto simp: res_simps Let_def)
  have "order_effect bs db (update_orders db ?P (\<lambda>r. r\<lparr>do_state := OrdSubmitted,
            do_tx_hash := Some h, do_updated_at := t\<rparr>))"
    by (rule order_effect_update_orders) (auto simp: error_matches_def intro!: row_evolves_step)
  also have "order_effect bs \<dots> db2" by (rule order_effect_trans [OF order_effect_swaps order_effect_append_event [OF s]])
  also have "order_effect bs db2 db'" using rest by (rule Cons.IH)
  finally show ?case .
qed simp

lemma pre_submission_fail_effect: "pre_submission_fail b wk ids reason now db = Inr db' \<Longrightarrow> order_effect bs db db'"
proof (induction ids arbitrary: db)
  case (Cons oid ids)
  let ?P = "\<lambda>r. do_order_id r = oid \<and> do_batch_id r = Some b \<and> do_state r = Batched
               \<and> sql_exists (owned_claim b wk) (execution_batches db)"
  from Cons.prems obtain t db2 where
    s: "(if sql_count ?P (durable_orders db) = 1
         then append_event (fail_proposed_swap oid t (update_orders db ?P (fail_batched_row reason t))) oid ''failed''
                (TextDetail reason) (KTerminal oid) now
         else Inr (update_orders db ?P (fail_batched_row reason t))) = Inr db2"
    and rest: "pre_submission_fail b wk ids reason now db2 = Inr db'"
    by (auto simp: res_simps Let_def)
  have "order_effect bs db (update_orders db ?P (fail_batched_row reason t))"
    by (rule order_effect_update_orders) (auto simp: fail_batched_row_def error_matches_def intro!: row_evolves_step)
  also have "order_effect bs \<dots> db2" using s
    by (auto split: if_splits intro: order_effect_trans [OF order_effect_fail_swap order_effect_append_event])
  also have "order_effect bs db2 db'" using rest by (rule Cons.IH)
  finally show ?case .
qed simp

lemma fail_remaining_effect: "fail_remaining b ids reason now db = Inr (failed, db') \<Longrightarrow> order_effect bs db db'"
proof (induction ids arbitrary: db failed)
  case (Cons oid ids)
  let ?P = "\<lambda>r. do_order_id r = oid \<and> do_batch_id r = Some b \<and> do_state r = Batched"
  from Cons.prems obtain t db2 fl where
    s: "db2 = update_orders db ?P (fail_batched_row reason t)
        \<or> append_event (fail_proposed_swap oid t (update_orders db ?P (fail_batched_row reason t))) oid ''failed''
                (TextDetail reason) (KTerminal oid) now = Inr db2"
    and rest: "fail_remaining b ids reason now db2 = Inr (fl, db')"
    by (auto simp: res_simps Let_def split: if_splits prod.splits)
  have "order_effect bs db (update_orders db ?P (fail_batched_row reason t))"
    by (rule order_effect_update_orders) (auto simp: fail_batched_row_def error_matches_def intro!: row_evolves_step)
  also have "order_effect bs \<dots> db2" using s
    by (auto intro: order_effect_trans [OF order_effect_fail_swap order_effect_append_event])
  also have "order_effect bs db2 db'" using rest by (rule Cons.IH)
  finally show ?case .
qed simp

lemma resolve_orders_effect:
  assumes "resolve_orders h conf reason ids now db = Inr db'" and reason: "conf \<longleftrightarrow> reason = None"
  shows "order_effect bs db db'"
  using assms(1)
proof (induction ids arbitrary: db)
  case (Cons oid ids)
  let ?P = "\<lambda>r. do_order_id r = oid \<and> do_state r = OrdSubmitted \<and> do_tx_hash r = Some h"
  let ?f = "\<lambda>t r. r\<lparr>do_state := (if conf then OrdConfirmed else OrdFailed), do_terminal_error := reason, do_updated_at := t\<rparr>"
  from Cons.prems obtain t g ty d db2 where
    s: "append_event (update_swaps (update_orders db ?P (?f t)) (\<lambda>r. has_order oid r \<and> sw_status r = SwSubmitted) g)
          oid ty d (KTerminal oid) now = Inr db2"
    and rest: "resolve_orders h conf reason ids now db2 = Inr db'"
    by (auto simp: res_simps Let_def)
  have "order_effect bs db (update_orders db ?P (?f t))"
    by (rule order_effect_update_orders) (use reason in \<open>auto simp: error_matches_def intro!: row_evolves_step\<close>)
  also have "order_effect bs \<dots> db2" by (rule order_effect_trans [OF order_effect_swaps order_effect_append_event [OF s]])
  also have "order_effect bs db2 db'" using rest by (rule Cons.IH)
  finally show ?case .
qed simp

lemma upsert_pools_effect: "upsert_pools ps now db = Inr db' \<Longrightarrow> order_effect bs db db'"
  by (induction ps now db rule: upsert_pools.induct)
    (auto simp: res_simps intro: order_effect_trans [OF order_effect_upsert])

end
