(* ===== verification/Execution_Steps.thy ===== *)
theory Execution_Steps
  imports Execution_Invariants "HOL-Library.Sublist"
begin

text \<open>
  The execution store as a state machine: its steps are the operations the server and its workers
  call, each a whole transaction that commits or rolls back. The invariant \<open>store_inv\<close> says that
  order rows have unique ids and belong to a batch only after the queue, that at most one batch is
  pending and one claimed, that a terminal batch holds only terminal orders and its payload names
  rows of the batch, that every order has its reservation and every reservation its order, that
  nonces are leased once, that payloads decode and that the queue respects its limit. Every step
  preserves it. \<open>complete_batch\<close>, \<open>finalize_swap\<close> and \<open>reserve_intent\<close> are not steps: only the unit
  tests call them.
\<close>

section \<open>The store's steps\<close>

inductive exec_step :: "('sg, 'pk) codec \<Rightarrow> nat \<Rightarrow> execution_db \<Rightarrow> execution_db \<Rightarrow> bool" for cd limit where
  lease: "exec_step cd limit db (snd (allocate_nonce_lease user random now db))"
| admit: "exec_step cd limit db (snd (admit_order_with_limit cd cid commitment order now limit db))"
| claim: "rt_codec rt = cd \<Longrightarrow> exec_step cd limit db (snd (claim_admitted_orders rt worker now lease_ms n db))"
| fail_claimed: "exec_step cd limit db (snd (fail_claimed_order oid worker reason now db))"
| fail_stale: "exec_step cd limit db (snd (fail_stale_prebatch_orders is_stale reason now db))"
| fail_ids: "exec_step cd limit db (snd (fail_orders_by_ids ids reason now db))"
| create: "exec_step cd limit db (snd (create_execution_batch cd worker b ords swaps now db))"
| claim_batch: "rt_codec rt = cd \<Longrightarrow> exec_step cd limit db (snd (claim_pending_batch rt worker now lease_ms db))"
| submit: "exec_step cd limit db (snd (record_submission b worker sub now db))"
| pre_fail: "exec_step cd limit db (snd (mark_pre_submission_failed b worker ids reason now db))"
| fail_rest: "exec_step cd limit db (snd (fail_remaining_batched_orders b worker reason now db))"
| reconcile: "exec_step cd limit db (snd (begin_reconciliation b worker now db))"
| applied: "exec_step cd limit db (snd (mark_submission_local_applied h now db))"
| attempt: "exec_step cd limit db (snd (record_reconciliation_attempt h err now db))"
| confirm: "exec_step cd limit db (snd (confirm_submission h block now db))"
| fail_tx: "exec_step cd limit db (snd (fail_submission h reason now db))"
| delivered: "exec_step cd limit db (snd (mark_outbox_delivered i now db))"
| fail_swap: "exec_step cd limit db (snd (fail_swap oid now db))"
| save_pools: "exec_step cd limit db (snd (save_pool_states pools now db))"
| save_lp: "exec_step cd limit db (snd (save_lp_application note faucet sh pools now db))"

section \<open>The invariant\<close>

definition orders_ok :: "execution_db \<Rightarrow> bool" where
  "orders_ok db \<longleftrightarrow> distinct (map do_order_id (durable_orders db))
     \<and> (\<forall>r\<in>set (durable_orders db). (prebatch r \<longrightarrow> do_batch_id r = None) \<and> error_matches r)"

definition batches_ok :: "execution_db \<Rightarrow> bool" where
  "batches_ok db \<longleftrightarrow> distinct (map eb_batch_id (execution_batches db))
     \<and> batch_indexes_ok (execution_batches db)
     \<and> (\<forall>b\<in>set (execution_batches db). eb_state b = Terminal \<longrightarrow>
          (\<forall>r\<in>set (durable_orders db). do_batch_id r = Some (eb_batch_id b) \<longrightarrow> terminal_state (do_state r)))
     \<and> (\<forall>b\<in>set (execution_batches db). \<forall>entries. eb_payload b = Json entries \<longrightarrow>
          (\<forall>e\<in>set entries. \<exists>r\<in>set (durable_orders db).
             do_order_id r = dur_id (dbo_order e) \<and> do_batch_id r = Some (eb_batch_id b)))"

definition reservations_ok :: "execution_db \<Rightarrow> bool" where
  "reservations_ok db \<longleftrightarrow>
     (\<forall>s\<in>set (intent_reservations db). \<exists>r\<in>set (durable_orders db). do_order_id r = ir_order_id s)
     \<and> (\<forall>r\<in>set (durable_orders db). \<exists>s\<in>set (intent_reservations db).
          ir_order_id s = do_order_id r \<and> ir_client_order_id s = do_client_order_id r)"

definition leases_ok :: "execution_db \<Rightarrow> bool" where
  "leases_ok db \<longleftrightarrow> distinct (map al_user_id (user_nonce_allocators db))
     \<and> distinct (map (\<lambda>l. (nl_user_id l, nl_nonce l)) (nonce_leases db))
     \<and> (\<forall>l\<in>set (nonce_leases db). nl_nonce l = uint (nonce_from_client_order_id (nl_client_order_id l)))
     \<and> (\<forall>l\<in>set (nonce_leases db). \<exists>a\<in>set (user_nonce_allocators db).
          al_user_id a = nl_user_id l \<and> nl_nonce l < al_next_nonce a)
     \<and> (\<forall>a\<in>set (user_nonce_allocators db). 0 \<le> al_next_nonce a)"

definition payloads_ok :: "('sg, 'pk) codec \<Rightarrow> execution_db \<Rightarrow> bool" where
  "payloads_ok cd db \<longleftrightarrow>
     (\<forall>r\<in>set (durable_orders db). \<exists>ord :: ('sg, 'pk, created) order. do_payload r = Json (durable cd ord))
     \<and> (\<forall>b\<in>set (execution_batches db). \<exists>ords. eb_payload b = Json (batch_entries cd ords))"

text \<open>Every order of a batch is named by the batch's payload.\<close>

definition members_ok :: "execution_db \<Rightarrow> bool" where
  "members_ok db \<longleftrightarrow>
     (\<forall>r\<in>set (durable_orders db). \<forall>b. do_batch_id r = Some b \<longrightarrow>
        (\<exists>B\<in>set (execution_batches db). eb_batch_id B = b
           \<and> (\<exists>entries. eb_payload B = Json entries \<and> (\<exists>e\<in>set entries. dur_id (dbo_order e) = do_order_id r))))"

definition queue_ok :: "nat \<Rightarrow> execution_db \<Rightarrow> bool" where
  "queue_ok limit db \<longleftrightarrow> sql_count prebatch (durable_orders db) \<le> limit"

definition store_inv :: "('sg, 'pk) codec \<Rightarrow> nat \<Rightarrow> execution_db \<Rightarrow> bool" where
  "store_inv cd limit db \<longleftrightarrow> orders_ok db \<and> batches_ok db \<and> reservations_ok db \<and> leases_ok db
     \<and> payloads_ok cd db \<and> queue_ok limit db \<and> members_ok db"

lemmas inv_defs = orders_ok_def batches_ok_def reservations_ok_def leases_ok_def

lemma rows_evolve_ids: "rows_evolve bs rows rows' \<Longrightarrow> map do_order_id rows' = map do_order_id rows"
  by (induction rule: list_all2_induct) (auto simp: row_evolves_def)

lemma rows_evolve_back: "rows_evolve bs rows rows' \<Longrightarrow> r' \<in> set rows' \<Longrightarrow> \<exists>r\<in>set rows. row_evolves bs r r'"
  by (induction rule: list_all2_induct) auto

lemma rows_evolve_forth: "rows_evolve bs rows rows' \<Longrightarrow> r \<in> set rows \<Longrightarrow> \<exists>r'\<in>set rows'. row_evolves bs r r'"
  by (induction rule: list_all2_induct) auto

lemma order_effect_orders_ok: "order_effect bs db db' \<Longrightarrow> orders_ok db \<Longrightarrow> orders_ok db'"
  unfolding orders_ok_def order_effect_def
  by (metis rows_evolve_ids rows_evolve_back row_evolves_def lifecycle_prebatch prebatch_iff)

text \<open>A row already in a batch keeps it.\<close>

lemma row_keeps_batch:
  assumes "row_evolves bs r r'" "orders_ok db" "r \<in> set (durable_orders db)" "do_batch_id r = Some b"
  shows "do_batch_id r' = Some b"
  using assms by (auto simp: row_evolves_def orders_ok_def)

lemma row_of_batch:
  assumes "row_evolves bs r r'" "do_batch_id r' = Some b" "b \<notin> bs"
  shows "do_batch_id r = Some b"
  using assms by (auto simp: row_evolves_def)

lemma order_effect_batches_ok:
  assumes e: "order_effect bs db db'" and ok: "batches_ok db" "orders_ok db"
    and fresh: "\<And>b. b \<in> set (execution_batches db) \<Longrightarrow> eb_batch_id b \<notin> bs"
  shows "batches_ok db'"
proof -
  have b: "execution_batches db' = execution_batches db" and r: "rows_evolve bs (durable_orders db) (durable_orders db')"
    using e by (auto simp: order_effect_def others_def)
  have "terminal_state (do_state r')"
    if "b \<in> set (execution_batches db)" "eb_state b = Terminal" "r' \<in> set (durable_orders db')"
      "do_batch_id r' = Some (eb_batch_id b)" for b r'
  proof -
    note A = that
    obtain r0 where r0: "r0 \<in> set (durable_orders db)" "row_evolves bs r0 r'"
      using rows_evolve_back [OF r A(3)] by blast
    then have "terminal_state (do_state r0)"
      using ok(1) A row_of_batch [OF r0(2) A(4) fresh [OF A(1)]] by (auto simp: batches_ok_def)
    moreover have "lifecycle\<^sup>*\<^sup>* (do_state r0) (do_state r')" using r0(2) by (simp add: row_evolves_def)
    ultimately show ?thesis using lifecycle_terminal by metis
  qed
  moreover have "\<exists>r'\<in>set (durable_orders db'). do_order_id r' = dur_id (dbo_order x) \<and> do_batch_id r' = Some (eb_batch_id b)"
    if "b \<in> set (execution_batches db)" "eb_payload b = Json entries" "x \<in> set entries" for b entries x
  proof -
    note A = that
    obtain r0 where r0: "r0 \<in> set (durable_orders db)" "do_order_id r0 = dur_id (dbo_order x)" "do_batch_id r0 = Some (eb_batch_id b)"
      using ok(1) A by (fastforce simp: batches_ok_def)
    obtain r' where r': "r' \<in> set (durable_orders db')" "row_evolves bs r0 r'" using rows_evolve_forth [OF r r0(1)] by blast
    then have "do_batch_id r' = Some (eb_batch_id b)" using row_keeps_batch [OF r'(2) ok(2) r0(1,3)] by simp
    then show ?thesis using r' r0 by (auto simp: row_evolves_def)
  qed
  ultimately show ?thesis using ok(1) by (auto simp: batches_ok_def b)
qed

lemma order_effect_reservations_ok: "order_effect bs db db' \<Longrightarrow> reservations_ok db \<Longrightarrow> reservations_ok db'"
  unfolding reservations_ok_def order_effect_def others_def
  by (auto; metis rows_evolve_forth rows_evolve_back row_evolves_def)

lemma order_effect_leases_ok: "order_effect bs db db' \<Longrightarrow> leases_ok db \<Longrightarrow> leases_ok db'"
  by (auto simp: leases_ok_def order_effect_def others_def)

lemma order_effect_payloads_ok: "order_effect bs db db' \<Longrightarrow> payloads_ok cd db \<Longrightarrow> payloads_ok cd db'"
  unfolding payloads_ok_def order_effect_def others_def
  by (auto; metis rows_evolve_back row_evolves_def)

lemma rows_evolve_prebatch_count:
  "rows_evolve bs rows rows' \<Longrightarrow> sql_count prebatch rows' \<le> sql_count prebatch rows"
proof (induction rule: list_all2_induct)
  case (Cons r rs r' rs')
  moreover have "prebatch r' \<Longrightarrow> prebatch r"
    using Cons.hyps(1) lifecycle_prebatch by (auto simp: row_evolves_def prebatch_iff)
  ultimately show ?case by (auto simp: sql_count_def)
qed simp

lemma order_effect_queue_ok: "order_effect bs db db' \<Longrightarrow> queue_ok limit db \<Longrightarrow> queue_ok limit db'"
  unfolding queue_ok_def order_effect_def using rows_evolve_prebatch_count le_trans by blast

lemma order_effect_members_ok:
  assumes e: "order_effect {} db db'" and ok: "members_ok db"
  shows "members_ok db'"
  unfolding members_ok_def
proof (intro ballI allI impI)
  fix r' b assume r': "r' \<in> set (durable_orders db')" "do_batch_id r' = Some b"
  obtain r where r: "r \<in> set (durable_orders db)" "row_evolves {} r r'"
    using rows_evolve_back [OF _ r'(1)] e by (auto simp: order_effect_def)
  then have "do_batch_id r = Some b" "do_order_id r = do_order_id r'" using r'(2) by (auto simp: row_evolves_def)
  moreover have "execution_batches db' = execution_batches db" using e by (auto simp: order_effect_def others_def)
  ultimately show "\<exists>B\<in>set (execution_batches db'). eb_batch_id B = b
      \<and> (\<exists>entries. eb_payload B = Json entries \<and> (\<exists>e\<in>set entries. dur_id (dbo_order e) = do_order_id r'))"
    using ok r(1) unfolding members_ok_def by metis
qed

lemmas order_effect_oks = order_effect_orders_ok order_effect_batches_ok order_effect_reservations_ok
  order_effect_leases_ok order_effect_payloads_ok order_effect_queue_ok

lemma order_effect_inv: "order_effect {} db db' \<Longrightarrow> store_inv cd limit db \<Longrightarrow> store_inv cd limit db'"
  unfolding store_inv_def 
  using order_effect_oks(1-4) [of "{}" db db'] order_effect_payloads_ok [of "{}" db db' cd]
    order_effect_queue_ok [of "{}" db db' limit] order_effect_members_ok [of db db'] by simp


section \<open>Preservation\<close>


lemma atomically_inv:
  "store_inv cd limit db \<Longrightarrow> (\<And>x db'. body db = Inr (x, db') \<Longrightarrow> order_effect {} db db') \<Longrightarrow> store_inv cd limit (snd (atomically body db))"
  by (rule snd_atomically [where Q="store_inv cd limit"]) (auto intro: order_effect_inv)

lemma claim_tx_effect:
  assumes "claim_tx rt worker now lease n db = Inr (ords, db')" "orders_ok db"
  shows "order_effect {} db db'"
proof (cases "sql_exists (\<lambda>b. eb_state b = Pending) (execution_batches db)")
  case False
  then obtain t m where c: "claim_rows rt worker now (sat_add now lease) db
      (take m (sort_key (\<lambda>r. (do_created_at r, do_order_id r)) (filter (claimable t) (durable_orders db)))) = Inr (ords, db')"
    using assms(1) by (auto simp: claim_tx_def res_simps Let_def)
  show ?thesis
  proof (rule claim_rows_effect [OF c])
    fix row r assume "row \<in> set (take m (sort_key (\<lambda>r. (do_created_at r, do_order_id r)) (filter (claimable t) (durable_orders db))))"
      and r: "r \<in> set (durable_orders db)" "do_order_id r = do_order_id row"
    then have "row \<in> set (durable_orders db)" "claimable t row" by (auto dest: in_set_takeD)
    moreover have "r = row" using assms(2) r calculation(1) by (auto simp: orders_ok_def distinct_map dest: inj_onD)
    ultimately show "prebatch r" by (auto simp: claimable_def prebatch_def)
  qed
qed (use assms(1) in \<open>auto simp: claim_tx_def\<close>)

lemma fail_claimed_tx_effect:
  assumes "fail_claimed_tx oid worker reason now db = Inr (x, db')"
  shows "order_effect {} db db'"
proof -
  let ?P = "\<lambda>r. do_order_id r = oid \<and> do_state r = ProcessingClaimed \<and> do_claim_owner r = Some worker"
  obtain t where s: "db' = update_orders db ?P (fail_row reason t)
      \<or> append_event (update_orders db ?P (fail_row reason t)) oid ''failed'' (TextDetail reason) (KTerminal oid) now = Inr db'"
    using assms by (auto simp: fail_claimed_tx_def res_simps Let_def split: if_splits)
  have "order_effect {} db (update_orders db ?P (fail_row reason t))"
    by (rule order_effect_update_orders) (auto simp: fail_row_def error_matches_def intro!: row_evolves_step)
  then show ?thesis using s order_effect_append_event order_effect_trans by blast
qed

lemma fail_orders_by_ids_inv: "store_inv cd limit db \<Longrightarrow> store_inv cd limit (snd (fail_orders_by_ids ids reason now db))"
  by (auto simp: fail_orders_by_ids_def intro!: atomically_inv fail_ids_effect)

lemma record_submission_effect:
  assumes "record_submission_tx b worker sub now db = Inr (x, db')"
  shows "order_effect {} db db'"
proof -
  have add: "order_effect {} db (db\<lparr>execution_submissions := es\<rparr>)" for es
    by (simp add: order_effect_def others_def)
  show ?thesis using assms
    by (auto simp: record_submission_tx_def res_simps Let_def split: if_splits
        intro: order_effect_trans [OF add submit_orders_effect])
qed

lemma update_submissions_effect [simp]: "order_effect {} db (update_submissions db P f)"
  by (simp add: update_submissions_def order_effect_def others_def)

section \<open>Batch transitions\<close>

text \<open>Batches change state only towards terminal; identity and payload stay.\<close>

lemma update_batches_ok:
  assumes ok: "batches_ok db" and key: "\<And>r. P r \<Longrightarrow> eb_batch_id (f r) = eb_batch_id r \<and> eb_payload (f r) = eb_payload r"
    and idx: "batch_indexes_ok (execution_batches (update_batches db P f))"
    and fin: "\<And>b. b \<in> set (execution_batches db) \<Longrightarrow> P b \<Longrightarrow> eb_state (f b) = Terminal \<Longrightarrow>
      (\<forall>r\<in>set (durable_orders db). do_batch_id r = Some (eb_batch_id b) \<longrightarrow> terminal_state (do_state r))"
  shows "batches_ok (update_batches db P f)"
proof -
  let ?bs = "sql_update P f (execution_batches db)"
  have "map eb_batch_id ?bs = map eb_batch_id (execution_batches db)" using key by (intro map_sql_update_key) auto
  moreover have "terminal_state (do_state r)"
    if "b \<in> set ?bs" "eb_state b = Terminal" "r \<in> set (durable_orders db)" "do_batch_id r = Some (eb_batch_id b)" for b r
    using that ok fin key by (auto simp: sql_simps batches_ok_def split: if_splits)
  moreover have "\<exists>r\<in>set (durable_orders db). do_order_id r = dur_id (dbo_order e) \<and> do_batch_id r = Some (eb_batch_id b)"
    if "b \<in> set ?bs" "eb_payload b = Json es" "e \<in> set es" for b es e
    using that ok key unfolding sql_simps batches_ok_def by (fastforce split: if_splits)
  ultimately show ?thesis
    using ok idx unfolding batches_ok_def update_batches_def by auto
qed


lemma indexes_ok_update:
  assumes "batch_indexes_ok rows" "\<And>r. P r \<Longrightarrow> eb_state (f r) \<notin> {Pending, Claimed}"
  shows "batch_indexes_ok (sql_update P f rows)"
proof -
  have "sql_count (\<lambda>r. eb_state r = Pending) (sql_update P f rows) \<le> sql_count (\<lambda>r. eb_state r = Pending) rows"
    "sql_count (\<lambda>r. eb_state r = Claimed) (sql_update P f rows) \<le> sql_count (\<lambda>r. eb_state r = Claimed) rows"
    using assms(2) by (auto intro!: sql_count_update_le)
  with assms(1) show ?thesis by (auto simp: batch_indexes_ok_def)
qed

lemma update_batches_frames [simp]:
  "orders_ok (update_batches db P f) = orders_ok db" "reservations_ok (update_batches db P f) = reservations_ok db"
  "leases_ok (update_batches db P f) = leases_ok db" "queue_ok limit (update_batches db P f) = queue_ok limit db"
  by (simp_all add: update_batches_def orders_ok_def reservations_ok_def leases_ok_def queue_ok_def)

lemma update_batches_members_ok:
  assumes ok: "members_ok db" and key: "\<And>r. P r \<Longrightarrow> eb_batch_id (f r) = eb_batch_id r \<and> eb_payload (f r) = eb_payload r"
  shows "members_ok (update_batches db P f)"
  unfolding members_ok_def
proof (intro ballI allI impI)
  fix r b assume "r \<in> set (durable_orders (update_batches db P f))" "do_batch_id r = Some b"
  then obtain B entries e where B: "B \<in> set (execution_batches db)" "eb_batch_id B = b" "eb_payload B = Json entries"
      "e \<in> set entries" "dur_id (dbo_order e) = do_order_id r"
    using ok unfolding members_ok_def update_batches_def by simp blast
  let ?B = "if P B then f B else B"
  have "?B \<in> set (execution_batches (update_batches db P f))" using B(1) by (simp add: update_batches_def sql_simps)
  then show "\<exists>B\<in>set (execution_batches (update_batches db P f)). eb_batch_id B = b
      \<and> (\<exists>entries. eb_payload B = Json entries \<and> (\<exists>e\<in>set entries. dur_id (dbo_order e) = do_order_id r))"
    using B key [of B] by (intro bexI [of _ ?B]) auto
qed

lemma update_batches_inv:
  assumes inv: "store_inv cd limit db"
    and key: "\<And>r. P r \<Longrightarrow> eb_batch_id (f r) = eb_batch_id r \<and> eb_payload (f r) = eb_payload r"
    and idx: "batch_indexes_ok (sql_update P f (execution_batches db))"
    and fin: "\<And>b. b \<in> set (execution_batches db) \<Longrightarrow> P b \<Longrightarrow> eb_state (f b) = Terminal \<Longrightarrow>
      (\<forall>r\<in>set (durable_orders db). do_batch_id r = Some (eb_batch_id b) \<longrightarrow> terminal_state (do_state r))"
  shows "store_inv cd limit (update_batches db P f)"
proof -
  have "batches_ok (update_batches db P f)"
    by (rule update_batches_ok [OF _ key _ fin]) (use inv idx in \<open>simp_all add: store_inv_def update_batches_def\<close>)
  moreover have "payloads_ok cd (update_batches db P f)"
    using inv key by (auto simp: store_inv_def payloads_ok_def update_batches_def sql_simps split: if_splits)
  moreover have "members_ok (update_batches db P f)"
    using inv by (intro update_batches_members_ok key) (auto simp: store_inv_def)
  ultimately show ?thesis
    using inv by (simp add: store_inv_def)
qed

lemma finalize_inv:
  assumes "finalize_batch_if_ready db b now = Inr (x, db')" and inv: "store_inv cd limit db"
  shows "store_inv cd limit db'"
proof (cases "sql_count (\<lambda>r. do_batch_id r = Some b \<and> do_state r \<notin> {OrdConfirmed, OrdExecuted, OrdFailed}) (durable_orders db) = 0")
  case True
  let ?P = "\<lambda>r. eb_batch_id r = b \<and> eb_state r \<in> {Claimed, Reconciling}"
  from True assms(1) obtain e t where s: "db' = update_batches db ?P (\<lambda>r. r\<lparr>eb_state := Terminal, eb_terminal_error := e,
        eb_claim_owner := None, eb_claim_until := None, eb_updated_at := t\<rparr>)
      \<or> enqueue_outbox (update_batches db ?P (\<lambda>r. r\<lparr>eb_state := Terminal, eb_terminal_error := e,
        eb_claim_owner := None, eb_claim_until := None, eb_updated_at := t\<rparr>)) ''batch_terminal'' b now = Inr db'"
    by (auto simp: res_simps Let_def split: if_splits)
  have "store_inv cd limit (update_batches db ?P (\<lambda>r. r\<lparr>eb_state := Terminal, eb_terminal_error := e,
        eb_claim_owner := None, eb_claim_until := None, eb_updated_at := t\<rparr>))"
  proof (rule update_batches_inv [OF inv])
    show "batch_indexes_ok (sql_update ?P (\<lambda>r. r\<lparr>eb_state := Terminal, eb_terminal_error := e,
        eb_claim_owner := None, eb_claim_until := None, eb_updated_at := t\<rparr>) (execution_batches db))"
      using inv by (intro indexes_ok_update) (auto simp: store_inv_def batches_ok_def)
  qed (use True in \<open>auto simp: sql_count_def filter_empty_conv terminal_state_def\<close>)
  then show ?thesis using s order_effect_enqueue order_effect_inv by blast
qed (use assms in \<open>simp split: if_splits\<close>)

lemma begin_reconciliation_inv:
  assumes "begin_reconciliation_tx b w now db = Inr (x, db')" and inv: "store_inv cd limit db"
  shows "store_inv cd limit db'"
proof -
  let ?P = "\<lambda>r. eb_batch_id r = b \<and> eb_state r = Claimed \<and> eb_claim_owner r = Some w"
  let ?f = "\<lambda>t r. r\<lparr>eb_state := Reconciling, eb_claim_owner := None, eb_claim_until := None, eb_updated_at := t\<rparr>"
  have "store_inv cd limit (update_batches db ?P (?f t))" for t
    using inv by (intro update_batches_inv indexes_ok_update) (auto simp: store_inv_def batches_ok_def)
  then show ?thesis using assms(1)
    by (auto simp: begin_reconciliation_tx_def res_simps Let_def simp del: finalize_batch_if_ready.simps
        split: if_splits prod.splits dest!: finalize_inv)
qed

lemma resolve_submission_inv:
  assumes "resolve_submission_tx h cf blk reason now db = Inr (x, db')" "cf \<longleftrightarrow> reason = None" and inv: "store_inv cd limit db"
  shows "store_inv cd limit db'"
proof (cases "find (\<lambda>r. es_tx_hash r = h \<and> es_state r = SubSubmitted) (execution_submissions db)")
  case (Some row)
  with assms(1) obtain P f db2 y where
    1: "resolve_orders h cf reason (es_order_ids row) now (update_submissions db P f) = Inr db2"
    and 2: "finalize_batch_if_ready db2 (es_batch_id row) now = Inr (y, db')"
    by (auto simp: resolve_submission_tx_def res_simps Let_def simp del: finalize_batch_if_ready.simps split: prod.splits)
  show ?thesis
    by (rule finalize_inv [OF 2])
      (rule order_effect_inv [OF resolve_orders_effect [OF 1 assms(2)] order_effect_inv [OF update_submissions_effect inv]])
qed (use assms in \<open>simp add: resolve_submission_tx_def\<close>)


section \<open>Claiming a batch\<close>

lemma claim_batch_indexes_ok:
  assumes ok: "batches_ok db"
    and pick: "sort_key (\<lambda>r. (if eb_state r = Claimed then 0 else 1 :: int, eb_created_at r))
        (filter (batch_claimable t (execution_batches db)) (execution_batches db)) = row # rest"
    and f: "\<And>r. eb_state (f r) = Claimed"
  shows "batch_indexes_ok (sql_update (\<lambda>r. eb_batch_id r = eb_batch_id row) f (execution_batches db))"
proof -
  let ?bs = "execution_batches db" and ?P = "\<lambda>r. eb_batch_id r = eb_batch_id row"
  let ?k = "\<lambda>r. (if eb_state r = Claimed then 0 else 1 :: int, eb_created_at r)"
  have row: "row \<in> set ?bs" "batch_claimable t ?bs row"
    using arg_cong [OF pick, of set] by auto
  have first: "?k row \<le> ?k r" if "r \<in> set ?bs" "batch_claimable t ?bs r" for r
    using that by (intro sort_key_head [OF pick]) simp
  have only: "r = row" if "r \<in> set ?bs" "?P r" for r
    using ok that row(1) by (auto simp: batches_ok_def distinct_map dest: inj_onD)
  have claimed: "r = row" if "r \<in> set ?bs" "eb_state r = Claimed" for r
  proof (cases "eb_state row = Claimed")
    case True
    have "sql_count (\<lambda>r. eb_state r = Claimed) ?bs \<le> 1" using ok by (simp add: batches_ok_def batch_indexes_ok_def)
    then show ?thesis using that True row(1) by (blast intro: sql_count_le1)
  next
    case False
    with row(2) have p: "eb_state row = Pending"
      and n: "\<not> sql_exists (\<lambda>b. eb_state b = Claimed \<and> (case eb_claim_until b of None \<Rightarrow> True | Some u \<Rightarrow> t \<le> u)) ?bs"
      by (auto simp: batch_claimable_def)
    with that have "batch_claimable t ?bs r" by (fastforce simp: batch_claimable_def sql_simps split: option.splits)
    from first [OF that(1) this] p that(2) show ?thesis by (auto simp: less_eq_prod_def)
  qed
  have "filter (\<lambda>r. eb_state r = Claimed) (sql_update ?P f ?bs) = map f (filter ?P ?bs)"
    using claimed f unfolding sql_update_def filter_map comp_def by (auto intro!: map_cong filter_cong)
  moreover have "length (filter ?P ?bs) \<le> 1"
    using ok distinct_filter_le1 by (auto simp: batches_ok_def)
  moreover have "sql_count (\<lambda>r. eb_state r = Pending) (sql_update ?P f ?bs) \<le> sql_count (\<lambda>r. eb_state r = Pending) ?bs"
    using f by (intro sql_count_update_le) auto
  ultimately show ?thesis using ok by (simp add: batches_ok_def batch_indexes_ok_def sql_count_def)
qed


lemma claim_batch_inv:
  assumes "claim_batch_tx w now lease db = Inr (x, db')" and inv: "store_inv cd limit db"
  shows "store_inv cd limit db'"
proof -
  obtain t where t: "to_i64 now = Inr t" using assms(1) by (auto simp: claim_batch_tx_def res_simps)
  show ?thesis
  proof (cases "sort_key (\<lambda>r. (if eb_state r = Claimed then 0 else 1 :: int, eb_created_at r))
            (filter (batch_claimable t (execution_batches db)) (execution_batches db))")
    case (Cons row rest)
    obtain cu where db': "db' = mark_delivered (update_batches db (\<lambda>r. eb_batch_id r = eb_batch_id row)
          (\<lambda>r. r\<lparr>eb_state := Claimed, eb_claim_owner := Some w, eb_claim_until := Some cu, eb_updated_at := t\<rparr>))
          ''batch_pending'' (eb_batch_id row) t"
      using assms(1) Cons by (auto simp: claim_batch_tx_def res_simps t Let_def split: if_splits)
    have "store_inv cd limit (update_batches db (\<lambda>r. eb_batch_id r = eb_batch_id row)
          (\<lambda>r. r\<lparr>eb_state := Claimed, eb_claim_owner := Some w, eb_claim_until := Some cu, eb_updated_at := t\<rparr>))"
      using inv by (intro update_batches_inv [OF inv] claim_batch_indexes_ok [OF _ Cons]) (auto simp: store_inv_def)
    then show ?thesis unfolding db' by (rule order_effect_inv [OF order_effect_delivered])
  qed (use assms in \<open>auto simp: claim_batch_tx_def res_simps t\<close>)
qed

text \<open>The unique indexes never refuse a claim.\<close>

lemma claim_batch_no_constraint:
  assumes "batches_ok db"
  shows "claim_batch_tx w now lease db \<noteq> Inl SqlConstraint"
  using assms claim_batch_indexes_ok [OF assms]
  by (auto simp: claim_batch_tx_def and_then_def to_i64_def update_batches_def Let_def split: sum.splits list.splits)

lemma begin_reconciliation_step_inv:
  "store_inv cd limit db \<Longrightarrow> store_inv cd limit (snd (begin_reconciliation b w now db))"
  unfolding begin_reconciliation_def
  by (rule snd_atomically [where Q="store_inv cd limit"]) (rule begin_reconciliation_inv)

lemma claim_pending_batch_inv:
  assumes inv: "store_inv cd limit db"
  shows "store_inv cd limit (snd (claim_pending_batch rt w now lease db))"
proof -
  have "store_inv cd limit (snd (atomically (claim_batch_tx w now lease) db))"
    by (rule snd_atomically [where Q="store_inv cd limit", OF claim_batch_inv [OF _ inv] inv])
  moreover obtain x db' where "atomically (claim_batch_tx w now lease) db = (x, db')" by fastforce
  moreover have "store_inv cd limit db2" if "begin_reconciliation b w now db' = (y, db2)" "store_inv cd limit db'" for b y db2
    using that begin_reconciliation_step_inv by (metis snd_conv)
  ultimately show ?thesis
    by (auto simp: claim_pending_batch_def split: sum.splits option.splits list.splits prod.splits)
qed

section \<open>Creating a batch\<close>

lemma batch_orders_batched:
  assumes "batch_orders w b ids now db = Inr db'" "oid \<in> set ids"
  shows "\<exists>r\<in>set (durable_orders db'). do_order_id r = oid \<and> do_batch_id r = Some b"
  using assms
proof (induction ids arbitrary: db)
  case (Cons i ids)
  let ?P = "\<lambda>r. do_order_id r = i \<and> do_state r = ProcessingClaimed \<and> do_claim_owner r = Some w"
  let ?f = "\<lambda>t r. r\<lparr>do_state := Batched, do_batch_id := Some b, do_claim_owner := None, do_claim_until := None, do_updated_at := t\<rparr>"
  from Cons.prems(1) obtain t db2 where n: "sql_count ?P (durable_orders db) = 1"
    and s: "append_event (update_orders db ?P (?f t)) i ''batched'' (BatchDetail b) (KBatched i) now = Inr db2"
    and rest: "batch_orders w b ids now db2 = Inr db'"
    by (auto simp: res_simps Let_def split: if_splits)
  show ?case
  proof (cases "oid = i")
    case True
    from n obtain r where "r \<in> set (durable_orders db)" "?P r" using sql_count_0_iff [of ?P "durable_orders db"] by auto
    then have "?f t r \<in> set (durable_orders (update_orders db ?P (?f t)))"
      by (auto simp: update_orders_def sql_simps)
    moreover have "order_effect {b} (update_orders db ?P (?f t)) db'"
      using order_effect_trans [OF order_effect_append_event [OF s] batch_orders_effect [OF rest]] .
    ultimately obtain r' where "r' \<in> set (durable_orders db')" "row_evolves {b} (?f t r) r'"
      unfolding order_effect_def using rows_evolve_forth by blast
    then show ?thesis using True \<open>?P r\<close> by (auto simp: row_evolves_def)
  qed (use Cons.IH [OF rest] Cons.prems(2) in auto)
qed simp

lemma batch_orders_members:
  assumes "batch_orders w b ids now db = Inr db'" "r' \<in> set (durable_orders db')" "do_batch_id r' = Some b"
    "\<And>r. r \<in> set (durable_orders db) \<Longrightarrow> do_batch_id r = Some b \<Longrightarrow> do_order_id r \<in> X"
  shows "do_order_id r' \<in> X \<union> set ids"
  using assms
proof (induction ids arbitrary: db X)
  case (Cons i ids)
  let ?P = "\<lambda>r. do_order_id r = i \<and> do_state r = ProcessingClaimed \<and> do_claim_owner r = Some w"
  let ?f = "\<lambda>t r. r\<lparr>do_state := Batched, do_batch_id := Some b, do_claim_owner := None, do_claim_until := None, do_updated_at := t\<rparr>"
  from Cons.prems(1) obtain t db2 where
    s: "append_event (update_orders db ?P (?f t)) i ''batched'' (BatchDetail b) (KBatched i) now = Inr db2"
    and rest: "batch_orders w b ids now db2 = Inr db'"
    by (auto simp: res_simps Let_def split: if_splits)
  have "durable_orders db2 = sql_update ?P (?f t) (durable_orders db)"
    using s by (auto simp: append_event_def res_simps update_orders_def split: if_splits)
  then have "do_order_id r \<in> insert i X" if "r \<in> set (durable_orders db2)" "do_batch_id r = Some b" for r
    using that Cons.prems(4) by (auto simp: sql_simps split: if_splits)
  from Cons.IH [OF rest Cons.prems(2,3) this] show ?case by auto
qed auto

lemma insert_batch_row:
  assumes "insert_batch b es now db = Inr db'"
  shows "\<exists>row. eb_batch_id row = b \<and> eb_payload row = Json es \<and> eb_state row = Pending
    \<and> db' = db\<lparr>execution_batches := execution_batches db @ [row]\<rparr>
    \<and> (\<forall>r\<in>set (execution_batches db). eb_batch_id r \<noteq> b) \<and> batch_indexes_ok (execution_batches db @ [row])"
proof -
  obtain t where "to_i64 now = Inr t" using assms by (auto simp: insert_batch_def res_simps)
  with assms show ?thesis
    by (intro exI [of _ "\<lparr>eb_batch_id = b, eb_payload = Json es, eb_state = Pending, eb_claim_owner = None,
             eb_claim_until = None, eb_terminal_error = None, eb_created_at = t, eb_updated_at = t\<rparr>"])
      (auto simp: insert_batch_def res_simps sql_simps Let_def split: if_splits)
qed

lemma create_batch_members:
  assumes 1: "batch_orders w b ids now db = Inr db1" and 2: "insert_swaps swaps now db1 = Inr db2"
    and inv: "store_inv cd limit db" and fresh: "\<And>r. r \<in> set (execution_batches db) \<Longrightarrow> eb_batch_id r \<noteq> b"
    and r: "r \<in> set (durable_orders db2)" "do_batch_id r = Some x"
  shows "(x = b \<and> do_order_id r \<in> set ids) \<or> (x \<noteq> b \<and> (\<exists>B\<in>set (execution_batches db). eb_batch_id B = x
      \<and> (\<exists>entries. eb_payload B = Json entries \<and> (\<exists>e\<in>set entries. dur_id (dbo_order e) = do_order_id r))))"
proof -
  have ok: "members_ok db" using inv by (simp add: store_inv_def)
  obtain r1 where r1: "r1 \<in> set (durable_orders db1)" "row_evolves {} r1 r"
    using insert_swaps_effect [OF 2, of "{}"] rows_evolve_back [OF _ r(1)] unfolding order_effect_def by blast
  then have b1: "do_batch_id r1 = Some x" "do_order_id r1 = do_order_id r" using r(2) by (auto simp: row_evolves_def)
  show ?thesis
  proof (cases "x = b")
    case True
    have "do_order_id r1 \<in> {} \<union> set ids"
      using ok fresh b1 True by (intro batch_orders_members [OF 1 r1(1)]) (auto simp: members_ok_def)
    then show ?thesis using True b1 by simp
  next
    case False
    obtain r0 where r0: "r0 \<in> set (durable_orders db)" "row_evolves {b} r0 r1"
      using batch_orders_effect [OF 1] rows_evolve_back [OF _ r1(1)] unfolding order_effect_def by blast
    then have "do_batch_id r0 = Some x" "do_order_id r0 = do_order_id r" using b1 False by (auto simp: row_evolves_def)
    then show ?thesis using ok r0(1) False unfolding members_ok_def by metis
  qed
qed

lemma create_batch_inv:
  assumes tx: "create_batch_tx w b (batch_entries cd ords) swaps now db = Inr (x, db')" and inv: "store_inv cd limit db"
  shows "store_inv cd limit db'"
proof -
  let ?es = "batch_entries cd ords"
  from tx obtain db1 db2 db3 where
    1: "batch_orders w b (map (\<lambda>e. dur_id (dbo_order e)) ?es) now db = Inr db1"
    and 2: "insert_swaps swaps now db1 = Inr db2" and 3: "insert_batch b ?es now db2 = Inr db3"
    and 4: "enqueue_outbox db3 ''batch_pending'' b now = Inr db'"
    by (auto simp: create_batch_tx_def res_simps)
  have e2: "order_effect {b} db db2" by (rule order_effect_trans [OF batch_orders_effect [OF 1] insert_swaps_effect [OF 2]])
  from insert_batch_row [OF 3] obtain row where row: "eb_batch_id row = b" "eb_payload row = Json ?es" "eb_state row = Pending"
    and db3: "db3 = db2\<lparr>execution_batches := execution_batches db2 @ [row]\<rparr>"
    and fresh: "\<And>r. r \<in> set (execution_batches db2) \<Longrightarrow> eb_batch_id r \<noteq> b"
    and idx: "batch_indexes_ok (execution_batches db2 @ [row])"
    by blast
  have bs: "execution_batches db2 = execution_batches db" using e2 by (auto simp: order_effect_def others_def)
  have ok2: "orders_ok db2" "batches_ok db2" "reservations_ok db2" "leases_ok db2" "payloads_ok cd db2" "queue_ok limit db2"
    using inv fresh bs order_effect_oks [OF e2] by (auto simp: store_inv_def)
  have "\<exists>r\<in>set (durable_orders db2). do_order_id r = dur_id (dbo_order e) \<and> do_batch_id r = Some b" if "e \<in> set ?es" for e
  proof -
    obtain r where r: "r \<in> set (durable_orders db1)" "do_order_id r = dur_id (dbo_order e)" "do_batch_id r = Some b"
      using batch_orders_batched [OF 1] \<open>e \<in> set ?es\<close> by (metis (no_types, lifting) image_eqI list.set_map)
    obtain r' where "r' \<in> set (durable_orders db2)" "row_evolves {b} r r'"
      using insert_swaps_effect [OF 2, of "{b}"] rows_evolve_forth [OF _ r(1)] unfolding order_effect_def by blast
    then show ?thesis using r by (auto simp: row_evolves_def)
  qed
  moreover have "b \<notin> eb_batch_id ` set (execution_batches db2)" using fresh by auto
  ultimately have "batches_ok db3" using ok2(2) idx row unfolding db3 by (auto simp: batches_ok_def)
  moreover have "leases_ok db3 = leases_ok db2" by (simp add: db3 leases_ok_def)
  moreover have "members_ok db3"
    unfolding members_ok_def
  proof (intro ballI allI impI)
    fix r x assume "r \<in> set (durable_orders db3)" "do_batch_id r = Some x"
    then have "(x = b \<and> do_order_id r \<in> set (map (\<lambda>e. dur_id (dbo_order e)) ?es)) \<or>
        (\<exists>B\<in>set (execution_batches db). eb_batch_id B = x
          \<and> (\<exists>entries. eb_payload B = Json entries \<and> (\<exists>e\<in>set entries. dur_id (dbo_order e) = do_order_id r)))"
      using create_batch_members [OF 1 2 inv, of r x] fresh by (auto simp: db3 bs)
    then show "\<exists>B\<in>set (execution_batches db3). eb_batch_id B = x
        \<and> (\<exists>entries. eb_payload B = Json entries \<and> (\<exists>e\<in>set entries. dur_id (dbo_order e) = do_order_id r))"
      using row by (auto simp: db3 bs)
  qed
  ultimately have "store_inv cd limit db3"
    using ok2 row by (auto simp: store_inv_def orders_ok_def reservations_ok_def payloads_ok_def queue_ok_def db3)
  then show ?thesis by (rule order_effect_inv [OF order_effect_enqueue [OF 4]])
qed


section \<open>Leases and admission\<close>


lemma lease_tx_row:
  assumes "lease_tx user random now db = Inr (l, db')" and ok: "leases_ok db"
  shows "\<exists>t. to_i64 now = Inr t \<and> lease_client_order_id l = client_order_id_for_nonce (lease_nonce l) random
    \<and> nonce_leases db' = nonce_leases db @ [\<lparr>nl_client_order_id = lease_client_order_id l, nl_user_id = user,
         nl_nonce = uint (lease_nonce l), nl_created_at = t\<rparr>]
    \<and> (\<forall>m\<in>set (nonce_leases db). nl_client_order_id m \<noteq> lease_client_order_id l
          \<and> (nl_user_id m = user \<longrightarrow> nl_nonce m < uint (lease_nonce l)))
    \<and> distinct (map al_user_id (user_nonce_allocators db'))
    \<and> (\<exists>a\<in>set (user_nonce_allocators db'). al_user_id a = user \<and> al_next_nonce a = uint (lease_nonce l) + 1)
    \<and> (\<forall>a\<in>set (user_nonce_allocators db). al_user_id a \<noteq> user \<longrightarrow> a \<in> set (user_nonce_allocators db'))
    \<and> (\<forall>a\<in>set (user_nonce_allocators db'). 0 \<le> al_next_nonce a)
    \<and> db' = db\<lparr>user_nonce_allocators := user_nonce_allocators db', nonce_leases := nonce_leases db'\<rparr>"
proof -
  let ?as = "if sql_exists (\<lambda>r. al_user_id r = user) (user_nonce_allocators db) then user_nonce_allocators db
             else user_nonce_allocators db @ [\<lparr>al_user_id = user, al_next_nonce = 0\<rparr>]"
  obtain r t where r: "find (\<lambda>r. al_user_id r = user) ?as = Some r" and n: "to_u32 (al_next_nonce r) = Some (lease_nonce l)"
    and t: "to_i64 now = Inr t" and l: "lease_client_order_id l = client_order_id_for_nonce (lease_nonce l) random"
    and fresh: "\<not> sql_exists (\<lambda>r. nl_client_order_id r = lease_client_order_id l
         \<or> (nl_user_id r = user \<and> nl_nonce r = uint (lease_nonce l))) (nonce_leases db)"
    and db': "db' = db\<lparr>user_nonce_allocators := sql_update (\<lambda>r. al_user_id r = user)
         (\<lambda>r. r\<lparr>al_next_nonce := uint (lease_nonce l) + 1\<rparr>) ?as,
       nonce_leases := nonce_leases db @ [\<lparr>nl_client_order_id = lease_client_order_id l, nl_user_id = user,
         nl_nonce = uint (lease_nonce l), nl_created_at = t\<rparr>]\<rparr>"
    using assms(1) unfolding lease_tx_def Let_def
    by (fastforce simp: res_simps split: option.splits if_splits)
  have nu: "uint (lease_nonce l) = al_next_nonce r" using n by (rule to_u32_uint)
  have r1: "r \<in> set ?as" "al_user_id r = user" using find_SomeD [OF r] by auto
  have d: "distinct (map al_user_id ?as)" using ok by (auto simp: leases_ok_def sql_simps)
  then have only: "a = r" if "a \<in> set ?as" "al_user_id a = user" for a
    using that r1 by (metis (no_types, lifting) distinct_map inj_onD)
  have less: "nl_nonce m < uint (lease_nonce l)" if "m \<in> set (nonce_leases db)" "nl_user_id m = user" for m
  proof -
    note m = that
    obtain a where "a \<in> set (user_nonce_allocators db)" "al_user_id a = user" "nl_nonce m < al_next_nonce a"
      using ok m unfolding leases_ok_def by blast
    then show ?thesis using only [of a] nu by (auto split: if_splits)
  qed
  let ?f = "\<lambda>r. r\<lparr>al_next_nonce := uint (lease_nonce l) + 1\<rparr>"
  have upd: "?f r \<in> set (sql_update (\<lambda>r. al_user_id r = user) ?f ?as)" using r1 by (force simp: set_sql_update)
  have "\<exists>a\<in>set (sql_update (\<lambda>r. al_user_id r = user) ?f ?as). al_user_id a = user \<and> al_next_nonce a = uint (lease_nonce l) + 1"
    by (rule bexI [OF _ upd]) (simp add: r1)
  then show ?thesis
    using t l fresh less ok d r1 unfolding db'
    by (intro exI [of _ t]) (auto simp: sql_simps map_sql_update_key leases_ok_def image_iff split: if_splits)
qed

lemma lease_tx_inv:
  assumes "lease_tx user random now db = Inr (l, db')" and inv: "store_inv cd limit db"
  shows "store_inv cd limit db'"
proof -
  have ok: "leases_ok db" using inv by (simp add: store_inv_def)
  obtain t where id: "lease_client_order_id l = client_order_id_for_nonce (lease_nonce l) random"
    and ls: "nonce_leases db' = nonce_leases db @ [\<lparr>nl_client_order_id = lease_client_order_id l, nl_user_id = user,
         nl_nonce = uint (lease_nonce l), nl_created_at = t\<rparr>]"
    and less: "\<And>m. m \<in> set (nonce_leases db) \<Longrightarrow> nl_user_id m = user \<Longrightarrow> nl_nonce m < uint (lease_nonce l)"
    and d: "distinct (map al_user_id (user_nonce_allocators db'))"
    and a: "\<exists>a\<in>set (user_nonce_allocators db'). al_user_id a = user \<and> al_next_nonce a = uint (lease_nonce l) + 1"
    and keep: "\<And>a. a \<in> set (user_nonce_allocators db) \<Longrightarrow> al_user_id a \<noteq> user \<Longrightarrow> a \<in> set (user_nonce_allocators db')"
    and pos: "\<forall>a\<in>set (user_nonce_allocators db'). 0 \<le> al_next_nonce a"
    and db': "db' = db\<lparr>user_nonce_allocators := user_nonce_allocators db', nonce_leases := nonce_leases db'\<rparr>"
    using lease_tx_row [OF assms(1) ok] by blast
  have "\<exists>a\<in>set (user_nonce_allocators db'). al_user_id a = nl_user_id m \<and> nl_nonce m < al_next_nonce a"
    if "m \<in> set (nonce_leases db')" for m
  proof (cases "nl_user_id m = user")
    case True
    moreover have "m \<in> set (nonce_leases db) \<or> nl_nonce m = uint (lease_nonce l)" using that ls by auto
    ultimately have "nl_nonce m \<le> uint (lease_nonce l)" using less [of m] by auto
    then show ?thesis using a True by auto
  next
    case False
    then have "m \<in> set (nonce_leases db)" using that ls by auto
    then obtain a where "a \<in> set (user_nonce_allocators db)" "al_user_id a = nl_user_id m" "nl_nonce m < al_next_nonce a"
      using ok by (auto simp: leases_ok_def)
    then show ?thesis using keep [of a] False by auto
  qed
  moreover have "distinct (map (\<lambda>l. (nl_user_id l, nl_nonce l)) (nonce_leases db'))"
    using ok less by (force simp: leases_ok_def ls)
  moreover have "nl_nonce m = uint (nonce_from_client_order_id (nl_client_order_id m))" if "m \<in> set (nonce_leases db')" for m
    using that ok by (auto simp: leases_ok_def ls nonce_of_client_order_id id)
  ultimately have "leases_ok db'" using d pos unfolding leases_ok_def by blast
  moreover obtain as ls where "db' = db\<lparr>user_nonce_allocators := as, nonce_leases := ls\<rparr>" using db' by blast
  ultimately show ?thesis
    using inv by (simp add: store_inv_def orders_ok_def batches_ok_def reservations_ok_def payloads_ok_def queue_ok_def members_ok_def)
qed


lemma insert_order_row:
  assumes "insert_order db oid cid nonce d now = Inr db'"
  shows "\<exists>row. do_order_id row = oid \<and> do_client_order_id row = cid \<and> do_payload row = Json d \<and> do_state row = Admitted
    \<and> do_batch_id row = None \<and> do_terminal_error row = None \<and> db' = db\<lparr>durable_orders := durable_orders db @ [row]\<rparr>
    \<and> (\<forall>r\<in>set (durable_orders db). do_order_id r \<noteq> oid \<and> do_client_order_id r \<noteq> cid)"
proof -
  obtain t where "to_i64 now = Inr t" using assms by (auto simp: insert_order_def res_simps)
  with assms show ?thesis
    by (intro exI [of _ "\<lparr>do_order_id = oid, do_client_order_id = cid, do_order_nonce = uint nonce, do_payload = Json d,
          do_state = Admitted, do_claim_owner = None, do_claim_until = None, do_batch_id = None,
          do_terminal_error = None, do_tx_hash = None, do_created_at = t, do_updated_at = t\<rparr>"])
      (auto simp: insert_order_def res_simps sql_simps split: if_splits)
qed

text \<open>Inserting an order whose reservation is present, while the queue is below its limit.\<close>

lemma insert_order_inv:
  assumes ins: "insert_order db oid cid nonce (durable cd (ord :: ('sg, 'pk, created) order)) now = Inr db'"
    and res: "\<exists>s\<in>set (intent_reservations db). ir_order_id s = oid \<and> ir_client_order_id s = cid"
      "\<forall>s\<in>set (intent_reservations db). ir_order_id s \<noteq> oid \<longrightarrow> (\<exists>r\<in>set (durable_orders db). do_order_id r = ir_order_id s)"
      "\<forall>r\<in>set (durable_orders db). \<exists>s\<in>set (intent_reservations db). ir_order_id s = do_order_id r \<and> ir_client_order_id s = do_client_order_id r"
    and ok: "orders_ok db" "batches_ok db" "leases_ok db" "payloads_ok cd db" "members_ok db" "Suc (sql_count prebatch (durable_orders db)) \<le> limit"
  shows "store_inv cd limit db'"
proof -
  obtain row where row: "do_order_id row = oid" "do_client_order_id row = cid" "do_payload row = Json (durable cd ord)"
      "do_state row = Admitted" "do_batch_id row = None" "do_terminal_error row = None"
    and db': "db' = db\<lparr>durable_orders := durable_orders db @ [row]\<rparr>"
    and fresh: "\<forall>r\<in>set (durable_orders db). do_order_id r \<noteq> oid \<and> do_client_order_id r \<noteq> cid"
    using insert_order_row [OF ins] by blast
  have "orders_ok db'" using ok(1) row fresh by (auto simp: orders_ok_def error_matches_def db')
  moreover have "batches_ok db'" using ok(2) row by (auto simp: batches_ok_def db')
  moreover have "reservations_ok db'" using res row unfolding reservations_ok_def db' by auto
  moreover have "payloads_ok cd db'" using ok(4) row by (auto simp: payloads_ok_def db')
  moreover have "leases_ok db' = leases_ok db" by (simp add: leases_ok_def db')
  moreover have "queue_ok limit db'" using ok(6) by (auto simp: queue_ok_def sql_count_def db')
  moreover have "members_ok db'" using ok(5) row unfolding members_ok_def db' by auto
  ultimately show ?thesis using ok(3) by (simp add: store_inv_def)
qed

text \<open>Every reservation of a reachable store has its order, so the recovery branch is never taken.\<close>

lemma admit_tx_cases:
  assumes ok: "reservations_ok db"
  shows "admit_tx cid commitment d now limit db =
    and_then (validate_nonce_lease db cid (dur_user_id d)) (\<lambda>nonce.
      case find (\<lambda>r. ir_client_order_id r = cid) (intent_reservations db) of
        Some r \<Rightarrow> Inr (if ir_commitment r \<noteq> commitment then RConflict else RExisting (ir_order_id r), db)
      | None \<Rightarrow> admit_tx cid commitment d now limit db)"
proof -
  have "sql_exists (\<lambda>r. do_order_id r = ir_order_id s) (durable_orders db)"
    if "find (\<lambda>r. ir_client_order_id r = cid) (intent_reservations db) = Some s" for s
    using ok find_SomeD [OF that] by (auto simp: reservations_ok_def sql_simps)
  then show ?thesis
    by (auto simp: admit_tx_def and_then_def Let_def split: sum.splits option.splits)
qed

lemma admit_tx_new:
  assumes "admit_tx cid commitment d now limit db = Inr (x, db')"
    "find (\<lambda>r. ir_client_order_id r = cid) (intent_reservations db) = None"
  shows "\<exists>t nonce db1. x = RNew (dur_id d) \<and> sql_count prebatch (durable_orders db) < limit
    \<and> \<not> sql_exists (\<lambda>r. ir_client_order_id r = cid \<or> ir_order_id r = dur_id d) (intent_reservations db)
    \<and> insert_order (db\<lparr>intent_reservations := intent_reservations db @
         [\<lparr>ir_client_order_id = cid, ir_commitment = commitment, ir_order_id = dur_id d, ir_created_at = t\<rparr>]\<rparr>)
        (dur_id d) cid nonce d now = Inr db1 \<and> order_effect {} db1 db'
    \<and> intent_reservations db' = intent_reservations db1"
proof -
  have pre: "prebatch = (\<lambda>r. do_state r \<in> {Admitted, ProcessingClaimed})" by (rule ext) (simp add: prebatch_def)
  from assms obtain t nonce db1 db2 where "x = RNew (dur_id d)" "sql_count prebatch (durable_orders db) < limit"
    "\<not> sql_exists (\<lambda>r. ir_client_order_id r = cid \<or> ir_order_id r = dur_id d) (intent_reservations db)"
    "insert_order (db\<lparr>intent_reservations := intent_reservations db @
         [\<lparr>ir_client_order_id = cid, ir_commitment = commitment, ir_order_id = dur_id d, ir_created_at = t\<rparr>]\<rparr>)
        (dur_id d) cid nonce d now = Inr db1"
    and e: "append_event db1 (dur_id d) ''admitted'' NoDetail (KAdmitted (dur_id d)) now = Inr db2"
      "enqueue_outbox db2 ''order_admitted'' (dur_id d) now = Inr db'"
    unfolding admit_tx_def pre by (auto simp: res_simps Let_def usize_i64_def split: if_splits)
  moreover have "order_effect {} db1 db'"
    by (rule order_effect_trans [OF order_effect_append_event [OF e(1)] order_effect_enqueue [OF e(2)]])
  ultimately show ?thesis by (auto simp: order_effect_def others_def)
qed

lemma admit_tx_inv:
  assumes tx: "admit_tx cid commitment (durable cd (ord :: ('sg, 'pk, created) order)) now limit db = Inr (x, db')"
    and inv: "store_inv cd limit db"
  shows "store_inv cd limit db'"
proof (cases "find (\<lambda>r. ir_client_order_id r = cid) (intent_reservations db)")
  case None
  have ok: "orders_ok db" "batches_ok db" "reservations_ok db" "leases_ok db" "payloads_ok cd db"
    "members_ok db" using inv by (auto simp: store_inv_def)
  obtain t nonce db1 where q: "sql_count prebatch (durable_orders db) < limit"
    and ins: "insert_order (db\<lparr>intent_reservations := intent_reservations db @ [\<lparr>ir_client_order_id = cid,
        ir_commitment = commitment, ir_order_id = dur_id (durable cd ord), ir_created_at = t\<rparr>]\<rparr>)
        (dur_id (durable cd ord)) cid nonce (durable cd ord) now = Inr db1" and e: "order_effect {} db1 db'"
    using admit_tx_new [OF tx None] by blast
  have "store_inv cd limit db1"
  proof (rule insert_order_inv [OF ins])
  qed (use ok q in \<open>auto simp: orders_ok_def batches_ok_def reservations_ok_def leases_ok_def payloads_ok_def members_ok_def\<close>)
  then show ?thesis by (rule order_effect_inv [OF e])
next
  case (Some s)
  have "reservations_ok db" using inv by (simp add: store_inv_def)
  then show ?thesis using inv tx Some by (subst (asm) admit_tx_cases) (auto simp: res_simps)
qed

section \<open>Every step preserves the invariant and extends the store\<close>

text \<open>Along every step rows move along their lifecycle and keep their place, new rows are appended,
  and reservations, leases and applied notes are never changed or removed.\<close>

definition store_extends :: "execution_db \<Rightarrow> execution_db \<Rightarrow> bool" where
  "store_extends db db' \<longleftrightarrow>
     (\<exists>rows. rows_evolve UNIV (durable_orders db) rows \<and> prefix rows (durable_orders db'))
     \<and> prefix (intent_reservations db) (intent_reservations db')
     \<and> prefix (nonce_leases db) (nonce_leases db')
     \<and> prefix (applied_lp_notes db) (applied_lp_notes db')"

lemma store_extends_refl [simp]: "store_extends db db"
  unfolding store_extends_def using rows_evolve_refl by blast

lemma store_extends_trans:
  assumes "store_extends a b" "store_extends b d"
  shows "store_extends a d"
proof -
  obtain r1 n1 where 1: "rows_evolve UNIV (durable_orders a) r1" "durable_orders b = r1 @ n1"
    using assms(1) by (auto simp: store_extends_def prefix_def)
  obtain r2 n2 where 2: "rows_evolve UNIV (durable_orders b) r2" "durable_orders d = r2 @ n2"
    using assms(2) by (auto simp: store_extends_def prefix_def)
  obtain s1 s2 where 3: "rows_evolve UNIV r1 s1" "r2 = s1 @ s2"
    using 2(1) unfolding 1(2) list_all2_append1 by blast
  have "rows_evolve UNIV (durable_orders a) s1" using 1(1) 3(1) by (rule rows_evolve_trans)
  moreover have "prefix s1 (durable_orders d)" by (simp add: 2(2) 3(2))
  ultimately show ?thesis using assms unfolding store_extends_def by (meson prefix_order.trans)
qed

lemma order_effect_extends: "order_effect bs db db' \<Longrightarrow> store_extends db db'"
proof -
  assume e: "order_effect bs db db'"
  have "rows_evolve UNIV (durable_orders db) (durable_orders db')"
    using e unfolding order_effect_def by (auto elim!: list_all2_mono simp: row_evolves_def)
  then show ?thesis using e by (auto simp: store_extends_def order_effect_def others_def)
qed

lemma order_effect_step:
  "order_effect {} db db' \<Longrightarrow> store_inv cd limit db \<Longrightarrow> store_inv cd limit db' \<and> store_extends db db'"
  by (simp add: order_effect_inv order_effect_extends)

lemma atomically_step:
  assumes "\<And>x db'. body db = Inr (x, db') \<Longrightarrow> store_inv cd limit db' \<and> store_extends db db'" "store_inv cd limit db"
  shows "store_inv cd limit (snd (atomically body db)) \<and> store_extends db (snd (atomically body db))"
  using assms by (auto simp: atomically_def split: sum.splits)

lemma effect_step:
  "(\<And>x db'. body db = Inr (x, db') \<Longrightarrow> order_effect {} db db') \<Longrightarrow> store_inv cd limit db
    \<Longrightarrow> store_inv cd limit (snd (atomically body db)) \<and> store_extends db (snd (atomically body db))"
  by (rule atomically_step) (metis order_effect_step)

lemma fail_orders_by_ids_step:
  "store_inv cd limit db \<Longrightarrow> store_inv cd limit (snd (fail_orders_by_ids ids reason now db))
    \<and> store_extends db (snd (fail_orders_by_ids ids reason now db))"
  using effect_step [of "fail_ids ids reason now" db cd limit] fail_ids_effect by (auto simp: fail_orders_by_ids_def)

lemma same_orders_extends:
  "durable_orders db' = durable_orders db \<Longrightarrow> prefix (intent_reservations db) (intent_reservations db')
    \<Longrightarrow> prefix (nonce_leases db) (nonce_leases db') \<Longrightarrow> prefix (applied_lp_notes db) (applied_lp_notes db')
    \<Longrightarrow> store_extends db db'"
  by (auto simp: store_extends_def intro!: exI [of _ "durable_orders db"])

lemma finalize_extends: "finalize_batch_if_ready db b now = Inr (x, db') \<Longrightarrow> store_extends db db'"
  by (auto simp: res_simps Let_def update_batches_def enqueue_outbox_def split: if_splits intro!: same_orders_extends)

lemma update_batches_extends [simp]: "store_extends db (update_batches db P f)"
  by (simp add: update_batches_def same_orders_extends)

lemma begin_reconciliation_extends: "begin_reconciliation_tx b w now db = Inr (x, db') \<Longrightarrow> store_extends db db'"
  by (auto simp: begin_reconciliation_tx_def res_simps Let_def simp del: finalize_batch_if_ready.simps
      split: if_splits prod.splits dest!: finalize_extends dest: store_extends_trans [OF update_batches_extends])

lemma resolve_submission_extends:
  assumes "resolve_submission_tx h cf blk reason now db = Inr (x, db')" "cf \<longleftrightarrow> reason = None"
  shows "store_extends db db'"
proof (cases "find (\<lambda>r. es_tx_hash r = h \<and> es_state r = SubSubmitted) (execution_submissions db)")
  case (Some row)
  with assms(1) obtain P f db2 y where
    1: "resolve_orders h cf reason (es_order_ids row) now (update_submissions db P f) = Inr db2"
    and 2: "finalize_batch_if_ready db2 (es_batch_id row) now = Inr (y, db')"
    by (auto simp: resolve_submission_tx_def res_simps Let_def simp del: finalize_batch_if_ready.simps split: prod.splits)
  have "store_extends db db2"
    by (rule order_effect_extends [OF order_effect_trans [OF update_submissions_effect resolve_orders_effect [OF 1 assms(2)]]])
  then show ?thesis using finalize_extends [OF 2] by (rule store_extends_trans)
qed (use assms in \<open>simp add: resolve_submission_tx_def\<close>)

lemma claim_batch_extends:
  assumes "claim_batch_tx w now lease db = Inr (x, db')"
  shows "store_extends db db'"
proof -
  obtain t where t: "to_i64 now = Inr t" using assms by (auto simp: claim_batch_tx_def res_simps)
  show ?thesis using assms
    by (cases "sort_key (\<lambda>r. (if eb_state r = Claimed then 0 else 1 :: int, eb_created_at r))
            (filter (batch_claimable t (execution_batches db)) (execution_batches db))")
      (auto simp: claim_batch_tx_def t res_simps Let_def update_batches_def mark_delivered_def
        split: if_split_asm intro!: same_orders_extends)
qed

lemma create_batch_extends:
  assumes "create_batch_tx w b es swaps now db = Inr (x, db')"
  shows "store_extends db db'"
proof -
  from assms obtain db1 db2 db3 where
    1: "batch_orders w b (map (\<lambda>e. dur_id (dbo_order e)) es) now db = Inr db1"
    and 2: "insert_swaps swaps now db1 = Inr db2" and 3: "insert_batch b es now db2 = Inr db3"
    and 4: "enqueue_outbox db3 ''batch_pending'' b now = Inr db'"
    by (auto simp: create_batch_tx_def res_simps)
  have "store_extends db db2"
    by (rule order_effect_extends [OF order_effect_trans [OF batch_orders_effect [OF 1] insert_swaps_effect [OF 2]]])
  moreover have "store_extends db2 db3" using insert_batch_row [OF 3] by (auto intro!: same_orders_extends)
  moreover have "store_extends db3 db'" by (rule order_effect_extends [OF order_effect_enqueue [OF 4]])
  ultimately show ?thesis using store_extends_trans by blast
qed

lemma lease_tx_extends: "lease_tx user random now db = Inr (l, db') \<Longrightarrow> store_extends db db'"
  by (auto simp: lease_tx_def Let_def res_simps split: option.splits if_splits intro!: same_orders_extends)

lemma admit_tx_extends:
  assumes "admit_tx cid commitment d now limit db = Inr (x, db')" "reservations_ok db"
  shows "store_extends db db'"
proof (cases "find (\<lambda>r. ir_client_order_id r = cid) (intent_reservations db)")
  case None
  from admit_tx_new [OF assms(1) this] obtain t nonce db1 where
    ins: "insert_order (db\<lparr>intent_reservations := intent_reservations db @ [\<lparr>ir_client_order_id = cid,
        ir_commitment = commitment, ir_order_id = dur_id d, ir_created_at = t\<rparr>]\<rparr>) (dur_id d) cid nonce d now = Inr db1"
    and e: "order_effect {} db1 db'" by blast
  obtain row where "db1 = db\<lparr>intent_reservations := intent_reservations db @ [\<lparr>ir_client_order_id = cid,
        ir_commitment = commitment, ir_order_id = dur_id d, ir_created_at = t\<rparr>],
        durable_orders := durable_orders db @ [row]\<rparr>"
    using insert_order_row [OF ins] by auto
  then have "store_extends db db1"
    unfolding store_extends_def by (auto intro!: exI [of _ "durable_orders db"])
  then show ?thesis using order_effect_extends [OF e] by (rule store_extends_trans)
next
  case (Some s)
  then show ?thesis using assms by (subst (asm) admit_tx_cases) (auto simp: res_simps)
qed


lemma upsert_pools_note_step:
  assumes "lp_application_tx note faucet sh pools now db = Inr (x, db')" "store_inv cd limit db"
  shows "store_inv cd limit db' \<and> store_extends db db'"
proof (cases "sql_exists (\<lambda>r. ln_note_id r = note) (applied_lp_notes db)")
  case False
  then obtain db1 row where u: "upsert_pools pools now db = Inr db1"
    and db': "db' = db1\<lparr>applied_lp_notes := applied_lp_notes db1 @ [row]\<rparr>"
    using assms(1) by (auto simp: lp_application_tx_def res_simps)
  have 1: "store_inv cd limit db1 \<and> store_extends db db1"
    by (rule order_effect_step [OF upsert_pools_effect [OF u] assms(2)])
  moreover have "leases_ok db' = leases_ok db1" by (simp add: db' leases_ok_def)
  ultimately have "store_inv cd limit db'"
    by (simp add: db' store_inv_def orders_ok_def batches_ok_def reservations_ok_def payloads_ok_def queue_ok_def members_ok_def)
  moreover have "store_extends db1 db'" by (simp add: db' same_orders_extends)
  ultimately show ?thesis using 1 store_extends_trans by blast
qed (use assms in \<open>simp add: lp_application_tx_def\<close>)

lemma claim_pending_batch_extends: "store_extends db (snd (claim_pending_batch rt w now lease db))"
proof -
  have 1: "store_extends db (snd (atomically (claim_batch_tx w now lease) db))"
    by (rule snd_atomically) (auto dest: claim_batch_extends)
  obtain x db' where a: "atomically (claim_batch_tx w now lease) db = (x, db')" by fastforce
  have 2: "store_extends db db2" if "begin_reconciliation b w now db' = (y, db2)" for b y db2
  proof -
    have "store_extends db' (snd (begin_reconciliation b w now db'))"
      unfolding begin_reconciliation_def by (rule snd_atomically) (auto dest: begin_reconciliation_extends)
    then show ?thesis using 1 a that store_extends_trans by auto
  qed
  then show ?thesis using 1 a
    by (auto simp: claim_pending_batch_def split: sum.splits option.splits list.splits prod.splits)
qed

lemma exec_step_inv_extends:
  assumes "exec_step cd limit db db'" and inv: "store_inv cd limit db"
  shows "store_inv cd limit db' \<and> store_extends db db'"
  using assms(1)
proof cases
  case (lease user random now)
  then show ?thesis unfolding allocate_nonce_lease_def
    using atomically_step [OF _ inv, of "lease_tx user random now"] lease_tx_inv [OF _ inv] lease_tx_extends by blast
next
  case (admit cid commitment ord now)
  then show ?thesis unfolding admit_order_with_limit_def
    using atomically_step [OF _ inv, of "admit_tx cid commitment (durable cd ord) now limit"] admit_tx_inv [OF _ inv] admit_tx_extends inv
    unfolding store_inv_def by blast
next
  case (claim rt w now lease n)
  then show ?thesis unfolding claim_admitted_orders_def
    using atomically_step [OF _ inv, of "claim_tx rt w now lease n"] claim_tx_effect order_effect_step [OF _ inv] inv
    unfolding store_inv_def by blast
next
  case (claim_batch rt w now lease)
  then show ?thesis using claim_pending_batch_inv [OF inv] claim_pending_batch_extends by blast
next
  case (create w b ords swaps now)
  then show ?thesis
    using atomically_step [OF _ inv, of "create_batch_tx w b (batch_entries cd ords) swaps now"] create_batch_inv [OF _ inv]
      create_batch_extends inv by (auto simp: create_execution_batch_def)
next
  case (reconcile b w now)
  then show ?thesis unfolding begin_reconciliation_def
    using atomically_step [OF _ inv, of "begin_reconciliation_tx b w now"] begin_reconciliation_inv [OF _ inv] begin_reconciliation_extends by blast
next
  case (save_lp nid faucet sh pools now)
  then show ?thesis unfolding save_lp_application_def
    using atomically_step [OF _ inv, of "lp_application_tx nid faucet sh pools now"] upsert_pools_note_step [OF _ inv] by blast
next
  case (confirm h block now)
  then show ?thesis unfolding confirm_submission_def resolve_submission_def
    using atomically_step [OF _ inv, of "resolve_submission_tx h True (Some block) None now"]
      resolve_submission_inv [OF _ _ inv] resolve_submission_extends by blast
next
  case (fail_tx h reason now)
  then show ?thesis unfolding fail_submission_def resolve_submission_def
    using atomically_step [OF _ inv, of "resolve_submission_tx h False None (Some reason) now"]
      resolve_submission_inv [OF _ _ inv] resolve_submission_extends by blast
next
  case (fail_stale is_stale reason now)
  then show ?thesis
    using fail_orders_by_ids_step [OF inv] by (simp add: fail_stale_prebatch_orders_def split_beta)
next
  case (fail_ids ids reason now)
  then show ?thesis using fail_orders_by_ids_step [OF inv] by simp
next
  case (fail_claimed oid w reason now)
  then show ?thesis unfolding fail_claimed_order_def
    using effect_step [OF _ inv, of "fail_claimed_tx oid w reason now"] fail_claimed_tx_effect by blast
next
  case (submit b w sub now)
  then show ?thesis unfolding record_submission_def
    using effect_step [OF _ inv, of "record_submission_tx b w sub now"] record_submission_effect by blast
next
  case (pre_fail b w ids reason now)
  then show ?thesis unfolding mark_pre_submission_failed_def
    by (auto intro!: effect_step [OF _ inv] simp: res_simps dest: pre_submission_fail_effect)
next
  case (fail_rest b w reason now)
  then show ?thesis unfolding fail_remaining_batched_orders_def
    by (auto intro!: effect_step [OF _ inv] simp: Let_def dest: fail_remaining_effect split: if_splits)
next
  case (save_pools pools now)
  then show ?thesis unfolding save_pool_states_def
    by (auto intro!: effect_step [OF _ inv] simp: res_simps dest: upsert_pools_effect)
qed (auto intro!: effect_step [OF _ inv] simp: mark_submission_local_applied_def record_reconciliation_attempt_def
    mark_outbox_delivered_def fail_swap_def res_simps order_effect_def others_def update_submissions_def update_swaps_def
    split: if_split_asm)

end
