(* ===== verification/Execution_Example.thy ===== *)
theory Execution_Example
  imports Execution_Steps
begin

text \<open>
  A concrete run of the execution store on which the properties are instantiated: every step is
  evaluated on the definitions of \<open>Execution_Store\<close>.
\<close>

section \<open>A concrete run\<close>

text \<open>An order is leased, admitted, claimed, batched, its batch is claimed and fails before submission.\<close>

definition example_cid :: uuid where "example_cid = client_order_id_for_nonce 0 5"

definition example_runtime :: "(bytes, bytes) runtime" where
  "example_runtime = \<lparr>rt_codec = example_codec, rt_clock = 7, rt_from_millis = Some\<rparr>"

definition example_processed :: "(bytes, bytes, processed) order" where
  "example_processed = processing_processed 3 \<lparr>result_amount_out = 990\<rparr> (start_processing 2 example_order)"

definition example_swap :: proposed_swap where
  "example_swap = \<lparr>ps_order_id = 42, ps_user_id = example_user, ps_asset_in = asset_in example_details,
     ps_asset_out = asset_out example_details, ps_amount_in = 1000, ps_amount_out = 990,
     ps_quoted_amount_out = 991, ps_raw_amount_out = 992, ps_lp_fee = 1, ps_backstop_fee = 0, ps_protocol_fee = 0,
     ps_volatility_fee = 0, ps_oracle_price_in = Some 1, ps_oracle_price_out = None, ps_fee_version = 0,
     ps_finalization = \<lparr>fin_user_id = example_user, fin_sell_faucet = asset_in example_details,
       fin_buy_faucet = asset_out example_details, fin_amount_in = 1000, fin_amount_out = 990,
       fin_sell_before = (1, 1, 1), fin_sell_after = (2, 2, 2), fin_buy_before = (1, 1, 1), fin_buy_after = (2, 2, 2),
       fin_analytics_swap = \<lparr>fs_event_id = 42, fs_user_id = example_user, fs_pool_id = example_user,
         fs_asset_in = asset_in example_details, fs_asset_out = asset_out example_details, fs_quote_asset = [],
         fs_amount_in = 1000, fs_amount_out = 990, fs_quote_value = 0, fs_lp_fee_quote = 0, fs_protocol_fee_quote = 0,
         fs_backstop_fee_quote = 0, fs_volatility_fee_quote = 0, fs_requested_amount_out = None,
         fs_quoted_amount_out = None, fs_event_time = 0\<rparr>\<rparr>\<rparr>"


definition example_row :: order_row where
  "example_row = \<lparr>do_order_id = 42, do_client_order_id = example_cid, do_order_nonce = 0,
     do_payload = Json (durable example_codec example_order), do_state = Admitted, do_claim_owner = None,
     do_claim_until = None, do_batch_id = None, do_terminal_error = None, do_tx_hash = None,
     do_created_at = 1001, do_updated_at = 1001\<rparr>"

definition db_leased :: execution_db where
  "db_leased = open_db\<lparr>user_nonce_allocators := [\<lparr>al_user_id = example_user, al_next_nonce = 1\<rparr>],
     nonce_leases := [\<lparr>nl_client_order_id = example_cid, nl_user_id = example_user, nl_nonce = 0, nl_created_at = 1000\<rparr>]\<rparr>"

definition db_admitted :: execution_db where
  "db_admitted = db_leased\<lparr>
     intent_reservations := [\<lparr>ir_client_order_id = example_cid, ir_commitment = ''c'', ir_order_id = 42, ir_created_at = 1001\<rparr>],
     durable_orders := [example_row],
     order_lifecycle_events := [\<lparr>ev_order_id = 42, ev_type = ''admitted'', ev_detail = NoDetail,
       ev_dedupe_key = KAdmitted 42, ev_created_at = 1001\<rparr>],
     execution_outbox := [\<lparr>ob_topic = ''order_admitted'', ob_aggregate_id = 42, ob_created_at = 1001, ob_delivered_at = None\<rparr>]\<rparr>"

lemma run_lease: "allocate_nonce_lease example_user 5 1000 open_db = (Inr \<lparr>lease_nonce = 0, lease_client_order_id = example_cid\<rparr>, db_leased)"
  by (simp add: allocate_nonce_lease_def atomically_def lease_tx_def open_db_def db_leased_def sql_exists_def sql_update_def
      and_then_def to_u32_def to_i64_def ok_or_def example_cid_def Let_def)

lemma run_admit: "admit_order_with_limit example_codec example_cid ''c'' example_order 1001 1 db_leased = (Inr (RNew 42), db_admitted)"
  by (simp add: admit_order_with_limit_def atomically_def admit_tx_def db_leased_def open_db_def db_admitted_def sql_exists_def
      sql_count_def and_then_def to_u32_def to_i64_def ok_or_def validate_nonce_lease_def usize_i64_def insert_order_def append_event_def
      enqueue_outbox_def example_row_def example_order_def new_with_id_def durable_def Let_def example_cid_def nonce_of_client_order_id)


lemmas run_defs = atomically_def sql_exists_def sql_count_def sql_update_def and_then_def to_u32_def to_i64_def ok_or_def
  usize_i64_def append_event_def enqueue_outbox_def mark_delivered_def update_orders_def update_batches_def update_swaps_def
  Let_def open_db_def db_leased_def db_admitted_def example_row_def

definition db_claimed :: execution_db where
  "db_claimed = db_admitted\<lparr>
     durable_orders := [example_row\<lparr>do_state := ProcessingClaimed, do_claim_owner := Some ''w'', do_claim_until := Some 1502,
       do_updated_at := 1002\<rparr>],
     order_lifecycle_events := order_lifecycle_events db_admitted @ [\<lparr>ev_order_id = 42, ev_type = ''processing_claimed'',
       ev_detail = TextDetail ''w'', ev_dedupe_key = KProcessingClaim 42 ''w'' 1002, ev_created_at = 1002\<rparr>],
     execution_outbox := [\<lparr>ob_topic = ''order_admitted'', ob_aggregate_id = 42, ob_created_at = 1001, ob_delivered_at = Some 1002\<rparr>]\<rparr>"

lemma into_created_example: "\<exists>ord. into_created example_codec now (durable example_codec example_order) = Inr ord"
  using example_codec_ok by (simp add: codec_ok_def into_created_def durable_def)

lemma run_claim: "snd (claim_admitted_orders example_runtime ''w'' 1002 500 10 db_admitted) = db_claimed"
proof -
  obtain ord where "into_created example_codec 7 (durable example_codec example_order) = Inr ord" using into_created_example by blast
  then show ?thesis
    by (simp add: claim_admitted_orders_def claim_tx_def claimable_def claim_one_def run_defs from_sql_u64_def sat_add_def
        example_runtime_def db_claimed_def)
qed

definition example_entry :: durable_batch_order where
  "example_entry = \<lparr>dbo_order = durable example_codec example_processed, dbo_amount_out = 990\<rparr>"

definition db_batched :: execution_db where
  "db_batched = db_claimed\<lparr>
     durable_orders := [example_row\<lparr>do_state := Batched, do_batch_id := Some 77, do_updated_at := 1003\<rparr>],
     order_lifecycle_events := order_lifecycle_events db_claimed @ [\<lparr>ev_order_id = 42, ev_type = ''batched'',
       ev_detail = BatchDetail 77, ev_dedupe_key = KBatched 42, ev_created_at = 1003\<rparr>],
     swap_accounting := [\<lparr>sw_order_id = 42, sw_swap = example_swap, sw_amount_in = 1000, sw_amount_out = 990, sw_retained_surplus = 1,
       sw_finalization = Some (Json (ps_finalization example_swap)), sw_status = Proposed, sw_tx_hash = None,
       sw_created_at = 1003, sw_finalized_at = None\<rparr>],
     execution_batches := [\<lparr>eb_batch_id = 77, eb_payload = Json [example_entry], eb_state = Pending, eb_claim_owner = None,
       eb_claim_until = None, eb_terminal_error = None, eb_created_at = 1003, eb_updated_at = 1003\<rparr>],
     execution_outbox := execution_outbox db_claimed @ [\<lparr>ob_topic = ''batch_pending'', ob_aggregate_id = 77,
       ob_created_at = 1003, ob_delivered_at = None\<rparr>]\<rparr>"

lemma example_processed_id [simp]: "order_id example_processed = 42"
  by (simp add: example_processed_def processing_processed_def start_processing_def with_state_def example_order_def new_with_id_def)

lemma example_entries: "batch_entries example_codec [example_processed] = [example_entry]"
  by (simp add: batch_entries_def example_entry_def example_processed_def processing_processed_def with_state_def)

lemma example_entry_id [simp]: "dur_id (dbo_order example_entry) = 42"
  by (simp add: example_entry_def durable_def)

lemma run_create: "create_execution_batch example_codec ''w'' 77 [example_processed] [example_swap] 1003 db_claimed = (Inr (Some 77), db_batched)"
  by (simp add: create_execution_batch_def example_entries create_batch_tx_def insert_proposed_swap_def insert_batch_def
      batch_indexes_ok_def opt_to_i64_def sat_sub_def run_defs db_claimed_def db_batched_def example_swap_def)


lemmas run_dbs = db_claimed_def db_batched_def

definition db_taken :: execution_db where
  "db_taken = db_batched\<lparr>
     execution_batches := [\<lparr>eb_batch_id = 77, eb_payload = Json [example_entry], eb_state = Claimed, eb_claim_owner = Some ''x'',
       eb_claim_until = Some 1504, eb_terminal_error = None, eb_created_at = 1003, eb_updated_at = 1004\<rparr>],
     execution_outbox := execution_outbox db_claimed @ [\<lparr>ob_topic = ''batch_pending'', ob_aggregate_id = 77,
       ob_created_at = 1003, ob_delivered_at = Some 1004\<rparr>]\<rparr>"

lemma into_processed_example: "\<exists>ord. into_processed example_codec t1 t2 t3 out (dbo_order example_entry) = Inr ord"
  using example_codec_ok by (simp add: codec_ok_def into_processed_def into_created_def durable_def example_entry_def)

lemma run_take: "snd (claim_pending_batch example_runtime ''x'' 1004 500 db_batched) = db_taken"
proof -
  obtain ord where "into_processed example_codec 7 7 7 (dbo_amount_out example_entry) (dbo_order example_entry) = Inr ord"
    using into_processed_example by blast
  then show ?thesis
    by (simp add: claim_pending_batch_def claim_batch_tx_def batch_claimable_def batch_indexes_ok_def run_defs run_dbs sat_add_def
        example_runtime_def db_taken_def)
qed

definition db_failed :: execution_db where
  "db_failed = db_taken\<lparr>
     durable_orders := [example_row\<lparr>do_state := OrdFailed, do_batch_id := Some 77, do_terminal_error := Some ''bad'', do_updated_at := 1005\<rparr>],
     swap_accounting := map (\<lambda>r. r\<lparr>sw_status := SwFailed, sw_finalized_at := Some 1005\<rparr>) (swap_accounting db_taken),
     order_lifecycle_events := order_lifecycle_events db_taken @ [\<lparr>ev_order_id = 42, ev_type = ''failed'',
       ev_detail = TextDetail ''bad'', ev_dedupe_key = KTerminal 42, ev_created_at = 1005\<rparr>]\<rparr>"

lemma run_fail: "mark_pre_submission_failed 77 ''x'' [42] ''bad'' 1005 db_taken = (Inr (), db_failed)"
  by (simp add: mark_pre_submission_failed_def owned_claim_def fail_batched_row_def fail_proposed_swap_def has_order_def
      run_defs run_dbs db_taken_def db_failed_def)

definition db_terminal :: execution_db where
  "db_terminal = db_failed\<lparr>
     execution_batches := [\<lparr>eb_batch_id = 77, eb_payload = Json [example_entry], eb_state = Terminal, eb_claim_owner = None,
       eb_claim_until = None, eb_terminal_error = Some ''bad'', eb_created_at = 1003, eb_updated_at = 1006\<rparr>],
     execution_outbox := execution_outbox db_failed @ [\<lparr>ob_topic = ''batch_terminal'', ob_aggregate_id = 77,
       ob_created_at = 1006, ob_delivered_at = None\<rparr>]\<rparr>"

lemma run_reconcile: "begin_reconciliation 77 ''x'' 1006 db_failed = (Inr True, db_terminal)"
  by (simp add: begin_reconciliation_def begin_reconciliation_tx_def run_defs run_dbs db_taken_def db_failed_def db_terminal_def)

lemma run_steps:
  "exec_step example_codec 1 open_db db_leased" "exec_step example_codec 1 db_leased db_admitted"
  "exec_step example_codec 1 db_admitted db_claimed" "exec_step example_codec 1 db_claimed db_batched"
  "exec_step example_codec 1 db_batched db_taken" "exec_step example_codec 1 db_taken db_failed"
  "exec_step example_codec 1 db_failed db_terminal"
proof -
  have rt: "rt_codec example_runtime = example_codec" by (simp add: example_runtime_def)
  show "exec_step example_codec 1 open_db db_leased"
    using exec_step.lease [of example_codec 1 open_db example_user 5 1000] by (simp add: run_lease)
  show "exec_step example_codec 1 db_leased db_admitted"
    using exec_step.admit [of example_codec 1 db_leased example_cid "''c''" example_order 1001] by (simp add: run_admit del: One_nat_def)
  show "exec_step example_codec 1 db_admitted db_claimed"
    using exec_step.claim [OF rt, of 1 db_admitted "''w''" 1002 500 10] by (simp add: run_claim)
  show "exec_step example_codec 1 db_claimed db_batched"
    using exec_step.create [of example_codec 1 db_claimed "''w''" 77 "[example_processed]" "[example_swap]" 1003] by (simp add: run_create)
  show "exec_step example_codec 1 db_batched db_taken"
    using exec_step.claim_batch [OF rt, of 1 db_batched "''x''" 1004 500] by (simp add: run_take)
  show "exec_step example_codec 1 db_taken db_failed"
    using exec_step.pre_fail [of example_codec 1 db_taken 77 "''x''" "[42]" "''bad''" 1005] by (simp add: run_fail)
  show "exec_step example_codec 1 db_failed db_terminal"
    using exec_step.reconcile [of example_codec 1 db_failed 77 "''x''" 1006] by (simp add: run_reconcile)
qed

end
