(* ===== verification/Execution_Properties.thy ===== *)
theory Execution_Properties
  imports Execution_Example
begin

text \<open>
  What the execution store promises in every reachable state: claims never fail, terminal batches
  can be recovered, orders follow their lifecycle and stay terminal, nonces are leased once,
  admission is idempotent and respects the queue limit, liquidity notes are applied once and pool
  snapshots are read back as they were saved.
\<close>

abbreviation exec_reachable :: "('sg, 'pk) codec \<Rightarrow> nat \<Rightarrow> execution_db \<Rightarrow> bool" where
  "exec_reachable cd limit \<equiv> reachable (\<lambda>db. db = open_db) (exec_step cd limit)"

lemma store_inv_open: "store_inv cd limit open_db"
  by (simp add: store_inv_def orders_ok_def batches_ok_def reservations_ok_def leases_ok_def payloads_ok_def
      queue_ok_def members_ok_def batch_indexes_ok_def sql_count_def open_db_def)

interpretation exec: state_machine "\<lambda>db. db = open_db" "exec_step cd limit" "store_inv cd limit" for cd limit
  by unfold_locales (auto simp: store_inv_open dest: exec_step_inv_extends)

lemma exec_steps_extend:
  assumes "(exec_step cd limit)\<^sup>*\<^sup>* db db'" "store_inv cd limit db"
  shows "store_inv cd limit db' \<and> store_extends db db'"
  using assms by (induction rule: rtranclp_induct) (auto dest: exec_step_inv_extends intro: store_extends_trans)

lemma run_reachable:
  "exec_reachable example_codec 1 open_db" "exec_reachable example_codec 1 db_leased"
  "exec_reachable example_codec 1 db_batched" "exec_reachable example_codec 1 db_terminal"
proof -
  show 0: "exec_reachable example_codec 1 open_db" by (rule reachable.start) simp
  show 1: "exec_reachable example_codec 1 db_leased" by (rule reachable.next_state [OF 0 run_steps(1)])
  have 2: "exec_reachable example_codec 1 db_claimed"
    by (rule reachable.next_state [OF reachable.next_state [OF 1 run_steps(2)] run_steps(3)])
  show 3: "exec_reachable example_codec 1 db_batched" by (rule reachable.next_state [OF 2 run_steps(4)])
  show "exec_reachable example_codec 1 db_terminal"
    by (rule reachable.next_state [OF reachable.next_state [OF reachable.next_state [OF 3 run_steps(5)] run_steps(6)] run_steps(7)])
qed

lemma run_to_terminal: "(exec_step example_codec 1)\<^sup>*\<^sup>* db_admitted db_terminal" "(exec_step example_codec 1)\<^sup>*\<^sup>* db_batched db_terminal"
proof -
  show 1: "(exec_step example_codec 1)\<^sup>*\<^sup>* db_batched db_terminal"
    using run_steps(5-7) by (auto intro: converse_rtranclp_into_rtranclp)
  show "(exec_step example_codec 1)\<^sup>*\<^sup>* db_admitted db_terminal"
    by (rule converse_rtranclp_into_rtranclp [OF run_steps(3) converse_rtranclp_into_rtranclp [OF run_steps(4) 1]])
qed

section \<open>Claims always succeed\<close>

lemma into_processed_durable:
  "codec_ok cd \<Longrightarrow> \<exists>pr. into_processed cd t1 t2 t3 out (durable cd ord) = Inr pr \<and> order_id pr = order_id ord"
  by (simp add: codec_ok_def into_processed_def into_created_def durable_def processing_processed_def
      start_processing_def with_state_def new_with_id_def)

text \<open>Reading the batch back: it succeeds and returns the orders of the payload that await submission.\<close>

definition awaits :: "uuid \<Rightarrow> execution_db \<Rightarrow> uuid \<Rightarrow> bool" where
  "awaits b db oid \<longleftrightarrow>
     (\<exists>r\<in>set (durable_orders db). do_order_id r = oid \<and> do_batch_id r = Some b \<and> do_state r = Batched)"

lemma batched_orders_total:
  assumes "codec_ok cd" "rt_codec rt = cd" "orders_ok db"
    and "\<And>e. e \<in> set es \<Longrightarrow> \<exists>r\<in>set (durable_orders db). do_order_id r = dur_id (dbo_order e) \<and> do_batch_id r = Some b"
    and "\<And>e. e \<in> set es \<Longrightarrow> \<exists>ord :: ('sg, 'pk, processed) order. dbo_order e = durable cd ord"
  shows "\<exists>ords. batched_orders rt db b es = Inr ords
    \<and> map order_id ords = filter (awaits b db) (map (\<lambda>e. dur_id (dbo_order e)) es)"
  using assms(4,5)
proof (induction es)
  case (Cons e es)
  then obtain ords where ords: "batched_orders rt db b es = Inr ords"
    "map order_id ords = filter (awaits b db) (map (\<lambda>e. dur_id (dbo_order e)) es)" by auto
  obtain r where r: "find (\<lambda>r. do_order_id r = dur_id (dbo_order e) \<and> do_batch_id r = Some b) (durable_orders db) = Some r"
      "r \<in> set (durable_orders db)" "do_order_id r = dur_id (dbo_order e)" "do_batch_id r = Some b"
    using find_row [of "durable_orders db" "\<lambda>r. do_order_id r = dur_id (dbo_order e) \<and> do_batch_id r = Some b"] Cons.prems(1) by auto
  have "q = r" if "q \<in> set (durable_orders db)" "do_order_id q = dur_id (dbo_order e)" for q
    using assms(3) r(2,3) that unfolding orders_ok_def distinct_map by (metis inj_onD)
  then have aw: "awaits b db (dur_id (dbo_order e)) \<longleftrightarrow> do_state r = Batched" using r(2-4) unfolding awaits_def by blast
  obtain ord :: "('sg, 'pk, processed) order" where ord: "dbo_order e = durable cd ord" using Cons.prems(2) by auto
  then obtain pr where "into_processed (rt_codec rt) (rt_clock rt) (rt_clock rt) (rt_clock rt) (dbo_amount_out e) (dbo_order e) = Inr pr"
      "order_id pr = order_id ord"
    using into_processed_durable [OF assms(1)] assms(2) by metis
  moreover have "dur_id (dbo_order e) = order_id ord" by (simp add: ord durable_def)
  ultimately show ?case using ords r aw by (cases "do_state r = Batched") (auto simp: and_then_def)
qed simp

text \<open>What holds of the rows of a payload holds of every row of the batch.\<close>

lemma batch_members_named:
  assumes inv: "store_inv cd limit db" and row: "row \<in> set (execution_batches db)" "eb_payload row = Json es"
    and r: "r \<in> set (durable_orders db)" "do_batch_id r = Some (eb_batch_id row)"
  shows "\<exists>e\<in>set es. dur_id (dbo_order e) = do_order_id r"
proof -
  obtain B entries e where B: "B \<in> set (execution_batches db)" "eb_batch_id B = eb_batch_id row"
      "eb_payload B = Json entries" "e \<in> set entries" "dur_id (dbo_order e) = do_order_id r"
    using inv r by (auto simp: store_inv_def members_ok_def) blast
  have "B = row" using inv B(1,2) row(1) by (auto simp: store_inv_def batches_ok_def distinct_map dest: inj_onD)
  then show ?thesis using B row(2) by auto
qed

lemma finalize_total: "to_i64 now = Inr t \<Longrightarrow> \<exists>y db'. finalize_batch_if_ready db b now = Inr (y, db')"
  by (auto simp: and_then_def enqueue_outbox_def Let_def)

lemma begin_reconciliation_total:
  assumes "to_i64 now = Inr t" "sql_count (\<lambda>r. do_batch_id r = Some b \<and> do_state r = Batched) (durable_orders db) = 0"
  shows "\<exists>x db'. begin_reconciliation b w now db = (Inr x, db')"
proof -
  obtain y db3 where "finalize_batch_if_ready (update_batches db
      (\<lambda>r. eb_batch_id r = b \<and> eb_state r = Claimed \<and> eb_claim_owner r = Some w)
      (\<lambda>r. r\<lparr>eb_state := Reconciling, eb_claim_owner := None, eb_claim_until := None, eb_updated_at := t\<rparr>)) b now = Inr (y, db3)"
    using finalize_total [OF assms(1)] by blast
  then have "\<exists>x. begin_reconciliation_tx b w now db = Inr x"
    using assms by (auto simp: begin_reconciliation_tx_def and_then_def Let_def simp del: finalize_batch_if_ready.simps)
  then show ?thesis by (auto simp: begin_reconciliation_def atomically_def)
qed

lemma finalize_keeps:
  assumes "finalize_batch_if_ready db b now = Inr (y, db')" "B \<in> set (execution_batches db)" "eb_batch_id B = b" "eb_state B = Reconciling"
  shows "durable_orders db' = durable_orders db \<and> (\<exists>B\<in>set (execution_batches db'). eb_batch_id B = b \<and> eb_state B \<in> {Reconciling, Terminal})"
proof -
  let ?P = "\<lambda>r. eb_batch_id r = b \<and> eb_state r \<in> {Claimed, Reconciling}"
  have q: "durable_orders db2 = durable_orders db1 \<and> execution_batches db2 = execution_batches db1"
    if "enqueue_outbox db1 topic b now = Inr db2" for db1 db2 topic
    using that by (auto simp: enqueue_outbox_def res_simps split: if_splits)
  let ?f = "\<lambda>e t r. r\<lparr>eb_state := Terminal, eb_terminal_error := e, eb_claim_owner := None, eb_claim_until := None, eb_updated_at := t\<rparr>"
  have "db' = db \<or> (\<exists>e t. durable_orders db' = durable_orders db \<and> execution_batches db' = sql_update ?P (?f e t) (execution_batches db))"
    using assms(1) by (auto simp: res_simps Let_def update_batches_def dest!: q split: if_splits) (blast | simp)+
  then show ?thesis
  proof
    assume "\<exists>e t. durable_orders db' = durable_orders db \<and> execution_batches db' = sql_update ?P (?f e t) (execution_batches db)"
    then obtain e t where f: "durable_orders db' = durable_orders db" "execution_batches db' = sql_update ?P (?f e t) (execution_batches db)" by blast
    have "?f e t B \<in> set (execution_batches db')" using assms(2-4) unfolding f(2) set_sql_update by (intro image_eqI [of _ _ B]) simp_all
    then show ?thesis using f(1) assms(3) by (auto intro!: bexI [of _ "?f e t B"])
  qed (use assms in auto)
qed

lemma sql_count_key:
  assumes "distinct (map k rows)" "x \<in> set rows" "P x" "\<And>r. P r \<Longrightarrow> k r = k x"
  shows "sql_count P rows = 1"
proof -
  have inj: "inj_on k (set rows)" using assms(1) by (simp add: distinct_map)
  have "y = x" if y: "y \<in> set rows" "P y" for y
  proof -
    have "k y = k x" by (rule assms(4)) (rule y(2))
    then show ?thesis by (rule inj_onD [OF inj _ y(1) assms(2)])
  qed
  then have "set (filter P rows) = {x}" using assms(2,3) unfolding set_filter by blast
  moreover have "distinct (filter P rows)" using assms(1) by (simp add: distinct_map)
  ultimately show ?thesis using distinct_card [of "filter P rows"] unfolding sql_count_def by (metis card.empty card.insert empty_iff finite.emptyI One_nat_def)
qed

lemma begin_reconciliation_owned:
  assumes ok: "batches_ok db" and own: "sql_exists (owned_claim b w) (execution_batches db)" and t: "to_i64 now = Inr t"
    and clear: "\<forall>r\<in>set (durable_orders db). do_batch_id r = Some b \<longrightarrow> do_state r \<noteq> Batched"
  shows "\<exists>db'. begin_reconciliation b w now db = (Inr True, db') \<and> durable_orders db' = durable_orders db
    \<and> (\<exists>B\<in>set (execution_batches db'). eb_batch_id B = b \<and> eb_state B \<in> {Reconciling, Terminal})"
proof -
  let ?P = "\<lambda>r. eb_batch_id r = b \<and> eb_state r = Claimed \<and> eb_claim_owner r = Some w"
  let ?f = "\<lambda>r. r\<lparr>eb_state := Reconciling, eb_claim_owner := None, eb_claim_until := None, eb_updated_at := t\<rparr>"
  let ?db = "update_batches db ?P ?f"
  obtain B where B: "B \<in> set (execution_batches db)" "?P B" using own by (auto simp: sql_simps owned_claim_def)
  have "?f B \<in> set (execution_batches ?db)" using B by (force simp: update_batches_def sql_simps)
  moreover obtain y db' where fin: "finalize_batch_if_ready ?db b now = Inr (y, db')" using finalize_total [OF t] by blast
  ultimately have post: "durable_orders db' = durable_orders db"
    "\<exists>B\<in>set (execution_batches db'). eb_batch_id B = b \<and> eb_state B \<in> {Reconciling, Terminal}"
    using finalize_keeps [OF fin, of "?f B"] B(2) by (auto simp: update_batches_def)
  have "distinct (map eb_batch_id (execution_batches db))" using ok by (simp add: batches_ok_def)
  then have "sql_count ?P (execution_batches db) = 1" by (rule sql_count_key [where k = eb_batch_id and x = B]) (use B in auto)
  moreover have "sql_count (\<lambda>r. do_batch_id r = Some b \<and> do_state r = Batched) (durable_orders db) = 0"
    using clear by (simp add: sql_simps)
  ultimately have "begin_reconciliation_tx b w now db = Inr (True, db')"
    using t fin by (simp add: begin_reconciliation_tx_def Let_def del: finalize_batch_if_ready.simps)
  then show ?thesis using post by (simp add: begin_reconciliation_def atomically_def)
qed

text \<open>The batches a worker may take: one whose claim ran out, or a pending one while no claim is in force.\<close>

definition claim_ready :: "int \<Rightarrow> execution_db \<Rightarrow> batch_row \<Rightarrow> bool" where
  "claim_ready t db r \<longleftrightarrow> r \<in> set (execution_batches db)
     \<and> (eb_state r = Claimed \<and> (\<exists>u. eb_claim_until r = Some u \<and> u < t)
        \<or> eb_state r = Pending
          \<and> (\<forall>b\<in>set (execution_batches db). eb_state b = Claimed \<longrightarrow> (\<exists>u. eb_claim_until b = Some u \<and> u < t)))"

lemma claim_ready_iff:
  "claim_ready t db r \<longleftrightarrow> r \<in> set (execution_batches db) \<and> batch_claimable t (execution_batches db) r"
  by (auto simp: claim_ready_def batch_claimable_def sql_exists_iff not_le split: option.splits)

text \<open>What the claiming transaction does.\<close>

definition taken :: "uuid \<Rightarrow> string \<Rightarrow> int \<Rightarrow> int \<Rightarrow> execution_db \<Rightarrow> execution_db" where
  "taken b w cu t db = mark_delivered (update_batches db (\<lambda>r. eb_batch_id r = b)
     (\<lambda>r. r\<lparr>eb_state := Claimed, eb_claim_owner := Some w, eb_claim_until := Some cu, eb_updated_at := t\<rparr>))
     ''batch_pending'' b t"

lemma taken_orders [simp]: "durable_orders (taken b w cu t db) = durable_orders db"
  by (simp add: taken_def mark_delivered_def update_batches_def)

lemma taken_batches: "execution_batches (taken b w cu t db) = sql_update (\<lambda>r. eb_batch_id r = b)
     (\<lambda>r. r\<lparr>eb_state := Claimed, eb_claim_owner := Some w, eb_claim_until := Some cu, eb_updated_at := t\<rparr>) (execution_batches db)"
  by (simp add: taken_def mark_delivered_def update_batches_def)

lemma claim_batch_tx_total:
  assumes ok: "batches_ok db" and t: "to_i64 now = Inr t" and cu: "to_i64 (sat_add now lease) = Inr cu"
  shows "claim_batch_tx w now lease db = Inr (None, db) \<and> (\<forall>r. \<not> claim_ready t db r) \<or>
    (\<exists>row. claim_batch_tx w now lease db = Inr (Some row, taken (eb_batch_id row) w cu t db) \<and> claim_ready t db row
       \<and> (eb_state row = Claimed \<or> (\<forall>r. claim_ready t db r \<longrightarrow> eb_state r \<noteq> Claimed)))"
proof (cases "sort_key (\<lambda>r. (if eb_state r = Claimed then 0 else 1 :: int, eb_created_at r))
            (filter (batch_claimable t (execution_batches db)) (execution_batches db))")
  case Nil
  then have "filter (batch_claimable t (execution_batches db)) (execution_batches db) = []" by (metis length_0_conv length_sort)
  then have "\<forall>r. \<not> claim_ready t db r" by (auto simp: claim_ready_iff filter_empty_conv)
  with Nil show ?thesis by (simp add: claim_batch_tx_def t and_then_def)
next
  case (Cons row rest)
  have mem: "claim_ready t db row" using arg_cong [OF Cons, of set] by (auto simp: claim_ready_iff)
  have "eb_state row = Claimed" if "claim_ready t db r" "eb_state r = Claimed" for r
    using sort_key_head [OF Cons, of r] that by (auto simp: claim_ready_iff less_eq_prod_def split: if_splits)
  moreover have "batch_indexes_ok (sql_update (\<lambda>r. eb_batch_id r = eb_batch_id row)
          (\<lambda>r. r\<lparr>eb_state := Claimed, eb_claim_owner := Some w, eb_claim_until := Some cu, eb_updated_at := t\<rparr>)
          (execution_batches db))"
    by (rule claim_batch_indexes_ok [OF ok Cons]) simp
  ultimately show ?thesis using mem
    by (auto simp: claim_batch_tx_def t cu Cons and_then_def taken_def update_batches_def Let_def)
qed

text \<open>What a worker gets from the batch it took: its waiting orders, in the order of the payload, or,
  when nothing waits, the batch is handed over to reconciliation.\<close>

definition hands_over :: "string \<Rightarrow> int \<Rightarrow> execution_db \<Rightarrow> batch_row \<Rightarrow> ('sg, 'pk) claimed_execution_batch option \<Rightarrow> execution_db \<Rightarrow> bool" where
  "hands_over w cu db row res db' \<longleftrightarrow>
     (if \<exists>oid. awaits (eb_batch_id row) db oid
      then \<exists>cl es. res = Some cl \<and> claimed_id cl = eb_batch_id row \<and> eb_payload row = Json es
        \<and> map order_id (claimed_orders cl) = filter (awaits (eb_batch_id row) db) (map (\<lambda>e. dur_id (dbo_order e)) es)
        \<and> order_id ` set (claimed_orders cl) = {oid. awaits (eb_batch_id row) db oid}
        \<and> (\<exists>B\<in>set (execution_batches db'). owned_claim (eb_batch_id row) w B \<and> eb_claim_until B = Some cu)
      else res = None
        \<and> (\<exists>B\<in>set (execution_batches db'). eb_batch_id B = eb_batch_id row \<and> eb_state B \<in> {Reconciling, Terminal}))"

lemma claim_pending_batch_cases:
  fixes cd :: "('sg, 'pk) codec" and rt :: "('sg, 'pk) runtime"
  assumes inv: "store_inv cd limit db" and cd: "codec_ok cd" "rt_codec rt = cd"
    and t: "to_i64 now = Inr t" and cu: "to_i64 (sat_add now lease) = Inr cu"
  shows "\<exists>res db'. claim_pending_batch rt w now lease db = (Inr res, db')
    \<and> ((\<forall>r. \<not> claim_ready t db r) \<and> res = None \<and> db' = db
       \<or> (\<exists>row. claim_ready t db row \<and> (eb_state row = Claimed \<or> (\<forall>r. claim_ready t db r \<longrightarrow> eb_state r \<noteq> Claimed))
            \<and> hands_over w cu db row res db'))"
proof -
  have ok: "batches_ok db" "payloads_ok cd db" "members_ok db" "orders_ok db" using inv by (auto simp: store_inv_def)
  from claim_batch_tx_total [OF ok(1) t cu, of w] show ?thesis
  proof
    assume "claim_batch_tx w now lease db = Inr (None, db) \<and> (\<forall>r. \<not> claim_ready t db r)"
    then show ?thesis by (simp add: claim_pending_batch_def atomically_def)
  next
    assume "\<exists>row. claim_batch_tx w now lease db = Inr (Some row, taken (eb_batch_id row) w cu t db) \<and> claim_ready t db row
       \<and> (eb_state row = Claimed \<or> (\<forall>r. claim_ready t db r \<longrightarrow> eb_state r \<noteq> Claimed))"
    then obtain row where c: "claim_batch_tx w now lease db = Inr (Some row, taken (eb_batch_id row) w cu t db)"
      and ready: "claim_ready t db row" and first: "eb_state row = Claimed \<or> (\<forall>r. claim_ready t db r \<longrightarrow> eb_state r \<noteq> Claimed)" by blast
    let ?db' = "taken (eb_batch_id row) w cu t db" and ?id = "\<lambda>e. dur_id (dbo_order e)"
    have row: "row \<in> set (execution_batches db)" using ready by (simp add: claim_ready_def)
    have own: "\<exists>B\<in>set (execution_batches ?db'). owned_claim (eb_batch_id row) w B \<and> eb_claim_until B = Some cu"
      using row unfolding taken_batches set_sql_update by (intro bexI [OF _ imageI [OF row]]) (simp add: owned_claim_def)
    obtain pords :: "('sg, 'pk, processed) order list" where pl: "eb_payload row = Json (batch_entries cd pords)"
      using ok(2) row by (auto simp: payloads_ok_def)
    have aw: "awaits (eb_batch_id row) ?db' = awaits (eb_batch_id row) db" by (simp add: awaits_def fun_eq_iff)
    obtain ords where ords: "batched_orders rt ?db' (eb_batch_id row) (batch_entries cd pords) = Inr ords"
      and ids: "map order_id ords = filter (awaits (eb_batch_id row) db) (map ?id (batch_entries cd pords))"
      using batched_orders_total [OF cd, of ?db' "batch_entries cd pords" "eb_batch_id row"] ok(1,4) row pl
      by (force simp: aw orders_ok_def batches_ok_def batch_entries_def)
    have named: "oid \<in> ?id ` set (batch_entries cd pords)" if "awaits (eb_batch_id row) db oid" for oid
      using that batch_members_named [OF inv row pl] unfolding awaits_def by force
    have same: "order_id ` set ords = {oid. awaits (eb_batch_id row) db oid}"
      using arg_cong [OF ids, of set] named by auto
    show ?thesis
    proof (cases ords)
      case Nil
      then have none: "\<not> awaits (eb_batch_id row) db oid" for oid using same by auto
      then have clear: "\<forall>r\<in>set (durable_orders ?db'). do_batch_id r = Some (eb_batch_id row) \<longrightarrow> do_state r \<noteq> Batched"
        unfolding awaits_def by auto
      have "sql_exists (owned_claim (eb_batch_id row) w) (execution_batches ?db')" using own by (auto simp: sql_exists_iff)
      moreover have "batches_ok ?db'"
        using claim_batch_inv [OF c inv] by (simp add: store_inv_def)
      ultimately obtain db'' where "begin_reconciliation (eb_batch_id row) w now ?db' = (Inr True, db'')"
          "\<exists>B\<in>set (execution_batches db''). eb_batch_id B = eb_batch_id row \<and> eb_state B \<in> {Reconciling, Terminal}"
        using begin_reconciliation_owned [OF _ _ t clear] by blast
      then show ?thesis using c pl ords Nil ready first none
        by (auto simp: claim_pending_batch_def atomically_def and_then_def hands_over_def)
    next
      case (Cons ord rest)
      then have "\<exists>oid. awaits (eb_batch_id row) db oid" using same by auto
      then have "hands_over w cu db row (Some \<lparr>claimed_id = eb_batch_id row, claimed_orders = ords\<rparr>) ?db'"
        using ids same own pl by (auto simp: hands_over_def)
      then show ?thesis using c pl ords Cons ready first
        by (auto simp: claim_pending_batch_def atomically_def and_then_def)
    qed
  qed
qed

text \<open>
  C12: a worker that asks gets the work there is. In every reachable store, if the times fit the database's
  integers and the codecs round-trip, claiming a pending batch returns normally. When some batch can be
  taken (its claim ran out, or it is pending and no claim is in force), one of these is, a lost claim
  first: the worker holds its claim until the end of the lease and gets exactly the orders of
  the batch that still await submission, in the order of the payload; a batch none of whose orders
  waits is handed over to reconciliation instead. When no batch can be taken nothing happens. There
  is never more than one pending and one claimed batch.
\<close>

theorem claim_pending_batch_succeeds:
  fixes rt :: "('sg, 'pk) runtime"
  assumes "exec_reachable cd limit db" "codec_ok cd" "rt_codec rt = cd"
    and "to_i64 now = Inr t" "to_i64 (sat_add now lease_ms) = Inr cu"
  shows "\<exists>res db'. claim_pending_batch rt worker now lease_ms db = (Inr res, db')
    \<and> sql_count (\<lambda>r. eb_state r = Pending) (execution_batches db') \<le> 1
    \<and> sql_count (\<lambda>r. eb_state r = Claimed) (execution_batches db') \<le> 1
    \<and> (if \<exists>r. claim_ready t db r
       then \<exists>row. claim_ready t db row \<and> (eb_state row = Claimed \<or> (\<forall>r. claim_ready t db r \<longrightarrow> eb_state r \<noteq> Claimed))
          \<and> hands_over worker cu db row res db'
       else res = None \<and> db' = db)"
proof -
  have inv: "store_inv cd limit db" using assms(1) by (rule exec.reachable_inv)
  have "store_inv cd limit (snd (claim_pending_batch rt worker now lease_ms db))" by (rule claim_pending_batch_inv [OF inv])
  moreover obtain res db' where run: "claim_pending_batch rt worker now lease_ms db = (Inr res, db')"
    and cases: "(\<forall>r. \<not> claim_ready t db r) \<and> res = None \<and> db' = db
       \<or> (\<exists>row. claim_ready t db row \<and> (eb_state row = Claimed \<or> (\<forall>r. claim_ready t db r \<longrightarrow> eb_state r \<noteq> Claimed))
            \<and> hands_over worker cu db row res db')"
    using claim_pending_batch_cases [OF inv assms(2-5), of worker] by blast
  ultimately have "batch_indexes_ok (execution_batches db')" by (simp add: store_inv_def batches_ok_def)
  with run cases show ?thesis unfolding batch_indexes_ok_def by auto
qed

theorem claim_pending_batch_succeeds_witness:
  "\<exists>cl db'. claim_pending_batch example_runtime ''x'' 1004 500 db_batched = (Inr (Some cl), db')
    \<and> order_id ` set (claimed_orders cl) = {42}"
proof -
  have ready: "claim_ready 1004 db_batched row \<longleftrightarrow> row \<in> set (execution_batches db_batched)" for row
    by (auto simp: claim_ready_def db_batched_def)
  have ids: "awaits 77 db_batched oid \<longleftrightarrow> oid = 42" for oid by (auto simp: awaits_def run_dbs example_row_def)
  have rows: "row \<in> set (execution_batches db_batched) \<Longrightarrow> eb_batch_id row = 77" "execution_batches db_batched \<noteq> []" for row
    by (auto simp: db_batched_def)
  from claim_pending_batch_succeeds [OF run_reachable(3) example_codec_ok, of example_runtime 1004 1004 500 1504 "''x''"]
  obtain res db' row where run: "claim_pending_batch example_runtime ''x'' 1004 500 db_batched = (Inr res, db')"
    and r: "row \<in> set (execution_batches db_batched)" "hands_over ''x'' 1504 db_batched row res db'"
    using ready rows(2) by (auto simp: example_runtime_def to_i64_def sat_add_def split: if_splits)
  then show ?thesis by (auto simp: hands_over_def ids rows(1))
qed

section \<open>Terminal batches can be recovered\<close>

lemma recover_entries_total:
  assumes cd: "codec_ok cd" "rt_codec rt = cd"
    and "\<And>e. e \<in> set es \<Longrightarrow> \<exists>r\<in>set (durable_orders db). do_order_id r = dur_id (dbo_order e) \<and> do_batch_id r = Some b"
    and "\<And>e. e \<in> set es \<Longrightarrow> \<exists>ord :: ('sg, 'pk, processed) order. dbo_order e = durable cd ord"
    and fin: "\<And>r. r \<in> set (durable_orders db) \<Longrightarrow> do_batch_id r = Some b \<Longrightarrow> terminal_state (do_state r)"
  shows "\<exists>ords outs. recover_entries rt db b es = Inr (ords, outs)
    \<and> map order_id ords = map (\<lambda>e. dur_id (dbo_order e)) es \<and> map outcome_order_id outs = map order_id ords
    \<and> (\<forall>x\<in>set outs. \<exists>r\<in>set (durable_orders db). do_order_id r = outcome_order_id x \<and> do_batch_id r = Some b
          \<and> do_tx_hash r = outcome_tx_hash x \<and> do_terminal_error r = outcome_error x)"
  using assms(3,4)
proof (induction es)
  case (Cons e es)
  then obtain ords outs where IH: "recover_entries rt db b es = Inr (ords, outs)"
    "map order_id ords = map (\<lambda>e. dur_id (dbo_order e)) es" "map outcome_order_id outs = map order_id ords"
    "\<forall>x\<in>set outs. \<exists>r\<in>set (durable_orders db). do_order_id r = outcome_order_id x \<and> do_batch_id r = Some b
        \<and> do_tx_hash r = outcome_tx_hash x \<and> do_terminal_error r = outcome_error x"
    by auto
  obtain r where r: "find (\<lambda>r. do_order_id r = dur_id (dbo_order e) \<and> do_batch_id r = Some b) (durable_orders db) = Some r"
      "r \<in> set (durable_orders db)" "do_order_id r = dur_id (dbo_order e)" "do_batch_id r = Some b"
    using find_row [of "durable_orders db" "\<lambda>r. do_order_id r = dur_id (dbo_order e) \<and> do_batch_id r = Some b"] Cons.prems(1) by auto
  obtain ord :: "('sg, 'pk, processed) order" where ord: "dbo_order e = durable cd ord" using Cons.prems(2) by auto
  then obtain pr where "into_processed (rt_codec rt) (rt_clock rt) (rt_clock rt) (rt_clock rt) (dbo_amount_out e) (dbo_order e) = Inr pr"
      "order_id pr = order_id ord"
    using into_processed_durable [OF cd(1)] cd(2) by metis
  moreover have "dur_id (dbo_order e) = order_id ord" by (simp add: ord durable_def)
  ultimately show ?case using IH r fin [OF r(2,4)] by (auto simp: and_then_def Let_def)
qed simp

lemma terminal_recovered:
  fixes cd :: "('sg, 'pk) codec"
  assumes "exec_reachable cd limit db" "codec_ok cd" "rt_codec rt = cd"
    and row: "row \<in> set (execution_batches db)" "eb_state row = Terminal"
  shows "\<exists>rec. recover_terminal_batch rt (eb_batch_id row) db = Inr (Some rec)
    \<and> map outcome_order_id (recovered_outcomes rec) = map order_id (recovered_orders rec)
    \<and> order_id ` set (recovered_orders rec)
        = do_order_id ` {r \<in> set (durable_orders db). do_batch_id r = Some (eb_batch_id row)}
    \<and> (\<forall>x\<in>set (recovered_outcomes rec). \<exists>r\<in>set (durable_orders db). do_order_id r = outcome_order_id x
          \<and> terminal_state (do_state r) \<and> do_tx_hash r = outcome_tx_hash x \<and> do_terminal_error r = outcome_error x)"
proof -
  have inv: "store_inv cd limit db" using assms(1) by (rule exec.reachable_inv)
  then have ok: "batches_ok db" "payloads_ok cd db" "members_ok db" by (auto simp: store_inv_def)
  obtain pords where pl: "eb_payload row = Json (batch_entries cd pords)" using ok(2) row(1) by (auto simp: payloads_ok_def)
  let ?es = "batch_entries cd pords" and ?b = "eb_batch_id row"
  have fin: "terminal_state (do_state r)" if "r \<in> set (durable_orders db)" "do_batch_id r = Some ?b" for r
    using ok(1) row that by (auto simp: batches_ok_def)
  have ent: "\<exists>r\<in>set (durable_orders db). do_order_id r = dur_id (dbo_order e) \<and> do_batch_id r = Some ?b" if "e \<in> set ?es" for e
    using ok(1) row(1) pl that unfolding batches_ok_def by blast
  have dec: "\<exists>ord :: ('sg, 'pk, processed) order. dbo_order e = durable cd ord" if "e \<in> set ?es" for e
    using that by (auto simp: batch_entries_def)
  obtain ords outs where rec: "recover_entries rt db ?b ?es = Inr (ords, outs)"
    "map order_id ords = map (\<lambda>e. dur_id (dbo_order e)) ?es" "map outcome_order_id outs = map order_id ords"
    "\<forall>x\<in>set outs. \<exists>r\<in>set (durable_orders db). do_order_id r = outcome_order_id x \<and> do_batch_id r = Some ?b
        \<and> do_tx_hash r = outcome_tx_hash x \<and> do_terminal_error r = outcome_error x"
    using recover_entries_total [OF assms(2,3) ent dec fin] by blast
  have f: "find (\<lambda>r. eb_batch_id r = ?b \<and> eb_state r = Terminal) (execution_batches db) = Some row"
    using find_row [of "execution_batches db" "\<lambda>r. eb_batch_id r = ?b \<and> eb_state r = Terminal"] row ok(1)
    by (auto simp: batches_ok_def distinct_map dest: inj_onD)
  have mem: "do_order_id r \<in> (\<lambda>e. dur_id (dbo_order e)) ` set ?es"
    if "r \<in> set (durable_orders db)" "do_batch_id r = Some ?b" for r
    using batch_members_named [OF inv row(1) pl that] by (metis image_eqI)
  have "order_id ` set ords = do_order_id ` {r \<in> set (durable_orders db). do_batch_id r = Some ?b}"
    using arg_cong [OF rec(2), of set] mem ent by (auto simp: image_iff) metis+
  then show ?thesis using rec f pl fin
    by (auto simp: recover_terminal_batch_def and_then_def) metis
qed

text \<open>
  C15: a terminal batch can always be recovered after a crash. In every reachable store a batch
  marked terminal is read back in full: its payload decodes, each of its orders is terminal, and
  the recovered outcomes carry, one for each order of the payload and in its order, the transaction
  hash and the error of that order's row; the orders of the batch are exactly those recovered.
\<close>

theorem terminal_batch_recovers:
  fixes cd :: "('sg, 'pk) codec"
  assumes "exec_reachable cd limit db" "codec_ok cd" "rt_codec rt = cd"
    and row: "row \<in> set (execution_batches db)" "eb_state row = Terminal"
  shows "\<exists>rec. recover_terminal_batch rt (eb_batch_id row) db = Inr (Some rec)
    \<and> map outcome_order_id (recovered_outcomes rec) = map order_id (recovered_orders rec)
    \<and> order_id ` set (recovered_orders rec)
        = do_order_id ` {r \<in> set (durable_orders db). do_batch_id r = Some (eb_batch_id row)}
    \<and> (\<forall>x\<in>set (recovered_outcomes rec). \<exists>r\<in>set (durable_orders db). do_order_id r = outcome_order_id x
          \<and> terminal_state (do_state r) \<and> do_tx_hash r = outcome_tx_hash x \<and> do_terminal_error r = outcome_error x)"
  by (rule terminal_recovered [OF assms])

theorem terminal_batch_recovers_witness:
  "\<exists>rec. recover_terminal_batch example_runtime 77 db_terminal = Inr (Some rec)
    \<and> map outcome_order_id (recovered_outcomes rec) = map order_id (recovered_orders rec)"
proof -
  let ?row = "\<lparr>eb_batch_id = 77, eb_payload = Json [example_entry], eb_state = Terminal, eb_claim_owner = None,
       eb_claim_until = None, eb_terminal_error = Some ''bad'', eb_created_at = 1003, eb_updated_at = 1006\<rparr>"
  have "?row \<in> set (execution_batches db_terminal)" by (simp add: db_terminal_def)
  from terminal_batch_recovers [OF run_reachable(4) example_codec_ok _ this, of example_runtime]
  show ?thesis by (auto simp: example_runtime_def)
qed

section \<open>The lifecycle of an order\<close>

lemma extends_row:
  assumes "store_extends db db'" "r \<in> set (durable_orders db)"
  shows "\<exists>r'\<in>set (durable_orders db'). row_evolves UNIV r r'"
proof -
  obtain rows where e: "rows_evolve UNIV (durable_orders db) rows" "prefix rows (durable_orders db')"
    using assms(1) by (auto simp: store_extends_def)
  then obtain r' where "r' \<in> set rows" "row_evolves UNIV r r'" using rows_evolve_forth [OF e(1) assms(2)] by blast
  then show ?thesis using set_mono_prefix [OF e(2)] by blast
qed

text \<open>
  C9: orders follow their lifecycle. In every reachable store and along every further sequence of
  operations, an order row is never lost: there is exactly one row with its id, its payload, client
  id, nonce and admission time are unchanged, its state has moved along the edges of the lifecycle
  only, a terminal state is final, and once in a batch it stays in that batch.
\<close>

theorem orders_follow_lifecycle:
  assumes "exec_reachable cd limit db" "(exec_step cd limit)\<^sup>*\<^sup>* db db'" "r \<in> set (durable_orders db)"
  shows "\<exists>r'. (\<forall>x\<in>set (durable_orders db'). do_order_id x = do_order_id r \<longleftrightarrow> x = r') \<and> r' \<in> set (durable_orders db')
      \<and> do_order_id r' = do_order_id r \<and> do_payload r' = do_payload r
      \<and> do_client_order_id r' = do_client_order_id r \<and> do_order_nonce r' = do_order_nonce r
      \<and> do_created_at r' = do_created_at r \<and> lifecycle\<^sup>*\<^sup>* (do_state r) (do_state r')
      \<and> (terminal_state (do_state r) \<longrightarrow> do_state r' = do_state r)
      \<and> (do_batch_id r \<noteq> None \<longrightarrow> do_batch_id r' = do_batch_id r)"
proof -
  have inv: "store_inv cd limit db" using assms(1) by (rule exec.reachable_inv)
  then have ext: "store_inv cd limit db'" "store_extends db db'" using exec_steps_extend [OF assms(2)] by auto
  obtain r' where r': "r' \<in> set (durable_orders db')" "row_evolves UNIV r r'" using extends_row [OF ext(2) assms(3)] by blast
  have uniq: "x = r'" if "x \<in> set (durable_orders db')" "do_order_id x = do_order_id r'" for x
    using ext(1) that r'(1) by (auto simp: store_inv_def orders_ok_def distinct_map dest: inj_onD)
  have np: "\<not> prebatch r" if "do_batch_id r \<noteq> None" using inv assms(3) that by (auto simp: store_inv_def orders_ok_def)
  have ev: "do_order_id r' = do_order_id r" "do_payload r' = do_payload r" "do_client_order_id r' = do_client_order_id r"
      "do_order_nonce r' = do_order_nonce r" "do_created_at r' = do_created_at r" "lifecycle\<^sup>*\<^sup>* (do_state r) (do_state r')"
      "do_batch_id r \<noteq> None \<longrightarrow> do_batch_id r' = do_batch_id r"
    using r'(2) np by (auto simp: row_evolves_def)
  then show ?thesis using r'(1) uniq lifecycle_terminal [OF ev(6)] by metis
qed

theorem orders_follow_lifecycle_witness:
  "\<exists>r'. r' \<in> set (durable_orders db_terminal) \<and> do_order_id r' = 42 \<and> lifecycle\<^sup>*\<^sup>* Batched (do_state r')
     \<and> do_batch_id r' = Some 77"
proof -
  let ?r = "example_row\<lparr>do_state := Batched, do_batch_id := Some 77, do_updated_at := 1003\<rparr>"
  have "?r \<in> set (durable_orders db_batched)" by (simp add: db_batched_def)
  from orders_follow_lifecycle [OF run_reachable(3) run_to_terminal(2) this]
  obtain r' where "r' \<in> set (durable_orders db_terminal)" "do_order_id r' = do_order_id ?r"
    "lifecycle\<^sup>*\<^sup>* (do_state ?r) (do_state r')" "do_batch_id ?r \<noteq> None \<longrightarrow> do_batch_id r' = do_batch_id ?r" by blast
  then show ?thesis by (intro exI [of _ r']) (simp add: example_row_def)
qed

section \<open>Leases\<close>


lemma find_prefix: "find P xs = Some x \<Longrightarrow> prefix xs ys \<Longrightarrow> find P ys = Some x"
  by (induction xs arbitrary: ys) (auto simp: prefix_def split: if_splits)


text \<open>
  C17: a nonce is leased once. In every reachable store a lease that is granted carries a nonce
  greater than every nonce leased to that user before and a client-order id no lease had, the id
  embeds the nonce, and the lease validates for the user it was granted to and for nobody else.
\<close>

theorem nonce_leased_once:
  assumes "exec_reachable cd limit db" "allocate_nonce_lease user random now db = (Inr l, db')"
  shows "(\<forall>m\<in>set (nonce_leases db). nl_client_order_id m \<noteq> lease_client_order_id l
        \<and> (nl_user_id m = user \<longrightarrow> nl_nonce m < uint (lease_nonce l)))
    \<and> nonce_from_client_order_id (lease_client_order_id l) = lease_nonce l
    \<and> validate_nonce_lease db' (lease_client_order_id l) user = Inr (lease_nonce l)
    \<and> (\<forall>other. other \<noteq> user \<longrightarrow> validate_nonce_lease db' (lease_client_order_id l) other = Inl NonceLeaseConflict)"
proof -
  have ok: "leases_ok db" using exec.reachable_inv [OF assms(1)] by (simp add: store_inv_def)
  have tx: "lease_tx user random now db = Inr (l, db')"
    using assms(2) by (simp add: allocate_nonce_lease_def atomically_Inr)
  obtain t where l: "lease_client_order_id l = client_order_id_for_nonce (lease_nonce l) random"
    and ls: "nonce_leases db' = nonce_leases db @ [\<lparr>nl_client_order_id = lease_client_order_id l, nl_user_id = user,
         nl_nonce = uint (lease_nonce l), nl_created_at = t\<rparr>]"
    and new: "\<forall>m\<in>set (nonce_leases db). nl_client_order_id m \<noteq> lease_client_order_id l
          \<and> (nl_user_id m = user \<longrightarrow> nl_nonce m < uint (lease_nonce l))"
    using lease_tx_row [OF tx ok] by blast
  have n: "nonce_from_client_order_id (lease_client_order_id l) = lease_nonce l" by (simp add: l nonce_of_client_order_id)
  have "find (\<lambda>r. nl_client_order_id r = lease_client_order_id l) (nonce_leases db') = Some \<lparr>nl_client_order_id = lease_client_order_id l,
      nl_user_id = user, nl_nonce = uint (lease_nonce l), nl_created_at = t\<rparr>"
    using new unfolding ls by (subst find_skip) auto
  then have "validate_nonce_lease db' (lease_client_order_id l) u
      = (if u = user then Inr (lease_nonce l) else Inl NonceLeaseConflict)" for u
    by (auto simp: validate_nonce_lease_def ok_or_def and_then_def n)
  then show ?thesis using new n by simp
qed

theorem nonce_leased_once_witness:
  "validate_nonce_lease db_leased example_cid example_user = Inr 0"
  using nonce_leased_once [OF run_reachable(1) run_lease] by simp

section \<open>Admission\<close>

lemma admit_tx_known:
  assumes "reservations_ok db" "find (\<lambda>r. ir_client_order_id r = cid) (intent_reservations db) = Some s"
  shows "admit_tx cid commitment d now limit db = and_then (validate_nonce_lease db cid (dur_user_id d))
    (\<lambda>_. Inr (if ir_commitment s \<noteq> commitment then RConflict else RExisting (ir_order_id s), db))"
  by (subst admit_tx_cases [OF assms(1)]) (simp add: assms(2))

text \<open>
  C3: admission is idempotent. Once an order was admitted in a reachable store, then after any
  further operations resubmitting its client-order id answers with the order's id when the signed
  commitment is the same, and with a conflict when it is not, and in both cases changes nothing.
\<close>

theorem admission_idempotent:
  assumes "exec_reachable cd limit db"
    and adm: "admit_order_with_limit cd cid commitment ord now limit db = (Inr (RNew oid), db1)"
    and steps: "(exec_step cd limit)\<^sup>*\<^sup>* db1 db2"
    and user: "order_user_id ord' = order_user_id ord"
  shows "admit_order_with_limit cd cid commitment' ord' now' limit' db2
    = (Inr (if commitment' = commitment then RExisting oid else RConflict), db2)"
proof -
  have inv: "store_inv cd limit db" using assms(1) by (rule exec.reachable_inv)
  have tx: "admit_tx cid commitment (durable cd ord) now limit db = Inr (RNew oid, db1)"
    using adm by (simp add: admit_order_with_limit_def atomically_Inr)
  have inv1: "store_inv cd limit db1" "store_extends db db1"
    using admit_tx_inv [OF tx inv] admit_tx_extends [OF tx] inv by (simp_all add: store_inv_def)
  have inv2: "store_inv cd limit db2" "store_extends db1 db2" using exec_steps_extend [OF steps inv1(1)] by auto
  have none: "find (\<lambda>r. ir_client_order_id r = cid) (intent_reservations db) = None"
    using tx admit_tx_known [of db cid] inv by (cases "find (\<lambda>r. ir_client_order_id r = cid) (intent_reservations db)")
      (auto simp: store_inv_def res_simps split: if_splits)
  from admit_tx_new [OF tx none] obtain t where r1: "intent_reservations db1 = intent_reservations db @
      [\<lparr>ir_client_order_id = cid, ir_commitment = commitment, ir_order_id = oid, ir_created_at = t\<rparr>]"
    by (auto dest!: insert_order_row)
  have "find (\<lambda>r. ir_client_order_id r = cid) (intent_reservations db1)
      = Some \<lparr>ir_client_order_id = cid, ir_commitment = commitment, ir_order_id = oid, ir_created_at = t\<rparr>"
    using none unfolding r1 find_None_iff by (subst find_skip) auto
  then have r2: "find (\<lambda>r. ir_client_order_id r = cid) (intent_reservations db2)
      = Some \<lparr>ir_client_order_id = cid, ir_commitment = commitment, ir_order_id = oid, ir_created_at = t\<rparr>"
    using inv2(2) by (auto simp: store_extends_def intro: find_prefix)
  obtain nonce where "validate_nonce_lease db cid (order_user_id ord) = Inr nonce"
    using tx by (auto simp: admit_tx_def res_simps durable_def)
  then have "validate_nonce_lease db2 cid (order_user_id ord) = Inr nonce"
    using inv1(2) inv2(2) store_extends_trans [OF inv1(2) inv2(2)]
    by (auto simp: validate_nonce_lease_def store_extends_def dest: find_prefix split: option.splits)
  then show ?thesis using admit_tx_known [OF _ r2] inv2(1) user
    by (simp add: admit_order_with_limit_def atomically_def store_inv_def and_then_def durable_def)
qed

theorem admission_idempotent_witness:
  "admit_order_with_limit example_codec example_cid ''c'' example_order 2000 1 db_terminal = (Inr (RExisting 42), db_terminal)"
  using admission_idempotent [OF run_reachable(2) run_admit run_to_terminal(1) refl, of "''c''" 2000 1] by simp


text \<open>
  C37: the queue is bounded. In every reachable store at most \<open>limit\<close> orders wait before a batch,
  and at the limit a new order with a valid lease is refused with \<open>QueueFull\<close> and nothing is stored.
\<close>

theorem queue_never_exceeds_limit:
  assumes "exec_reachable cd limit db"
  shows "sql_count prebatch (durable_orders db) \<le> limit
    \<and> (sql_count prebatch (durable_orders db) = limit \<longrightarrow> limit < 2 ^ 63
       \<longrightarrow> validate_nonce_lease db cid (order_user_id ord) = Inr nonce
       \<longrightarrow> (\<forall>r\<in>set (intent_reservations db). ir_client_order_id r \<noteq> cid)
       \<longrightarrow> admit_order_with_limit cd cid commitment ord now limit db = (Inl QueueFull, db))"
proof -
  have pre: "prebatch = (\<lambda>r. do_state r \<in> {Admitted, ProcessingClaimed})" by (rule ext) (simp add: prebatch_def)
  have "find (\<lambda>r. ir_client_order_id r = cid) (intent_reservations db) = None"
    if "\<forall>r\<in>set (intent_reservations db). ir_client_order_id r \<noteq> cid" using that by (simp add: find_None_iff)
  then show ?thesis
    using exec.reachable_inv [OF assms] unfolding store_inv_def queue_ok_def pre
    by (auto simp: admit_order_with_limit_def atomically_def admit_tx_def and_then_def durable_def usize_i64_def Let_def)
qed

theorem queue_never_exceeds_limit_witness:
  "sql_count prebatch (durable_orders db_terminal) \<le> 1"
  using queue_never_exceeds_limit [OF run_reachable(4)] by blast

section \<open>Liquidity notes\<close>

text \<open>
  A liquidity note is applied once. After a note was applied in a reachable store, then after
  any further operations applying it again, with whatever shares and pools, does nothing and says
  so, and the shares recorded for it are the ones of the first application.
\<close>

theorem lp_note_applied_once:
  assumes "exec_reachable cd limit db" "save_lp_application nid faucet sh pools now db = (Inr True, db1)"
    and steps: "(exec_step cd limit)\<^sup>*\<^sup>* db1 db2"
  shows "save_lp_application nid faucet' sh' pools' now' db2 = (Inr False, db2)
    \<and> applied_lp_shares nid db2 = Inr (Some sh)"
proof -
  have inv: "store_inv cd limit db" using assms(1) by (rule exec.reachable_inv)
  have tx: "lp_application_tx nid faucet sh pools now db = Inr (True, db1)"
    using assms(2) by (simp add: save_lp_application_def atomically_Inr)
  then obtain dbu i t where fresh: "\<And>r. r \<in> set (applied_lp_notes db) \<Longrightarrow> ln_note_id r \<noteq> nid"
    and u: "upsert_pools pools now db = Inr dbu" and i: "to_i64 sh = Inr i"
    and db1: "db1 = dbu\<lparr>applied_lp_notes := applied_lp_notes dbu @ [\<lparr>ln_note_id = nid, ln_faucet_id = faucet, ln_lp_shares = i, ln_applied_at = t\<rparr>]\<rparr>"
    by (auto simp: lp_application_tx_def res_simps sql_simps split: if_splits)
  have "applied_lp_notes dbu = applied_lp_notes db"
    using upsert_pools_effect [OF u, of "{}"] by (simp add: order_effect_def others_def)
  then have "find (\<lambda>r. ln_note_id r = nid) (applied_lp_notes db1)
      = Some \<lparr>ln_note_id = nid, ln_faucet_id = faucet, ln_lp_shares = i, ln_applied_at = t\<rparr>"
    using fresh unfolding db1 by (simp add: find_skip)
  moreover have "store_extends db1 db2"
    using exec_steps_extend [OF steps] upsert_pools_note_step [OF tx inv] by blast
  ultimately have f: "find (\<lambda>r. ln_note_id r = nid) (applied_lp_notes db2)
      = Some \<lparr>ln_note_id = nid, ln_faucet_id = faucet, ln_lp_shares = i, ln_applied_at = t\<rparr>"
    by (auto simp: store_extends_def intro: find_prefix)
  then have "sql_exists (\<lambda>r. ln_note_id r = nid) (applied_lp_notes db2)"
    by (metis find_SomeD sql_exists_iff)
  moreover have "0 \<le> i" "word_of_int i = sh" using i by (auto simp: to_i64_def split: if_splits)
  ultimately show ?thesis
    by (simp add: f save_lp_application_def atomically_def lp_application_tx_def applied_lp_shares_def from_sql_u64_def and_then_def)
qed

definition db_noted :: execution_db where
  "db_noted = snd (save_lp_application ''n'' example_user 5 [] 1000 open_db)"

lemma run_note: "save_lp_application ''n'' example_user 5 [] 1000 open_db = (Inr True, db_noted)"
  by (simp add: db_noted_def save_lp_application_def lp_application_tx_def run_defs)

theorem lp_note_applied_once_witness:
  "save_lp_application ''n'' example_user 6 [] 1001 db_noted = (Inr False, db_noted)
   \<and> applied_lp_shares ''n'' db_noted = Inr (Some 5)"
  by (rule lp_note_applied_once [OF run_reachable(1) run_note rtranclp.rtrancl_refl])

section \<open>Pool snapshots\<close>

definition snapshots_ok :: "execution_db \<Rightarrow> bool" where
  "snapshots_ok db \<longleftrightarrow> (\<forall>r\<in>set (pool_snapshots db). 0 \<le> pr_lp_total_supply r)"

text \<open>The part of a pool that a snapshot keeps.\<close>

definition snapshot_view :: "pool_state \<Rightarrow> pool_balances \<times> u64 \<times> i256 \<times> i256 \<times> u256 \<times> u256 \<times> u256 \<times> u8" where
  "snapshot_view p = (balances p, lp_total_supply p, settings_beta (settings p), settings_c (settings p),
     swap_fee (settings p), backstop_fee (settings p), protocol_fee (settings p), asset_decimals (metadata p))"


definition row_view :: "snapshot_row \<Rightarrow> pool_balances \<times> u64 \<times> i256 \<times> i256 \<times> u256 \<times> u256 \<times> u256 \<times> u8" where
  "row_view r = (pr_balances r, word_of_int (pr_lp_total_supply r), pr_beta r, pr_c r, pr_swap_fee r, pr_backstop_fee r,
     pr_protocol_fee r, pr_asset_decimals r)"

definition stored_view :: "snapshot_row list \<Rightarrow> account_id \<Rightarrow>
    (pool_balances \<times> u64 \<times> i256 \<times> i256 \<times> u256 \<times> u256 \<times> u256 \<times> u8) option" where
  "stored_view rows f = map_option row_view (find (\<lambda>r. pr_faucet_id r = f) (rev rows))"


lemma restore_rows_view:
  assumes "\<forall>r\<in>set rows. 0 \<le> pr_lp_total_supply r"
  shows "\<exists>m'. restore_rows rows m = Inr m' \<and> (\<forall>f. map_option snapshot_view (m' f)
    = (case stored_view rows f of None \<Rightarrow> map_option snapshot_view (m f) | Some v \<Rightarrow> Some v))"
  using assms
proof (induction rows arbitrary: m)
  case (Cons r rows)
  obtain p where p: "restored_pool r = Inr p" "snapshot_view p = row_view r"
    using Cons.prems by (simp add: restored_pool_def snapshot_view_def row_view_def new_pool_state_def)
  obtain m' where "restore_rows rows (m(pr_faucet_id r \<mapsto> p)) = Inr m'" "\<forall>f. map_option snapshot_view (m' f)
      = (case stored_view rows f of None \<Rightarrow> map_option snapshot_view ((m(pr_faucet_id r \<mapsto> p)) f) | Some v \<Rightarrow> Some v)"
    using Cons.IH [of "m(pr_faucet_id r \<mapsto> p)"] Cons.prems by fastforce
  then show ?case using p by (auto simp: and_then_def stored_view_def find_append split: option.splits)
qed (simp add: stored_view_def)

lemma latest_view:
  assumes "snapshots_ok db"
  shows "\<exists>m. latest_pool_states db = Inr m \<and> (\<forall>f. map_option snapshot_view (m f) = stored_view (pool_snapshots db) f)"
proof -
  have case_id: "(case v of None \<Rightarrow> None | Some x \<Rightarrow> Some x) = v" for v :: "'a option" by (cases v) auto
  show ?thesis
    using restore_rows_view [of "pool_snapshots db" Map.empty] assms
    unfolding latest_pool_states_def snapshots_ok_def by (simp only: option.map case_id)
qed

lemma find_update_row:
  assumes "pr_faucet_id row = f"
  shows "find (\<lambda>r. pr_faucet_id r = g) (map (\<lambda>r. if pr_faucet_id r = f then row else r) rows)
    = (if g = f \<and> (\<exists>r\<in>set rows. pr_faucet_id r = f) then Some row else find (\<lambda>r. pr_faucet_id r = g) rows)"
  using assms by (induction rows) auto

lemma upsert_view:
  assumes "upsert_pool_state db f st now = Inr db'" "snapshots_ok db"
  shows "snapshots_ok db' \<and> stored_view (pool_snapshots db') = (stored_view (pool_snapshots db))(f \<mapsto> snapshot_view st)"
proof -
  obtain n t where s: "to_i64 (lp_total_supply st) = Inr n" and t: "to_i64 now = Inr t"
    using assms(1) by (auto simp: upsert_pool_state_def res_simps)
  define row where "row = \<lparr>pr_faucet_id = f, pr_balances = balances st, pr_lp_total_supply = n,
     pr_beta = settings_beta (settings st), pr_c = settings_c (settings st), pr_swap_fee = swap_fee (settings st),
     pr_backstop_fee = backstop_fee (settings st), pr_protocol_fee = protocol_fee (settings st),
     pr_asset_decimals = asset_decimals (metadata st), pr_updated_at = t\<rparr>"
  have row: "pr_faucet_id row = f" "row_view row = snapshot_view st" "0 \<le> pr_lp_total_supply row"
    using s by (auto simp: row_def row_view_def snapshot_view_def to_i64_def split: if_splits)
  have db': "pool_snapshots db' = (if sql_exists (\<lambda>r. pr_faucet_id r = f) (pool_snapshots db)
             then sql_update (\<lambda>r. pr_faucet_id r = f) (\<lambda>_. row) (pool_snapshots db) else pool_snapshots db @ [row])"
    using assms(1) s t by (auto simp: upsert_pool_state_def and_then_def Let_def row_def)
  have "snapshots_ok db'" using assms(2) row(3) unfolding snapshots_ok_def db' by (auto simp: sql_simps)
  moreover have "stored_view (pool_snapshots db') g = ((stored_view (pool_snapshots db))(f \<mapsto> snapshot_view st)) g" for g
    using row(1,2) unfolding stored_view_def db'
    by (auto simp: sql_simps sql_update_def rev_map find_update_row)
  ultimately show ?thesis by blast
qed

lemma upsert_pools_view:
  assumes "upsert_pools pools now db = Inr db'" "snapshots_ok db"
  shows "snapshots_ok db' \<and> stored_view (pool_snapshots db') f =
    (case map_of (rev pools) f of Some p \<Rightarrow> Some (snapshot_view p) | None \<Rightarrow> stored_view (pool_snapshots db) f)"
  using assms
proof (induction pools now db rule: upsert_pools.induct)
  case (2 g st ps now db)
  then obtain db1 where u: "upsert_pool_state db g st now = Inr db1" and r: "upsert_pools ps now db1 = Inr db'"
    by (auto simp: res_simps)
  from upsert_view [OF u 2(3)] 2(1) [OF r] show ?case by (auto simp: map_add_def split: option.splits)
qed simp

text \<open>
  Pool snapshots are read back as they were saved. Saving pool states into a store whose rows
  hold no negative supply keeps it so, and reading the snapshots back gives for every saved pool
  the balances, supply, curve parameters, fees and decimals of its last state in the batch, and
  for every other pool what was read before.
\<close>

theorem pool_snapshot_roundtrip:
  assumes "snapshots_ok db" "save_pool_states pools now db = (Inr (), db')"
  shows "snapshots_ok db' \<and> (\<exists>m m'. latest_pool_states db = Inr m \<and> latest_pool_states db' = Inr m'
    \<and> (\<forall>f. map_option snapshot_view (m' f) = (case map_of (rev pools) f of
          Some p \<Rightarrow> Some (snapshot_view p) | None \<Rightarrow> map_option snapshot_view (m f))))"
proof -
  have u: "upsert_pools pools now db = Inr db'"
    using assms(2) by (auto simp: save_pool_states_def atomically_Inr res_simps)
  have ok: "snapshots_ok db'" using upsert_pools_view [OF u assms(1)] by blast
  obtain m where m: "latest_pool_states db = Inr m" "\<And>f. map_option snapshot_view (m f) = stored_view (pool_snapshots db) f"
    using latest_view [OF assms(1)] by blast
  obtain m' where m': "latest_pool_states db' = Inr m'" "\<And>f. map_option snapshot_view (m' f) = stored_view (pool_snapshots db') f"
    using latest_view [OF ok] by blast
  show ?thesis using ok m m' upsert_pools_view [OF u assms(1)] by (auto split: option.splits)
qed

theorem pool_snapshot_roundtrip_witness:
  "\<exists>m'. latest_pool_states (snd (save_pool_states [(example_user, example_pool)] 1000 open_db)) = Inr m'
     \<and> map_option snapshot_view (m' example_user) = Some (snapshot_view example_pool)"
proof -
  obtain db' where s: "save_pool_states [(example_user, example_pool)] 1000 open_db = (Inr (), db')"
    by (simp add: save_pool_states_def upsert_pool_state_def run_defs example_pool_def new_pool_state_def)
  have "snapshots_ok open_db" by (simp add: snapshots_ok_def open_db_def)
  from pool_snapshot_roundtrip [OF this s] obtain m m' where m': "latest_pool_states db' = Inr m'"
    and v: "\<forall>f. map_option snapshot_view (m' f) = (case map_of (rev [(example_user, example_pool)]) f of
          Some p \<Rightarrow> Some (snapshot_view p) | None \<Rightarrow> map_option snapshot_view (m f))" by blast
  show ?thesis using s m' spec [OF v, of example_user] by simp
qed

end
