(* ===== verification/Fee_Store.thy ===== *)
theory Fee_Store
  imports Pool
begin

text \<open>
  The durable store of volatility-fee batches (\<open>src/src/fee_store.rs\<close>): batches supersede each
  other by version, expire, and manual ones hold off automatic ones. The two floating-point columns
  are only stored, as their 64-bit patterns.
\<close>

section \<open>Data\<close>

type_synonym f64_bits = u64

datatype fee_update_source = UpdAutomatic | UpdManual

fun fee_source_of :: "fee_update_source \<Rightarrow> fee_source" where
  "fee_source_of UpdAutomatic = Automatic"
| "fee_source_of UpdManual = Manual"

record fee_batch_request =
  fr_batch_id :: string
  fr_issued_at :: u64
  fr_validity_secs :: u64
  fr_source :: fee_update_source
  fr_trigger :: "string option"
  fr_fee_in :: u64
  fr_fee_out :: u64
  fr_sigma_pct_day :: "f64_bits option"
  fr_target_fee_bps :: "f64_bits option"

record asset_fee_state =
  fee_in :: u64
  fee_out :: u64
  fee_valid_until :: u64
  fee_version :: u64
  fee_state_source :: fee_source

definition default_fee_state :: asset_fee_state where
  "default_fee_state = \<lparr>fee_in = 0, fee_out = 0, fee_valid_until = 0, fee_version = 0, fee_state_source = FeeNone\<rparr>"

record applied_fee_batch =
  applied_batch_id :: string
  applied_valid_until :: u64
  applied_version :: u64
  assets_updated :: nat
  idempotent :: bool

datatype fee_status = FeeActive | FeeExpired | FeeSuperseded | FeeCleared

record fee_batch_row =
  fb_batch_id :: string
  fb_source :: fee_update_source
  fb_trigger :: "string option"
  fb_issued_at :: int
  fb_validity_secs :: int
  fb_valid_until :: int
  fb_fee_in :: int
  fb_fee_out :: int
  fb_sigma_pct_day :: "f64_bits option"
  fb_target_fee_bps :: "f64_bits option"
  fb_version :: int
  fb_status :: fee_status
  fb_created_at :: int

record fee_asset_row =
  fa_batch_id :: string
  fa_faucet_id :: account_id
  fa_fee_in :: int
  fa_fee_out :: int

record fee_db =
  fee_batches :: "fee_batch_row list"
  fee_assets :: "fee_asset_row list"

definition open_fee_db :: fee_db where
  "open_fee_db = \<lparr>fee_batches = [], fee_assets = []\<rparr>"

definition apply_fee_states ::
  "(account_id \<times> pool_state) list \<Rightarrow> (account_id \<rightharpoonup> asset_fee_state) \<Rightarrow> (account_id \<times> pool_state) list" where
  "apply_fee_states pools states =
     map (\<lambda>(faucet, pool).
       let st = (case states faucet of None \<Rightarrow> default_fee_state | Some s \<Rightarrow> s)
       in (faucet, update_settings pool ((settings pool)\<lparr>
             volatility_fee_in := ucast (fee_in st), volatility_fee_out := ucast (fee_out st),
             volatility_fee_valid_until := fee_valid_until st, volatility_fee_version := fee_version st,
             volatility_fee_source := fee_state_source st\<rparr>))) pools"

section \<open>Statements\<close>

definition expire_rows :: "int \<Rightarrow> fee_db \<Rightarrow> fee_db" where
  "expire_rows t db =
     db\<lparr>fee_batches := sql_update (\<lambda>r. fb_status r = FeeActive \<and> fb_valid_until r \<le> t)
          (\<lambda>r. r\<lparr>fb_status := FeeExpired\<rparr>) (fee_batches db)\<rparr>"

text \<open>\<open>ORDER BY version DESC LIMIT 1\<close>\<close>

definition latest :: "(fee_batch_row \<Rightarrow> bool) \<Rightarrow> fee_db \<Rightarrow> fee_batch_row option" where
  "latest P db =
     (case sort_key (\<lambda>r. - fb_version r) (filter P (fee_batches db)) of [] \<Rightarrow> None | r # _ \<Rightarrow> Some r)"

text \<open>\<open>COALESCE(MAX(version), 0) + 1\<close>, which leaves the integer range with the largest version.\<close>

definition next_version :: "fee_db \<Rightarrow> u64 result" where
  "next_version db =
     (let v = (case fee_batches db of [] \<Rightarrow> 0 | _ \<Rightarrow> Max (set (map fb_version (fee_batches db)))) + 1
      in if 2 ^ 63 \<le> v then Inl (Anyhow ''invalid column type'') else from_sql_u64 v)"

text \<open>The assets of a batch, one row each; the primary key refuses a repeated asset.\<close>

fun insert_assets :: "string \<Rightarrow> int \<Rightarrow> int \<Rightarrow> account_id list \<Rightarrow> fee_asset_row list \<Rightarrow> fee_asset_row list result" where
  "insert_assets b fin fout [] rows = Inr rows"
| "insert_assets b fin fout (a # as) rows =
     (if sql_exists (\<lambda>r. fa_batch_id r = b \<and> fa_faucet_id r = a) rows then Inl SqlConstraint
      else insert_assets b fin fout as
             (rows @ [\<lparr>fa_batch_id = b, fa_faucet_id = a, fa_fee_in = fin, fa_fee_out = fout\<rparr>]))"

definition replace_active_tx ::
  "fee_batch_request \<Rightarrow> account_id list \<Rightarrow> u64 \<Rightarrow> u64 \<Rightarrow> u64 \<Rightarrow> fee_db \<Rightarrow> (applied_fee_batch \<times> fee_db) result" where
  "replace_active_tx req assets valid_until version now db =
     (let rows = sql_update (\<lambda>r. fb_status r = FeeActive) (\<lambda>r. r\<lparr>fb_status := FeeSuperseded\<rparr>) (fee_batches db)
      in and_then (to_i64 (fr_issued_at req)) (\<lambda>issued.
         and_then (to_i64 (fr_validity_secs req)) (\<lambda>secs.
         and_then (to_i64 valid_until) (\<lambda>until.
         and_then (to_i64 (fr_fee_in req)) (\<lambda>fin.
         and_then (to_i64 (fr_fee_out req)) (\<lambda>fout.
         and_then (to_i64 version) (\<lambda>v.
         and_then (to_i64 now) (\<lambda>t.
         if sql_exists (\<lambda>r. fb_batch_id r = fr_batch_id req \<or> fb_version r = v) rows then Inl SqlConstraint
         else
           and_then (insert_assets (fr_batch_id req) fin fout assets (fee_assets db)) (\<lambda>as.
             Inr (\<lparr>applied_batch_id = fr_batch_id req, applied_valid_until = valid_until,
                   applied_version = version, assets_updated = length assets, idempotent = False\<rparr>,
                  \<lparr>fee_batches = rows @
                     [\<lparr>fb_batch_id = fr_batch_id req, fb_source = fr_source req, fb_trigger = fr_trigger req,
                       fb_issued_at = issued, fb_validity_secs = secs, fb_valid_until = until,
                       fb_fee_in = fin, fb_fee_out = fout, fb_sigma_pct_day = fr_sigma_pct_day req,
                       fb_target_fee_bps = fr_target_fee_bps req, fb_version = v, fb_status = FeeActive,
                       fb_created_at = t\<rparr>],
                   fee_assets = as\<rparr>))))))))))"

section \<open>Operations\<close>

text \<open>The checks before the database is touched.\<close>

definition check_request :: "fee_batch_request \<Rightarrow> u64 \<Rightarrow> u64 result" where
  "check_request req now =
     (if fr_validity_secs req = 0 then Inl (Anyhow ''fee validity must be greater than zero'')
      else if 65535 < fr_fee_in req \<or> 65535 < fr_fee_out req
      then Inl (Anyhow ''volatility fee exceeds the configured uint16 precision range'')
      else if sat_add now 60 < fr_issued_at req then Inl (Anyhow ''fee batch issued_at is in the future'')
      else
        and_then (ok_or (checked_add (fr_issued_at req) (fr_validity_secs req)) (Anyhow ''fee validity overflow'')) (\<lambda>until.
          if until \<le> now then Inl (Anyhow ''fee batch is already expired'') else Inr until))"

text \<open>Whether the active batch lets the request replace it.\<close>

definition may_replace :: "fee_batch_request \<Rightarrow> fee_db \<Rightarrow> unit result" where
  "may_replace req db =
     (case latest (\<lambda>r. fb_status r = FeeActive) db of
        None \<Rightarrow> Inr ()
      | Some r \<Rightarrow>
          and_then (from_sql_u64 (fb_issued_at r)) (\<lambda>issued.
            if fr_issued_at req < issued then Inl (Anyhow ''stale fee batch'')
            else if fb_source r = UpdManual \<and> fr_source req = UpdAutomatic
            then Inl (Anyhow ''manual fee override is active'')
            else Inr ()))"

definition apply_batch ::
  "fee_batch_request \<Rightarrow> account_id list \<Rightarrow> u64 \<Rightarrow> fee_db \<Rightarrow> (error + applied_fee_batch) \<times> fee_db" where
  "apply_batch req assets now db =
     (case and_then (check_request req now) (\<lambda>until. and_then (to_i64 now) (\<lambda>t. Inr (until, t))) of
        Inl e \<Rightarrow> (Inl e, db)
      | Inr (valid_until, t) \<Rightarrow>
          let db1 = expire_rows t db
          in case find (\<lambda>r. fb_batch_id r = fr_batch_id req) (fee_batches db1) of
               Some r \<Rightarrow>
                 (and_then (from_sql_u64 (fb_valid_until r)) (\<lambda>until.
                  and_then (from_sql_u64 (fb_version r)) (\<lambda>v.
                    Inr \<lparr>applied_batch_id = fr_batch_id req, applied_valid_until = until, applied_version = v,
                         assets_updated = length assets, idempotent = True\<rparr>)), db1)
             | None \<Rightarrow>
                 (case and_then (may_replace req db1) (\<lambda>_. next_version db1) of
                    Inl e \<Rightarrow> (Inl e, db1)
                  | Inr version \<Rightarrow> atomically (replace_active_tx req assets valid_until version now) db1))"

fun asset_states ::
  "fee_source \<Rightarrow> int \<Rightarrow> int \<Rightarrow> fee_asset_row list \<Rightarrow> (account_id \<rightharpoonup> asset_fee_state) \<Rightarrow> (account_id \<rightharpoonup> asset_fee_state) result" where
  "asset_states src until v [] m = Inr m"
| "asset_states src until v (r # rs) m =
     and_then (from_sql_u64 (fa_fee_in r)) (\<lambda>fin.
     and_then (from_sql_u64 (fa_fee_out r)) (\<lambda>fout.
     and_then (from_sql_u64 until) (\<lambda>u.
     and_then (from_sql_u64 v) (\<lambda>ver.
       asset_states src until v rs (m(fa_faucet_id r \<mapsto>
         \<lparr>fee_in = fin, fee_out = fout, fee_valid_until = u, fee_version = ver, fee_state_source = src\<rparr>))))))"

definition active_states :: "u64 \<Rightarrow> fee_db \<Rightarrow> (account_id \<rightharpoonup> asset_fee_state) result" where
  "active_states now db =
     and_then (to_i64 now) (\<lambda>t.
       case latest (\<lambda>r. fb_status r = FeeActive \<and> t < fb_valid_until r) db of
         None \<Rightarrow> Inr Map.empty
       | Some r \<Rightarrow>
           asset_states (fee_source_of (fb_source r)) (fb_valid_until r) (fb_version r)
             (filter (\<lambda>a. fa_batch_id a = fb_batch_id r) (fee_assets db)) Map.empty)"

definition expire_fees :: "u64 \<Rightarrow> fee_db \<Rightarrow> (error + bool) \<times> fee_db" where
  "expire_fees now =
     atomically (\<lambda>db. and_then (to_i64 now) (\<lambda>t.
       Inr (0 < sql_count (\<lambda>r. fb_status r = FeeActive \<and> fb_valid_until r \<le> t) (fee_batches db), expire_rows t db)))"

definition clear_manual :: "u64 \<Rightarrow> fee_db \<Rightarrow> (error + bool) \<times> fee_db" where
  "clear_manual now =
     atomically (\<lambda>db. and_then (to_i64 now) (\<lambda>t.
       let P = (\<lambda>r. fb_status r = FeeActive \<and> fb_source r = UpdManual)
       in Inr (0 < sql_count P (fee_batches db),
               db\<lparr>fee_batches := sql_update P
                    (\<lambda>r. r\<lparr>fb_status := FeeCleared, fb_valid_until := min (fb_valid_until r) t\<rparr>) (fee_batches db)\<rparr>)))"

section \<open>Reading the active batch\<close>

lemma latest_None: "latest P db = None \<longleftrightarrow> (\<forall>r\<in>set (fee_batches db). \<not> P r)"
proof -
  have "sort_key (\<lambda>r. - fb_version r) (filter P (fee_batches db)) = [] \<longleftrightarrow> filter P (fee_batches db) = []"
    by (metis length_0_conv length_sort)
  then show ?thesis by (auto simp: latest_def filter_empty_conv split: list.splits)
qed

lemma latest_Some: "latest P db = Some r \<Longrightarrow> r \<in> set (fee_batches db) \<and> P r"
proof -
  assume "latest P db = Some r"
  then obtain rs where s: "sort_key (\<lambda>r. - fb_version r) (filter P (fee_batches db)) = r # rs"
    by (auto simp: latest_def split: list.splits)
  have "r \<in> set (sort_key (\<lambda>r. - fb_version r) (filter P (fee_batches db)))" unfolding s by simp
  then show ?thesis by simp
qed

lemma latest_unique:
  assumes "sql_count P (fee_batches db) \<le> 1" "r \<in> set (fee_batches db)" "P r"
  shows "latest P db = Some r"
proof (cases "latest P db")
  case None
  then show ?thesis using assms(2,3) by (simp add: latest_None)
next
  case (Some x)
  then show ?thesis using latest_Some [OF Some] sql_count_le1 [OF assms(1) _ assms(2) _ assms(3)] by simp
qed

lemma filter_expired:
  assumes "t \<le> t'"
  shows "filter (\<lambda>r. fb_status r = FeeActive \<and> t' < fb_valid_until r) (fee_batches (expire_rows t db))
    = filter (\<lambda>r. fb_status r = FeeActive \<and> t' < fb_valid_until r) (fee_batches db)"
proof -
  have "filter (\<lambda>r. fb_status r = FeeActive \<and> t' < fb_valid_until r)
      (sql_update (\<lambda>r. fb_status r = FeeActive \<and> fb_valid_until r \<le> t) (\<lambda>r. r\<lparr>fb_status := FeeExpired\<rparr>) rows)
    = filter (\<lambda>r. fb_status r = FeeActive \<and> t' < fb_valid_until r) rows" for rows
    using assms by (induction rows) (auto simp: sql_update_def)
  then show ?thesis by (simp add: expire_rows_def)
qed

lemma fee_assets_expire [simp]: "fee_assets (expire_rows t db) = fee_assets db"
  by (simp add: expire_rows_def)

lemma expire_keeps_later_states:
  assumes "to_i64 now = Inr t" "now \<le> later"
  shows "active_states later (expire_rows t db) = active_states later db"
proof (cases "to_i64 later")
  case (Inr t')
  have "t \<le> t'" using assms Inr by (auto simp: to_i64_def word_le_def split: if_splits)
  then show ?thesis using filter_expired [of t t' db] by (simp add: active_states_def Inr latest_def cong: option.case_cong)
qed (simp add: active_states_def)

section \<open>The invariant\<close>

definition fee_inv :: "fee_db \<Rightarrow> bool" where
  "fee_inv db \<longleftrightarrow> distinct (map fb_batch_id (fee_batches db)) \<and> distinct (map fb_version (fee_batches db))
     \<and> sql_count (\<lambda>r. fb_status r = FeeActive) (fee_batches db) \<le> 1
     \<and> (\<forall>r\<in>set (fee_batches db). 0 < fb_version r \<and> fb_version r < 2 ^ 63 \<and> 0 \<le> fb_issued_at r \<and> 0 \<le> fb_valid_until r)
     \<and> (\<forall>a\<in>set (fee_assets db). \<exists>r\<in>set (fee_batches db). fb_batch_id r = fa_batch_id a)"

inductive fee_step :: "fee_db \<Rightarrow> fee_db \<Rightarrow> bool" where
  apply_request: "fee_step db (snd (apply_batch req assets now db))"
| expire: "fee_step db (snd (expire_fees now db))"
| clear: "fee_step db (snd (clear_manual now db))"

text \<open>Updates of the batches that keep identity and never activate.\<close>

lemma fee_update_inv:
  assumes inv: "fee_inv db" and keep: "\<And>r. P r \<Longrightarrow> fb_batch_id (f r) = fb_batch_id r \<and> fb_version (f r) = fb_version r
      \<and> fb_issued_at (f r) = fb_issued_at r \<and> fb_status (f r) \<noteq> FeeActive \<and> (0 \<le> fb_valid_until r \<longrightarrow> 0 \<le> fb_valid_until (f r))"
  shows "fee_inv (db\<lparr>fee_batches := sql_update P f (fee_batches db)\<rparr>)"
proof -
  have k: "map fb_batch_id (sql_update P f (fee_batches db)) = map fb_batch_id (fee_batches db)"
    "map fb_version (sql_update P f (fee_batches db)) = map fb_version (fee_batches db)"
    using keep by (auto intro!: map_sql_update_key)
  moreover have "sql_count (\<lambda>r. fb_status r = FeeActive) (sql_update P f (fee_batches db)) \<le> sql_count (\<lambda>r. fb_status r = FeeActive) (fee_batches db)"
    using keep by (intro sql_count_update_le) auto
  moreover have "\<exists>r\<in>set (sql_update P f (fee_batches db)). fb_batch_id r = fa_batch_id a" if "a \<in> set (fee_assets db)" for a
  proof -
    have "fa_batch_id a \<in> fb_batch_id ` set (fee_batches db)" using inv that by (force simp: fee_inv_def)
    then show ?thesis using k(1) by (metis (no_types, lifting) image_iff list.set_map)
  qed
  moreover have "0 < fb_version r \<and> fb_version r < 2 ^ 63 \<and> 0 \<le> fb_issued_at r \<and> 0 \<le> fb_valid_until r"
    if "r \<in> set (sql_update P f (fee_batches db))" for r
    using inv keep that unfolding fee_inv_def set_sql_update by (auto split: if_splits)
  ultimately show ?thesis using inv unfolding fee_inv_def by simp
qed

lemma expire_rows_inv: "fee_inv db \<Longrightarrow> fee_inv (expire_rows t db)"
  unfolding expire_rows_def by (rule fee_update_inv) auto

lemma insert_assets_rows:
  "insert_assets b fin fout as rows = Inr rows' \<Longrightarrow> rows' = rows @ map (\<lambda>a. \<lparr>fa_batch_id = b, fa_faucet_id = a, fa_fee_in = fin, fa_fee_out = fout\<rparr>) as"
  by (induction as arbitrary: rows) (fastforce split: if_splits)+

lemma from_sql_u64_uint: "from_sql_u64 v = Inr w \<Longrightarrow> v < 2 ^ 63 \<Longrightarrow> uint w = v"
  by (auto simp: from_sql_u64_def unsigned_of_int take_bit_int_eq_self split: if_splits)

lemma next_version_max:
  assumes "fee_batches db \<noteq> []" "next_version db = Inr v" "\<forall>r\<in>set (fee_batches db). 0 < fb_version r"
  shows "uint v = Max (set (map fb_version (fee_batches db))) + 1 \<and> uint v < 2 ^ 63"
proof -
  let ?m = "Max (set (map fb_version (fee_batches db))) + 1"
  have "next_version db = (if 2 ^ 63 \<le> ?m then Inl (Anyhow ''invalid column type'') else from_sql_u64 ?m)"
  proof -
    obtain x xs where "fee_batches db = x # xs" using assms(1) by (cases "fee_batches db") auto
    then show ?thesis by (simp only: next_version_def Let_def list.case)
  qed
  then have v: "?m < 2 ^ 63" "from_sql_u64 ?m = Inr v" using assms(2) by (auto split: if_splits)
  then show ?thesis using from_sql_u64_uint [OF v(2,1)] by simp
qed

lemma next_version_above:
  assumes "next_version db = Inr v" "r \<in> set (fee_batches db)" "\<forall>r\<in>set (fee_batches db). 0 < fb_version r"
  shows "fb_version r < uint v"
proof -
  have "fee_batches db \<noteq> []" using assms(2) by auto
  then have "uint v = Max (set (map fb_version (fee_batches db))) + 1" using next_version_max assms(1,3) by blast
  moreover have "fb_version r \<le> Max (set (map fb_version (fee_batches db)))" using assms(2) by (intro Max_ge) auto
  ultimately show ?thesis by simp
qed

lemma next_version_bounds:
  assumes "next_version db = Inr v" "\<forall>r\<in>set (fee_batches db). 0 < fb_version r"
  shows "0 < uint v \<and> uint v < 2 ^ 63"
proof (cases "fee_batches db = []")
  case True
  then show ?thesis using assms(1) by (simp add: next_version_def from_sql_u64_def)
next
  case False
  then obtain r where "r \<in> set (fee_batches db)" by (meson last_in_set)
  then have "fb_version r < uint v" "0 < fb_version r" using next_version_above [OF assms(1) _ assms(2)] assms(2) by auto
  then show ?thesis using next_version_max [OF False assms] by linarith
qed

lemma replace_active_row:
  assumes "replace_active_tx req assets until version now db = Inr (a, db')"
  shows "\<exists>row. fb_batch_id row = fr_batch_id req \<and> fb_source row = fr_source req \<and> fb_issued_at row = uint (fr_issued_at req)
    \<and> fb_valid_until row = uint until \<and> fb_version row = uint version \<and> fb_status row = FeeActive
    \<and> fee_batches db' = sql_update (\<lambda>r. fb_status r = FeeActive) (\<lambda>r. r\<lparr>fb_status := FeeSuperseded\<rparr>) (fee_batches db) @ [row]
    \<and> (\<forall>r\<in>set (fee_batches db). fb_batch_id r \<noteq> fr_batch_id req)
    \<and> fee_assets db' = fee_assets db @ map (\<lambda>f. \<lparr>fa_batch_id = fr_batch_id req, fa_faucet_id = f,
        fa_fee_in = uint (fr_fee_in req), fa_fee_out = uint (fr_fee_out req)\<rparr>) assets
    \<and> a = \<lparr>applied_batch_id = fr_batch_id req, applied_valid_until = until, applied_version = version,
          assets_updated = length assets, idempotent = False\<rparr>"
proof -
  obtain secs t where "to_i64 (fr_validity_secs req) = Inr secs" "to_i64 now = Inr t"
    using assms by (auto simp: replace_active_tx_def Let_def res_simps)
  moreover have "\<forall>r\<in>set (fee_batches db). fb_batch_id r \<noteq> fr_batch_id req"
  proof
    fix r assume r: "r \<in> set (fee_batches db)"
    have "\<forall>x\<in>set (sql_update (\<lambda>r. fb_status r = FeeActive) (\<lambda>r. r\<lparr>fb_status := FeeSuperseded\<rparr>) (fee_batches db)).
        fb_batch_id x \<noteq> fr_batch_id req"
      using assms by (auto simp: replace_active_tx_def Let_def res_simps sql_exists_iff)
    moreover have "(if fb_status r = FeeActive then r\<lparr>fb_status := FeeSuperseded\<rparr> else r) \<in>
        set (sql_update (\<lambda>r. fb_status r = FeeActive) (\<lambda>r. r\<lparr>fb_status := FeeSuperseded\<rparr>) (fee_batches db))"
      using r by (simp add: sql_update_def)
    ultimately have "fb_batch_id (if fb_status r = FeeActive then r\<lparr>fb_status := FeeSuperseded\<rparr> else r) \<noteq> fr_batch_id req" by blast
    then show "fb_batch_id r \<noteq> fr_batch_id req" by (simp split: if_splits)
  qed
  ultimately show ?thesis using assms
    by (intro exI [of _ "\<lparr>fb_batch_id = fr_batch_id req, fb_source = fr_source req, fb_trigger = fr_trigger req,
         fb_issued_at = uint (fr_issued_at req), fb_validity_secs = secs, fb_valid_until = uint until,
         fb_fee_in = uint (fr_fee_in req), fb_fee_out = uint (fr_fee_out req), fb_sigma_pct_day = fr_sigma_pct_day req,
         fb_target_fee_bps = fr_target_fee_bps req, fb_version = uint version, fb_status = FeeActive, fb_created_at = t\<rparr>"])
      (auto simp: replace_active_tx_def Let_def res_simps to_i64_def split: if_splits dest!: insert_assets_rows)
qed


lemma replace_active_inv:
  assumes tx: "replace_active_tx req assets until version now db = Inr (a, db')" and inv: "fee_inv db"
    and v: "next_version db = Inr version"
  shows "fee_inv db'"
proof -
  let ?rows = "sql_update (\<lambda>r. fb_status r = FeeActive) (\<lambda>r. r\<lparr>fb_status := FeeSuperseded\<rparr>) (fee_batches db)"
  obtain row where row: "fb_batch_id row = fr_batch_id req" "fb_issued_at row = uint (fr_issued_at req)"
      "fb_valid_until row = uint until" "fb_version row = uint version" "fb_status row = FeeActive"
    and rows: "fee_batches db' = ?rows @ [row]" and fresh: "\<forall>r\<in>set (fee_batches db). fb_batch_id r \<noteq> fr_batch_id req"
    and as: "fee_assets db' = fee_assets db @ map (\<lambda>f. \<lparr>fa_batch_id = fr_batch_id req, fa_faucet_id = f,
        fa_fee_in = uint (fr_fee_in req), fa_fee_out = uint (fr_fee_out req)\<rparr>) assets"
    using replace_active_row [OF tx] by blast
  have pos: "\<forall>r\<in>set (fee_batches db). 0 < fb_version r" using inv by (auto simp: fee_inv_def)
  have sup: "fee_inv (db\<lparr>fee_batches := ?rows\<rparr>)" by (rule fee_update_inv [OF inv]) auto
  have none: "filter (\<lambda>r. fb_status r = FeeActive) ?rows = []" by (auto simp: sql_update_def filter_empty_conv)
  have ids: "map fb_batch_id ?rows = map fb_batch_id (fee_batches db)" "map fb_version ?rows = map fb_version (fee_batches db)"
    by (rule map_sql_update_key, simp)+
  have "fr_batch_id req \<notin> set (map fb_batch_id ?rows)" unfolding ids using fresh by auto
  moreover have "uint version \<notin> set (map fb_version ?rows)"
    unfolding ids using next_version_above [OF v _ pos] by force
  moreover have "sql_count (\<lambda>r. fb_status r = FeeActive) (?rows @ [row]) \<le> 1" by (simp add: sql_count_def none row)
  ultimately show ?thesis
    using sup row next_version_bounds [OF v pos] unfolding fee_inv_def rows as by auto
qed

lemma apply_batch_inv:
  assumes "fee_inv db"
  shows "fee_inv (snd (apply_batch req assets now db))"
proof (cases "and_then (check_request req now) (\<lambda>until. and_then (to_i64 now) (\<lambda>t. Inr (until, t)))")
  case (Inr p)
  then obtain until t where p: "p = (until, t)" by fastforce
  have inv1: "fee_inv (expire_rows t db)" by (rule expire_rows_inv [OF assms])
  show ?thesis
  proof (cases "find (\<lambda>r. fb_batch_id r = fr_batch_id req) (fee_batches (expire_rows t db))")
    case None
    show ?thesis
    proof (cases "and_then (may_replace req (expire_rows t db)) (\<lambda>_. next_version (expire_rows t db))")
      case (Inr v)
      then have "next_version (expire_rows t db) = Inr v" by (auto simp: res_simps)
      then have "fee_inv (snd (atomically (replace_active_tx req assets until v now) (expire_rows t db)))"
        using inv1 replace_active_inv by (intro snd_atomically [where Q=fee_inv]) blast+
      then show ?thesis using \<open>_ = Inr p\<close> p None Inr by (simp add: apply_batch_def Let_def)
    qed (use \<open>_ = Inr p\<close> p None inv1 in \<open>simp add: apply_batch_def Let_def\<close>)
  qed (use Inr p inv1 in \<open>simp add: apply_batch_def Let_def\<close>)
qed (use assms in \<open>simp add: apply_batch_def\<close>)

lemma fee_step_inv: "fee_step db db' \<Longrightarrow> fee_inv db \<Longrightarrow> fee_inv db'"
proof (induction rule: fee_step.induct)
  case (apply_request db req assets now)
  then show ?case by (rule apply_batch_inv)
next
  case (expire db now)
  then show ?case unfolding expire_fees_def
    by (intro snd_atomically [where Q=fee_inv]) (auto simp: res_simps intro: expire_rows_inv)
next
  case (clear db now)
  have "fee_inv (db\<lparr>fee_batches := sql_update (\<lambda>r. fb_status r = FeeActive \<and> fb_source r = UpdManual)
      (\<lambda>r. r\<lparr>fb_status := FeeCleared, fb_valid_until := min (fb_valid_until r) (uint now)\<rparr>) (fee_batches db)\<rparr>)"
    by (rule fee_update_inv [OF clear]) auto
  then show ?case unfolding clear_manual_def
    using clear by (intro snd_atomically [where Q=fee_inv]) (auto simp: res_simps Let_def to_i64_def split: if_splits)
qed

lemma fee_inv_open: "fee_inv open_fee_db"
  by (simp add: fee_inv_def open_fee_db_def sql_count_def)

abbreviation fee_reachable :: "fee_db \<Rightarrow> bool" where
  "fee_reachable \<equiv> reachable (\<lambda>db. db = open_fee_db) fee_step"

interpretation fees: state_machine "\<lambda>db. db = open_fee_db" fee_step fee_inv
  by unfold_locales (auto simp: fee_inv_open intro: fee_step_inv)

section \<open>Properties\<close>

lemma apply_batch_new:
  assumes "apply_batch req assets now db = (Inr a, db')" "\<not> idempotent a"
  shows "\<exists>until t v. check_request req now = Inr until \<and> to_i64 now = Inr t \<and> next_version (expire_rows t db) = Inr v
    \<and> replace_active_tx req assets until v now (expire_rows t db) = Inr (a, db')"
  using assms
  by (auto simp: apply_batch_def atomically_Inr res_simps Let_def split: sum.splits prod.splits option.splits if_splits)


lemma from_sql_u64_of_uint [simp]: "from_sql_u64 (uint w) = Inr w"
  by (simp add: from_sql_u64_def)

lemma asset_states_batch:
  "asset_states src (uint until) (uint v)
     (map (\<lambda>f. \<lparr>fa_batch_id = b, fa_faucet_id = f, fa_fee_in = uint fin, fa_fee_out = uint fout\<rparr>) assets) m
   = Inr (\<lambda>f. if f \<in> set assets then Some \<lparr>fee_in = fin, fee_out = fout, fee_valid_until = until, fee_version = v,
            fee_state_source = src\<rparr> else m f)"
  by (induction assets arbitrary: m) (auto simp: fun_eq_iff)

text \<open>
  C33: a fee batch takes effect and replaces every other. In every reachable store a batch that is
  accepted as new has a version above all earlier ones, is valid for exactly its validity period,
  and from then on the active fees are, before the end of that period, exactly the requested fees
  for the listed assets with that version and source, and nothing for any other asset; from the end
  of the period on there are none.
\<close>

theorem fee_batch_takes_effect:
  assumes "fee_reachable db" "apply_batch req assets now db = (Inr a, db')" "\<not> idempotent a"
  shows "(\<forall>r\<in>set (fee_batches db). fb_version r < uint (applied_version a))
    \<and> unat (applied_valid_until a) = unat (fr_issued_at req) + unat (fr_validity_secs req)
    \<and> now < applied_valid_until a
    \<and> (uint later < 2 ^ 63 \<longrightarrow> active_states later db' =
         Inr (if later < applied_valid_until a
              then (\<lambda>f. if f \<in> set assets then Some \<lparr>fee_in = fr_fee_in req, fee_out = fr_fee_out req,
                       fee_valid_until = applied_valid_until a, fee_version = applied_version a,
                       fee_state_source = fee_source_of (fr_source req)\<rparr> else None)
              else Map.empty))"
proof -
  have inv: "fee_inv db" using assms(1) by (rule fees.reachable_inv)
  obtain until t v where chk: "check_request req now = Inr until" and t: "to_i64 now = Inr t"
    and v: "next_version (expire_rows t db) = Inr v"
    and tx: "replace_active_tx req assets until v now (expire_rows t db) = Inr (a, db')"
    using apply_batch_new [OF assms(2,3)] by blast
  let ?db = "expire_rows t db"
  have inv1: "fee_inv ?db" by (rule expire_rows_inv [OF inv])
  have ver: "\<forall>r\<in>set (fee_batches ?db). fb_version r < uint v"
    using next_version_above [OF v] inv1 by (simp add: fee_inv_def)
  have a: "a = \<lparr>applied_batch_id = fr_batch_id req, applied_valid_until = until, applied_version = v,
      assets_updated = length assets, idempotent = False\<rparr>" using replace_active_row [OF tx] by blast
  obtain row where row: "fb_batch_id row = fr_batch_id req" "fb_source row = fr_source req" "fb_valid_until row = uint until"
      "fb_version row = uint v" "fb_status row = FeeActive"
    and rows: "fee_batches db' = sql_update (\<lambda>r. fb_status r = FeeActive) (\<lambda>r. r\<lparr>fb_status := FeeSuperseded\<rparr>) (fee_batches ?db) @ [row]"
    and fresh: "\<forall>r\<in>set (fee_batches ?db). fb_batch_id r \<noteq> fr_batch_id req"
    and as: "fee_assets db' = fee_assets ?db @ map (\<lambda>f. \<lparr>fa_batch_id = fr_batch_id req, fa_faucet_id = f,
        fa_fee_in = uint (fr_fee_in req), fa_fee_out = uint (fr_fee_out req)\<rparr>) assets"
    using replace_active_row [OF tx] by blast
  have "\<forall>r\<in>set (fee_batches db). fb_version r < uint v"
  proof
    fix r assume r: "r \<in> set (fee_batches db)"
    have "map fb_version (fee_batches ?db) = map fb_version (fee_batches db)"
      by (simp add: expire_rows_def map_sql_update_key)
    then have "fb_version r \<in> fb_version ` set (fee_batches ?db)" using r by (metis image_eqI list.set_map)
    then show "fb_version r < uint v" using ver by auto
  qed
  moreover have "unat until = unat (fr_issued_at req) + unat (fr_validity_secs req)" "now < until"
    using chk by (auto simp: check_request_def res_simps dest: checked_add_Some split: if_splits)
  moreover have "active_states later db' = Inr (if later < until
              then (\<lambda>f. if f \<in> set assets then Some \<lparr>fee_in = fr_fee_in req, fee_out = fr_fee_out req,
                       fee_valid_until = until, fee_version = v, fee_state_source = fee_source_of (fr_source req)\<rparr> else None)
              else Map.empty)" if "uint later < 2 ^ 63"
  proof -
    have l: "to_i64 later = Inr (uint later)" using that by (simp add: to_i64_def)
    have others: "filter (\<lambda>r. fb_status r = FeeActive \<and> uint later < fb_valid_until r) (sql_update (\<lambda>r. fb_status r = FeeActive)
        (\<lambda>r. r\<lparr>fb_status := FeeSuperseded\<rparr>) (fee_batches ?db)) = []"
      by (auto simp: sql_update_def filter_empty_conv)
    have "latest (\<lambda>r. fb_status r = FeeActive \<and> uint later < fb_valid_until r) db' = (if later < until then Some row else None)"
      by (simp add: latest_def rows others row word_less_def)
    moreover have "filter (\<lambda>x. fa_batch_id x = fr_batch_id req) (fee_assets ?db) = []"
      using inv1 fresh by (force simp: filter_empty_conv fee_inv_def)
    ultimately show ?thesis by (simp add: active_states_def l as row filter_map comp_def asset_states_batch)
  qed
  moreover have av: "applied_valid_until a = until" "applied_version a = v" by (simp_all add: a)
  ultimately show ?thesis unfolding av by blast
qed


definition example_fee_request :: fee_batch_request where
  "example_fee_request = \<lparr>fr_batch_id = ''b1'', fr_issued_at = 100, fr_validity_secs = 600, fr_source = UpdManual, fr_trigger = None,
     fr_fee_in = 850, fr_fee_out = 900, fr_sigma_pct_day = None, fr_target_fee_bps = None\<rparr>"

definition example_asset :: account_id where "example_asset = \<lparr>prefix = 3, suffix = 4\<rparr>"

definition example_fee_db :: fee_db where
  "example_fee_db = \<lparr>fee_batches = [\<lparr>fb_batch_id = ''b1'', fb_source = UpdManual, fb_trigger = None, fb_issued_at = 100,
       fb_validity_secs = 600, fb_valid_until = 700, fb_fee_in = 850, fb_fee_out = 900, fb_sigma_pct_day = None,
       fb_target_fee_bps = None, fb_version = 1, fb_status = FeeActive, fb_created_at = 100\<rparr>],
     fee_assets = [\<lparr>fa_batch_id = ''b1'', fa_faucet_id = example_asset, fa_fee_in = 850, fa_fee_out = 900\<rparr>]\<rparr>"

lemma run_fee_batch: "apply_batch example_fee_request [example_asset] 100 open_fee_db
    = (Inr \<lparr>applied_batch_id = ''b1'', applied_valid_until = 700, applied_version = 1, assets_updated = 1, idempotent = False\<rparr>, example_fee_db)"
  by (simp add: apply_batch_def check_request_def example_fee_request_def checked_add_def sat_add_def to_i64_def expire_rows_def
      open_fee_db_def sql_update_def sql_exists_def may_replace_def latest_def next_version_def from_sql_u64_def Let_def atomically_def
      replace_active_tx_def example_fee_db_def)

lemma fee_reachable_example: "fee_reachable open_fee_db" "fee_reachable example_fee_db"
proof -
  show 0: "fee_reachable open_fee_db" by (rule reachable.start) simp
  show "fee_reachable example_fee_db"
    using reachable.next_state [OF 0 fee_step.apply_request, of example_fee_request "[example_asset]" 100] by (simp add: run_fee_batch)
qed

theorem fee_batch_takes_effect_witness:
  "active_states 699 example_fee_db = Inr [example_asset \<mapsto> \<lparr>fee_in = 850, fee_out = 900, fee_valid_until = 700, fee_version = 1,
      fee_state_source = Manual\<rparr>] \<and> active_states 700 example_fee_db = Inr Map.empty"
  using fee_batch_takes_effect [OF fee_reachable_example(1) run_fee_batch, of 699]
    fee_batch_takes_effect [OF fee_reachable_example(1) run_fee_batch, of 700]
  by (auto simp: example_fee_request_def fun_eq_iff)

text \<open>
  C34: a rejected batch changes no fee, and a manual override holds. When a batch is refused, the
  fees in force from then on are those that were in force before; and in every reachable store an
  automatic batch with a fresh id that passes the checks is refused as long as a manual batch is
  in force.
\<close>

theorem rejected_fee_batch_keeps_fees:
  assumes "fee_reachable db" "apply_batch req assets now db = (res, db')" "now \<le> later"
  shows "(\<forall>e. res = Inl e \<longrightarrow> active_states later db' = active_states later db)
    \<and> (\<forall>r\<in>set (fee_batches db). fb_status r = FeeActive \<longrightarrow> fb_source r = UpdManual \<longrightarrow> uint now < fb_valid_until r
         \<longrightarrow> fr_source req = UpdAutomatic \<longrightarrow> (\<forall>x\<in>set (fee_batches db). fb_batch_id x \<noteq> fr_batch_id req)
         \<longrightarrow> (\<exists>e. res = Inl e))"
proof (cases "and_then (check_request req now) (\<lambda>until. and_then (to_i64 now) (\<lambda>t. Inr (until, t)))")
  case (Inr p)
  then obtain until t where p: "p = (until, t)" and t: "to_i64 now = Inr t" by (auto simp: res_simps)
  let ?db = "expire_rows t db"
  have inv: "fee_inv ?db" by (rule expire_rows_inv [OF fees.reachable_inv [OF assms(1)]])
  have same: "active_states later ?db = active_states later db" by (rule expire_keeps_later_states [OF t assms(3)])
  have res: "(res, db') = (case find (\<lambda>r. fb_batch_id r = fr_batch_id req) (fee_batches ?db) of
       Some r \<Rightarrow> (and_then (from_sql_u64 (fb_valid_until r)) (\<lambda>until. and_then (from_sql_u64 (fb_version r)) (\<lambda>v.
           Inr \<lparr>applied_batch_id = fr_batch_id req, applied_valid_until = until, applied_version = v,
                assets_updated = length assets, idempotent = True\<rparr>)), ?db)
     | None \<Rightarrow> (case and_then (may_replace req ?db) (\<lambda>_. next_version ?db) of
           Inl e \<Rightarrow> (Inl e, ?db) | Inr version \<Rightarrow> atomically (replace_active_tx req assets until version now) ?db))"
    using assms(2) Inr p by (simp add: apply_batch_def Let_def)
  have "res = Inl e \<Longrightarrow> db' = ?db" for e
    using res by (auto simp: atomically_def split: option.splits sum.splits)
  moreover have "\<exists>e. res = Inl e"
    if r: "r \<in> set (fee_batches db)" "fb_status r = FeeActive" "fb_source r = UpdManual" "uint now < fb_valid_until r"
      and req: "fr_source req = UpdAutomatic" "\<forall>x\<in>set (fee_batches db). fb_batch_id x \<noteq> fr_batch_id req" for r
  proof -
    have "uint now = t" using t by (auto simp: to_i64_def split: if_splits)
    then have mem: "r \<in> set (fee_batches ?db)"
      using r by (auto simp: expire_rows_def sql_update_def image_iff intro!: bexI [of _ r])
    have "map fb_batch_id (fee_batches ?db) = map fb_batch_id (fee_batches db)"
      by (simp add: expire_rows_def map_sql_update_key)
    then have "\<forall>x\<in>set (fee_batches ?db). fb_batch_id x \<noteq> fr_batch_id req"
      using req(2) by (metis (no_types, lifting) image_iff list.set_map)
    then have none: "find (\<lambda>r. fb_batch_id r = fr_batch_id req) (fee_batches ?db) = None" by (simp add: find_None_iff)
    have "latest (\<lambda>r. fb_status r = FeeActive) ?db = Some r"
      using inv mem r(2) by (intro latest_unique) (auto simp: fee_inv_def)
    then have "\<exists>e. may_replace req ?db = Inl e"
      using r(3) req(1) by (auto simp: may_replace_def and_then_def split: sum.splits)
    then show ?thesis using res none by auto
  qed
  ultimately show ?thesis using same by blast
qed (use assms(2) in \<open>auto simp: apply_batch_def\<close>)

definition example_auto_request :: fee_batch_request where
  "example_auto_request = example_fee_request\<lparr>fr_batch_id := ''b2'', fr_issued_at := 101, fr_source := UpdAutomatic\<rparr>"

theorem rejected_fee_batch_keeps_fees_witness:
  "\<exists>e. fst (apply_batch example_auto_request [example_asset] 101 example_fee_db) = Inl e"
proof -
  obtain res db' where a: "apply_batch example_auto_request [example_asset] 101 example_fee_db = (res, db')" by fastforce
  from rejected_fee_batch_keeps_fees [OF fee_reachable_example(2) a order_refl]
  show ?thesis by (simp add: a) (simp add: example_fee_db_def example_auto_request_def)
qed

end
