(* ===== verification/Lp_Store.thy ===== *)
theory Lp_Store
  imports Pool "HOL-Library.Product_Lexorder" "HOL-Library.List_Lexorder" "HOL-Library.Char_ord" "HOL-Library.AList"
begin

text \<open>
  The durable journal of liquidity operations (\<open>src/src/lp_store.rs\<close>) and its synchronisation with
  the consumed notes of the chain (\<open>src/src/lp.rs\<close>). Account ids stand for their fixed-width hex
  text, whose order is the order of prefix and suffix, and the cursor's block number for its
  decimal text. The consumed notes are an argument, with the conversions of the Miden library that
  may fail as results in them.
\<close>

section \<open>Data\<close>

datatype lp_operation_kind = LpDeposit | LpWithdraw

datatype lp_status = LpConfirmed | LpApplied | LpFailed

record lp_operation =
  lo_note_id :: string
  lo_nullifier :: "string option"
  lo_kind :: lp_operation_kind
  lo_lp_id :: account_id
  lo_faucet_id :: account_id
  lo_asset_amount :: int
  lo_lp_shares :: int
  lo_block_num :: u32
  lo_status :: lp_status
  lo_failure_reason :: "string option"
  lo_created_at :: int
  lo_applied_at :: "int option"

record lp_position =
  lpos_lp_id :: account_id
  lpos_faucet_id :: account_id
  lpos_shares :: int
  lpos_checkpoint_shares :: int
  lpos_checkpoint_value :: int
  lpos_checkpoint_withdrawn :: int
  lpos_updated_at :: int

type_synonym note_cursor = "u32 \<times> string"

record lp_db =
  lp_operations :: "lp_operation list"
  lp_positions :: "lp_position list"
  lp_cursor_block :: "u32 option"
  lp_cursor_note :: "string option"

definition open_lp_db :: lp_db where
  "open_lp_db = \<lparr>lp_operations = [], lp_positions = [], lp_cursor_block = None, lp_cursor_note = None\<rparr>"

section \<open>Operations\<close>

definition record_confirmed ::
  "string \<Rightarrow> string option \<Rightarrow> lp_operation_kind \<Rightarrow> account_id \<Rightarrow> account_id \<Rightarrow> u64 \<Rightarrow> u32 \<Rightarrow> u64
     \<Rightarrow> lp_db \<Rightarrow> (error + bool) \<times> lp_db" where
  "record_confirmed note_id nullifier kind lp faucet amount block created =
     atomically (\<lambda>db.
       and_then (to_i64 amount) (\<lambda>a.
       and_then (to_i64 created) (\<lambda>t.
         if sql_exists (\<lambda>r. lo_note_id r = note_id \<or> (nullifier \<noteq> None \<and> lo_nullifier r = nullifier)) (lp_operations db)
         then Inr (False, db)
         else Inr (True, db\<lparr>lp_operations := lp_operations db @
                [\<lparr>lo_note_id = note_id, lo_nullifier = nullifier, lo_kind = kind, lo_lp_id = lp,
                  lo_faucet_id = faucet, lo_asset_amount = a, lo_lp_shares = 0, lo_block_num = block,
                  lo_status = LpConfirmed, lo_failure_reason = None, lo_created_at = t,
                  lo_applied_at = None\<rparr>]\<rparr>))))"

text \<open>A row is listed when its integer columns convert back.\<close>

definition operation_converts :: "lp_operation \<Rightarrow> bool" where
  "operation_converts r \<longleftrightarrow> 0 \<le> lo_asset_amount r \<and> 0 \<le> lo_lp_shares r \<and> 0 \<le> lo_created_at r
     \<and> (case lo_applied_at r of None \<Rightarrow> True | Some t \<Rightarrow> 0 \<le> t)"

definition operations_in :: "lp_status \<Rightarrow> lp_db \<Rightarrow> lp_operation list result" where
  "operations_in st db =
     (let rows = sort_key (\<lambda>r. (lo_block_num r, lo_created_at r)) (filter (\<lambda>r. lo_status r = st) (lp_operations db))
      in if list_all operation_converts rows then Inr rows else Inl (Anyhow ''conversion''))"

definition confirmed_operations :: "lp_db \<Rightarrow> lp_operation list result" where
  "confirmed_operations = operations_in LpConfirmed"

definition applied_operations :: "lp_db \<Rightarrow> lp_operation list result" where
  "applied_operations = operations_in LpApplied"

definition lookup_operation :: "string \<Rightarrow> lp_db \<Rightarrow> lp_operation option result" where
  "lookup_operation note_id db =
     (case find (\<lambda>r. lo_note_id r = note_id) (lp_operations db) of
        None \<Rightarrow> Inr None
      | Some r \<Rightarrow> if operation_converts r then Inr (Some r) else Inl (Anyhow ''conversion''))"

definition at_position :: "account_id \<Rightarrow> account_id \<Rightarrow> lp_position \<Rightarrow> bool" where
  "at_position lp faucet p \<longleftrightarrow> lpos_lp_id p = lp \<and> lpos_faucet_id p = faucet"

definition new_position :: "account_id \<Rightarrow> account_id \<Rightarrow> int \<Rightarrow> int \<Rightarrow> lp_position" where
  "new_position lp faucet n_shares t =
     \<lparr>lpos_lp_id = lp, lpos_faucet_id = faucet, lpos_shares = n_shares, lpos_checkpoint_shares = 0,
      lpos_checkpoint_value = 0, lpos_checkpoint_withdrawn = 0, lpos_updated_at = t\<rparr>"

definition apply_operation_tx :: "string \<Rightarrow> u64 \<Rightarrow> u64 \<Rightarrow> lp_db \<Rightarrow> (bool \<times> lp_db) result" where
  "apply_operation_tx note_id n_shares applied_at db =
     (case find (\<lambda>r. lo_note_id r = note_id) (lp_operations db) of
        None \<Rightarrow> Inl (Anyhow ''unknown LP operation'')
      | Some op \<Rightarrow>
          (case lo_status op of
             LpApplied \<Rightarrow> Inr (False, db)
           | LpFailed \<Rightarrow> Inl (Anyhow ''LP operation is failed'')
           | LpConfirmed \<Rightarrow>
               let here = at_position (lo_lp_id op) (lo_faucet_id op)
               in and_then (case find here (lp_positions db) of
                              None \<Rightarrow> Inr 0 | Some p \<Rightarrow> from_sql_u64 (lpos_shares p)) (\<lambda>current.
                  and_then (case lo_kind op of
                      LpDeposit \<Rightarrow> ok_or (checked_add current n_shares) (Anyhow ''LP share balance overflow'')
                    | LpWithdraw \<Rightarrow> ok_or (checked_sub current n_shares) (Anyhow ''withdraw burns more LP shares than owned'')) (\<lambda>new_shares.
                  and_then (to_i64 new_shares) (\<lambda>n.
                  and_then (to_i64 applied_at) (\<lambda>t.
                  and_then (to_i64 n_shares) (\<lambda>sh.
                  let positions = (if sql_exists here (lp_positions db)
                        then sql_update here (\<lambda>p. p\<lparr>lpos_shares := n, lpos_updated_at := t\<rparr>) (lp_positions db)
                        else lp_positions db @ [new_position (lo_lp_id op) (lo_faucet_id op) n t]);
                      operations = sql_update (\<lambda>r. lo_note_id r = note_id)
                        (\<lambda>r. r\<lparr>lo_lp_shares := sh, lo_status := LpApplied, lo_applied_at := Some t\<rparr>) (lp_operations db)
                  in Inr (True, db\<lparr>lp_positions := positions, lp_operations := operations\<rparr>))))))))"

definition apply_operation :: "string \<Rightarrow> u64 \<Rightarrow> u64 \<Rightarrow> lp_db \<Rightarrow> (error + bool) \<times> lp_db" where
  "apply_operation note_id n_shares applied_at = atomically (apply_operation_tx note_id n_shares applied_at)"

definition mark_failed :: "string \<Rightarrow> string \<Rightarrow> lp_db \<Rightarrow> lp_db" where
  "mark_failed note_id reason db =
     db\<lparr>lp_operations := sql_update (\<lambda>r. lo_note_id r = note_id)
          (\<lambda>r. r\<lparr>lo_status := LpFailed, lo_failure_reason := Some reason\<rparr>) (lp_operations db)\<rparr>"

definition seed_position :: "account_id \<Rightarrow> account_id \<Rightarrow> u64 \<Rightarrow> u64 \<Rightarrow> lp_db \<Rightarrow> (error + unit) \<times> lp_db" where
  "seed_position lp faucet n_shares updated_at =
     atomically (\<lambda>db.
       and_then (to_i64 n_shares) (\<lambda>n.
       and_then (to_i64 updated_at) (\<lambda>t.
         Inr ((), if sql_exists (at_position lp faucet) (lp_positions db) then db
                  else db\<lparr>lp_positions := lp_positions db @ [new_position lp faucet n t]\<rparr>))))"

definition position_converts :: "lp_position \<Rightarrow> bool" where
  "position_converts p \<longleftrightarrow> 0 \<le> lpos_shares p \<and> 0 \<le> lpos_checkpoint_shares p \<and> 0 \<le> lpos_checkpoint_value p
     \<and> 0 \<le> lpos_checkpoint_withdrawn p \<and> 0 \<le> lpos_updated_at p"

definition lookup_position :: "account_id \<Rightarrow> account_id \<Rightarrow> lp_db \<Rightarrow> lp_position option result" where
  "lookup_position lp faucet db =
     (case find (at_position lp faucet) (lp_positions db) of
        None \<Rightarrow> Inr None
      | Some p \<Rightarrow> if position_converts p then Inr (Some p) else Inl (Anyhow ''conversion''))"

definition list_positions :: "lp_db \<Rightarrow> lp_position list result" where
  "list_positions db =
     (let rows = sort_key (\<lambda>p. (prefix (lpos_lp_id p), suffix (lpos_lp_id p), prefix (lpos_faucet_id p), suffix (lpos_faucet_id p)))
                   (lp_positions db)
      in if list_all position_converts rows then Inr rows else Inl (Anyhow ''conversion''))"

definition record_checkpoint ::
  "account_id \<Rightarrow> account_id \<Rightarrow> u64 \<Rightarrow> u64 \<Rightarrow> u64 \<Rightarrow> u64 \<Rightarrow> lp_db \<Rightarrow> (error + unit) \<times> lp_db" where
  "record_checkpoint lp faucet n_shares val taken updated_at =
     atomically (\<lambda>db.
       and_then (to_i64 n_shares) (\<lambda>s.
       and_then (to_i64 val) (\<lambda>v.
       and_then (to_i64 taken) (\<lambda>w.
       and_then (to_i64 updated_at) (\<lambda>t.
         Inr ((), db\<lparr>lp_positions := sql_update (at_position lp faucet)
           (\<lambda>p. p\<lparr>lpos_checkpoint_shares := s, lpos_checkpoint_value := v, lpos_checkpoint_withdrawn := w,
                  lpos_updated_at := t\<rparr>) (lp_positions db)\<rparr>))))))"

definition sync_cursor :: "lp_db \<Rightarrow> note_cursor" where
  "sync_cursor db =
     (case lp_cursor_block db of None \<Rightarrow> 0 | Some b \<Rightarrow> b, case lp_cursor_note db of None \<Rightarrow> '''' | Some n \<Rightarrow> n)"

definition set_sync_cursor :: "note_cursor \<Rightarrow> lp_db \<Rightarrow> lp_db" where
  "set_sync_cursor cur db = db\<lparr>lp_cursor_block := Some (fst cur), lp_cursor_note := Some (snd cur)\<rparr>"

text \<open>The shares a withdrawal of \<open>amount\<close> burns at the checkpointed valuation.\<close>

definition checkpoint_share_burn :: "lp_position \<Rightarrow> u64 \<Rightarrow> u64 result" where
  "checkpoint_share_burn p amount =
     (if lpos_checkpoint_value p = 0 \<or> lpos_checkpoint_shares p = 0
      then Inl (Anyhow ''position has no checkpoint valuation'')
      else
        let numerator = uint amount * lpos_checkpoint_shares p;
            n_shares = min ((numerator + lpos_checkpoint_value p - 1) div lpos_checkpoint_value p) (lpos_shares p)
        in if n_shares < 2 ^ 64 then from_sql_u64 n_shares else Inl (Anyhow ''conversion''))"

definition withdrawal_shares_hint :: "account_id \<Rightarrow> account_id \<Rightarrow> u64 \<Rightarrow> lp_db \<Rightarrow> u64 option result" where
  "withdrawal_shares_hint lp faucet amount db =
     and_then (lookup_position lp faucet db) (\<lambda>pos.
       case pos of
         None \<Rightarrow> Inr None
       | Some p \<Rightarrow>
           if lpos_checkpoint_value p = 0 \<or> lpos_checkpoint_shares p = 0 then Inr None
           else and_then (checkpoint_share_burn p amount) (\<lambda>s. Inr (Some s)))"

section \<open>Synchronisation\<close>

text \<open>What the client reports of a consumed note: the script it runs, the account ids and the asset
  in it when they decode.\<close>

record consumed_note =
  cn_note_id :: string
  cn_block :: "u32 option"
  cn_script :: "lp_operation_kind option"
  cn_consumer :: "account_id option"
  cn_storage_len :: nat
  cn_lp_id :: "account_id result"
  cn_nullifier :: "string option"
  cn_created_at :: u64
  cn_asset :: "(account_id \<times> u64) result"

record lp_chain_event =
  lce_note_id :: string
  lce_kind :: lp_operation_kind
  lce_lp_id :: account_id
  lce_faucet_id :: account_id
  lce_asset_amount :: u64
  lce_shares_hint :: "u64 option"

record lp_worker =
  lw_vault :: account_id
  lw_assets :: "account_id list"
  lw_minimum_deposit :: u64

text \<open>Recording a note of interest: a deposit below the minimum is journalled as failed (the
  minimum itself is left out of the reason's text), any other new operation is announced.\<close>

definition journal_note ::
  "lp_worker \<Rightarrow> consumed_note \<Rightarrow> u32 \<Rightarrow> lp_operation_kind \<Rightarrow> account_id \<Rightarrow> account_id \<Rightarrow> u64
     \<Rightarrow> lp_db \<Rightarrow> (error + lp_chain_event list) \<times> lp_db" where
  "journal_note w n block kind lp faucet amount db =
     (case record_confirmed (cn_note_id n) (cn_nullifier n) kind lp faucet amount block (cn_created_at n) db of
        (Inl e, db1) \<Rightarrow> (Inl e, db1)
      | (Inr False, db1) \<Rightarrow> (Inr [], db1)
      | (Inr True, db1) \<Rightarrow>
          if kind = LpDeposit \<and> amount < lw_minimum_deposit w
          then (Inr [], mark_failed (cn_note_id n) ''deposit below minimum'' db1)
          else
            (case (if kind = LpWithdraw then withdrawal_shares_hint lp faucet amount db1 else Inr None) of
               Inl e \<Rightarrow> (Inl e, db1)
             | Inr hint \<Rightarrow>
                 (Inr [\<lparr>lce_note_id = cn_note_id n, lce_kind = kind, lce_lp_id = lp, lce_faucet_id = faucet,
                        lce_asset_amount = amount, lce_shares_hint = hint\<rparr>], db1)))"

text \<open>One note past the cursor: other scripts, other consumers, short storage and unlisted assets are
  skipped; an account id or an asset that does not decode is an error.\<close>

definition sync_note :: "lp_worker \<Rightarrow> consumed_note \<Rightarrow> u32 \<Rightarrow> lp_db \<Rightarrow> (error + lp_chain_event list) \<times> lp_db" where
  "sync_note w n block db =
     (case cn_script n of
        None \<Rightarrow> (Inr [], db)
      | Some kind \<Rightarrow>
          if (case cn_consumer n of None \<Rightarrow> False | Some v \<Rightarrow> v \<noteq> lw_vault w) then (Inr [], db)
          else if cn_storage_len n < 12 then (Inr [], db)
          else
            (case cn_lp_id n of
               Inl e \<Rightarrow> (Inl e, db)
             | Inr lp \<Rightarrow>
                 (case cn_asset n of
                    Inl e \<Rightarrow> (Inl e, db)
                  | Inr (faucet, amount) \<Rightarrow>
                      if faucet \<notin> set (lw_assets w) then (Inr [], db)
                      else journal_note w n block kind lp faucet amount db)))"

text \<open>The events are the ones broadcast, also when a later note stops the loop.\<close>

fun sync_loop ::
  "lp_worker \<Rightarrow> note_cursor \<Rightarrow> consumed_note list \<Rightarrow> note_cursor \<Rightarrow> lp_db \<Rightarrow> (error + note_cursor) \<times> lp_chain_event list \<times> lp_db" where
  "sync_loop w cursor [] mx db = (Inr mx, [], db)"
| "sync_loop w cursor (n # ns) mx db =
     (case cn_block n of
        None \<Rightarrow> sync_loop w cursor ns mx db
      | Some block \<Rightarrow>
          let here = (block, cn_note_id n)
          in if here \<le> cursor then sync_loop w cursor ns mx db
             else
               (case sync_note w n block db of
                  (Inl e, db1) \<Rightarrow> (Inl e, [], db1)
                | (Inr evs, db1) \<Rightarrow>
                    (case sync_loop w cursor ns (max mx here) db1 of (r, evs', db2) \<Rightarrow> (r, evs @ evs', db2))))"

definition sync_lp_notes ::
  "lp_worker \<Rightarrow> consumed_note list \<Rightarrow> lp_db \<Rightarrow> (error + unit) \<times> lp_chain_event list \<times> lp_db" where
  "sync_lp_notes w notes db =
     (let cursor = sync_cursor db;
          sorted = sort_key (\<lambda>n. (case cn_block n of None \<Rightarrow> 0 | Some b \<Rightarrow> b, cn_note_id n)) notes
      in case sync_loop w cursor sorted cursor db of
           (Inl e, evs, db1) \<Rightarrow> (Inl e, evs, db1)
         | (Inr mx, evs, db1) \<Rightarrow> (Inr (), evs, set_sync_cursor mx db1))"

text \<open>On first start everything already consumed lies before the cursor.\<close>

definition initialize_sync_cursor :: "consumed_note list \<Rightarrow> lp_db \<Rightarrow> lp_db" where
  "initialize_sync_cursor notes db =
     (if sync_cursor db \<noteq> (0, '''') then db
      else
        let cursors = List.map_filter (\<lambda>n. map_option (\<lambda>b. (b, cn_note_id n)) (cn_block n)) notes
        in set_sync_cursor (case cursors of [] \<Rightarrow> (0, '''') | x # xs \<Rightarrow> fold max xs x) db)"

section \<open>Entitlement checkpoints\<close>

text \<open>\<open>vault_info\<close> reads an entitlement from the vault and \<open>raise_entitlement\<close> submits a new one; both
  are the chain client's. The result lists the entitlements raised (faucet, depositor, target).\<close>

fun checkpoint_positions ::
  "(account_id \<Rightarrow> account_id \<Rightarrow> vault_lp_info result) \<Rightarrow> (account_id \<Rightarrow> account_id \<Rightarrow> u64 \<Rightarrow> unit result)
     \<Rightarrow> (account_id \<rightharpoonup> pool_state) \<Rightarrow> u64 \<Rightarrow> lp_position list \<Rightarrow> lp_db
     \<Rightarrow> (error + (account_id \<times> account_id \<times> u64) list) \<times> lp_db" where
  "checkpoint_positions vault_info raise_entitlement pools now [] db = (Inr [], db)"
| "checkpoint_positions vault_info raise_entitlement pools now (p # ps) db =
     (if lpos_shares p = 0 then checkpoint_positions vault_info raise_entitlement pools now ps db
      else
        let lp = lpos_lp_id p; faucet = lpos_faucet_id p; owned = word_of_int (lpos_shares p)
        in case and_then (ok_or (pools faucet) (Anyhow ''missing pool state for checkpoint'')) (\<lambda>pool.
                and_then (get_withdraw_asset_amount_out pool (ucast (owned :: u64))) (\<lambda>(value, _, _).
                and_then (vault_info faucet lp) (\<lambda>info.
                  let value = sat_to value; target = sat_add (withdrawn info) value
                  in if entitlement info < target
                     then and_then (raise_entitlement faucet lp target) (\<lambda>_. Inr (value, info, [(faucet, lp, target)]))
                     else Inr (value, info, [])))) of
             Inl e \<Rightarrow> (Inl e, db)
           | Inr (value, info, raised) \<Rightarrow>
               (case record_checkpoint lp faucet owned value (withdrawn info) now db of
                  (Inl e, db1) \<Rightarrow> (Inl e, db1)
                | (Inr _, db1) \<Rightarrow>
                    (case checkpoint_positions vault_info raise_entitlement pools now ps db1 of
                       (Inl e, db2) \<Rightarrow> (Inl e, db2)
                     | (Inr later, db2) \<Rightarrow> (Inr (raised @ later), db2))))"

definition checkpoint_entitlements ::
  "(account_id \<Rightarrow> account_id \<Rightarrow> vault_lp_info result) \<Rightarrow> (account_id \<Rightarrow> account_id \<Rightarrow> u64 \<Rightarrow> unit result)
     \<Rightarrow> (account_id \<rightharpoonup> pool_state) \<Rightarrow> u64 \<Rightarrow> lp_db
     \<Rightarrow> (error + (account_id \<times> account_id \<times> u64) list) \<times> lp_db" where
  "checkpoint_entitlements vault_info raise_entitlement pools now db =
     (case list_positions db of
        Inl e \<Rightarrow> (Inl e, db)
      | Inr ps \<Rightarrow> checkpoint_positions vault_info raise_entitlement pools now ps db)"

section \<open>Seeding from the deployment\<close>

text \<open>The deposits made at deployment are replayed on fresh pools; the shares they mint are the
  operator's first positions. Assets and deposits are listed as in the deployment file; the hash map
  of shares is read in the order its keys were inserted.\<close>

definition seed_pools :: "(account_id \<times> u8) list \<Rightarrow> (account_id \<rightharpoonup> pool_state)" where
  "seed_pools assets = fold (\<lambda>(faucet, decimals) m. m(faucet \<mapsto>
     new_pool_state default_settings default_balances 0
       \<lparr>pool_name = ''Deployment asset'', asset_decimals = decimals\<rparr>)) assets Map.empty"

fun seed_shares ::
  "(account_id \<times> u64) list \<Rightarrow> (account_id \<rightharpoonup> pool_state) \<Rightarrow> (account_id \<times> u64) list \<Rightarrow> (account_id \<times> u64) list result" where
  "seed_shares [] pools acc = Inr acc"
| "seed_shares ((faucet, amount) # ds) pools acc =
     (case pools faucet of
        None \<Rightarrow> seed_shares ds pools acc
      | Some pool \<Rightarrow>
          and_then (get_deposit_lp_amount_out pool (ucast amount)) (\<lambda>(minted, supply, bal).
            seed_shares ds (pools(faucet \<mapsto> update_state pool bal supply))
              (AList.update faucet (sat_add (or_default (map_of acc faucet) 0) (sat_to minted)) acc)))"

fun seed_all :: "account_id \<Rightarrow> u64 \<Rightarrow> (account_id \<times> u64) list \<Rightarrow> lp_db \<Rightarrow> (error + unit) \<times> lp_db" where
  "seed_all lp now [] db = (Inr (), db)"
| "seed_all lp now ((faucet, n) # rest) db =
     (case seed_position lp faucet n now db of
        (Inl e, db1) \<Rightarrow> (Inl e, db1)
      | (Inr _, db1) \<Rightarrow> seed_all lp now rest db1)"

definition seed_deployment_positions ::
  "account_id option \<Rightarrow> (account_id \<times> u8) list \<Rightarrow> (account_id \<times> u64) list \<Rightarrow> u64 \<Rightarrow> lp_db \<Rightarrow> (error + unit) \<times> lp_db" where
  "seed_deployment_positions lp_account assets deposits now db =
     (case lp_account of
        None \<Rightarrow> (Inr (), db)
      | Some lp \<Rightarrow>
          (case seed_shares deposits (seed_pools assets) [] of
             Inl e \<Rightarrow> (Inl e, db)
           | Inr minted \<Rightarrow> seed_all lp now minted db))"

section \<open>The journal as a state machine\<close>

inductive lp_step :: "lp_db \<Rightarrow> lp_db \<Rightarrow> bool" where
  confirm: "lp_step db (snd (record_confirmed note_id nullifier kind lp faucet amount block created db))"
| apply_op: "lp_step db (snd (apply_operation note_id n applied_at db))"
| fail_op: "lp_step db (mark_failed note_id reason db)"
| seed: "lp_step db (snd (seed_position lp faucet n updated_at db))"
| checkpoint: "lp_step db (snd (record_checkpoint lp faucet n v w updated_at db))"
| cursor: "lp_step db (set_sync_cursor cur db)"

definition lp_inv :: "lp_db \<Rightarrow> bool" where
  "lp_inv db \<longleftrightarrow> distinct (map lo_note_id (lp_operations db))
     \<and> distinct (map (\<lambda>p. (lpos_lp_id p, lpos_faucet_id p)) (lp_positions db))
     \<and> (\<forall>p\<in>set (lp_positions db). 0 \<le> lpos_shares p \<and> lpos_shares p < 2 ^ 63)"

text \<open>The shares recorded for a position, zero if there is none.\<close>

definition shares_at :: "lp_db \<Rightarrow> account_id \<Rightarrow> account_id \<Rightarrow> int" where
  "shares_at db lp faucet = (case find (at_position lp faucet) (lp_positions db) of None \<Rightarrow> 0 | Some p \<Rightarrow> lpos_shares p)"

definition op_status :: "lp_db \<Rightarrow> string \<Rightarrow> lp_status option" where
  "op_status db note_id = map_option lo_status (find (\<lambda>r. lo_note_id r = note_id) (lp_operations db))"

lemma find_update_op:
  assumes "\<And>r. lo_note_id (f r) = lo_note_id r"
  shows "find (\<lambda>r. lo_note_id r = m) (sql_update (\<lambda>r. lo_note_id r = n) f rows)
    = (if m = n then map_option f (find (\<lambda>r. lo_note_id r = n) rows) else find (\<lambda>r. lo_note_id r = m) rows)"
  using assms by (induction rows) (auto simp: sql_update_def)

lemma find_update_pos:
  assumes "\<And>p. lpos_lp_id (f p) = lpos_lp_id p" "\<And>p. lpos_faucet_id (f p) = lpos_faucet_id p"
  shows "find (at_position a b) (sql_update (at_position lp faucet) f rows)
    = (if a = lp \<and> b = faucet then map_option f (find (at_position lp faucet) rows) else find (at_position a b) rows)"
  using assms by (induction rows) (auto simp: sql_update_def at_position_def)

lemma find_pos_iff: "sql_exists (at_position lp faucet) rows \<longleftrightarrow> find (at_position lp faucet) rows \<noteq> None"
  by (auto simp: sql_exists_iff find_None_iff)

text \<open>A position that is inserted or has its shares set.\<close>

lemma upsert_position:
  assumes rows': "rows' = (if sql_exists (at_position lp faucet) rows
        then sql_update (at_position lp faucet) (\<lambda>p. p\<lparr>lpos_shares := n, lpos_updated_at := t\<rparr>) rows
        else rows @ [new_position lp faucet n t])"
    and d: "distinct (map (\<lambda>p. (lpos_lp_id p, lpos_faucet_id p)) rows)"
    and b: "\<forall>p\<in>set rows. 0 \<le> lpos_shares p \<and> lpos_shares p < 2 ^ 63" "0 \<le> n" "n < 2 ^ 63"
  shows "distinct (map (\<lambda>p. (lpos_lp_id p, lpos_faucet_id p)) rows')"
    and "\<forall>p\<in>set rows'. 0 \<le> lpos_shares p \<and> lpos_shares p < 2 ^ 63"
    and "(case find (at_position x y) rows' of None \<Rightarrow> 0 | Some p \<Rightarrow> lpos_shares p)
      = (if x = lp \<and> y = faucet then n else (case find (at_position x y) rows of None \<Rightarrow> 0 | Some p \<Rightarrow> lpos_shares p))"
proof -
  have k: "map (\<lambda>p. (lpos_lp_id p, lpos_faucet_id p)) (sql_update (at_position lp faucet)
      (\<lambda>p. p\<lparr>lpos_shares := n, lpos_updated_at := t\<rparr>) rows) = map (\<lambda>p. (lpos_lp_id p, lpos_faucet_id p)) rows"
    by (rule map_sql_update_key) simp
  show "distinct (map (\<lambda>p. (lpos_lp_id p, lpos_faucet_id p)) rows')"
    using d unfolding rows' by (auto simp: k sql_exists_iff at_position_def new_position_def)
  show "\<forall>p\<in>set rows'. 0 \<le> lpos_shares p \<and> lpos_shares p < 2 ^ 63"
    using b unfolding rows' by (auto simp: set_sql_update new_position_def)
  show "(case find (at_position x y) rows' of None \<Rightarrow> 0 | Some p \<Rightarrow> lpos_shares p)
      = (if x = lp \<and> y = faucet then n else (case find (at_position x y) rows of None \<Rightarrow> 0 | Some p \<Rightarrow> lpos_shares p))"
    unfolding rows'
    by (auto simp: find_update_pos find_pos_iff find_append new_position_def at_position_def split: option.splits)
qed

text \<open>What an application does.\<close>

lemma current_shares:
  assumes "lp_inv db" "(case find (at_position lp faucet) (lp_positions db) of None \<Rightarrow> Inr 0 | Some p \<Rightarrow> from_sql_u64 (lpos_shares p)) = Inr cur"
  shows "uint cur = shares_at db lp faucet"
proof (cases "find (at_position lp faucet) (lp_positions db)")
  case (Some p)
  then have "0 \<le> lpos_shares p" "lpos_shares p < 2 ^ 63" using assms(1) find_SomeD [OF Some] by (auto simp: lp_inv_def)
  then show ?thesis using assms(2) Some by (auto simp: shares_at_def from_sql_u64_def unsigned_of_int take_bit_int_eq_self)
qed (use assms(2) in \<open>simp add: shares_at_def\<close>)

lemma apply_operation_true:
  assumes "apply_operation note_id n applied_at db = (Inr True, db')" and inv: "lp_inv db"
  shows "\<exists>op. find (\<lambda>r. lo_note_id r = note_id) (lp_operations db) = Some op \<and> lo_status op = LpConfirmed
    \<and> shares_at db' (lo_lp_id op) (lo_faucet_id op) =
        (case lo_kind op of LpDeposit \<Rightarrow> shares_at db (lo_lp_id op) (lo_faucet_id op) + uint n
                          | LpWithdraw \<Rightarrow> shares_at db (lo_lp_id op) (lo_faucet_id op) - uint n)
    \<and> (\<forall>x y. (x, y) \<noteq> (lo_lp_id op, lo_faucet_id op) \<longrightarrow> shares_at db' x y = shares_at db x y)
    \<and> op_status db' note_id = Some LpApplied \<and> (\<forall>m. m \<noteq> note_id \<longrightarrow> op_status db' m = op_status db m) \<and> lp_inv db'"
proof -
  have tx: "apply_operation_tx note_id n applied_at db = Inr (True, db')"
    using assms(1) by (simp add: apply_operation_def atomically_Inr)
  obtain op where op: "find (\<lambda>r. lo_note_id r = note_id) (lp_operations db) = Some op" "lo_status op = LpConfirmed"
    using tx by (auto simp: apply_operation_tx_def split: option.splits lp_status.splits)
  let ?here = "at_position (lo_lp_id op) (lo_faucet_id op)"
  let ?f = "\<lambda>sh t r. r\<lparr>lo_lp_shares := sh, lo_status := LpApplied, lo_applied_at := Some t\<rparr>"
  obtain cur ns m t sh where cur: "(case find ?here (lp_positions db) of None \<Rightarrow> Inr 0 | Some p \<Rightarrow> from_sql_u64 (lpos_shares p)) = Inr cur"
    and ns0: "(case lo_kind op of
                      LpDeposit \<Rightarrow> ok_or (checked_add cur n) (Anyhow ''LP share balance overflow'')
                    | LpWithdraw \<Rightarrow> ok_or (checked_sub cur n) (Anyhow ''withdraw burns more LP shares than owned'')) = Inr ns"
    and m: "to_i64 ns = Inr m" and "to_i64 applied_at = Inr t" "to_i64 n = Inr sh"
    and db': "db' = db\<lparr>lp_positions := (if sql_exists ?here (lp_positions db)
        then sql_update ?here (\<lambda>p. p\<lparr>lpos_shares := m, lpos_updated_at := t\<rparr>) (lp_positions db)
        else lp_positions db @ [new_position (lo_lp_id op) (lo_faucet_id op) m t]),
      lp_operations := sql_update (\<lambda>r. lo_note_id r = note_id) (?f sh t) (lp_operations db)\<rparr>"
    using tx unfolding apply_operation_tx_def op option.case op(2) lp_status.case Let_def
    by (elim and_then_InrE) (rule that, assumption+, simp only: sum.inject prod.inject simp_thms)
  have pos: "lp_positions db' = (if sql_exists ?here (lp_positions db)
        then sql_update ?here (\<lambda>p. p\<lparr>lpos_shares := m, lpos_updated_at := t\<rparr>) (lp_positions db)
        else lp_positions db @ [new_position (lo_lp_id op) (lo_faucet_id op) m t])"
    and ops: "lp_operations db' = sql_update (\<lambda>r. lo_note_id r = note_id) (?f sh t) (lp_operations db)"
    unfolding db' by simp_all
  have ns: "(case lo_kind op of LpDeposit \<Rightarrow> checked_add cur n | LpWithdraw \<Rightarrow> checked_sub cur n) = Some ns"
    using ns0 by (cases "lo_kind op") (simp_all add: res_simps)
  have mm: "m = uint ns" "uint ns < 2 ^ 63" using m by (auto simp: to_i64_def split: if_splits)
  have val: "m = (case lo_kind op of LpDeposit \<Rightarrow> shares_at db (lo_lp_id op) (lo_faucet_id op) + uint n
                          | LpWithdraw \<Rightarrow> shares_at db (lo_lp_id op) (lo_faucet_id op) - uint n)"
    using ns current_shares [OF inv cur] checked_add_uint [of cur n ns] checked_sub_uint [of cur n ns]
    by (cases "lo_kind op") (simp_all add: mm(1))
  have "distinct (map (\<lambda>p. (lpos_lp_id p, lpos_faucet_id p)) (lp_positions db))"
    "\<forall>p\<in>set (lp_positions db). 0 \<le> lpos_shares p \<and> lpos_shares p < 2 ^ 63" using inv by (auto simp: lp_inv_def)
  note u = upsert_position [OF pos this, of]
  have "lp_inv db'"
    using u(1,2) mm inv map_sql_update_key [of "\<lambda>r. lo_note_id r = note_id" lo_note_id "?f sh t" "lp_operations db"]
    by (simp add: lp_inv_def ops)
  moreover have "op_status db' note_id = Some LpApplied" by (simp add: op_status_def ops find_update_op op)
  moreover have "m \<noteq> note_id \<Longrightarrow> op_status db' m = op_status db m" for m by (simp add: op_status_def ops find_update_op)
  moreover have "shares_at db' x y = (if x = lo_lp_id op \<and> y = lo_faucet_id op then m else shares_at db x y)" for x y
    using u(3) mm by (simp add: shares_at_def)
  ultimately show ?thesis using op val by auto
qed


text \<open>A step keeps the invariant, the notes it knows and, once an operation has left the confirmed
  state, does not bring it back.\<close>

definition settled :: "lp_db \<Rightarrow> string \<Rightarrow> bool" where
  "settled db note_id \<longleftrightarrow> op_status db note_id = Some LpApplied \<or> op_status db note_id = Some LpFailed"

lemma apply_operation_not_true:
  "apply_operation note_id n applied_at db = (r, db') \<Longrightarrow> r \<noteq> Inr True \<Longrightarrow> db' = db"
  by (auto simp: apply_operation_def atomically_def apply_operation_tx_def Let_def res_simps and_then_def
      split: sum.splits option.splits lp_status.splits if_splits prod.splits lp_operation_kind.splits)

lemma record_confirmed_step:
  assumes "lp_inv db"
  shows "lp_inv (snd (record_confirmed note_id nullifier kind lp faucet amount block created db))"
    and "settled db m \<Longrightarrow> settled (snd (record_confirmed note_id nullifier kind lp faucet amount block created db)) m"
  using assms
  by (auto simp: record_confirmed_def atomically_def and_then_def lp_inv_def settled_def op_status_def find_append sql_exists_iff
      split: sum.splits option.splits)

lemma lp_step_keeps:
  assumes "lp_step db db'" "lp_inv db"
  shows "lp_inv db' \<and> (\<forall>m. settled db m \<longrightarrow> settled db' m)"
  using assms
proof (induction rule: lp_step.induct)
  case (confirm db note_id nullifier kind lp faucet amount block created)
  then show ?case by (simp add: record_confirmed_step)
next
  case (apply_op db note_id n applied_at)
  show ?case
  proof (cases "fst (apply_operation note_id n applied_at db) = Inr True")
    case True
    then have e: "apply_operation note_id n applied_at db = (Inr True, snd (apply_operation note_id n applied_at db))" by (metis prod.collapse)
    obtain op where "op_status (snd (apply_operation note_id n applied_at db)) note_id = Some LpApplied"
      "\<forall>m. m \<noteq> note_id \<longrightarrow> op_status (snd (apply_operation note_id n applied_at db)) m = op_status db m"
      "lp_inv (snd (apply_operation note_id n applied_at db))"
      using apply_operation_true [OF e apply_op] by blast
    then show ?thesis unfolding settled_def by metis
  next
    case False
    then show ?thesis using apply_operation_not_true [of note_id n applied_at db] apply_op by (metis prod.collapse)
  qed
next
  case (fail_op db note_id reason)
  then show ?case
    by (auto simp: mark_failed_def lp_inv_def settled_def op_status_def find_update_op map_sql_update_key)
next
  case (seed db lp faucet n updated_at)
  then show ?case
    by (auto simp: seed_position_def atomically_def and_then_def lp_inv_def settled_def op_status_def sql_exists_iff
        at_position_def new_position_def to_i64_def split: sum.splits if_splits)
next
  case (checkpoint db lp faucet n v w updated_at)
  have "map (\<lambda>p. (lpos_lp_id p, lpos_faucet_id p)) (sql_update (at_position lp faucet) (\<lambda>p. p\<lparr>lpos_checkpoint_shares := a,
      lpos_checkpoint_value := b, lpos_checkpoint_withdrawn := c, lpos_updated_at := d\<rparr>) rows)
    = map (\<lambda>p. (lpos_lp_id p, lpos_faucet_id p)) rows" for a b c d rows
    by (rule map_sql_update_key) simp
  then show ?case using checkpoint
    by (auto simp: record_checkpoint_def atomically_def and_then_def lp_inv_def settled_def op_status_def set_sql_update
        split: sum.splits)
next
  case (cursor db cur)
  then show ?case by (simp add: set_sync_cursor_def lp_inv_def settled_def op_status_def)
qed


abbreviation lp_reachable :: "lp_db \<Rightarrow> bool" where
  "lp_reachable \<equiv> reachable (\<lambda>db. db = open_lp_db) lp_step"

interpretation lps: state_machine "\<lambda>db. db = open_lp_db" lp_step lp_inv
  by unfold_locales (auto simp: open_lp_db_def lp_inv_def dest: lp_step_keeps)

lemma lp_steps_settled:
  assumes "lp_step\<^sup>*\<^sup>* db db'" "lp_inv db" "settled db m"
  shows "settled db' m"
  using assms
proof (induction rule: rtranclp_induct)
  case (step y z)
  then show ?case using lp_step_keeps [OF step.hyps(2) lps.steps_inv [OF step.hyps(1)]] by blast
qed

lemma settled_apply_operation:
  assumes "settled db note_id"
  shows "\<exists>r. apply_operation note_id n t db = (r, db) \<and> r \<noteq> Inr True"
  using assms
  by (auto simp: settled_def op_status_def apply_operation_def apply_operation_tx_def atomically_def)

section \<open>Announcing notes\<close>

definition journal_ids :: "lp_db \<Rightarrow> string set" where
  "journal_ids db = set (map lo_note_id (lp_operations db))"

abbreviation event_ids :: "lp_chain_event list \<Rightarrow> string list" where
  "event_ids evs \<equiv> map lce_note_id evs"

lemma apply_operation_journal: "journal_ids (snd (apply_operation note_id n t db)) = journal_ids db"
proof (cases "apply_operation_tx note_id n t db")
  case (Inr p)
  then have "map lo_note_id (lp_operations (snd p)) = map lo_note_id (lp_operations db)"
    unfolding apply_operation_tx_def Let_def
    by (auto split: option.splits lp_status.splits elim!: and_then_InrE simp: map_sql_update_key simp del: map_eq_conv)
  then show ?thesis using Inr by (cases p) (simp add: apply_operation_def atomically_def journal_ids_def)
qed (simp add: apply_operation_def atomically_def)

lemma lp_step_journal: "lp_step db db' \<Longrightarrow> journal_ids db \<subseteq> journal_ids db'"
proof (induction rule: lp_step.induct)
  case (fail_op db note_id reason)
  then show ?case by (simp add: journal_ids_def mark_failed_def map_sql_update_key del: set_map)
qed (auto simp: apply_operation_journal,
     auto simp: journal_ids_def record_confirmed_def seed_position_def record_checkpoint_def set_sync_cursor_def
        atomically_def and_then_def split: sum.splits)

lemma lp_steps_journal: "lp_step\<^sup>*\<^sup>* db db' \<Longrightarrow> journal_ids db \<subseteq> journal_ids db'"
  by (induction rule: rtranclp_induct) (auto dest: lp_step_journal)

text \<open>One note.\<close>

lemma sync_note_step:
  assumes "sync_note w n block db = (res, db')"
  shows "lp_step\<^sup>*\<^sup>* db db'" "lp_cursor_block db' = lp_cursor_block db" "lp_cursor_note db' = lp_cursor_note db"
    "res = Inr evs \<Longrightarrow> evs = [] \<or> event_ids evs = [cn_note_id n] \<and> cn_note_id n \<notin> journal_ids db \<and> cn_note_id n \<in> journal_ids db'"
proof -
  have rec: "lp_step\<^sup>*\<^sup>* db db1 \<and> lp_cursor_block db1 = lp_cursor_block db \<and> lp_cursor_note db1 = lp_cursor_note db
      \<and> (r = Inr True \<longrightarrow> m \<notin> journal_ids db \<and> m \<in> journal_ids db1)"
    if "record_confirmed m nullifier kind lp faucet amount block created db = (r, db1)"
    for m nullifier kind lp faucet amount block created r db1
  proof -
    have "lp_step db db1" using lp_step.confirm [of db m nullifier kind lp faucet amount block created] that by simp
    moreover have "lp_cursor_block db1 = lp_cursor_block db \<and> lp_cursor_note db1 = lp_cursor_note db
        \<and> (r = Inr True \<longrightarrow> m \<notin> journal_ids db \<and> m \<in> journal_ids db1)"
      using that by (auto simp: record_confirmed_def atomically_def and_then_def journal_ids_def sql_exists_iff
          split: sum.splits if_splits)
    ultimately show ?thesis by blast
  qed
  have failed: "lp_step db1 (mark_failed m why db1)" "lp_cursor_block (mark_failed m why db1) = lp_cursor_block db1"
    "lp_cursor_note (mark_failed m why db1) = lp_cursor_note db1" "journal_ids (mark_failed m why db1) = journal_ids db1" for m why db1
    by (rule lp_step.fail_op) (simp_all add: mark_failed_def journal_ids_def map_sql_update_key del: set_map)
  have "lp_step\<^sup>*\<^sup>* db db' \<and> lp_cursor_block db' = lp_cursor_block db \<and> lp_cursor_note db' = lp_cursor_note db
    \<and> (\<forall>evs. res = Inr evs \<longrightarrow> evs = [] \<or> event_ids evs = [cn_note_id n] \<and> cn_note_id n \<notin> journal_ids db \<and> cn_note_id n \<in> journal_ids db')"
    using assms failed
    by (auto simp: sync_note_def journal_note_def split: option.splits sum.splits if_splits prod.splits bool.splits
        dest!: rec intro: rtranclp.rtrancl_into_rtrancl)
  then show "lp_step\<^sup>*\<^sup>* db db'" "lp_cursor_block db' = lp_cursor_block db" "lp_cursor_note db' = lp_cursor_note db"
    "res = Inr evs \<Longrightarrow> evs = [] \<or> event_ids evs = [cn_note_id n] \<and> cn_note_id n \<notin> journal_ids db \<and> cn_note_id n \<in> journal_ids db'"
    by blast+
qed

definition announces :: "lp_db \<Rightarrow> lp_chain_event list \<Rightarrow> lp_db \<Rightarrow> bool" where
  "announces db evs db' \<longleftrightarrow> distinct (event_ids evs) \<and> set (event_ids evs) \<inter> journal_ids db = {}
     \<and> set (event_ids evs) \<subseteq> journal_ids db'"

lemma announces_append:
  assumes "evs = [] \<or> event_ids evs = [m] \<and> m \<notin> journal_ids db \<and> m \<in> journal_ids db1"
    and "journal_ids db \<subseteq> journal_ids db1" "journal_ids db1 \<subseteq> journal_ids db'" "announces db1 evs' db'"
  shows "announces db (evs @ evs') db'"
  using assms by (auto simp: announces_def)

text \<open>The cursor a run ends with lies at or after every note it went through.\<close>

definition covers :: "note_cursor \<Rightarrow> consumed_note list \<Rightarrow> note_cursor \<Rightarrow> note_cursor \<Rightarrow> bool" where
  "covers cursor ns mx mx' \<longleftrightarrow> mx \<le> mx' \<and> (\<forall>n\<in>set ns. \<forall>b. cn_block n = Some b \<longrightarrow> (b, cn_note_id n) \<le> max cursor mx')"

lemma sync_loop_steps:
  assumes "sync_loop w cursor ns mx db = (res, evs, db')"
  shows "lp_step\<^sup>*\<^sup>* db db' \<and> lp_cursor_block db' = lp_cursor_block db \<and> lp_cursor_note db' = lp_cursor_note db
    \<and> announces db evs db' \<and> (\<forall>mx'. res = Inr mx' \<longrightarrow> covers cursor ns mx mx')"
  using assms
proof (induction ns arbitrary: mx db res evs db')
  case (Cons n ns)
  show ?case
  proof (cases "cn_block n = None \<or> (\<exists>b. cn_block n = Some b \<and> (b, cn_note_id n) \<le> cursor)")
    case True
    then have "sync_loop w cursor ns mx db = (res, evs, db')" using Cons.prems by (auto simp: Let_def)
    from Cons.IH [OF this] True show ?thesis by (auto simp: covers_def le_max_iff_disj)
  next
    case False
    then obtain block where b: "cn_block n = Some block" "\<not> (block, cn_note_id n) \<le> cursor" by auto
    obtain r1 db1 where n: "sync_note w n block db = (r1, db1)" by fastforce
    note s = sync_note_step [OF n]
    show ?thesis
    proof (cases r1)
      case (Inl e)
      then show ?thesis using Cons.prems b n s by (auto simp: announces_def)
    next
      case (Inr evs1)
      obtain r2 evs2 db2 where l: "sync_loop w cursor ns (max mx (block, cn_note_id n)) db1 = (r2, evs2, db2)"
        by (rule prod_cases3)
      note ih = Cons.IH [OF l]
      have js: "journal_ids db \<subseteq> journal_ids db1" "journal_ids db1 \<subseteq> journal_ids db2"
        using s(1) ih lp_steps_journal by blast+
      have e: "res = r2" "evs = evs1 @ evs2" "db' = db2" using Cons.prems b n Inr l by auto
      have "covers cursor ns (max mx (block, cn_note_id n)) mx' \<Longrightarrow> covers cursor (n # ns) mx mx'" for mx'
        using b(1) by (auto simp: covers_def max_def split: if_splits)
      then show ?thesis using ih s(1-3) announces_append [OF s(4) js] Inr unfolding e by auto
    qed
  qed
qed (simp add: announces_def covers_def)

lemma sync_loop_old:
  assumes "\<And>n b. n \<in> set ns \<Longrightarrow> cn_block n = Some b \<Longrightarrow> (b, cn_note_id n) \<le> cursor"
  shows "sync_loop w cursor ns mx db = (Inr mx, [], db)"
  using assms by (induction ns) (auto split: option.splits)

lemma sync_lp_notes_steps:
  assumes "sync_lp_notes w notes db = (res, evs, db')"
  shows "lp_step\<^sup>*\<^sup>* db db'" and "announces db evs db'"
    and "res = Inr () \<Longrightarrow> n \<in> set notes \<Longrightarrow> cn_block n = Some b \<Longrightarrow> (b, cn_note_id n) \<le> sync_cursor db'"
    and "res = Inr () \<Longrightarrow> set_sync_cursor (sync_cursor db') db' = db'"
proof -
  let ?sorted = "sort_key (\<lambda>n. (case cn_block n of None \<Rightarrow> 0 | Some b \<Rightarrow> b, cn_note_id n)) notes"
  obtain r evs1 db1 where l: "sync_loop w (sync_cursor db) ?sorted (sync_cursor db) db = (r, evs1, db1)"
    by (rule prod_cases3)
  note s = sync_loop_steps [OF l]
  have cur: "sync_cursor (set_sync_cursor x y) = x" for x y by (simp add: sync_cursor_def set_sync_cursor_def)
  have jo: "journal_ids (set_sync_cursor x y) = journal_ids y" for x y by (simp add: journal_ids_def set_sync_cursor_def)
  have db': "db' = (case r of Inl e \<Rightarrow> db1 | Inr mx \<Rightarrow> set_sync_cursor mx db1)" "evs = evs1"
    "res = (case r of Inl e \<Rightarrow> Inl e | Inr mx \<Rightarrow> Inr ())"
    using assms l by (auto simp: sync_lp_notes_def Let_def split: sum.splits)
  show "lp_step\<^sup>*\<^sup>* db db'"
    using s unfolding db' by (auto split: sum.splits intro: rtranclp.rtrancl_into_rtrancl lp_step.cursor)
  show "announces db evs db'" using s unfolding db' by (auto simp: announces_def jo split: sum.splits)
  assume "res = Inr ()"
  then obtain mx where r: "r = Inr mx" using db' by (auto split: sum.splits)
  then have d: "db' = set_sync_cursor mx db1" using db' by simp
  have a: "covers (sync_cursor db) ?sorted (sync_cursor db) mx" using s r by blast
  show "(b, cn_note_id n) \<le> sync_cursor db'" if "n \<in> set notes" "cn_block n = Some b"
    using a that by (auto simp: covers_def d cur max_def split: if_splits)
  show "set_sync_cursor (sync_cursor db') db' = db'" unfolding d cur by (simp add: set_sync_cursor_def)
qed

section \<open>Properties\<close>

text \<open>
  C20: a confirmed liquidity operation moves its position once. In every reachable journal an
  application that takes effect finds the operation confirmed, raises (deposit) or lowers
  (withdrawal) the shares of its own position by exactly the given amount, without wrapping below
  zero or above the signed range of the column, and touches no other position; and after any
  further operations a second application for the same note changes nothing.
\<close>

theorem lp_operation_applied_once:
  assumes "lp_reachable db" "apply_operation note_id n t db = (Inr True, db1)" "lp_step\<^sup>*\<^sup>* db1 db2"
  shows "\<exists>op. find (\<lambda>r. lo_note_id r = note_id) (lp_operations db) = Some op \<and> lo_status op = LpConfirmed
    \<and> shares_at db1 (lo_lp_id op) (lo_faucet_id op) =
        (case lo_kind op of LpDeposit \<Rightarrow> shares_at db (lo_lp_id op) (lo_faucet_id op) + uint n
                          | LpWithdraw \<Rightarrow> shares_at db (lo_lp_id op) (lo_faucet_id op) - uint n)
    \<and> 0 \<le> shares_at db1 (lo_lp_id op) (lo_faucet_id op) \<and> shares_at db1 (lo_lp_id op) (lo_faucet_id op) < 2 ^ 63
    \<and> (\<forall>x y. (x, y) \<noteq> (lo_lp_id op, lo_faucet_id op) \<longrightarrow> shares_at db1 x y = shares_at db x y)
    \<and> (\<forall>k t'. \<exists>r. apply_operation note_id k t' db2 = (r, db2) \<and> r \<noteq> Inr True)"
proof -
  have inv: "lp_inv db" by (rule lps.reachable_inv [OF assms(1)])
  obtain op where op: "find (\<lambda>r. lo_note_id r = note_id) (lp_operations db) = Some op" "lo_status op = LpConfirmed"
    "shares_at db1 (lo_lp_id op) (lo_faucet_id op) =
        (case lo_kind op of LpDeposit \<Rightarrow> shares_at db (lo_lp_id op) (lo_faucet_id op) + uint n
                          | LpWithdraw \<Rightarrow> shares_at db (lo_lp_id op) (lo_faucet_id op) - uint n)"
    "\<forall>x y. (x, y) \<noteq> (lo_lp_id op, lo_faucet_id op) \<longrightarrow> shares_at db1 x y = shares_at db x y"
    "op_status db1 note_id = Some LpApplied" "lp_inv db1"
    using apply_operation_true [OF assms(2) inv] by blast
  have "0 \<le> shares_at db1 x y \<and> shares_at db1 x y < 2 ^ 63" for x y
    using op(6) by (auto simp: shares_at_def lp_inv_def split: option.splits dest!: find_SomeD)
  moreover have "settled db2 note_id"
    using lp_steps_settled [OF assms(3) op(6)] op(5) by (simp add: settled_def)
  ultimately show ?thesis using op(1-4) settled_apply_operation by blast
qed

definition example_lp_db :: lp_db where
  "example_lp_db = snd (record_confirmed ''n1'' None LpDeposit \<lparr>prefix = 1, suffix = 1\<rparr> \<lparr>prefix = 2, suffix = 2\<rparr> 500 7 100 open_lp_db)"

lemma lp_reachable_example: "lp_reachable example_lp_db"
proof -
  have "lp_reachable open_lp_db" by (rule reachable.start) simp
  then show ?thesis unfolding example_lp_db_def by (rule reachable.next_state) (rule lp_step.confirm)
qed

lemma example_apply: "apply_operation ''n1'' 450 101 example_lp_db =
    (Inr True, snd (apply_operation ''n1'' 450 101 example_lp_db))"
  by (simp add: example_lp_db_def record_confirmed_def open_lp_db_def atomically_def to_i64_def apply_operation_def
      apply_operation_tx_def sql_exists_def checked_add_def Let_def)

theorem lp_operation_applied_once_witness:
  "let db1 = snd (apply_operation ''n1'' 450 101 example_lp_db)
   in shares_at db1 \<lparr>prefix = 1, suffix = 1\<rparr> \<lparr>prefix = 2, suffix = 2\<rparr> = 450
     \<and> (\<exists>r. apply_operation ''n1'' 450 102 (mark_failed ''n1'' ''x'' db1) = (r, mark_failed ''n1'' ''x'' db1) \<and> r \<noteq> Inr True)"
proof -
  let ?db1 = "snd (apply_operation ''n1'' 450 101 example_lp_db)"
  have op: "find (\<lambda>r. lo_note_id r = ''n1'') (lp_operations example_lp_db) =
      Some (hd (lp_operations example_lp_db)) \<and> lo_kind (hd (lp_operations example_lp_db)) = LpDeposit
      \<and> lo_lp_id (hd (lp_operations example_lp_db)) = \<lparr>prefix = 1, suffix = 1\<rparr>
      \<and> lo_faucet_id (hd (lp_operations example_lp_db)) = \<lparr>prefix = 2, suffix = 2\<rparr>
      \<and> lp_positions example_lp_db = []"
    by (simp add: example_lp_db_def record_confirmed_def open_lp_db_def atomically_def to_i64_def sql_exists_def)
  from lp_operation_applied_once [OF lp_reachable_example example_apply r_into_rtranclp [where r = lp_step, OF lp_step.fail_op [where note_id = "''n1''" and reason = "''x''"]]]
  show ?thesis using op by (simp add: Let_def shares_at_def)
qed

text \<open>
  Every liquidity note is announced at most once. The events of a synchronisation, also of
  one that stops with an error, are for distinct notes, none of them known to the journal before and all of them known after;
  whatever operations follow, a later synchronisation with any notes announces none of them again;
  and after a successful one, another with the same notes announces nothing and leaves the journal as
  it is.
\<close>

theorem lp_notes_announced_once:
  assumes "sync_lp_notes w notes db = (res, evs, db1)" "lp_step\<^sup>*\<^sup>* db1 db2"
    and "sync_lp_notes w' notes' db2 = (res', evs', db3)"
  shows "distinct (map lce_note_id evs) \<and> set (map lce_note_id evs) \<inter> journal_ids db = {}
    \<and> set (map lce_note_id evs) \<inter> set (map lce_note_id evs') = {}
    \<and> (res = Inr () \<longrightarrow> sync_lp_notes w notes db1 = (Inr (), [], db1))"
proof -
  note s = sync_lp_notes_steps [OF assms(1)] and s' = sync_lp_notes_steps [OF assms(3)]
  have "sync_lp_notes w notes db1 = (Inr (), [], db1)" if "res = Inr ()"
  proof -
    have "sync_loop w (sync_cursor db1) (sort_key k notes) (sync_cursor db1) db1 = (Inr (sync_cursor db1), [], db1)"
      for k :: "consumed_note \<Rightarrow> note_cursor"
      using s(3) that by (intro sync_loop_old) auto
    then show ?thesis using s(4) that by (simp add: sync_lp_notes_def Let_def)
  qed
  moreover have "set (event_ids evs) \<inter> set (event_ids evs') = {}"
    using s(2) s'(2) lp_steps_journal [OF assms(2)] unfolding announces_def by blast
  ultimately show ?thesis using s(2) unfolding announces_def by blast
qed

definition example_note :: consumed_note where
  "example_note = \<lparr>cn_note_id = ''n1'', cn_block = Some 7, cn_script = Some LpDeposit, cn_consumer = None, cn_storage_len = 12,
     cn_lp_id = Inr \<lparr>prefix = 1, suffix = 1\<rparr>, cn_nullifier = None, cn_created_at = 100,
     cn_asset = Inr (\<lparr>prefix = 2, suffix = 2\<rparr>, 500)\<rparr>"

definition example_worker :: lp_worker where
  "example_worker = \<lparr>lw_vault = \<lparr>prefix = 9, suffix = 9\<rparr>, lw_assets = [\<lparr>prefix = 2, suffix = 2\<rparr>], lw_minimum_deposit = 10\<rparr>"

lemma example_sync: "sync_lp_notes example_worker [example_note] open_lp_db =
    (Inr (), [\<lparr>lce_note_id = ''n1'', lce_kind = LpDeposit, lce_lp_id = \<lparr>prefix = 1, suffix = 1\<rparr>,
           lce_faucet_id = \<lparr>prefix = 2, suffix = 2\<rparr>, lce_asset_amount = 500, lce_shares_hint = None\<rparr>],
     set_sync_cursor (7, ''n1'') example_lp_db)"
  by (simp add: sync_lp_notes_def sync_cursor_def open_lp_db_def example_note_def example_worker_def sync_note_def journal_note_def
      record_confirmed_def atomically_def to_i64_def sql_exists_def example_lp_db_def max_def set_sync_cursor_def)

theorem lp_notes_announced_once_witness:
  "sync_lp_notes example_worker [example_note] (set_sync_cursor (7, ''n1'') example_lp_db)
     = (Inr (), [], set_sync_cursor (7, ''n1'') example_lp_db)"
proof -
  have "sync_lp_notes example_worker [] db2 = (Inr (), [], set_sync_cursor (sync_cursor db2) db2)" for db2
    by (simp add: sync_lp_notes_def Let_def)
  from lp_notes_announced_once [OF example_sync rtranclp.rtrancl_refl this] show ?thesis by blast
qed

end
