(* ===== verification/Pool_Registry.thy ===== *)
theory Pool_Registry
  imports Pool
begin

text \<open>
  The pool shards the server serves: the shared registry with the workers' attach acknowledgements
  (\<open>src/src/pool_registry.rs\<close>) and the durable provisioning journal with the provisioner that drives
  it (\<open>src/src/pool_manager.rs\<close>). The deployment file, the chain and the clock are arguments.
\<close>

section \<open>The registry\<close>

datatype pool_worker = Execution | Finality

record worker_ready =
  ready_execution :: bool
  ready_finality :: bool

definition default_ready :: worker_ready where
  "default_ready = \<lparr>ready_execution = False, ready_finality = False\<rparr>"

fun is_marked :: "worker_ready \<Rightarrow> pool_worker \<Rightarrow> bool" where
  "is_marked r Execution = ready_execution r"
| "is_marked r Finality = ready_finality r"

fun mark :: "worker_ready \<Rightarrow> pool_worker \<Rightarrow> worker_ready" where
  "mark r Execution = r\<lparr>ready_execution := True\<rparr>"
| "mark r Finality = r\<lparr>ready_finality := True\<rparr>"

definition worker_is_ready :: "worker_ready \<Rightarrow> bool" where
  "worker_is_ready r \<longleftrightarrow> ready_execution r \<and> ready_finality r"

text \<open>The watch channel keeps the last generation sent; a send without receivers is refused.\<close>

record pool_registry =
  reg_pools :: "account_id list"
  reg_readiness :: "account_id \<rightharpoonup> worker_ready"
  reg_generation :: u64
  reg_receivers :: nat

definition new_registry :: "account_id list \<Rightarrow> pool_registry" where
  "new_registry pools =
     \<lparr>reg_pools = pools,
      reg_readiness = fold (\<lambda>p m. m(p \<mapsto> \<lparr>ready_execution = True, ready_finality = True\<rparr>)) pools Map.empty,
      reg_generation = 0, reg_receivers = 0\<rparr>"

definition registry_contains :: "pool_registry \<Rightarrow> account_id \<Rightarrow> bool" where
  "registry_contains r p \<longleftrightarrow> p \<in> set (reg_pools r)"

definition subscribe :: "pool_registry \<Rightarrow> pool_registry" where
  "subscribe r = r\<lparr>reg_receivers := Suc (reg_receivers r)\<rparr>"

definition bump :: "pool_registry \<Rightarrow> pool_registry" where
  "bump r = (if reg_receivers r = 0 then r else r\<lparr>reg_generation := sat_add (reg_generation r) 1\<rparr>)"

definition publish :: "account_id \<Rightarrow> pool_registry \<Rightarrow> bool \<times> pool_registry" where
  "publish p r =
     (if registry_contains r p then (False, r)
      else (True, bump (r\<lparr>reg_pools := reg_pools r @ [p],
              reg_readiness := (reg_readiness r)(p \<mapsto> or_default (reg_readiness r p) default_ready)\<rparr>)))"

definition is_ready :: "pool_registry \<Rightarrow> account_id \<Rightarrow> bool" where
  "is_ready r p \<longleftrightarrow> worker_is_ready (or_default (reg_readiness r p) default_ready)"

definition pending_attach :: "pool_registry \<Rightarrow> account_id list" where
  "pending_attach r = filter (\<lambda>p. \<not> worker_is_ready (or_default (reg_readiness r p) default_ready)) (reg_pools r)"

text \<open>The entry is created even when its mark was already set.\<close>

definition acknowledge :: "account_id \<Rightarrow> pool_worker \<Rightarrow> pool_registry \<Rightarrow> pool_registry" where
  "acknowledge p w r =
     (let entry = or_default (reg_readiness r p) default_ready
      in if is_marked entry w then r\<lparr>reg_readiness := (reg_readiness r)(p \<mapsto> entry)\<rparr>
         else bump (r\<lparr>reg_readiness := (reg_readiness r)(p \<mapsto> mark entry w)\<rparr>))"

definition ensure_from_deployment :: "account_id list result \<Rightarrow> account_id \<Rightarrow> pool_registry \<Rightarrow> bool result \<times> pool_registry" where
  "ensure_from_deployment deployment p r =
     (if registry_contains r p then (Inr True, r)
      else case deployment of
             Inl e \<Rightarrow> (Inl e, r)
           | Inr pools \<Rightarrow> if p \<notin> set pools then (Inr False, r) else (Inr True, snd (publish p r)))"

section \<open>The provisioning journal\<close>

datatype provision_status = Deploying | Published | Attached | Activated | ProvFailed

fun provision_status_str :: "provision_status \<Rightarrow> string" where
  "provision_status_str Deploying = ''deploying''"
| "provision_status_str Published = ''published''"
| "provision_status_str Attached = ''attached''"
| "provision_status_str Activated = ''activated''"
| "provision_status_str ProvFailed = ''failed''"

definition parse_provision_status :: "string \<Rightarrow> provision_status result" where
  "parse_provision_status s =
     (if s = ''deploying'' then Inr Deploying
      else if s = ''published'' then Inr Published
      else if s = ''attached'' then Inr Attached
      else if s = ''activated'' then Inr Activated
      else if s = ''failed'' then Inr ProvFailed
      else Inl (Anyhow ''unknown provision status''))"

record provision_row =
  pp_id :: int
  pp_pool_id :: "account_id option"
  pp_status :: string
  pp_error :: "string option"
  pp_claim_owner :: "string option"
  pp_claim_until :: "int option"
  pp_inflight_guard :: "int option"
  pp_created_at :: int
  pp_updated_at :: int

text \<open>\<open>prov_last_id\<close> is the sequence of the auto-increment key.\<close>

record provision_db =
  prov_rows :: "provision_row list"
  prov_last_id :: int

definition open_provision_db :: provision_db where
  "open_provision_db = \<lparr>prov_rows = [], prov_last_id = 0\<rparr>"

record provision_record =
  rec_id :: int
  rec_pool_id :: "account_id option"
  rec_status :: provision_status
  rec_error :: "string option"
  rec_created_at :: u64
  rec_updated_at :: u64

definition inflight_text :: "string \<Rightarrow> bool" where
  "inflight_text s \<longleftrightarrow> s \<in> {''deploying'', ''published'', ''attached''}"

definition inflight :: "provision_db \<Rightarrow> provision_record option result" where
  "inflight db =
     (case sort_key pp_id (filter (\<lambda>r. inflight_text (pp_status r)) (prov_rows db)) of
        [] \<Rightarrow> Inr None
      | r # _ \<Rightarrow>
          and_then (parse_provision_status (pp_status r)) (\<lambda>s.
            Inr (Some \<lparr>rec_id = pp_id r, rec_pool_id = pp_pool_id r, rec_status = s, rec_error = pp_error r,
                       rec_created_at = word_of_int (pp_created_at r), rec_updated_at = word_of_int (pp_updated_at r)\<rparr>)))"

definition as_i64 :: "u64 \<Rightarrow> int" where
  "as_i64 v = sint v"

text \<open>The unique columns: the pool id and, where set, the in-flight guard.\<close>

definition provision_indexes_ok :: "provision_row list \<Rightarrow> bool" where
  "provision_indexes_ok rows \<longleftrightarrow>
     distinct (List.map_filter pp_pool_id rows) \<and> sql_count (\<lambda>r. pp_inflight_guard r = Some 1) rows \<le> 1"

definition begin_deploying :: "string \<Rightarrow> u64 \<Rightarrow> provision_db \<Rightarrow> (error + int option) \<times> provision_db" where
  "begin_deploying worker now =
     atomically (\<lambda>db.
       if sql_exists (\<lambda>r. inflight_text (pp_status r)) (prov_rows db) then Inr (None, db)
       else
         let new_id = prov_last_id db + 1;
             rows = prov_rows db @
               [\<lparr>pp_id = new_id, pp_pool_id = None, pp_status = ''deploying'', pp_error = None,
                 pp_claim_owner = Some worker, pp_claim_until = Some (as_i64 (sat_add now 600000)),
                 pp_inflight_guard = Some 1, pp_created_at = as_i64 now, pp_updated_at = as_i64 now\<rparr>]
         in if \<not> provision_indexes_ok rows then Inl SqlConstraint
            else Inr (Some new_id, db\<lparr>prov_rows := rows, prov_last_id := new_id\<rparr>))"

text \<open>An \<open>UPDATE\<close> of the journal that has to change exactly one row. A violated index undoes it; a
  wrong count is reported after the statement has taken effect.\<close>

definition update_provision ::
  "(provision_row \<Rightarrow> bool) \<Rightarrow> (provision_row \<Rightarrow> provision_row) \<Rightarrow> string \<Rightarrow> provision_db \<Rightarrow> (error + unit) \<times> provision_db" where
  "update_provision P f failure db =
     (let rows = sql_update P f (prov_rows db)
      in if \<not> provision_indexes_ok rows then (Inl SqlConstraint, db)
         else if sql_count P (prov_rows db) \<noteq> 1 then (Inl (Anyhow failure), db\<lparr>prov_rows := rows\<rparr>)
         else (Inr (), db\<lparr>prov_rows := rows\<rparr>))"

definition set_pool_id :: "int \<Rightarrow> account_id \<Rightarrow> u64 \<Rightarrow> provision_db \<Rightarrow> (error + unit) \<times> provision_db" where
  "set_pool_id i pool now =
     update_provision (\<lambda>r. pp_id r = i \<and> pp_status r = ''deploying'')
       (\<lambda>r. r\<lparr>pp_pool_id := Some pool, pp_updated_at := as_i64 now\<rparr>) ''failed to set pool_id''"

definition advance :: "int \<Rightarrow> provision_status \<Rightarrow> u64 \<Rightarrow> provision_db \<Rightarrow> (error + unit) \<times> provision_db" where
  "advance i s now =
     update_provision (\<lambda>r. pp_id r = i)
       (\<lambda>r. r\<lparr>pp_status := provision_status_str s, pp_updated_at := as_i64 now, pp_error := None,
              pp_inflight_guard := (if s \<in> {Deploying, Published, Attached} then Some 1 else None)\<rparr>)
       ''failed to advance provision''"

definition fail_provision :: "int \<Rightarrow> string \<Rightarrow> u64 \<Rightarrow> provision_db \<Rightarrow> provision_db" where
  "fail_provision i err now db =
     db\<lparr>prov_rows := sql_update (\<lambda>r. pp_id r = i)
          (\<lambda>r. r\<lparr>pp_status := ''failed'', pp_error := Some err, pp_updated_at := as_i64 now, pp_inflight_guard := None\<rparr>)
          (prov_rows db)\<rparr>"

definition latest_error :: "provision_db \<Rightarrow> string option" where
  "latest_error db =
     (case sort_key (\<lambda>r. - pp_id r) (filter (\<lambda>r. pp_status r = ''failed'' \<and> pp_error r \<noteq> None) (prov_rows db)) of
        [] \<Rightarrow> None | r # _ \<Rightarrow> pp_error r)"

definition activated_count :: "provision_db \<Rightarrow> nat" where
  "activated_count db = sql_count (\<lambda>r. pp_status r = ''activated'') (prov_rows db)"

section \<open>The provisioner\<close>

definition reserve_users :: "u32 option \<Rightarrow> u32 \<Rightarrow> u32" where
  "reserve_users env capacity = min (or_default env 4) (max (sat_sub capacity 1) 1)"

text \<open>What the provisioner reads of the vault: the active pool, its users and its capacity.\<close>

record capacity_reading =
  cap_active :: "account_id option"
  cap_user_count :: u32
  cap_user_capacity :: u32

text \<open>The provisioner's world: deploying a shard, reading and writing the deployment file, the
  acknowledgements that arrive before the wait for the workers times out, activating a shard on the
  vault, reading capacities, the clock, and the text of an error.\<close>

record provision_world =
  pw_deploy :: "account_id result"
  pw_load :: "unit result"
  pw_save :: "unit result"
  pw_acks :: "(account_id \<times> pool_worker) list"
  pw_activate :: "account_id \<Rightarrow> unit result"
  pw_capacity :: "capacity_reading result"
  pw_reserve_env :: "u32 option"
  pw_now :: u64
  pw_error_text :: "error \<Rightarrow> string"

record provisioner =
  pv_registry :: pool_registry
  pv_store :: provision_db
  pv_deployment :: "account_id list"
  pv_activated :: "account_id list"
  pv_worker_id :: string

definition on_store :: "(provision_db \<Rightarrow> (error + 'a) \<times> provision_db) \<Rightarrow> provisioner \<Rightarrow> (error + 'a) \<times> provisioner" where
  "on_store f s = (case f (pv_store s) of (r, db) \<Rightarrow> (r, s\<lparr>pv_store := db\<rparr>))"

definition publish_pool_to_deployment :: "provision_world \<Rightarrow> account_id \<Rightarrow> provisioner \<Rightarrow> (error + unit) \<times> provisioner" where
  "publish_pool_to_deployment w p s =
     (case pw_load w of
        Inl e \<Rightarrow> (Inl e, s)
      | Inr _ \<Rightarrow>
          if p \<in> set (pv_deployment s) then (Inr (), s)
          else case pw_save w of
                 Inl e \<Rightarrow> (Inl e, s)
               | Inr _ \<Rightarrow> (Inr (), s\<lparr>pv_deployment := pv_deployment s @ [p]\<rparr>))"

definition publish_to_registry :: "account_id \<Rightarrow> provisioner \<Rightarrow> (error + unit) \<times> provisioner" where
  "publish_to_registry p s = (Inr (), s\<lparr>pv_registry := snd (publish p (pv_registry s))\<rparr>)"

text \<open>The wait listens to the registry; it fails when the acknowledgements that came in time do not
  make the pool ready.\<close>

definition wait_ready :: "provision_world \<Rightarrow> account_id \<Rightarrow> provisioner \<Rightarrow> (error + unit) \<times> provisioner" where
  "wait_ready w p s =
     (let r = fold (\<lambda>(q, v). acknowledge q v) (pw_acks w) (subscribe (pv_registry s));
          s' = s\<lparr>pv_registry := r\<lparr>reg_receivers := reg_receivers r - 1\<rparr>\<rparr>
      in if is_ready r p then (Inr (), s')
         else (Inl (Anyhow ''timed out waiting for workers to attach''), s'))"

definition activate_pool_shard :: "provision_world \<Rightarrow> account_id \<Rightarrow> provisioner \<Rightarrow> (error + unit) \<times> provisioner" where
  "activate_pool_shard w p s =
     (case pw_activate w p of
        Inl e \<Rightarrow> (Inl e, s)
      | Inr _ \<Rightarrow> (Inr (), s\<lparr>pv_activated := pv_activated s @ [p]\<rparr>))"

definition choose_pool :: "provision_world \<Rightarrow> int \<Rightarrow> account_id option \<Rightarrow> provisioner \<Rightarrow> (error + account_id) \<times> provisioner" where
  "choose_pool w i existing s =
     (case existing of
        Some p \<Rightarrow> (Inr p, s)
      | None \<Rightarrow>
          (case pw_deploy w of
             Inl e \<Rightarrow> (Inl e, s)
           | Inr p \<Rightarrow> st_then (on_store (set_pool_id i p (pw_now w))) (\<lambda>_ s. (Inr p, s)) s))"

definition read_capacity :: "provision_world \<Rightarrow> provisioner \<Rightarrow> (error + capacity_reading) \<times> provisioner" where
  "read_capacity w s = (pw_capacity w, s)"

definition run_provision :: "provision_world \<Rightarrow> int \<Rightarrow> account_id option \<Rightarrow> provisioner \<Rightarrow> (error + unit) \<times> provisioner" where
  "run_provision w i existing =
     st_then (choose_pool w i existing) (\<lambda>p.
     st_then (publish_pool_to_deployment w p) (\<lambda>_.
     st_then (publish_to_registry p) (\<lambda>_.
     st_then (on_store (advance i Published (pw_now w))) (\<lambda>_.
     st_then (wait_ready w p) (\<lambda>_.
     st_then (on_store (advance i Attached (pw_now w))) (\<lambda>_.
     st_then (activate_pool_shard w p) (\<lambda>_.
     st_then (on_store (advance i Activated (pw_now w))) (\<lambda>_.
     st_then (read_capacity w) (\<lambda>_ s. (Inr (), s))))))))))"

definition fail_on_error ::
  "provision_world \<Rightarrow> int \<Rightarrow> (error + unit) \<times> provisioner \<Rightarrow> (error + unit) \<times> provisioner" where
  "fail_on_error w i out =
     (case out of
        (Inr _, s) \<Rightarrow> (Inr (), s)
      | (Inl e, s) \<Rightarrow> (Inl e, s\<lparr>pv_store := fail_provision i (pw_error_text w e) (pw_now w) (pv_store s)\<rparr>))"

definition resume :: "provision_world \<Rightarrow> provision_record \<Rightarrow> provisioner \<Rightarrow> (error + unit) \<times> provisioner" where
  "resume w r s = fail_on_error w (rec_id r) (run_provision w (rec_id r) (rec_pool_id r) s)"

definition provision_new_shard :: "provision_world \<Rightarrow> provisioner \<Rightarrow> (error + unit) \<times> provisioner" where
  "provision_new_shard w =
     (\<lambda>s. st_then (on_store (begin_deploying (pv_worker_id s) (pw_now w))) (\<lambda>i s.
        case i of
          None \<Rightarrow> (Inr (), s)
        | Some i \<Rightarrow> fail_on_error w i (run_provision w i None s)) s)"

definition provisioner_tick :: "provision_world \<Rightarrow> provisioner \<Rightarrow> (error + unit) \<times> provisioner" where
  "provisioner_tick w s =
     (case inflight (pv_store s) of
        Inl e \<Rightarrow> (Inl e, s)
      | Inr (Some r) \<Rightarrow> resume w r s
      | Inr None \<Rightarrow>
          st_then (read_capacity w) (\<lambda>cap s.
            if cap_active cap = None then (Inr (), s)
            else
              let remaining = sat_sub (cap_user_capacity cap) (cap_user_count cap);
                  reserve = reserve_users (pw_reserve_env w) (cap_user_capacity cap)
              in if reserve < remaining then (Inr (), s) else provision_new_shard w s) s)"

definition reconcile_startup :: "provision_world \<Rightarrow> provisioner \<Rightarrow> (error + unit) \<times> provisioner" where
  "reconcile_startup w s =
     (case pw_load w of
        Inl e \<Rightarrow> (Inl e, s)
      | Inr _ \<Rightarrow>
          let s1 = s\<lparr>pv_registry := fold (\<lambda>p r. snd (publish p r)) (pv_deployment s) (pv_registry s)\<rparr>
          in case inflight (pv_store s1) of
               Inl e \<Rightarrow> (Inl e, s1)
             | Inr rec \<Rightarrow>
                 st_then (case rec of None \<Rightarrow> (\<lambda>s. (Inr (), s)) | Some r \<Rightarrow> resume w r) (\<lambda>_.
                 st_then (read_capacity w) (\<lambda>_ s. (Inr (), s))) s1)"

section \<open>Readiness\<close>

datatype registry_op = OpPublish account_id | OpAck account_id pool_worker | OpSubscribe

fun registry_step :: "registry_op \<Rightarrow> pool_registry \<Rightarrow> pool_registry" where
  "registry_step (OpPublish p) r = snd (publish p r)"
| "registry_step (OpAck p w) r = acknowledge p w r"
| "registry_step OpSubscribe r = subscribe r"

definition marked :: "pool_registry \<Rightarrow> account_id \<Rightarrow> pool_worker \<Rightarrow> bool" where
  "marked r p w = is_marked (or_default (reg_readiness r p) default_ready) w"

lemma is_ready_marked: "is_ready r p \<longleftrightarrow> marked r p Execution \<and> marked r p Finality"
  by (simp add: is_ready_def worker_is_ready_def marked_def)

lemma is_marked_mark [simp]: "is_marked (mark e v) w \<longleftrightarrow> v = w \<or> is_marked e w"
  by (cases v; cases w) simp_all

lemma is_marked_default [simp]: "\<not> is_marked default_ready w"
  by (cases w) (simp_all add: default_ready_def)

lemma registry_step_marked: "marked (registry_step op r) p w \<longleftrightarrow> marked r p w \<or> op = OpAck p w"
  by (cases op) (auto simp: marked_def publish_def acknowledge_def bump_def subscribe_def or_default_def Let_def
      split: option.splits)

lemma registry_step_pools:
  "set (reg_pools (registry_step op r)) = set (reg_pools r) \<union> (case op of OpPublish p \<Rightarrow> {p} | _ \<Rightarrow> {})"
  by (cases op) (auto simp: publish_def acknowledge_def bump_def subscribe_def registry_contains_def Let_def)

lemma new_registry_marked: "marked (new_registry pools) p w \<longleftrightarrow> p \<in> set pools"
proof -
  have "fold (\<lambda>p m. m(p \<mapsto> \<lparr>ready_execution = True, ready_finality = True\<rparr>)) pools m p =
      (if p \<in> set pools then Some \<lparr>ready_execution = True, ready_finality = True\<rparr> else m p)" for m
    by (induction pools arbitrary: m) auto
  then show ?thesis by (cases w) (simp_all add: marked_def new_registry_def or_default_def default_ready_def)
qed

lemma fold_registry_step:
  "marked (fold registry_step ops r) p w \<longleftrightarrow> marked r p w \<or> OpAck p w \<in> set ops"
  "set (reg_pools (fold registry_step ops r)) = set (reg_pools r) \<union> {p. OpPublish p \<in> set ops}"
  by (induction ops arbitrary: r) (auto simp: registry_step_marked registry_step_pools split: registry_op.splits)

text \<open>
  A shard is ready exactly when both workers have attached it. After any sequence of
  publications, acknowledgements and subscriptions, in any order and with repetitions, a pool is
  ready if it was there at start or both the execution and the finality worker acknowledged it, and
  the pools still to attach are those published and not ready.
\<close>

theorem pool_ready_iff_acknowledged:
  "let r = fold registry_step ops (new_registry pools)
   in \<forall>p. (is_ready r p \<longleftrightarrow> p \<in> set pools \<or> OpAck p Execution \<in> set ops \<and> OpAck p Finality \<in> set ops)
        \<and> (p \<in> set (pending_attach r) \<longleftrightarrow> OpPublish p \<in> set ops \<and> \<not> is_ready r p)"
  unfolding Let_def
  by (auto simp: is_ready_marked fold_registry_step new_registry_marked pending_attach_def simp flip: is_ready_def)
    (auto simp: new_registry_def is_ready_marked fold_registry_step new_registry_marked)


section \<open>One provision at a time\<close>

inductive prov_step :: "provision_db \<Rightarrow> provision_db \<Rightarrow> bool" where
  begin_step: "prov_step db (snd (begin_deploying worker now db))"
| pool_step: "prov_step db (snd (set_pool_id i p now db))"
| advance_step: "prov_step db (snd (advance i s now db))"
| fail_step: "prov_step db (fail_provision i err now db)"

definition prov_inv :: "provision_db \<Rightarrow> bool" where
  "prov_inv db \<longleftrightarrow> distinct (map pp_id (prov_rows db)) \<and> provision_indexes_ok (prov_rows db)
     \<and> (\<forall>r\<in>set (prov_rows db). pp_id r \<le> prov_last_id db
          \<and> (pp_inflight_guard r = Some 1 \<longleftrightarrow> inflight_text (pp_status r))
          \<and> (\<exists>s. pp_status r = provision_status_str s))"

lemma inflight_status: "inflight_text (provision_status_str s) \<longleftrightarrow> s \<in> {Deploying, Published, Attached}"
  by (cases s) (simp_all add: inflight_text_def)

lemma parse_status: "parse_provision_status (provision_status_str s) = Inr s"
  by (cases s) (simp_all add: parse_provision_status_def)

lemma update_rows_inv:
  assumes inv: "prov_inv db" and ix: "provision_indexes_ok (sql_update P f (prov_rows db))"
    and f: "\<And>r. pp_id (f r) = pp_id r"
    and g: "\<And>r. r \<in> set (prov_rows db) \<Longrightarrow> (pp_inflight_guard (f r) = Some 1 \<longleftrightarrow> inflight_text (pp_status (f r)))
        \<and> (\<exists>s. pp_status (f r) = provision_status_str s)"
  shows "prov_inv (db\<lparr>prov_rows := sql_update P f (prov_rows db)\<rparr>)"
  using inv ix map_sql_update_key [of P pp_id f "prov_rows db"] f g
  by (auto simp: prov_inv_def set_sql_update)

lemma update_provision_inv:
  assumes "prov_inv db" "\<And>r. pp_id (f r) = pp_id r"
    and "\<And>r. r \<in> set (prov_rows db) \<Longrightarrow> (pp_inflight_guard (f r) = Some 1 \<longleftrightarrow> inflight_text (pp_status (f r)))
        \<and> (\<exists>s. pp_status (f r) = provision_status_str s)"
  shows "prov_inv (snd (update_provision P f failure db))"
  using assms update_rows_inv [OF assms(1) _ assms(2,3), where P = P] by (simp add: update_provision_def Let_def)

lemma provision_indexes_fail:
  assumes "provision_indexes_ok rows" "\<And>r. pp_pool_id (f r) = pp_pool_id r" "\<And>r. pp_inflight_guard (f r) = None"
  shows "provision_indexes_ok (sql_update P f rows)"
proof -
  have "List.map_filter pp_pool_id (sql_update P f rows) = List.map_filter pp_pool_id rows"
    by (induction rows) (auto simp: sql_update_def map_filter_simps assms(2) split: option.splits)
  moreover have "sql_count (\<lambda>r. pp_inflight_guard r = Some 1) (sql_update P f rows) \<le> sql_count (\<lambda>r. pp_inflight_guard r = Some 1) rows"
    by (induction rows) (auto simp: sql_update_def sql_count_def assms(3))
  ultimately show ?thesis using assms(1) by (simp add: provision_indexes_ok_def)
qed

lemma prov_step_inv: "prov_step db db' \<Longrightarrow> prov_inv db \<Longrightarrow> prov_inv db'"
proof (induction rule: prov_step.induct)
  case (begin_step db worker now)
  have "\<exists>s. ''deploying'' = provision_status_str s" by (rule exI [of _ Deploying]) simp
  then show ?case using begin_step
    by (auto simp: begin_deploying_def atomically_def Let_def prov_inv_def inflight_text_def split: if_splits)
next
  case (pool_step db i p now)
  then show ?case unfolding set_pool_id_def by (intro update_provision_inv) (auto simp: prov_inv_def)
next
  case (advance_step db i s now)
  have "(if s \<in> {Deploying, Published, Attached} then Some (1::int) else None) = Some 1 \<longleftrightarrow> inflight_text (provision_status_str s)"
    by (simp add: inflight_status)
  then show ?case using advance_step unfolding advance_def by (intro update_provision_inv) (simp_all, blast)
next
  case (fail_step db i err now)
  have "\<exists>s. ''failed'' = provision_status_str s" by (rule exI [of _ ProvFailed]) simp
  then show ?case using fail_step unfolding fail_provision_def
    by (intro update_rows_inv provision_indexes_fail) (auto simp: prov_inv_def inflight_text_def)
qed

lemma prov_inv_open: "prov_inv open_provision_db"
  by (simp add: prov_inv_def open_provision_db_def provision_indexes_ok_def map_filter_simps sql_count_def)

abbreviation prov_reachable :: "provision_db \<Rightarrow> bool" where
  "prov_reachable \<equiv> reachable (\<lambda>db. db = open_provision_db) prov_step"

interpretation provs: state_machine "\<lambda>db. db = open_provision_db" prov_step prov_inv
  by unfold_locales (auto simp: prov_inv_open intro: prov_step_inv)

lemma inflight_guard_count:
  "prov_inv db \<Longrightarrow> filter (\<lambda>r. pp_inflight_guard r = Some 1) (prov_rows db) = filter (\<lambda>r. inflight_text (pp_status r)) (prov_rows db)"
  by (rule filter_cong) (auto simp: prov_inv_def)

text \<open>
  C39: at most one shard is provisioned at a time. In every reachable journal at most one provision
  is in flight. While there is one, starting another is answered with nothing and changes nothing,
  and the journal offers that one for resumption; otherwise starting one succeeds, under an id above
  all earlier ones, and it becomes the one in flight.
\<close>

theorem single_inflight_provision:
  assumes "prov_reachable db" "begin_deploying worker now db = (res, db')"
  shows "sql_count (\<lambda>r. inflight_text (pp_status r)) (prov_rows db) \<le> 1
    \<and> (case find (\<lambda>r. inflight_text (pp_status r)) (prov_rows db) of
         Some r \<Rightarrow> res = Inr None \<and> db' = db \<and> (\<exists>x. inflight db = Inr (Some x) \<and> rec_id x = pp_id r)
       | None \<Rightarrow> inflight db = Inr None
           \<and> (\<exists>i. res = Inr (Some i) \<and> (\<forall>r\<in>set (prov_rows db). pp_id r < i)
                \<and> (\<exists>x. inflight db' = Inr (Some x) \<and> rec_id x = i \<and> rec_status x = Deploying)))"
proof -
  have inv: "prov_inv db" by (rule provs.reachable_inv [OF assms(1)])
  let ?live = "\<lambda>r. inflight_text (pp_status r)"
  have count: "sql_count ?live (prov_rows db) \<le> 1"
    using inv inflight_guard_count [OF inv] by (simp add: prov_inv_def provision_indexes_ok_def sql_count_def)
  show ?thesis
  proof (cases "find ?live (prov_rows db)")
    case (Some r)
    then have r: "r \<in> set (prov_rows db)" "?live r" by (auto dest: find_SomeD)
    then have "length (filter ?live (prov_rows db)) = 1"
      using count by (metis (no_types, lifting) filter_empty_conv le_antisym length_0_conv less_one not_le sql_count_def)
    then obtain y where "filter ?live (prov_rows db) = [y]" by (auto simp: length_Suc_conv)
    moreover have "r \<in> set (filter ?live (prov_rows db))" using r by simp
    ultimately have y: "filter ?live (prov_rows db) = [r]" by (metis empty_iff empty_set insert_iff list.simps(15))
    obtain s where "pp_status r = provision_status_str s" using inv r by (auto simp: prov_inv_def)
    then have "\<exists>x. inflight db = Inr (Some x) \<and> rec_id x = pp_id r" by (simp add: inflight_def y parse_status)
    moreover have "sql_exists ?live (prov_rows db)" using r by (auto simp: sql_exists_iff)
    ultimately show ?thesis using assms(2) count Some by (simp add: begin_deploying_def atomically_def)
  next
    case None
    then have none: "filter ?live (prov_rows db) = []" "\<not> sql_exists ?live (prov_rows db)"
      by (auto simp: find_None_iff sql_exists_iff filter_empty_conv)
    let ?row = "\<lparr>pp_id = prov_last_id db + 1, pp_pool_id = None, pp_status = ''deploying'', pp_error = None,
                 pp_claim_owner = Some worker, pp_claim_until = Some (as_i64 (sat_add now 600000)),
                 pp_inflight_guard = Some 1, pp_created_at = as_i64 now, pp_updated_at = as_i64 now\<rparr>"
    have "provision_indexes_ok (prov_rows db @ [?row])"
      using inv none(1) inflight_guard_count [OF inv]
      by (simp add: prov_inv_def provision_indexes_ok_def sql_count_def map_filter_def)
    then have "res = Inr (Some (prov_last_id db + 1))"
      "db' = db\<lparr>prov_rows := prov_rows db @ [?row], prov_last_id := prov_last_id db + 1\<rparr>"
      using assms(2) none(2) by (auto simp: begin_deploying_def atomically_def Let_def)
    moreover have "inflight db = Inr None" by (simp add: inflight_def none(1))
    moreover have "\<forall>r\<in>set (prov_rows db). pp_id r < prov_last_id db + 1" using inv by (auto simp: prov_inv_def)
    ultimately show ?thesis
      using count None none(1) by (simp add: inflight_def inflight_text_def parse_provision_status_def)
  qed
qed


definition example_prov_db :: provision_db where
  "example_prov_db = snd (begin_deploying ''w'' 1 open_provision_db)"

lemma prov_reachable_example: "prov_reachable example_prov_db"
proof -
  have "prov_reachable open_provision_db" by (rule reachable.start) simp
  then show ?thesis unfolding example_prov_db_def by (rule reachable.next_state) (rule prov_step.begin_step)
qed

theorem single_inflight_provision_witness:
  "fst (begin_deploying ''w2'' 2 example_prov_db) = Inr None"
proof -
  obtain res db' where b: "begin_deploying ''w2'' 2 example_prov_db = (res, db')" by fastforce
  have "find (\<lambda>r. inflight_text (pp_status r)) (prov_rows example_prov_db) \<noteq> None"
    by (simp add: example_prov_db_def begin_deploying_def open_provision_db_def atomically_def Let_def sql_exists_def
        provision_indexes_ok_def map_filter_def sql_count_def inflight_text_def)
  then show ?thesis using single_inflight_provision [OF prov_reachable_example b] b by (auto split: option.splits)
qed

section \<open>Provisioning a shard\<close>

lemma update_provision_Inr:
  assumes "update_provision P f failure db = (Inr u, db')"
  shows "\<exists>r\<in>set (prov_rows db). P r \<and> f r \<in> set (prov_rows db')"
proof -
  have "sql_count P (prov_rows db) = 1" and db': "db' = db\<lparr>prov_rows := sql_update P f (prov_rows db)\<rparr>"
    using assms by (auto simp: update_provision_def Let_def split: if_splits)
  then obtain r where "r \<in> set (prov_rows db)" "P r"
    by (metis One_nat_def sql_count_0_iff zero_neq_one)
  then show ?thesis by (auto simp: db' set_sql_update)
qed

lemma wait_ready_Inr: "wait_ready w p s = (Inr u, t) \<Longrightarrow> is_ready (pv_registry t) p
    \<and> set (reg_pools (pv_registry t)) = set (reg_pools (pv_registry s)) \<and> pv_deployment t = pv_deployment s
    \<and> pv_store t = pv_store s \<and> pv_activated t = pv_activated s"
proof -
  have "set (reg_pools (fold (\<lambda>(q, v). acknowledge q v) acks r)) = set (reg_pools r)" for acks r
    by (induction acks arbitrary: r) (simp_all add: acknowledge_def bump_def Let_def split_beta)
  then show "wait_ready w p s = (Inr u, t) \<Longrightarrow> ?thesis"
    by (auto simp: wait_ready_def Let_def is_ready_def subscribe_def split: if_splits)
qed

text \<open>
  A shard is activated only when it is safe to send users to it. When provisioning succeeds, one
  pool (the journalled one, if there was one) has been deployed or resumed, is listed in the
  deployment file and in the registry, has been attached by both workers and then activated on the
  vault, once, and its journal row reads activated.
\<close>

theorem provision_activates_attached_pool:
  assumes "run_provision w i existing s = (Inr (), s')"
  shows "\<exists>p. (existing = Some p \<or> existing = None \<and> pw_deploy w = Inr p)
    \<and> p \<in> set (pv_deployment s') \<and> p \<in> set (reg_pools (pv_registry s')) \<and> is_ready (pv_registry s') p
    \<and> pv_activated s' = pv_activated s @ [p]
    \<and> (\<exists>r\<in>set (prov_rows (pv_store s')). pp_id r = i \<and> pp_status r = ''activated'')"
proof -
  obtain p s1 s2 s3 s4 s5 s6 s7 where
    1: "choose_pool w i existing s = (Inr p, s1)" and 2: "publish_pool_to_deployment w p s1 = (Inr (), s2)"
    and 3: "publish_to_registry p s2 = (Inr (), s3)" and 4: "on_store (advance i Published (pw_now w)) s3 = (Inr (), s4)"
    and 5: "wait_ready w p s4 = (Inr (), s5)" and 6: "on_store (advance i Attached (pw_now w)) s5 = (Inr (), s6)"
    and 7: "activate_pool_shard w p s6 = (Inr (), s7)" and 8: "on_store (advance i Activated (pw_now w)) s7 = (Inr (), s')"
    using assms unfolding run_provision_def by (auto elim!: st_then_InrE simp: read_capacity_def)
  have st: "on_store f a = (Inr x, b) \<Longrightarrow> f (pv_store a) = (Inr x, pv_store b) \<and> pv_registry b = pv_registry a
      \<and> pv_deployment b = pv_deployment a \<and> pv_activated b = pv_activated a" for f :: "provision_db \<Rightarrow> (error + 'a) \<times> provision_db" and a b x
    by (auto simp: on_store_def split: prod.splits)
  have "existing = Some p \<or> existing = None \<and> pw_deploy w = Inr p" "pv_activated s1 = pv_activated s"
    using 1 by (auto simp: choose_pool_def st_then_def split: option.splits sum.splits prod.splits dest: st)
  moreover have "p \<in> set (pv_deployment s2)" "pv_activated s2 = pv_activated s1"
    using 2 by (auto simp: publish_pool_to_deployment_def split: sum.splits if_splits)
  moreover have "p \<in> set (reg_pools (pv_registry s3))" "pv_deployment s3 = pv_deployment s2" "pv_activated s3 = pv_activated s2"
    using 3 by (auto simp: publish_to_registry_def publish_def bump_def registry_contains_def)
  moreover have "pv_activated s7 = pv_activated s6 @ [p]" "pv_registry s7 = pv_registry s6" "pv_deployment s7 = pv_deployment s6"
    using 7 by (auto simp: activate_pool_shard_def split: sum.splits)
  moreover have "\<exists>r\<in>set (prov_rows (pv_store s')). pp_id r = i \<and> pp_status r = ''activated''"
    using update_provision_Inr [OF conjunct1 [OF st [OF 8], unfolded advance_def]] by (auto intro: rev_bexI)
  ultimately show ?thesis using st [OF 4] wait_ready_Inr [OF 5] st [OF 6] st [OF 8] by auto
qed

definition example_shard :: account_id where
  "example_shard = \<lparr>prefix = 7, suffix = 7\<rparr>"

definition example_world :: provision_world where
  "example_world = \<lparr>pw_deploy = Inr example_shard, pw_load = Inr (), pw_save = Inr (),
     pw_acks = [(example_shard, Finality), (example_shard, Execution)], pw_activate = (\<lambda>_. Inr ()),
     pw_capacity = Inr \<lparr>cap_active = Some example_shard, cap_user_count = 0, cap_user_capacity = 8\<rparr>,
     pw_reserve_env = None, pw_now = 5, pw_error_text = (\<lambda>_. ''error'')\<rparr>"

definition example_provisioner :: provisioner where
  "example_provisioner = \<lparr>pv_registry = new_registry [], pv_store = example_prov_db, pv_deployment = [],
     pv_activated = [], pv_worker_id = ''w''\<rparr>"

lemmas provision_eval = example_provisioner_def example_world_def example_shard_def example_prov_db_def run_provision_def
  st_then_def choose_pool_def on_store_def set_pool_id_def update_provision_def begin_deploying_def open_provision_db_def
  atomically_def sql_exists_def provision_indexes_ok_def map_filter_def sql_count_def inflight_text_def sql_update_def
  publish_pool_to_deployment_def publish_to_registry_def publish_def registry_contains_def new_registry_def bump_def
  or_default_def default_ready_def advance_def wait_ready_def subscribe_def acknowledge_def is_ready_def worker_is_ready_def
  activate_pool_shard_def read_capacity_def

lemma run_example: "run_provision example_world 1 None example_provisioner =
    (Inr (), snd (run_provision example_world 1 None example_provisioner))"
  by (simp add: provision_eval)

theorem provision_activates_attached_pool_witness:
  "is_ready (pv_registry (snd (run_provision example_world 1 None example_provisioner))) example_shard"
  using provision_activates_attached_pool [OF run_example] by (simp add: example_world_def)

text \<open>When the last capacity reading fails, a shard that is attached and activated is journalled as
  failed.\<close>

lemma activated_shard_journalled_failed:
  "\<exists>e s'. resume (example_world\<lparr>pw_capacity := Inl SqlNoRows\<rparr>)
       \<lparr>rec_id = 1, rec_pool_id = None, rec_status = Deploying, rec_error = None, rec_created_at = 1, rec_updated_at = 1\<rparr>
       example_provisioner = (Inl e, s')
     \<and> pv_activated s' = [example_shard] \<and> map pp_status (prov_rows (pv_store s')) = [''failed''] \<and> activated_count (pv_store s') = 0"
  by (simp add: provision_eval resume_def fail_on_error_def fail_provision_def activated_count_def)

end
