(* ===== verification/Oracle.thy ===== *)
theory Oracle
  imports Pool "HOL-Library.AList"
begin

text \<open>
  Oracle prices: the table of latest prices (\<open>OraclePricing\<close> in \<open>src/src/oracle_sse.rs\<close>, \<open>src/src/price.rs\<close>)
  and the throttle that coalesces price events for the WebSocket clients
  (\<open>src/src/websocket/oracle_throttle.rs\<close>). Instants and durations are nanoseconds.
\<close>

section \<open>Prices\<close>

record price_data =
  price_value :: u64
  price_timestamp :: u64

record oracle_price_event =
  ope_oracle_id :: string
  ope_faucet_id :: string
  ope_price :: u64
  ope_timestamp :: u64

record oracle_pricing =
  oracle_prices :: "account_id \<rightharpoonup> price_data"
  oracle_assets :: "(account_id \<times> string) list"

definition oracle_id_to_faucet_id :: "(account_id \<times> string) list \<Rightarrow> string \<Rightarrow> account_id option" where
  "oracle_id_to_faucet_id assets oid = map_option fst (find (\<lambda>(_, feed). feed = oid) assets)"

definition update_from_price_event :: "oracle_price_event \<Rightarrow> oracle_pricing \<Rightarrow> oracle_pricing" where
  "update_from_price_event ev op =
     (case oracle_id_to_faucet_id (oracle_assets op) (ope_oracle_id ev) of
        None \<Rightarrow> op
      | Some f \<Rightarrow> op\<lparr>oracle_prices := (oracle_prices op)(f \<mapsto> \<lparr>price_value = ope_price ev, price_timestamp = ope_timestamp ev\<rparr>)\<rparr>)"

section \<open>The throttle\<close>

record throttle_config =
  min_interval :: nat
  bps_threshold :: u64

record throttle_asset =
  last_emitted_price :: u64
  last_emitted_at :: nat
  pending_event :: "oracle_price_event option"

record throttle =
  throttle_config :: throttle_config
  throttle_assets :: "(string \<times> throttle_asset) list"

definition new_throttle :: "throttle_config \<Rightarrow> throttle" where
  "new_throttle cfg = \<lparr>throttle_config = cfg, throttle_assets = []\<rparr>"

text \<open>The products of two 64-bit numbers, and of one with 10000, fit 128 bits.\<close>

definition movement_reaches_threshold :: "u64 \<Rightarrow> u64 \<Rightarrow> u64 \<Rightarrow> bool" where
  "movement_reaches_threshold previous current threshold =
     (if previous = 0 then current \<noteq> 0 \<or> threshold = 0
      else
        let diff = (if current \<le> previous then previous - current else current - previous)
        in (ucast previous :: u128) * ucast threshold \<le> ucast diff * 10000)"

definition throttle_push :: "oracle_price_event \<Rightarrow> nat \<Rightarrow> throttle \<Rightarrow> oracle_price_event option \<times> throttle" where
  "throttle_push ev now th =
     (let key = ope_faucet_id ev; cfg = throttle_config th;
          put = (\<lambda>st. th\<lparr>throttle_assets := AList.update key st (throttle_assets th)\<rparr>);
          fresh = \<lparr>last_emitted_price = ope_price ev, last_emitted_at = now, pending_event = None\<rparr>
      in case map_of (throttle_assets th) key of
           None \<Rightarrow> (Some ev, put fresh)
         | Some st \<Rightarrow>
             if min_interval cfg \<le> now - last_emitted_at st
                \<or> movement_reaches_threshold (last_emitted_price st) (ope_price ev) (bps_threshold cfg)
             then (Some ev, put fresh)
             else (None, put (st\<lparr>pending_event := Some ev\<rparr>)))"

definition next_deadline :: "throttle \<Rightarrow> nat option" where
  "next_deadline th =
     (case map (\<lambda>(_, st). last_emitted_at st + min_interval (throttle_config th))
             (filter (\<lambda>(_, st). pending_event st \<noteq> None) (throttle_assets th)) of
        [] \<Rightarrow> None | t # ts \<Rightarrow> Some (fold min ts t))"

definition is_due :: "throttle_config \<Rightarrow> nat \<Rightarrow> throttle_asset \<Rightarrow> bool" where
  "is_due cfg now st \<longleftrightarrow> pending_event st \<noteq> None \<and> min_interval cfg \<le> now - last_emitted_at st"

fun flush_assets ::
  "throttle_config \<Rightarrow> nat \<Rightarrow> (string \<times> throttle_asset) list \<Rightarrow> oracle_price_event list \<times> (string \<times> throttle_asset) list" where
  "flush_assets cfg now [] = ([], [])"
| "flush_assets cfg now ((k, st) # rest) =
     (case flush_assets cfg now rest of (due, rest') \<Rightarrow>
        case pending_event st of
          Some ev \<Rightarrow>
            if is_due cfg now st
            then (ev # due, (k, \<lparr>last_emitted_price = ope_price ev, last_emitted_at = now, pending_event = None\<rparr>) # rest')
            else (due, (k, st) # rest')
        | None \<Rightarrow> (due, (k, st) # rest'))"

definition flush_due :: "nat \<Rightarrow> throttle \<Rightarrow> oracle_price_event list \<times> throttle" where
  "flush_due now th =
     (case flush_assets (throttle_config th) now (throttle_assets th) of
        (due, assets) \<Rightarrow> (due, th\<lparr>throttle_assets := assets\<rparr>))"

section \<open>No price is lost\<close>

datatype throttle_op = TPush oracle_price_event nat | TFlush nat

fun throttle_step :: "throttle_op \<Rightarrow> throttle \<Rightarrow> oracle_price_event list \<times> throttle" where
  "throttle_step (TPush ev now) th = (case throttle_push ev now th of (r, th') \<Rightarrow> (case r of None \<Rightarrow> [] | Some e \<Rightarrow> [e], th'))"
| "throttle_step (TFlush now) th = flush_due now th"

fun throttle_run :: "throttle_op list \<Rightarrow> throttle \<Rightarrow> oracle_price_event list \<times> throttle" where
  "throttle_run [] th = ([], th)"
| "throttle_run (op # ops) th =
     (case throttle_step op th of (out, th') \<Rightarrow> case throttle_run ops th' of (out', th'') \<Rightarrow> (out @ out', th''))"

definition for_asset :: "string \<Rightarrow> oracle_price_event list \<Rightarrow> oracle_price_event list" where
  "for_asset k = filter (\<lambda>e. ope_faucet_id e = k)"

fun pushed :: "throttle_op list \<Rightarrow> oracle_price_event list" where
  "pushed [] = []"
| "pushed (TPush ev _ # ops) = ev # pushed ops"
| "pushed (TFlush _ # ops) = pushed ops"

text \<open>The newest event of an asset is the last one out or waiting.\<close>

definition newest_for :: "oracle_price_event list \<Rightarrow> oracle_price_event list \<Rightarrow> throttle_asset option \<Rightarrow> bool" where
  "newest_for ins outs m =
     (case m of
        None \<Rightarrow> ins = [] \<and> outs = []
      | Some st \<Rightarrow> ins \<noteq> [] \<and>
          (case pending_event st of
             Some e \<Rightarrow> e = last ins
           | None \<Rightarrow> outs \<noteq> [] \<and> last outs = last ins))"

definition newest_kept :: "oracle_price_event list \<Rightarrow> oracle_price_event list \<Rightarrow> throttle \<Rightarrow> bool" where
  "newest_kept ins outs th \<longleftrightarrow> distinct (map fst (throttle_assets th))
     \<and> (\<forall>k. newest_for (for_asset k ins) (for_asset k outs) (map_of (throttle_assets th) k))"

lemma for_asset_append [simp]: "for_asset k (xs @ ys) = for_asset k xs @ for_asset k ys"
  by (simp add: for_asset_def)

lemma for_asset_Nil [simp]: "for_asset k [] = []"
  by (simp add: for_asset_def)

lemma for_asset_Cons [simp]: "for_asset k (x # xs) = (if ope_faucet_id x = k then x # for_asset k xs else for_asset k xs)"
  by (simp add: for_asset_def)

lemma last_for_asset: "for_asset k xs \<noteq> [] \<Longrightarrow> ope_faucet_id (last (for_asset k xs)) = k"
  using last_in_set [of "for_asset k xs"] by (auto simp: for_asset_def)

lemma push_newest:
  assumes "newest_kept ins outs th" "throttle_step (TPush ev now) th = (out, th')"
  shows "newest_kept (ins @ [ev]) (outs @ out) th'"
proof -
  have d: "distinct (map fst (throttle_assets th))"
    and n: "\<And>k. newest_for (for_asset k ins) (for_asset k outs) (map_of (throttle_assets th) k)"
    using assms(1) by (auto simp: newest_kept_def)
  obtain st where th': "th' = th\<lparr>throttle_assets := AList.update (ope_faucet_id ev) st (throttle_assets th)\<rparr>"
    and st: "out = [ev] \<and> pending_event st = None \<or> out = [] \<and> pending_event st = Some ev"
    using assms(2) by (auto simp: throttle_push_def Let_def split: option.splits if_splits)
  have "newest_for (for_asset k (ins @ [ev])) (for_asset k (outs @ out)) (map_of (throttle_assets th') k)" for k
    using st n [of k] by (cases "ope_faucet_id ev = k") (auto simp: th' update_conv' newest_for_def split: option.splits)
  then show ?thesis using d by (simp add: newest_kept_def th' distinct_update)
qed

definition flushed :: "throttle_config \<Rightarrow> nat \<Rightarrow> throttle_asset \<Rightarrow> throttle_asset" where
  "flushed cfg now st = (if is_due cfg now st
     then \<lparr>last_emitted_price = ope_price (the (pending_event st)), last_emitted_at = now, pending_event = None\<rparr> else st)"

lemma flush_assets_eq:
  "flush_assets cfg now assets =
     (map (\<lambda>(_, st). the (pending_event st)) (filter (\<lambda>(_, st). is_due cfg now st) assets), map (\<lambda>(k, st). (k, flushed cfg now st)) assets)"
  by (induction assets) (auto simp: flushed_def is_due_def split: option.splits prod.splits)

lemma for_asset_flush:
  assumes "distinct (map fst assets)" "\<And>k st e. (k, st) \<in> set assets \<Longrightarrow> pending_event st = Some e \<Longrightarrow> ope_faucet_id e = k"
  shows "for_asset k (map (\<lambda>(_, st). the (pending_event st)) (filter (\<lambda>(_, st). is_due cfg now st) assets)) =
    (case map_of assets k of None \<Rightarrow> [] | Some st \<Rightarrow> if is_due cfg now st then [the (pending_event st)] else [])"
  using assms
proof (induction assets)
  case (Cons a assets)
  obtain k' st where a: "a = (k', st)" by (cases a)
  have ih: "for_asset k (map (\<lambda>(_, st). the (pending_event st)) (filter (\<lambda>(_, st). is_due cfg now st) assets)) =
    (case map_of assets k of None \<Rightarrow> [] | Some st \<Rightarrow> if is_due cfg now st then [the (pending_event st)] else [])"
    using Cons.prems by (intro Cons.IH) auto
  have key: "is_due cfg now st \<Longrightarrow> ope_faucet_id (the (pending_event st)) = k'"
    using Cons.prems(2) [of k' st] a by (auto simp: is_due_def)
  have "k' \<notin> fst ` set assets" using Cons.prems(1) a by simp
  then have "map_of assets k' = None" by (simp add: map_of_eq_None_iff)
  then show ?case using ih key a by (cases "is_due cfg now st") auto
qed simp

lemma flush_newest:
  assumes "newest_kept ins outs th" "flush_due now th = (out, th')"
  shows "newest_kept ins (outs @ out) th'"
    and "\<forall>(k, st)\<in>set (throttle_assets th). min_interval (throttle_config th) \<le> now - last_emitted_at st \<Longrightarrow>
      \<forall>(k, st)\<in>set (throttle_assets th'). pending_event st = None"
proof -
  let ?cfg = "throttle_config th" and ?as = "throttle_assets th"
  have d: "distinct (map fst ?as)" and n: "\<And>k. newest_for (for_asset k ins) (for_asset k outs) (map_of ?as k)"
    using assms(1) by (auto simp: newest_kept_def)
  have th': "th' = th\<lparr>throttle_assets := map (\<lambda>(k, st). (k, flushed ?cfg now st)) ?as\<rparr>"
    and out: "out = map (\<lambda>(_, st). the (pending_event st)) (filter (\<lambda>(_, st). is_due ?cfg now st) ?as)"
    using assms(2) by (simp_all add: flush_due_def flush_assets_eq)
  have key: "ope_faucet_id e = k" if "(k, st) \<in> set ?as" "pending_event st = Some e" for k st e
    using n [of k] that d last_for_asset [of k ins] by (auto simp: newest_for_def)
  have "newest_for (for_asset k ins) (for_asset k (outs @ out)) (map_of (throttle_assets th') k)" for k
  proof -
    have o: "for_asset k out = (case map_of ?as k of None \<Rightarrow> [] | Some st \<Rightarrow> if is_due ?cfg now st then [the (pending_event st)] else [])"
      unfolding out by (rule for_asset_flush [OF d]) (rule key)
    have m: "map_of (throttle_assets th') k = map_option (flushed ?cfg now) (map_of ?as k)" by (simp add: th' map_of_map)
    show ?thesis using n [of k] unfolding m for_asset_append o
      by (auto simp: newest_for_def flushed_def is_due_def split: option.splits)
  qed
  then show "newest_kept ins (outs @ out) th'" using d by (simp add: newest_kept_def th' comp_def split_beta)
  show "\<forall>(k, st)\<in>set (throttle_assets th'). pending_event st = None"
    if "\<forall>(k, st)\<in>set ?as. min_interval ?cfg \<le> now - last_emitted_at st"
    using that by (force simp: th' flushed_def is_due_def)
qed

lemma throttle_run_newest:
  assumes "newest_kept ins outs th" "throttle_run ops th = (out, th')"
  shows "newest_kept (ins @ pushed ops) (outs @ out) th'"
  using assms
proof (induction ops arbitrary: ins outs th out)
  case (Cons op ops)
  obtain o1 th1 o2 where s: "throttle_step op th = (o1, th1)" "throttle_run ops th1 = (o2, th')" "out = o1 @ o2"
    using Cons.prems(2) by (auto split: prod.splits)
  show ?case
  proof (cases op)
    case (TPush ev now)
    with Cons.IH [OF push_newest s(2)] Cons.prems(1) s show ?thesis by simp
  next
    case (TFlush now)
    with Cons.IH [OF flush_newest(1) s(2)] Cons.prems(1) s show ?thesis by simp
  qed
qed simp

text \<open>
  The throttle loses no price. After any sequence of pushed events and flushes, a flush at a time
  when the interval has passed for every asset leaves nothing waiting, and for every asset the last
  event sent out, over the whole sequence, is the last event pushed.
\<close>

theorem throttle_delivers_newest:
  assumes "throttle_run ops (new_throttle cfg) = (out, th)" "flush_due now th = (due, th')"
    and "\<forall>(k, st)\<in>set (throttle_assets th). min_interval (throttle_config th) \<le> now - last_emitted_at st"
    and "for_asset k (pushed ops) \<noteq> []"
  shows "next_deadline th' = None \<and> for_asset k (out @ due) \<noteq> []
    \<and> last (for_asset k (out @ due)) = last (for_asset k (pushed ops))"
proof -
  have "newest_kept [] [] (new_throttle cfg)" by (simp add: newest_kept_def new_throttle_def newest_for_def)
  from throttle_run_newest [OF this assms(1)] have "newest_kept (pushed ops) out th" by simp
  note f = flush_newest [OF this assms(2)]
  have none: "\<forall>(k, st)\<in>set (throttle_assets th'). pending_event st = None" by (rule f(2) [OF assms(3)])
  then have "filter (\<lambda>(_, st). pending_event st \<noteq> None) (throttle_assets th') = []" by (auto simp: filter_empty_conv)
  then have "next_deadline th' = None" by (simp add: next_deadline_def)
  moreover have "newest_for (for_asset k (pushed ops)) (for_asset k (out @ due)) (map_of (throttle_assets th') k)"
    using f(1) by (simp add: newest_kept_def)
  moreover have "pending_event st = None" if "map_of (throttle_assets th') k = Some st" for st
    using none map_of_SomeD [OF that] by auto
  ultimately show ?thesis using assms(4) by (auto simp: newest_for_def split: option.splits)
qed

definition example_price :: "u64 \<Rightarrow> oracle_price_event" where
  "example_price p = \<lparr>ope_oracle_id = ''f'', ope_faucet_id = ''a'', ope_price = p, ope_timestamp = 0\<rparr>"

lemmas throttle_eval = example_price_def throttle_push_def new_throttle_def movement_reaches_threshold_def flush_due_def
  is_due_def Let_def

theorem throttle_delivers_newest_witness:
  "\<exists>th'. flush_due 20 (snd (throttle_run [TPush (example_price 100000) 5, TPush (example_price 100001) 6]
      (new_throttle \<lparr>min_interval = 10, bps_threshold = 20\<rparr>))) = ([example_price 100001], th') \<and> next_deadline th' = None"
proof -
  let ?ops = "[TPush (example_price 100000) 5, TPush (example_price 100001) 6]"
  let ?st = "\<lparr>last_emitted_price = 100000, last_emitted_at = 5, pending_event = Some (example_price 100001)\<rparr>"
  let ?th = "\<lparr>throttle_config = \<lparr>min_interval = 10, bps_threshold = 20\<rparr>, throttle_assets = [(''a'', ?st)]\<rparr>"
  have run: "throttle_run ?ops (new_throttle \<lparr>min_interval = 10, bps_threshold = 20\<rparr>) = ([example_price 100000], ?th)"
    by (simp add: throttle_eval)
  obtain due th' where fl: "flush_due 20 ?th = (due, th')" by fastforce
  have "due = [example_price 100001]" using fl by (simp add: throttle_eval)
  then show ?thesis
    using throttle_delivers_newest [OF run fl, of "''a''"] fl run by (auto simp: throttle_eval)
qed

end
