(* ===== verification/Processing.thy ===== *)
theory Processing
  imports Execution_Store Swap_Quote Fee_Store Lp_Store Pool_Registry Oracle
begin

text \<open>
  The processing engine (\<open>src/src/processing.rs\<close>): it quotes claimed orders against the pools, keeps the
  mirror of spendable balances, hands batches to the execution store, rolls failed swaps back, and
  applies the liquidity journal. Chain reads, the clock, fresh ids and the floating-point pair price
  are fields of \<open>env\<close>; the clock is read once per event. Broadcasts and analytics records are
  appended to the engine's output, which nothing reads back. The hash map of pools is the list of
  its entries in iteration order.
\<close>

section \<open>State\<close>

record pending_swap =
  pend_user_id :: account_id
  pend_sell_faucet :: account_id
  pend_buy_faucet :: account_id
  pend_amount_in :: u64
  pend_amount_out :: u64
  pend_sell_before :: pool_balances
  pend_sell_after :: pool_balances
  pend_buy_before :: pool_balances
  pend_buy_after :: pool_balances
  pend_analytics_swap :: finalized_swap

datatype lp_cash_flow_kind = CashDeposit | CashWithdrawal

record lp_cash_flow =
  lcf_note_id :: string
  lcf_kind :: lp_cash_flow_kind
  lcf_lp_id :: account_id
  lcf_pool_id :: account_id
  lcf_asset_id :: account_id
  lcf_amount :: u64
  lcf_shares :: u64
  lcf_event_time :: u64

record oracle_mark =
  om_event :: oracle_price_event
  om_quote_asset :: string
  om_price_numerator :: u128
  om_price_scale :: u128

record pool_snapshot_input =
  psi_pool_id :: account_id
  psi_asset_id :: account_id
  psi_quote_asset :: string
  psi_nav_quote :: u128
  psi_tvl_quote :: u128
  psi_inventory_quantity :: int
  psi_inventory_cost_quote :: int
  psi_inventory_value_quote :: int
  psi_event_time :: u64

datatype ('sg, 'pk) engine_output =
    OutOrder "('sg, 'pk) order_update"
  | OutUser account_id account_id u64
  | OutPools "(account_id \<times> pool_state) list" u64
  | OutBatch "('sg, 'pk, processed) order list"
  | OutAnalytics account_id u64
  | RecSwap finalized_swap
  | RecLpCashFlow lp_cash_flow
  | RecMark oracle_mark
  | RecPoolSnapshot pool_snapshot_input

record ('sg, 'pk) engine =
  oracle_pricing :: oracle_pricing
  en_orders :: "('sg, 'pk) orders"
  pool_states :: "(account_id \<times> pool_state) list"
  engine_busy :: bool
  asset_ids :: "account_id list"
  en_registry :: pool_registry
  user_pools :: "account_id \<rightharpoonup> account_id"
  user_balances :: "account_id \<times> account_id \<rightharpoonup> u64"
  en_ledger :: lp_ledger
  en_lp_store :: lp_db
  lp_recovery_pending :: bool
  en_store :: execution_db
  en_fee_store :: fee_db
  pending_swaps :: "(uuid \<times> pending_swap) list"
  execution_finished :: bool
  pool_resync_required :: bool
  worker_id :: string
  outputs :: "('sg, 'pk) engine_output list"

text \<open>What the engine asks of the outside.\<close>

record ('sg, 'pk) env =
  env_runtime :: "('sg, 'pk) runtime"
  env_now :: date_time
  env_now_ms :: u64
  env_now_s :: u64
  env_batch_id :: uuid
  env_max_age :: "u64 option"
  env_max_orders :: "nat option"
  env_quote_with :: "u64 \<Rightarrow> u64 \<Rightarrow> u256 result"
  env_to_hex :: "account_id \<Rightarrow> string"
  env_placement :: "account_id \<Rightarrow> account_storage result"
  env_try_from_elements :: "u64 \<Rightarrow> u64 \<Rightarrow> account_id result"
  env_deployment :: "account_id list result"
  env_balance_storage :: "account_id \<Rightarrow> account_id \<Rightarrow> account_id \<Rightarrow> (account_storage \<times> account_storage) result"

definition emit :: "('sg, 'pk) engine_output \<Rightarrow> ('sg, 'pk) engine \<Rightarrow> ('sg, 'pk) engine" where
  "emit out s = s\<lparr>outputs := outputs s @ [out]\<rparr>"

definition on_exec ::
  "(execution_db \<Rightarrow> (error + 'a) \<times> execution_db) \<Rightarrow> ('sg, 'pk) engine \<Rightarrow> (error + 'a) \<times> ('sg, 'pk) engine" where
  "on_exec f s = (case f (en_store s) of (r, db) \<Rightarrow> (r, s\<lparr>en_store := db\<rparr>))"

definition on_lp ::
  "(lp_db \<Rightarrow> (error + 'a) \<times> lp_db) \<Rightarrow> ('sg, 'pk) engine \<Rightarrow> (error + 'a) \<times> ('sg, 'pk) engine" where
  "on_lp f s = (case f (en_lp_store s) of (r, db) \<Rightarrow> (r, s\<lparr>en_lp_store := db\<rparr>))"

section \<open>Oracle prices\<close>

definition price_of :: "('sg, 'pk) engine \<Rightarrow> account_id \<Rightarrow> u64 option" where
  "price_of s f = map_option price_value (oracle_prices (oracle_pricing s) f)"

text \<open>\<open>10_u128.pow\<close> wraps; a wrap to zero makes the division panic.\<close>

definition pow10_u128 :: "u8 \<Rightarrow> u128" where
  "pow10_u128 d = 10 ^ unat d"

definition oracle_value :: "u64 \<Rightarrow> u64 option \<Rightarrow> u8 \<Rightarrow> u128 result" where
  "oracle_value amount price decimals =
     (let scale = pow10_u128 decimals
      in if scale = 0 then Inl (Panic DivisionByZero)
         else Inr (sat_mul (ucast amount) (ucast (or_default price 0)) div scale))"

definition oracle_value_u256 :: "u256 \<Rightarrow> u64 option \<Rightarrow> u8 \<Rightarrow> u128 result" where
  "oracle_value_u256 amount price decimals = oracle_value (sat_to amount) price decimals"

section \<open>Balances\<close>

definition revert_u256 :: "u256 \<Rightarrow> u256 \<Rightarrow> u256 \<Rightarrow> u256" where
  "revert_u256 current before after =
     (if before \<le> after then sat_sub current (after - before) else sat_add current (before - after))"

definition revert_balances :: "pool_balances \<Rightarrow> pool_balances \<Rightarrow> pool_balances \<Rightarrow> pool_balances" where
  "revert_balances current before after =
     \<lparr>reserve = revert_u256 (reserve current) (reserve before) (reserve after),
      reserve_with_slippage = revert_u256 (reserve_with_slippage current) (reserve_with_slippage before) (reserve_with_slippage after),
      total_liabilities = revert_u256 (total_liabilities current) (total_liabilities before) (total_liabilities after)\<rparr>"

datatype vault_cash_flow_kind = Fund | InitRedeem | Redeem

record vault_cash_flow_event =
  vcf_user_id :: account_id
  vcf_faucet_id :: account_id
  vcf_amount :: u64
  vcf_kind :: vault_cash_flow_kind

definition apply_vault_cashflow_to_balances ::
  "(account_id \<times> account_id \<rightharpoonup> u64) \<Rightarrow> vault_cash_flow_event \<Rightarrow> (account_id \<times> account_id \<rightharpoonup> u64)" where
  "apply_vault_cashflow_to_balances bals ev =
     (let key = (vcf_user_id ev, vcf_faucet_id ev)
      in case vcf_kind ev of
           Fund \<Rightarrow> bals(key \<mapsto> sat_add (or_default (bals key) 0) (vcf_amount ev))
         | InitRedeem \<Rightarrow> (case bals key of None \<Rightarrow> bals | Some b \<Rightarrow> bals(key \<mapsto> sat_sub b (vcf_amount ev)))
         | Redeem \<Rightarrow> bals)"

definition resolve_user_pool ::
  "('sg, 'pk) env \<Rightarrow> account_id \<Rightarrow> ('sg, 'pk) engine \<Rightarrow> (error + account_id) \<times> ('sg, 'pk) engine" where
  "resolve_user_pool v user s =
     (case user_pools s user of
        Some p \<Rightarrow> (Inr p, s)
      | None \<Rightarrow>
          (case and_then (env_placement v user) (\<lambda>st.
                and_then (user_pool_from_storage (env_try_from_elements v) st user) (\<lambda>p.
                  ok_or p (Anyhow ''user has no assigned pool''))) of
             Inl e \<Rightarrow> (Inl e, s)
           | Inr p \<Rightarrow>
               if registry_contains (en_registry s) p
               then (Inr p, s\<lparr>user_pools := (user_pools s)(user \<mapsto> p)\<rparr>)
               else
                 (case ensure_from_deployment (env_deployment v) p (en_registry s) of
                    (Inl e, r) \<Rightarrow> (Inl e, s\<lparr>en_registry := r\<rparr>)
                  | (Inr False, r) \<Rightarrow> (Inl (Anyhow ''user is assigned to unlisted pool''), s\<lparr>en_registry := r\<rparr>)
                  | (Inr True, r) \<Rightarrow>
                      (Inr p, s\<lparr>en_registry := r, user_pools := (user_pools s)(user \<mapsto> p)\<rparr>))))"

definition fetch_balance_from_chain ::
  "('sg, 'pk) env \<Rightarrow> account_id \<Rightarrow> account_id \<Rightarrow> ('sg, 'pk) engine \<Rightarrow> (error + u64) \<times> ('sg, 'pk) engine" where
  "fetch_balance_from_chain v user faucet s =
     (if faucet \<notin> set (asset_ids s) then (Inl (Anyhow ''unknown pool asset''), s)
      else st_then (resolve_user_pool v user) (\<lambda>p s.
        (and_then (env_balance_storage v p faucet user) (\<lambda>(vault_storage, pool_storage).
         and_then (user_balance_details vault_storage pool_storage faucet user) (\<lambda>(_, available).
           Inr available)), s)) s)"

definition balance_of ::
  "('sg, 'pk) env \<Rightarrow> account_id \<Rightarrow> account_id \<Rightarrow> ('sg, 'pk) engine \<Rightarrow> (error + u64) \<times> ('sg, 'pk) engine" where
  "balance_of v user faucet s =
     (case user_balances s (user, faucet) of
        Some b \<Rightarrow> (Inr b, s)
      | None \<Rightarrow>
          st_then (fetch_balance_from_chain v user faucet) (\<lambda>b s.
            (Inr b, s\<lparr>user_balances := (user_balances s)((user, faucet) \<mapsto> b)\<rparr>)) s)"

section \<open>Quoting\<close>

definition update_pool ::
  "account_id \<Rightarrow> (pool_state \<Rightarrow> pool_state) \<Rightarrow> (account_id \<times> pool_state) list \<Rightarrow> (account_id \<times> pool_state) list" where
  "update_pool faucet f pools = map (\<lambda>(g, p). if g = faucet then (g, f p) else (g, p)) pools"

text \<open>The volatility fee of a pool, while it is valid.\<close>

definition volatility_in :: "u64 \<Rightarrow> pool_state \<Rightarrow> u256" where
  "volatility_in now p =
     (if now \<le> volatility_fee_valid_until (settings p) then volatility_fee_in (settings p) else 0)"

definition volatility_out :: "u64 \<Rightarrow> pool_state \<Rightarrow> u256" where
  "volatility_out now p =
     (if now \<le> volatility_fee_valid_until (settings p) then volatility_fee_out (settings p) else 0)"

definition quote_swap ::
  "('sg, 'pk) env \<Rightarrow> ('sg, 'pk) engine \<Rightarrow> account_id \<Rightarrow> account_id \<Rightarrow> u64 \<Rightarrow> swap_quote result" where
  "quote_swap v s sell_faucet buy_faucet amt =
     and_then (ok_or (map_of (pool_states s) sell_faucet) (Anyhow ''no pool state for sell asset'')) (\<lambda>sell_pool.
     and_then (ok_or (map_of (pool_states s) buy_faucet) (Anyhow ''no pool state for buy asset'')) (\<lambda>buy_pool.
     and_then (ok_or (price_of s sell_faucet) (Anyhow ''no oracle price for sell asset'')) (\<lambda>sell_price.
     and_then (ok_or (price_of s buy_faucet) (Anyhow ''no oracle price for buy asset'')) (\<lambda>buy_price.
     and_then (env_quote_with v sell_price buy_price) (\<lambda>price.
       get_curve_amount_out_with_volatility_fee sell_pool buy_pool
         (ucast (asset_decimals (metadata sell_pool))) (ucast (asset_decimals (metadata buy_pool)))
         (ucast amt) price
         (max (volatility_in (env_now_s v) sell_pool) (volatility_out (env_now_s v) buy_pool)))))))"

section \<open>Orders\<close>

fun reason_text :: "order_failure_reason \<Rightarrow> string" where
  "reason_text StaleQueue = ''stale_queue''"
| "reason_text Expired = ''Expired''"
| "reason_text MinOutNotMet = ''MinOutNotMet''"
| "reason_text InsufficientBalance = ''InsufficientBalance''"
| "reason_text ExecutionError = ''ExecutionError''"

definition publish_order_update ::
  "('sg, 'pk) env \<Rightarrow> ('sg, 'pk) order_update \<Rightarrow> ('sg, 'pk) engine \<Rightarrow> (error + unit) \<times> ('sg, 'pk) engine" where
  "publish_order_update v upd =
     st_then (\<lambda>s. case upd of
         UFailed ord \<Rightarrow>
           (case snapshot upd of
              Inl e \<Rightarrow> (Inl e, s)
            | Inr snap \<Rightarrow>
                on_exec (fail_claimed_order (order_id ord) (worker_id s)
                  (case snap_failure_reason snap of None \<Rightarrow> ''ExecutionError'' | Some r \<Rightarrow> reason_text r)
                  (env_now_ms v)) s)
       | _ \<Rightarrow> (Inr True, s))
     (\<lambda>_ s. (Inr (), emit (OutOrder upd) (s\<lparr>en_orders := apply_order_update (en_orders s) upd\<rparr>)))"

definition fail_order ::
  "('sg, 'pk) env \<Rightarrow> ('sg, 'pk, processing) order \<Rightarrow> order_failure_reason \<Rightarrow> ('sg, 'pk) engine
     \<Rightarrow> (error + 'a option) \<times> ('sg, 'pk) engine" where
  "fail_order v ord reason =
     st_then (publish_order_update v (UFailed (processing_failed (env_now v) reason ord))) (\<lambda>_ s. (Inr None, s))"

definition pool_decimals :: "('sg, 'pk) engine \<Rightarrow> account_id \<Rightarrow> u8" where
  "pool_decimals s f = (case map_of (pool_states s) f of None \<Rightarrow> 0 | Some p \<Rightarrow> asset_decimals (metadata p))"

definition pool_fee_version :: "('sg, 'pk) engine \<Rightarrow> account_id \<Rightarrow> u64" where
  "pool_fee_version s f =
     (case map_of (pool_states s) f of None \<Rightarrow> 0 | Some p \<Rightarrow> volatility_fee_version (settings p))"

definition analytics_swap ::
  "('sg, 'pk) env \<Rightarrow> ('sg, 'pk) engine \<Rightarrow> uuid \<Rightarrow> account_id \<Rightarrow> order_details \<Rightarrow> swap_quote \<Rightarrow> u64 \<Rightarrow> finalized_swap result" where
  "analytics_swap v s oid user d quote executed =
     (let sell = asset_in d; buy = asset_out d;
          fee_value = (\<lambda>fee. oracle_value_u256 fee (price_of s buy) (pool_decimals s buy))
      in and_then (oracle_value (amount_in d) (price_of s sell) (pool_decimals s sell)) (\<lambda>qv.
         and_then (fee_value (fee_lp (fees quote))) (\<lambda>lp.
         and_then (fee_value (fee_protocol (fees quote))) (\<lambda>pf.
         and_then (fee_value (fee_backstop (fees quote))) (\<lambda>bf.
         and_then (fee_value (fee_volatility (fees quote))) (\<lambda>vf.
           Inr \<lparr>fs_event_id = oid, fs_user_id = user, fs_pool_id = buy, fs_asset_in = sell, fs_asset_out = buy,
                fs_quote_asset = ''oracle_usd'', fs_amount_in = amount_in d, fs_amount_out = executed,
                fs_quote_value = qv, fs_lp_fee_quote = lp, fs_protocol_fee_quote = pf,
                fs_backstop_fee_quote = bf, fs_volatility_fee_quote = vf,
                fs_requested_amount_out = Some (min_amount_out d),
                fs_quoted_amount_out = Some (sat_to (amount_out quote)), fs_event_time = env_now_ms v\<rparr>))))))"

definition balances_to_strings :: "pool_balances \<Rightarrow> u256 \<times> u256 \<times> u256" where
  "balances_to_strings b = (reserve b, reserve_with_slippage b, total_liabilities b)"

definition balances_from_strings :: "u256 \<times> u256 \<times> u256 \<Rightarrow> pool_balances" where
  "balances_from_strings = (\<lambda>(r, w, l). \<lparr>reserve = r, reserve_with_slippage = w, total_liabilities = l\<rparr>)"

definition proposed_of ::
  "('sg, 'pk) engine \<Rightarrow> uuid \<Rightarrow> pending_swap \<Rightarrow> swap_quote \<Rightarrow> proposed_swap" where
  "proposed_of s oid p quote =
     (let sell = pend_sell_faucet p; buy = pend_buy_faucet p
      in \<lparr>ps_order_id = oid, ps_user_id = pend_user_id p, ps_asset_in = sell, ps_asset_out = buy,
          ps_amount_in = pend_amount_in p, ps_amount_out = pend_amount_out p,
          ps_quoted_amount_out = amount_out quote, ps_raw_amount_out = fee_raw_amount_out (fees quote),
          ps_lp_fee = fee_lp (fees quote), ps_backstop_fee = fee_backstop (fees quote),
          ps_protocol_fee = fee_protocol (fees quote), ps_volatility_fee = fee_volatility (fees quote),
          ps_oracle_price_in = price_of s sell, ps_oracle_price_out = price_of s buy,
          ps_fee_version = max (pool_fee_version s sell) (pool_fee_version s buy),
          ps_finalization =
            \<lparr>fin_user_id = pend_user_id p, fin_sell_faucet = sell, fin_buy_faucet = buy,
             fin_amount_in = pend_amount_in p, fin_amount_out = pend_amount_out p,
             fin_sell_before = balances_to_strings (pend_sell_before p),
             fin_sell_after = balances_to_strings (pend_sell_after p),
             fin_buy_before = balances_to_strings (pend_buy_before p),
             fin_buy_after = balances_to_strings (pend_buy_after p),
             fin_analytics_swap = pend_analytics_swap p\<rparr>\<rparr>)"

text \<open>The part after all checks: debit, credit, commit the pools, remember the pending swap. \<open>quote\<close> is
  already credited down to the signed minimum.\<close>

definition settle_order ::
  "('sg, 'pk) env \<Rightarrow> ('sg, 'pk, processing) order \<Rightarrow> swap_quote \<Rightarrow> u64 \<Rightarrow> u64 \<Rightarrow> ('sg, 'pk) engine
     \<Rightarrow> (error + (('sg, 'pk, processed) order \<times> proposed_swap) option) \<times> ('sg, 'pk) engine" where
  "settle_order v ord quote sell_balance buy_balance s =
     (let d = order_details ord; user = order_user_id ord; sell = asset_in d; buy = asset_out d
      in case (map_of (pool_states s) sell, map_of (pool_states s) buy) of
           (Some sell_pool, Some buy_pool) \<Rightarrow>
             (let executed = sat_to (credited_amount_out quote);
                  new_sell = sell_balance - amount_in d;
                  new_buy = sat_add buy_balance executed;
                  s1 = s\<lparr>user_balances := (user_balances s)((user, sell) \<mapsto> new_sell, (user, buy) \<mapsto> new_buy),
                         pool_states := update_pool buy (\<lambda>p. update_balances p (new_quote_pool_balances quote))
                           (update_pool sell (\<lambda>p. update_balances p (new_base_pool_balances quote)) (pool_states s))\<rparr>;
                  s2 = emit (OutUser user sell new_sell) (emit (OutUser user buy new_buy) s1);
                  done_ord = processing_processed (env_now v) \<lparr>result_amount_out = executed\<rparr> ord
              in case analytics_swap v s2 (order_id done_ord) user d quote executed of
                   Inl e \<Rightarrow> (Inl e, s2)
                 | Inr an \<Rightarrow>
                     let pend = \<lparr>pend_user_id = user, pend_sell_faucet = sell, pend_buy_faucet = buy,
                           pend_amount_in = amount_in d, pend_amount_out = executed,
                           pend_sell_before = balances sell_pool, pend_sell_after = new_base_pool_balances quote,
                           pend_buy_before = balances buy_pool, pend_buy_after = new_quote_pool_balances quote,
                           pend_analytics_swap = an\<rparr>
                     in (Inr (Some (done_ord, proposed_of s2 (order_id done_ord) pend quote)),
                         s2\<lparr>pending_swaps := AList.update (order_id done_ord) pend (pending_swaps s2)\<rparr>))
         | _ \<Rightarrow> (Inl (Panic UnwrapFailed), s))"

definition process_order ::
  "('sg, 'pk) env \<Rightarrow> ('sg, 'pk, processing) order \<Rightarrow> ('sg, 'pk) engine
     \<Rightarrow> (error + (('sg, 'pk, processed) order \<times> proposed_swap) option) \<times> ('sg, 'pk) engine" where
  "process_order v ord s =
     (let d = order_details ord; user = order_user_id ord; sell = asset_in d; buy = asset_out d
      in if max_admitted_age_ms (env_max_age v) < sat_sub (env_now_ms v) (admitted_at_ms ord)
         then fail_order v ord StaleQueue s
         else if is_expired_at (expires_at (order_intent ord)) (env_now_s v) then fail_order v ord Expired s
         else if sell = buy \<or> sell \<notin> set (asset_ids s) \<or> buy \<notin> set (asset_ids s)
         then fail_order v ord ExecutionError s
         else
           case quote_swap v s sell buy (amount_in d) of
             Inl e \<Rightarrow> if is_panic e then (Inl e, s) else fail_order v ord ExecutionError s
           | Inr quote0 \<Rightarrow>
               if sat_to (amount_out quote0) < min_amount_out d then fail_order v ord MinOutNotMet s
               else
                 let quote = credit_to quote0 (ucast (min_amount_out d))
                 in case balance_of v user sell s of
                      (Inl e, s1) \<Rightarrow> if is_panic e then (Inl e, s1) else fail_order v ord ExecutionError s1
                    | (Inr sell_balance, s1) \<Rightarrow>
                        if sell_balance < amount_in d then fail_order v ord InsufficientBalance s1
                        else
                          (case balance_of v user buy s1 of
                             (Inl e, s2) \<Rightarrow> if is_panic e then (Inl e, s2) else fail_order v ord ExecutionError s2
                           | (Inr buy_balance, s2) \<Rightarrow> settle_order v ord quote sell_balance buy_balance s2))"

fun process_each ::
  "('sg, 'pk) env \<Rightarrow> ('sg, 'pk, processing) order list \<Rightarrow> ('sg, 'pk) engine
     \<Rightarrow> (error + (('sg, 'pk, processed) order \<times> proposed_swap) list) \<times> ('sg, 'pk) engine" where
  "process_each v [] s = (Inr [], s)"
| "process_each v (ord # ords) s =
     st_then (process_order v ord) (\<lambda>r.
     st_then (process_each v ords) (\<lambda>rest s. (Inr (case r of None \<Rightarrow> rest | Some x \<Rightarrow> x # rest), s))) s"

fun publish_all ::
  "('sg, 'pk) env \<Rightarrow> ('sg, 'pk) order_update list \<Rightarrow> ('sg, 'pk) engine \<Rightarrow> (error + unit) \<times> ('sg, 'pk) engine" where
  "publish_all v [] s = (Inr (), s)"
| "publish_all v (u # us) s = st_then (publish_order_update v u) (\<lambda>_. publish_all v us) s"

definition process_orders ::
  "('sg, 'pk) env \<Rightarrow> ('sg, 'pk, created) order list \<Rightarrow> ('sg, 'pk) engine \<Rightarrow> (error + unit) \<times> ('sg, 'pk) engine" where
  "process_orders v batch =
     (let ords = map (start_processing (env_now v)) batch
      in st_then (publish_all v (map UStartedProcessing ords)) (\<lambda>_.
         st_then (process_each v ords) (\<lambda>results.
         st_then (\<lambda>s. on_exec (create_execution_batch (rt_codec (env_runtime v)) (worker_id s) (env_batch_id v)
                     (map fst results) (map snd results) (env_now_ms v)) s) (\<lambda>batch_id.
         st_then (publish_all v (map (\<lambda>(ord, _). UProcessed ord) results)) (\<lambda>_ s.
           (Inr (), (if batch_id = None then s else emit (OutBatch (map fst results)) s)\<lparr>engine_busy := False\<rparr>))))))"


section \<open>Outcomes of swaps\<close>

definition revert_pool :: "account_id \<Rightarrow> pool_balances \<Rightarrow> pool_balances \<Rightarrow> (account_id \<times> pool_state) list \<Rightarrow> (account_id \<times> pool_state) list" where
  "revert_pool faucet before after = update_pool faucet (\<lambda>p. update_balances p (revert_balances (balances p) before after))"

definition rollback_pending_swap :: "pending_swap \<Rightarrow> ('sg, 'pk) engine \<Rightarrow> ('sg, 'pk) engine" where
  "rollback_pending_swap p s =
     (let sell_key = (pend_user_id p, pend_sell_faucet p); buy_key = (pend_user_id p, pend_buy_faucet p);
          pools = revert_pool (pend_buy_faucet p) (pend_buy_before p) (pend_buy_after p)
                    (revert_pool (pend_sell_faucet p) (pend_sell_before p) (pend_sell_after p) (pool_states s));
          bals = (case user_balances s sell_key of None \<Rightarrow> user_balances s
                  | Some b \<Rightarrow> (user_balances s)(sell_key \<mapsto> sat_add b (pend_amount_in p)));
          bals' = (case bals buy_key of None \<Rightarrow> bals | Some b \<Rightarrow> bals(buy_key \<mapsto> sat_sub b (pend_amount_out p)))
      in s\<lparr>pool_states := pools, user_balances := bals'\<rparr>)"

definition restore_pending_swap :: "swap_finalization \<Rightarrow> pending_swap" where
  "restore_pending_swap f =
     \<lparr>pend_user_id = fin_user_id f, pend_sell_faucet = fin_sell_faucet f, pend_buy_faucet = fin_buy_faucet f,
      pend_amount_in = fin_amount_in f, pend_amount_out = fin_amount_out f,
      pend_sell_before = balances_from_strings (fin_sell_before f), pend_sell_after = balances_from_strings (fin_sell_after f),
      pend_buy_before = balances_from_strings (fin_buy_before f), pend_buy_after = balances_from_strings (fin_buy_after f),
      pend_analytics_swap = fin_analytics_swap f\<rparr>"

definition apply_pending_swap :: "pending_swap \<Rightarrow> ('sg, 'pk) engine \<Rightarrow> ('sg, 'pk) engine" where
  "apply_pending_swap p s =
     s\<lparr>pool_states := revert_pool (pend_buy_faucet p) (pend_buy_after p) (pend_buy_before p)
         (revert_pool (pend_sell_faucet p) (pend_sell_after p) (pend_sell_before p) (pool_states s))\<rparr>"

definition to_i128_max :: "nat \<Rightarrow> int" where
  "to_i128_max n = (if n < 2 ^ 127 then int n else 2 ^ 127 - 1)"

fun pool_snapshots_of ::
  "('sg, 'pk) env \<Rightarrow> ('sg, 'pk) engine \<Rightarrow> (account_id \<times> pool_state) list \<Rightarrow> pool_snapshot_input list result" where
  "pool_snapshots_of v s [] = Inr []"
| "pool_snapshots_of v s ((f, p) # ps) =
     and_then (oracle_value_u256 (reserve (balances p)) (price_of s f) (asset_decimals (metadata p))) (\<lambda>nav.
     and_then (oracle_value_u256 (total_liabilities (balances p)) (price_of s f) (asset_decimals (metadata p))) (\<lambda>liabilities.
     and_then (pool_snapshots_of v s ps) (\<lambda>rest.
       Inr (\<lparr>psi_pool_id = f, psi_asset_id = f, psi_quote_asset = ''oracle_usd'',
             psi_nav_quote = sat_sub nav liabilities, psi_tvl_quote = nav,
             psi_inventory_quantity = to_i128_max (unat (reserve (balances p))),
             psi_inventory_cost_quote = to_i128_max (unat liabilities),
             psi_inventory_value_quote = to_i128_max (unat nav), psi_event_time = env_now_ms v\<rparr> # rest))))"

definition persist_final_pool_states_if_ready ::
  "('sg, 'pk) env \<Rightarrow> ('sg, 'pk) engine \<Rightarrow> (error + unit) \<times> ('sg, 'pk) engine" where
  "persist_final_pool_states_if_ready v s =
     (if \<not> execution_finished s \<or> pending_swaps s \<noteq> [] then (Inr (), s)
      else
        let s1 = s\<lparr>en_store := snd (save_pool_states (pool_states s) (env_now_ms v) (en_store s))\<rparr>
        in case pool_snapshots_of v s1 (pool_states s1) of
             Inl e \<Rightarrow> (Inl e, s1)
           | Inr snaps \<Rightarrow> (Inr (), s1\<lparr>outputs := outputs s1 @ map RecPoolSnapshot snaps\<rparr>))"

section \<open>Liquidity\<close>

text \<open>The binary search for the shares a withdrawal burns.\<close>

function search_shares :: "pool_state \<Rightarrow> u64 \<Rightarrow> u64 \<Rightarrow> u64 \<Rightarrow> u64 result" where
  "search_shares pool amount low high =
     (if low < high
      then
        let middle = low + (high - low) div 2
        in and_then (get_withdraw_asset_amount_out pool (ucast middle)) (\<lambda>(payout, _, _).
             if ucast amount \<le> payout then search_shares pool amount low middle
             else search_shares pool amount (middle + 1) high)
      else Inr low)"
  by auto

lemma middle_bounds:
  fixes low high :: u64
  assumes "low < high"
  shows "low \<le> low + (high - low) div 2" "low + (high - low) div 2 < high"
proof -
  have d: "unat ((high - low) div 2) = (unat high - unat low) div 2"
    using assms by (simp add: unat_div unat_sub word_less_nat_alt word_le_nat_alt)
  have l: "unat low < unat high" "unat high < 2 ^ 64"
    using assms unat_less_exp [of high] by (simp_all add: word_less_nat_alt)
  then have "unat (low + (high - low) div 2) = unat low + (unat high - unat low) div 2"
    by (subst unat_add_no_overflow) (simp_all add: d)
  with l show "low \<le> low + (high - low) div 2" "low + (high - low) div 2 < high"
    by (simp_all add: word_le_nat_alt word_less_nat_alt)
qed

termination search_shares
proof (relation "measure (\<lambda>(_, _, low, high). unat high - unat low)")
  fix pool :: pool_state and amount low high middle :: u64
  assume "low < high" "middle = low + (high - low) div 2"
  then show "((pool, amount, low, middle), pool, amount, low, high) \<in> measure (\<lambda>(_, _, low, high). unat high - unat low)"
    using middle_bounds [of low high] by (simp add: word_le_nat_alt word_less_nat_alt)
  have "unat (middle + 1) = unat middle + 1" if "middle < high"
    using that unat_less_exp [of high] unat_add_no_overflow [of middle 1] by (simp add: word_less_nat_alt)
  then show "((pool, amount, middle + 1, high), pool, amount, low, high) \<in> measure (\<lambda>(_, _, low, high). unat high - unat low)"
    using middle_bounds [of low high] \<open>low < high\<close> \<open>middle = _\<close> by (simp add: word_le_nat_alt word_less_nat_alt)
qed simp

declare search_shares.simps [simp del]

definition shares_for_withdrawal :: "pool_state \<Rightarrow> u64 \<Rightarrow> u64 \<Rightarrow> u64 result" where
  "shares_for_withdrawal pool amount owned =
     (if owned = 0 then Inl (Anyhow ''LP owns no shares'')
      else
        and_then (search_shares pool amount 1 owned) (\<lambda>low.
        and_then (get_withdraw_asset_amount_out pool (ucast low)) (\<lambda>(payout, _, _).
          if payout < ucast amount then Inl (Anyhow ''confirmed withdrawal exceeds the LP position value'')
          else Inr low)))"

text \<open>What an event does to pool and ledger, before anything is stored: the shares, and the pool and
  ledger after it.\<close>

definition lp_effect ::
  "lp_chain_event \<Rightarrow> pool_state \<Rightarrow> lp_ledger \<Rightarrow> (u64 \<times> pool_state \<times> lp_ledger) result" where
  "lp_effect ev pool ledger =
     (case lce_kind ev of
        LpDeposit \<Rightarrow>
          and_then (get_deposit_lp_amount_out pool (ucast (lce_asset_amount ev))) (\<lambda>(minted, supply, bal).
            let n = sat_to minted
            in Inr (n, update_state pool bal supply, mint ledger (lce_faucet_id ev) (lce_lp_id ev) n))
      | LpWithdraw \<Rightarrow>
          let owned = shares_of ledger (lce_faucet_id ev) (lce_lp_id ev)
          in and_then (case lce_shares_hint ev of
                 None \<Rightarrow> shares_for_withdrawal pool (lce_asset_amount ev) owned
               | Some h \<Rightarrow> if 0 < h \<and> h \<le> owned then Inr h
                           else shares_for_withdrawal pool (lce_asset_amount ev) owned) (\<lambda>n.
             and_then (get_withdraw_asset_amount_out pool (ucast n)) (\<lambda>(payout, supply, bal).
               if sat_to payout < lce_asset_amount ev
               then Inl (Anyhow ''LP shares value is below confirmed withdrawal'')
               else and_then (burn ledger (lce_faucet_id ev) (lce_lp_id ev) n) (\<lambda>ledger'.
                    Inr (n, update_state pool bal supply, ledger')))))"

definition record_lp_analytics :: "('sg, 'pk) env \<Rightarrow> lp_chain_event \<Rightarrow> u64 \<Rightarrow> ('sg, 'pk) engine \<Rightarrow> ('sg, 'pk) engine" where
  "record_lp_analytics v ev n = emit (RecLpCashFlow
     \<lparr>lcf_note_id = lce_note_id ev,
      lcf_kind = (case lce_kind ev of LpDeposit \<Rightarrow> CashDeposit | LpWithdraw \<Rightarrow> CashWithdrawal),
      lcf_lp_id = lce_lp_id ev, lcf_pool_id = lce_faucet_id ev, lcf_asset_id = lce_faucet_id ev,
      lcf_amount = lce_asset_amount ev, lcf_shares = n, lcf_event_time = env_now_ms v\<rparr>)"

definition apply_lp_chain_event ::
  "('sg, 'pk) env \<Rightarrow> lp_chain_event \<Rightarrow> ('sg, 'pk) engine \<Rightarrow> (error + unit) \<times> ('sg, 'pk) engine" where
  "apply_lp_chain_event v ev s =
     (case applied_lp_shares (lce_note_id ev) (en_store s) of
        Inl e \<Rightarrow> (Inl e, s)
      | Inr (Some n) \<Rightarrow>
          st_then (on_lp (apply_operation (lce_note_id ev) n (env_now_ms v)))
            (\<lambda>_ s. (Inr (), record_lp_analytics v ev n s)) s
      | Inr None \<Rightarrow>
          (case and_then (ok_or (map_of (pool_states s) (lce_faucet_id ev)) (Anyhow ''no pool for LP asset'')) (\<lambda>pool.
                lp_effect ev pool (en_ledger s)) of
             Inl e \<Rightarrow> (Inl e, s)
           | Inr (n, pool', ledger') \<Rightarrow>
               let pools' = update_pool (lce_faucet_id ev) (\<lambda>_. pool') (pool_states s)
               in st_then (on_exec (save_lp_application (lce_note_id ev) (lce_faucet_id ev) n pools' (env_now_ms v)))
                    (\<lambda>inserted s.
                       let s1 = (if inserted then s\<lparr>pool_states := pools', en_ledger := ledger'\<rparr> else s);
                           s2 = emit (OutPools (pool_states s1) (env_now_ms v)) s1
                       in st_then (on_lp (apply_operation (lce_note_id ev) n (env_now_ms v)))
                            (\<lambda>_ s. (Inr (), record_lp_analytics v ev n s)) s2) s))"

text \<open>An operation read back from the journal; its conversions were checked by the listing.\<close>

definition lp_event_from_operation :: "lp_db \<Rightarrow> lp_operation \<Rightarrow> lp_chain_event result" where
  "lp_event_from_operation db op =
     (let amount = word_of_int (lo_asset_amount op)
      in and_then (if lo_kind op = LpWithdraw
                   then withdrawal_shares_hint (lo_lp_id op) (lo_faucet_id op) amount db
                   else Inr None) (\<lambda>hint.
           Inr \<lparr>lce_note_id = lo_note_id op, lce_kind = lo_kind op, lce_lp_id = lo_lp_id op,
                lce_faucet_id = lo_faucet_id op, lce_asset_amount = amount, lce_shares_hint = hint\<rparr>))"

fun recover_operations ::
  "('sg, 'pk) env \<Rightarrow> lp_operation list \<Rightarrow> ('sg, 'pk) engine \<Rightarrow> (error + unit) \<times> ('sg, 'pk) engine" where
  "recover_operations v [] s = (Inr (), s)"
| "recover_operations v (op # ops) s =
     (case applied_lp_shares (lo_note_id op) (en_store s) of
        Inl e \<Rightarrow> (Inl e, s)
      | Inr (Some n) \<Rightarrow>
          st_then (on_lp (apply_operation (lo_note_id op) n (env_now_ms v))) (\<lambda>_. recover_operations v ops) s
      | Inr None \<Rightarrow>
          (case lp_event_from_operation (en_lp_store s) op of
             Inl e \<Rightarrow> (Inl e, s)
           | Inr ev \<Rightarrow> st_then (apply_lp_chain_event v ev) (\<lambda>_. recover_operations v ops) s))"

definition recover_unapplied_lp_operations ::
  "('sg, 'pk) env \<Rightarrow> ('sg, 'pk) engine \<Rightarrow> (error + unit) \<times> ('sg, 'pk) engine" where
  "recover_unapplied_lp_operations v s =
     (case confirmed_operations (en_lp_store s) of
        Inl e \<Rightarrow> (Inl e, s)
      | Inr ops \<Rightarrow> recover_operations v ops s)"

definition set_recovery_pending :: "error \<Rightarrow> ('sg, 'pk) engine \<Rightarrow> (error + unit) \<times> ('sg, 'pk) engine" where
  "set_recovery_pending e s = (Inr (), s\<lparr>lp_recovery_pending := True\<rparr>)"

definition retry_pending_lp_recovery ::
  "('sg, 'pk) env \<Rightarrow> ('sg, 'pk) engine \<Rightarrow> (error + unit) \<times> ('sg, 'pk) engine" where
  "retry_pending_lp_recovery v s =
     (if pending_swaps s \<noteq> [] \<or> \<not> lp_recovery_pending s then (Inr (), s)
      else catch_error (recover_unapplied_lp_operations v) set_recovery_pending (s\<lparr>lp_recovery_pending := False\<rparr>))"

section \<open>Events\<close>

definition reload_pool_states_from_store :: "('sg, 'pk) env \<Rightarrow> ('sg, 'pk) engine \<Rightarrow> ('sg, 'pk) engine" where
  "reload_pool_states_from_store v s =
     (case latest_pool_states (en_store s) of
        Inl e \<Rightarrow> s
      | Inr saved \<Rightarrow>
          let pools = map (\<lambda>(f, p). (f, or_default (saved f) p)) (pool_states s)
          in emit (OutPools pools (env_now_ms v)) (s\<lparr>pool_states := pools\<rparr>))"

definition max_orders_per_shard_tx :: "nat option \<Rightarrow> nat" where
  "max_orders_per_shard_tx env = max 1 (min 48 (or_default env 16))"

definition try_start_batch :: "('sg, 'pk) env \<Rightarrow> ('sg, 'pk) engine \<Rightarrow> (error + unit) \<times> ('sg, 'pk) engine" where
  "try_start_batch v s =
     (if engine_busy s then (Inr (), s)
      else
        let s1 = (if pool_resync_required s then (reload_pool_states_from_store v s)\<lparr>pool_resync_required := False\<rparr> else s)
        in case on_exec (claim_admitted_orders (env_runtime v) (worker_id s1) (env_now_ms v) 600000
                     (2 * max_orders_per_shard_tx (env_max_orders v))) s1 of
             (Inl e, s2) \<Rightarrow> if is_panic e then (Inl e, s2) else (Inr (), s2)
           | (Inr [], s2) \<Rightarrow> (Inr (), s2)
           | (Inr batch, s2) \<Rightarrow>
               catch_error (process_orders v batch) (\<lambda>e s. (Inr (), s\<lparr>engine_busy := False\<rparr>))
                 (s2\<lparr>engine_busy := True, execution_finished := False\<rparr>))"

datatype amm_event = StartProcessing | OrdersProcessed | BatchSubmitted | BatchFailed | OrdersExecuted | OrdersSettled

datatype ('sg, 'pk) engine_event =
    EvOrder "('sg, 'pk) order_update"
  | EvPoolState "(account_id \<times> pool_state) list"
  | EvOraclePrice oracle_price_event
  | EvAmm amm_event
  | EvLpChain lp_chain_event
  | EvVaultCashFlow vault_cash_flow_event
  | EvFeeState "account_id \<rightharpoonup> asset_fee_state" u64
  | EvOther

text \<open>The pending swap a confirmation concludes: the one in memory or, after a restart, the stored one,
  which is then applied to the pools.\<close>

definition take_pending :: "uuid \<Rightarrow> ('sg, 'pk) engine \<Rightarrow> pending_swap option \<times> ('sg, 'pk) engine" where
  "take_pending oid s =
     (case map_of (pending_swaps s) oid of
        Some p \<Rightarrow> (Some p, s\<lparr>pending_swaps := AList.delete oid (pending_swaps s)\<rparr>)
      | None \<Rightarrow>
          (case get_swap_finalization oid (en_store s) of
             Inr (Some f) \<Rightarrow> let p = restore_pending_swap f in (Some p, apply_pending_swap p s)
           | _ \<Rightarrow> (None, s)))"

definition handle_confirmed :: "('sg, 'pk) env \<Rightarrow> uuid \<Rightarrow> ('sg, 'pk) engine \<Rightarrow> ('sg, 'pk) engine" where
  "handle_confirmed v oid s =
     (case take_pending oid s of
        (None, s1) \<Rightarrow> s1
      | (Some p, s1) \<Rightarrow>
          emit (OutPools (pool_states s1) (env_now_ms v))
            (emit (OutAnalytics (pend_user_id p) (env_now_ms v))
              (emit (RecSwap (pend_analytics_swap p)) s1)))"

definition handle_failed :: "('sg, 'pk) env \<Rightarrow> uuid \<Rightarrow> ('sg, 'pk) engine \<Rightarrow> ('sg, 'pk) engine" where
  "handle_failed v oid s =
     (case map_of (pending_swaps s) oid of
        None \<Rightarrow> s
      | Some p \<Rightarrow>
          let s1 = rollback_pending_swap p (s\<lparr>pending_swaps := AList.delete oid (pending_swaps s)\<rparr>);
              s2 = emit (OutPools (pool_states s1) (env_now_ms v)) s1
          in s2\<lparr>en_store := snd (fail_swap oid (env_now_ms v) (en_store s2))\<rparr>)"

definition handle_order :: "('sg, 'pk) env \<Rightarrow> ('sg, 'pk) order_update \<Rightarrow> ('sg, 'pk) engine \<Rightarrow> (error + unit) \<times> ('sg, 'pk) engine" where
  "handle_order v upd s =
     (let s1 = (case upd of
                  UConfirmed ord \<Rightarrow> handle_confirmed v (order_id ord) s
                | UFailed ord \<Rightarrow> handle_failed v (order_id ord) s
                | _ \<Rightarrow> s);
          s2 = s1\<lparr>en_orders := apply_order_update (en_orders s1) upd\<rparr>
      in st_then (persist_final_pool_states_if_ready v) (\<lambda>_ s.
           case upd of UNew _ \<Rightarrow> try_start_batch v s | _ \<Rightarrow> (Inr (), s)) s2)"

definition handle_oracle_price :: "('sg, 'pk) env \<Rightarrow> oracle_price_event \<Rightarrow> ('sg, 'pk) engine \<Rightarrow> ('sg, 'pk) engine" where
  "handle_oracle_price v ev s =
     (let s1 = s\<lparr>oracle_pricing := update_from_price_event ev (oracle_pricing s)\<rparr>
      in case find (\<lambda>(f, _). env_to_hex v f = ope_faucet_id ev) (pool_states s1) of
           None \<Rightarrow> s1
         | Some (_, p) \<Rightarrow>
             emit (RecMark \<lparr>om_event = ev, om_quote_asset = ''oracle_usd'', om_price_numerator = ucast (ope_price ev),
                            om_price_scale = pow10_u128 (asset_decimals (metadata p))\<rparr>) s1)"

fun handle_amm :: "('sg, 'pk) env \<Rightarrow> amm_event \<Rightarrow> ('sg, 'pk) engine \<Rightarrow> (error + unit) \<times> ('sg, 'pk) engine" where
  "handle_amm v BatchSubmitted s = try_start_batch v (s\<lparr>engine_busy := False\<rparr>)"
| "handle_amm v BatchFailed s =
     (let s1 = reload_pool_states_from_store v (s\<lparr>pool_resync_required := True, engine_busy := True\<rparr>)
      in try_start_batch v (s1\<lparr>pool_resync_required := False, engine_busy := False\<rparr>))"
| "handle_amm v OrdersExecuted s =
     st_then (persist_final_pool_states_if_ready v) (\<lambda>_ s.
       if engine_busy s then try_start_batch v (s\<lparr>engine_busy := False\<rparr>) else (Inr (), s))
       (s\<lparr>execution_finished := True\<rparr>)"
| "handle_amm v _ s = (Inr (), s)"

text \<open>An event for liquidity returns before the retry when swaps are pending.\<close>

definition handle_event ::
  "('sg, 'pk) env \<Rightarrow> ('sg, 'pk) engine_event \<Rightarrow> ('sg, 'pk) engine \<Rightarrow> (error + unit) \<times> ('sg, 'pk) engine" where
  "handle_event v ev s =
     (case ev of
        EvLpChain e \<Rightarrow>
          if pending_swaps s \<noteq> [] then (Inr (), s\<lparr>lp_recovery_pending := True\<rparr>)
          else st_then (catch_error (recover_unapplied_lp_operations v) set_recovery_pending)
                 (\<lambda>_. retry_pending_lp_recovery v) s
      | _ \<Rightarrow>
          st_then (case ev of
              EvOrder upd \<Rightarrow> handle_order v upd
            | EvPoolState ps \<Rightarrow> (\<lambda>s. (Inr (), s\<lparr>pool_states := fold (\<lambda>(f, p). AList.update f p) ps (pool_states s)\<rparr>))
            | EvOraclePrice e \<Rightarrow> (\<lambda>s. (Inr (), handle_oracle_price v e s))
            | EvAmm a \<Rightarrow> handle_amm v a
            | EvVaultCashFlow e \<Rightarrow> (\<lambda>s. (Inr (), s\<lparr>user_balances := apply_vault_cashflow_to_balances (user_balances s) e\<rparr>))
            | EvFeeState states t \<Rightarrow> (\<lambda>s.
                let pools = apply_fee_states (pool_states s) states
                in (Inr (), emit (OutPools pools t) (s\<lparr>pool_states := pools\<rparr>)))
            | _ \<Rightarrow> (\<lambda>s. (Inr (), s)))
          (\<lambda>_. retry_pending_lp_recovery v) s)"

section \<open>The loop\<close>

text \<open>What one round of the loop's \<open>select!\<close> sees: the poll timer, a message, a receiver that lagged behind,
  or a closed channel, which ends the loop. A lagged liquidity receiver reads the journal instead, a
  lagged fee receiver reads the fee store; the other receivers only count what they lost.\<close>

datatype ('sg, 'pk) engine_input =
    PollTick
  | Received "('sg, 'pk) engine_event"
  | LaggedLp
  | LaggedFees
  | LaggedOther
  | ChannelClosed

definition engine_step ::
  "('sg, 'pk) env \<Rightarrow> ('sg, 'pk) engine_input \<Rightarrow> ('sg, 'pk) engine \<Rightarrow> (error + bool) \<times> ('sg, 'pk) engine" where
  "engine_step v inp =
     (case inp of
        PollTick \<Rightarrow> st_then (try_start_batch v) (\<lambda>_ s. (Inr True, s))
      | Received ev \<Rightarrow> st_then (handle_event v ev) (\<lambda>_ s. (Inr True, s))
      | LaggedLp \<Rightarrow> (\<lambda>s.
          if pending_swaps s \<noteq> [] then (Inr True, s\<lparr>lp_recovery_pending := True\<rparr>)
          else st_then (catch_error (recover_unapplied_lp_operations v) (\<lambda>_ s. (Inr (), s))) (\<lambda>_ s. (Inr True, s)) s)
      | LaggedFees \<Rightarrow> (\<lambda>s.
          case active_states (env_now_s v) (en_fee_store s) of
            Inl e \<Rightarrow> (if is_panic e then Inl e else Inr True, s)
          | Inr states \<Rightarrow> (Inr True, s\<lparr>pool_states := apply_fee_states (pool_states s) states\<rparr>))
      | LaggedOther \<Rightarrow> Pair (Inr True)
      | ChannelClosed \<Rightarrow> Pair (Inr False))"

fun start_engine ::
  "(('sg, 'pk) env \<times> ('sg, 'pk) engine_input) list \<Rightarrow> ('sg, 'pk) engine \<Rightarrow> (error + bool) \<times> ('sg, 'pk) engine" where
  "start_engine [] s = (Inr True, s)"
| "start_engine ((v, inp) # rest) s =
     st_then (engine_step v inp) (\<lambda>continue s. if continue then start_engine rest s else (Inr False, s)) s"

section \<open>Start\<close>

fun reconcile_markers ::
  "lp_operation list \<Rightarrow> u64 \<Rightarrow> execution_db \<Rightarrow> lp_db \<Rightarrow> (error + unit) \<times> lp_db" where
  "reconcile_markers [] now ex db = (Inr (), db)"
| "reconcile_markers (op # ops) now ex db =
     (case applied_lp_shares (lo_note_id op) ex of
        Inl e \<Rightarrow> (Inl e, db)
      | Inr None \<Rightarrow> reconcile_markers ops now ex db
      | Inr (Some n) \<Rightarrow>
          (case apply_operation (lo_note_id op) n now db of
             (Inl e, db1) \<Rightarrow> (Inl e, db1)
           | (Inr _, db1) \<Rightarrow> reconcile_markers ops now ex db1))"

definition ledger_of :: "lp_position list \<Rightarrow> lp_ledger" where
  "ledger_of ps = fold (\<lambda>p l. mint l (lpos_faucet_id p) (lpos_lp_id p) (word_of_int (lpos_shares p))) ps default_ledger"

text \<open>\<open>s\<close> holds what the engine is given: the stores, the pools, the assets, the registry, an oracle map
  without prices and a fresh worker id.\<close>

definition new_engine :: "('sg, 'pk) env \<Rightarrow> ('sg, 'pk) engine \<Rightarrow> (error + unit) \<times> ('sg, 'pk) engine" where
  "new_engine v s =
     (case confirmed_operations (en_lp_store s) of
        Inl e \<Rightarrow> (Inl e, s)
      | Inr ops \<Rightarrow>
          st_then (on_lp (reconcile_markers ops (env_now_ms v) (en_store s))) (\<lambda>_ s.
            case list_positions (en_lp_store s) of
              Inl e \<Rightarrow> (Inl e, s)
            | Inr ps \<Rightarrow>
                recover_unapplied_lp_operations v
                  (s\<lparr>en_orders := empty_book, engine_busy := False, user_pools := Map.empty, user_balances := Map.empty,
                     en_ledger := ledger_of ps, lp_recovery_pending := False, pending_swaps := [],
                     execution_finished := False, pool_resync_required := False\<rparr>)) s)"

end
