(* ===== verification/Processing_Properties.thy ===== *)
theory Processing_Properties
  imports Processing
begin

text \<open>
  Properties of the processing engine: the search for the shares of a withdrawal, what processing an
  order does to balances and pools and what rolling it back undoes, and that a liquidity event reaches
  pool and ledger once.
\<close>

section \<open>Withdrawals\<close>

lemma search_shares_found:
  assumes "search_shares pool a low high = Inr n" "low \<le> high" "0 < low"
  shows "low \<le> n \<and> n \<le> high
    \<and> (n = low \<or> (\<exists>x. get_withdraw_asset_amount_out pool (ucast (n - 1)) = Inr x \<and> fst x < ucast a))
    \<and> (n = high \<or> (\<exists>x. get_withdraw_asset_amount_out pool (ucast n) = Inr x \<and> ucast a \<le> fst x))"
  using assms
proof (induction pool a low high rule: search_shares.induct)
  case (1 pool a low high)
  show ?case
  proof (cases "low < high")
    case True
    define middle where "middle = low + (high - low) div 2"
    have m: "low \<le> middle" "middle < high" using middle_bounds [OF True] by (simp_all add: middle_def)
    then have succ: "low \<le> middle + 1" "middle + 1 \<le> high" "0 < middle + 1" "low < middle + 1"
      using unat_less_exp [of high] unat_add_no_overflow [of middle 1]
      by (simp_all add: word_le_nat_alt word_less_nat_alt)
    obtain payout y z where w: "get_withdraw_asset_amount_out pool (ucast middle) = Inr (payout, y, z)"
      using "1.prems"(1) True by (subst (asm) search_shares.simps) (auto simp: middle_def Let_def res_simps)
    note step = "1.prems"(1) [unfolded search_shares.simps [of pool a low high]]
    show ?thesis
    proof (cases "ucast a \<le> payout")
      case enough: True
      then have "search_shares pool a low middle = Inr n" using step True w by (simp add: middle_def)
      with "1.IH"(1) [OF True middle_def] w enough m "1.prems"(3) show ?thesis by fastforce
    next
      case False
      then have "search_shares pool a (middle + 1) high = Inr n" using step True w by (simp add: middle_def)
      with "1.IH"(2) [OF True middle_def] w False succ m show ?thesis by fastforce
    qed
  next
    case False
    then show ?thesis using "1.prems" by (subst (asm) search_shares.simps) auto
  qed
qed

lemma search_shares_total:
  assumes "\<And>m. low \<le> m \<Longrightarrow> m \<le> high \<Longrightarrow> \<exists>x. get_withdraw_asset_amount_out pool (ucast m) = Inr x"
  shows "\<exists>n. search_shares pool a low high = Inr n"
  using assms
proof (induction pool a low high rule: search_shares.induct)
  case (1 pool a low high)
  show ?case
  proof (cases "low < high")
    case True
    define middle where "middle = low + (high - low) div 2"
    have m: "low \<le> middle" "middle < high" using middle_bounds [OF True] by (simp_all add: middle_def)
    then have succ: "low \<le> middle + 1" "middle + 1 \<le> high"
      using unat_less_exp [of high] unat_add_no_overflow [of middle 1]
      by (simp_all add: word_le_nat_alt word_less_nat_alt)
    obtain payout y z where w: "get_withdraw_asset_amount_out pool (ucast middle) = Inr (payout, y, z)"
      using "1.prems" [OF m(1) less_imp_le [OF m(2)]] by (metis prod_cases3)
    have "\<exists>n. search_shares pool a low middle = Inr n" if "ucast a \<le> payout"
      using that by (intro "1.IH"(1) [OF True middle_def]) (use "1.prems" m in auto)
    moreover have "\<exists>n. search_shares pool a (middle + 1) high = Inr n" if "\<not> ucast a \<le> payout"
      using that by (intro "1.IH"(2) [OF True middle_def]) (use "1.prems" succ in auto)
    ultimately show ?thesis using True w by (subst search_shares.simps) (auto simp: middle_def Let_def)
  qed (subst search_shares.simps, simp)
qed

definition withdraw_payout :: "pool_state \<Rightarrow> u64 \<Rightarrow> u256" where
  "withdraw_payout pool n = (case get_withdraw_asset_amount_out pool (ucast n) of Inl _ \<Rightarrow> 0 | Inr (payout, _, _) \<Rightarrow> payout)"

text \<open>
  A withdrawal burns just enough shares. When every number of shares up to the owned ones has a
  payout, the binary search ends with an answer: either a positive number of owned shares that pays
  the amount while one share fewer would not, or a refusal, and then nothing is owned or all the
  shares together pay too little.
\<close>

theorem withdrawal_burns_just_enough:
  assumes "\<And>m. 0 < m \<Longrightarrow> m \<le> owned \<Longrightarrow> \<exists>x. get_withdraw_asset_amount_out pool (ucast m) = Inr x"
  shows "case shares_for_withdrawal pool amount owned of
      Inr n \<Rightarrow> 0 < n \<and> n \<le> owned \<and> ucast amount \<le> withdraw_payout pool n
        \<and> (n = 1 \<or> withdraw_payout pool (n - 1) < ucast amount)
    | Inl e \<Rightarrow> owned = 0 \<or> withdraw_payout pool owned < ucast amount"
proof (cases "owned = 0")
  case False
  then have pos: "1 \<le> owned" by (simp add: word_le_nat_alt unat_gt_0 Suc_le_eq)
  have nz: "0 < m" if "1 \<le> m" for m :: u64 using that by (simp add: word_le_nat_alt word_less_nat_alt)
  obtain n where n: "search_shares pool amount 1 owned = Inr n"
    using search_shares_total [of 1 owned pool amount] assms nz by blast
  note f = search_shares_found [OF n pos]
  have le: "0 < n" "n \<le> owned" using f nz by auto
  obtain x where x: "get_withdraw_asset_amount_out pool (ucast n) = Inr x" using assms [OF le] by blast
  then have pay: "withdraw_payout pool n = fst x" by (simp add: withdraw_payout_def split: prod.splits)
  have "n = 1 \<or> withdraw_payout pool (n - 1) < ucast amount" using f by (auto simp: withdraw_payout_def)
  moreover have "n = owned \<or> ucast amount \<le> withdraw_payout pool n" using f x pay by auto
  ultimately show ?thesis using False n le x pay
    by (auto simp: shares_for_withdrawal_def not_less split: prod.splits)
qed (simp add: shares_for_withdrawal_def)

theorem withdrawal_burns_just_enough_witness:
  "case shares_for_withdrawal example_pool 0 1 of
     Inr n \<Rightarrow> n \<le> 1 | Inl e \<Rightarrow> withdraw_payout example_pool 1 < 0"
proof -
  have "\<exists>x. get_withdraw_asset_amount_out example_pool (ucast m) = Inr x" if "0 < m" "m \<le> 1" for m :: u64
  proof -
    have "unat m = 1" using that by (simp add: word_le_nat_alt word_less_nat_alt)
    then have "m = 1" by (simp add: word_unat_eq_iff)
    then show ?thesis
      using withdraw_unfold [of example_pool 1]
        psi_total_ge [of 8 "reserve (balances example_pool) - withdraw_decrement example_pool 1" "pool_curve example_pool"
          "total_liabilities (balances example_pool) - withdraw_decrement example_pool 1"]
      by (auto simp: pool_eval withdraw_decrement_def internal_fits_def)
  qed
  from withdrawal_burns_just_enough [OF this, of 1 0] show ?thesis by (auto split: sum.splits)
qed


section \<open>Processing an order\<close>

lemma fail_order_None: "fail_order v ord reason s = (Inr y, t) \<Longrightarrow> y = None"
  by (auto simp: fail_order_def st_then_def split: prod.splits sum.splits)

lemma resolve_user_pool_frame:
  "resolve_user_pool v user s = (r, s') \<Longrightarrow> s' = s\<lparr>user_pools := user_pools s', en_registry := en_registry s'\<rparr>"
  by (auto simp: resolve_user_pool_def split: option.splits sum.splits if_splits prod.splits bool.splits)

lemma fetch_balance_frame:
  "fetch_balance_from_chain v user f s = (r, s') \<Longrightarrow> s' = s\<lparr>user_pools := user_pools s', en_registry := en_registry s'\<rparr>"
  by (auto simp: fetch_balance_from_chain_def st_then_def split: if_splits prod.splits sum.splits dest: resolve_user_pool_frame)

lemma balance_of_result:
  assumes "balance_of v user f s = (Inr b, s')"
  shows "\<exists>x y. s' = s\<lparr>user_pools := x, en_registry := y, user_balances := (user_balances s)((user, f) \<mapsto> b)\<rparr>
    \<and> (user_balances s (user, f) = None \<or> user_balances s (user, f) = Some b)"
proof (cases "user_balances s (user, f)")
  case None
  obtain t where t: "fetch_balance_from_chain v user f s = (Inr b, t)"
    and s': "s' = t\<lparr>user_balances := (user_balances t)((user, f) \<mapsto> b)\<rparr>"
    using assms None by (auto simp: balance_of_def st_then_def split: prod.splits sum.splits)
  have t': "t = s\<lparr>user_pools := user_pools t, en_registry := en_registry t\<rparr>" by (rule fetch_balance_frame [OF t])
  have "s' = s\<lparr>user_pools := user_pools t, en_registry := en_registry t, user_balances := (user_balances s)((user, f) \<mapsto> b)\<rparr>"
    unfolding s' by (subst (1 2) t') simp
  then show ?thesis using None by blast
next
  case (Some b')
  then have "s' = s" "b' = b" using assms by (simp_all add: balance_of_def)
  moreover have "(user_balances s)((user, f) \<mapsto> b) = user_balances s" using Some \<open>b' = b\<close> by auto
  ultimately show ?thesis using Some by (intro exI [of _ "user_pools s"] exI [of _ "en_registry s"]) simp
qed

lemma map_of_update_pool: "map_of (update_pool f g pools) h = (if h = f then map_option g (map_of pools h) else map_of pools h)"
  by (induction pools) (auto simp: update_pool_def)

text \<open>An order that passes every check, and the state it is settled in.\<close>

lemma process_order_accepts:
  assumes "process_order v ord s = (Inr (Some res), s')"
  defines "d \<equiv> order_details ord" and "user \<equiv> order_user_id ord"
  obtains quote sb bb x y where
    "\<not> is_expired_at (expires_at (order_intent ord)) (env_now_s v)" "asset_in d \<noteq> asset_out d"
    "quote_swap v s (asset_in d) (asset_out d) (amount_in d) = Inr quote"
    "min_amount_out d \<le> sat_to (amount_out quote)" "amount_in d \<le> sb"
    "user_balances s (user, asset_in d) \<in> {None, Some sb}" "user_balances s (user, asset_out d) \<in> {None, Some bb}"
    "settle_order v ord (credit_to quote (ucast (min_amount_out d))) sb bb
       (s\<lparr>user_pools := x, en_registry := y,
          user_balances := (user_balances s)((user, asset_in d) \<mapsto> sb, (user, asset_out d) \<mapsto> bb)\<rparr>) = (Inr (Some res), s')"
proof -
  have step: "\<not> is_expired_at (expires_at (order_intent ord)) (env_now_s v) \<and> asset_in d \<noteq> asset_out d
    \<and> (\<exists>quote sb bb s1 s2. quote_swap v s (asset_in d) (asset_out d) (amount_in d) = Inr quote
      \<and> \<not> sat_to (amount_out quote) < min_amount_out d \<and> \<not> sb < amount_in d
      \<and> balance_of v user (asset_in d) s = (Inr sb, s1) \<and> balance_of v user (asset_out d) s1 = (Inr bb, s2)
      \<and> settle_order v ord (credit_to quote (ucast (min_amount_out d))) sb bb s2 = (Inr (Some res), s'))"
    using assms(1) unfolding process_order_def Let_def d_def [symmetric] user_def [symmetric]
    by (auto split: if_splits sum.splits prod.splits dest!: fail_order_None)
  then obtain quote sb bb s1 s2 where q: "quote_swap v s (asset_in d) (asset_out d) (amount_in d) = Inr quote"
      "\<not> sat_to (amount_out quote) < min_amount_out d" "\<not> sb < amount_in d"
    and b1: "balance_of v user (asset_in d) s = (Inr sb, s1)" and b2: "balance_of v user (asset_out d) s1 = (Inr bb, s2)"
    and st: "settle_order v ord (credit_to quote (ucast (min_amount_out d))) sb bb s2 = (Inr (Some res), s')" by blast
  have ne: "asset_in d \<noteq> asset_out d" using step by blast
  obtain x1 y1 where s1: "s1 = s\<lparr>user_pools := x1, en_registry := y1, user_balances := (user_balances s)((user, asset_in d) \<mapsto> sb)\<rparr>"
    "user_balances s (user, asset_in d) \<in> {None, Some sb}"
    using balance_of_result [OF b1] by auto
  obtain x2 y2 where s2: "s2 = s1\<lparr>user_pools := x2, en_registry := y2, user_balances := (user_balances s1)((user, asset_out d) \<mapsto> bb)\<rparr>"
    "user_balances s1 (user, asset_out d) \<in> {None, Some bb}"
    using balance_of_result [OF b2] by auto
  have "s2 = s\<lparr>user_pools := x2, en_registry := y2,
      user_balances := (user_balances s)((user, asset_in d) \<mapsto> sb, (user, asset_out d) \<mapsto> bb)\<rparr>"
    using s1 s2 by simp
  moreover have "user_balances s (user, asset_out d) \<in> {None, Some bb}" using s1 s2 ne by simp
  ultimately show ?thesis using that q s1 step st by (auto simp: not_less)
qed


text \<open>What settling leaves behind: the state is the one before with the two balances, the two pools, the
  pending swap and the output changed.\<close>

lemma settle_order_result:
  assumes "settle_order v ord quote sb bb s = (Inr (Some (ord', sw)), s')"
  defines "d \<equiv> order_details ord" and "user \<equiv> order_user_id ord" and "out \<equiv> sat_to (credited_amount_out quote) :: u64"
  obtains sp bp pend where
    "map_of (pool_states s) (asset_in d) = Some sp" "map_of (pool_states s) (asset_out d) = Some bp"
    "order_id ord' = order_id ord" "state ord' = Processed \<lparr>result_amount_out = out\<rparr>"
    "pend_user_id pend = user" "pend_sell_faucet pend = asset_in d" "pend_buy_faucet pend = asset_out d"
    "pend_amount_in pend = amount_in d" "pend_amount_out pend = out"
    "pend_sell_before pend = balances sp" "pend_sell_after pend = new_base_pool_balances quote"
    "pend_buy_before pend = balances bp" "pend_buy_after pend = new_quote_pool_balances quote"
    "ps_order_id sw = order_id ord" "ps_amount_in sw = amount_in d" "ps_amount_out sw = out"
    "restore_pending_swap (ps_finalization sw) = pend"
    "pending_swaps s' = AList.update (order_id ord) pend (pending_swaps s)"
    "user_balances s' = (user_balances s)((user, asset_in d) \<mapsto> sb - amount_in d, (user, asset_out d) \<mapsto> sat_add bb out)"
    "pool_states s' = update_pool (asset_out d) (\<lambda>p. update_balances p (new_quote_pool_balances quote))
       (update_pool (asset_in d) (\<lambda>p. update_balances p (new_base_pool_balances quote)) (pool_states s))"
proof -
  obtain sp bp where p: "map_of (pool_states s) (asset_in d) = Some sp" "map_of (pool_states s) (asset_out d) = Some bp"
    using assms(1) unfolding settle_order_def Let_def d_def by (auto split: option.splits)
  obtain an where sw: "sw = proposed_of (emit (OutUser user (asset_in d) (sb - amount_in d)) (emit (OutUser user (asset_out d) (sat_add bb out))
          (s\<lparr>user_balances := (user_balances s)((user, asset_in d) \<mapsto> sb - amount_in d, (user, asset_out d) \<mapsto> sat_add bb out),
             pool_states := update_pool (asset_out d) (\<lambda>p. update_balances p (new_quote_pool_balances quote))
               (update_pool (asset_in d) (\<lambda>p. update_balances p (new_base_pool_balances quote)) (pool_states s))\<rparr>)))
        (order_id ord) (the (map_of (pending_swaps s') (order_id ord))) quote"
    and pend: "pending_swaps s' = AList.update (order_id ord) \<lparr>pend_user_id = user, pend_sell_faucet = asset_in d,
          pend_buy_faucet = asset_out d, pend_amount_in = amount_in d, pend_amount_out = out,
          pend_sell_before = balances sp, pend_sell_after = new_base_pool_balances quote,
          pend_buy_before = balances bp, pend_buy_after = new_quote_pool_balances quote,
          pend_analytics_swap = an\<rparr> (pending_swaps s)"
    and ord': "order_id ord' = order_id ord" "state ord' = Processed \<lparr>result_amount_out = out\<rparr>"
    and s': "user_balances s' = (user_balances s)((user, asset_in d) \<mapsto> sb - amount_in d, (user, asset_out d) \<mapsto> sat_add bb out)"
      "pool_states s' = update_pool (asset_out d) (\<lambda>p. update_balances p (new_quote_pool_balances quote))
         (update_pool (asset_in d) (\<lambda>p. update_balances p (new_base_pool_balances quote)) (pool_states s))"
    using assms(1) p unfolding settle_order_def Let_def d_def [symmetric] user_def [symmetric] out_def [symmetric]
    by (auto simp: emit_def processing_processed_def with_state_def update_conv' split: sum.splits)
  show ?thesis
    by (rule that [OF p ord' _ _ _ _ _ _ _ _ _ _ _ _ _ pend s'])
      (simp_all add: sw pend update_conv' proposed_of_def restore_pending_swap_def balances_to_strings_def
        balances_from_strings_def Let_def)
qed

text \<open>What an order trades against: the credited amount is the signed minimum; the pools move by the input and
  that minimum, unless the quote is the empty one, which passes a minimum of zero only.\<close>

lemma credited_minimum:
  assumes q: "quote_swap v s sell buy amt = Inr quote" and m: "m \<le> sat_to (amount_out quote)"
    and p: "map_of (pool_states s) sell = Some sp" "map_of (pool_states s) buy = Some bp"
  defines "cr \<equiv> credit_to quote (ucast (m :: u64))"
  shows "sat_to (credited_amount_out cr) = m"
    and "(if quote = zero_quote sp bp then m = 0 \<and> new_base_pool_balances cr = balances sp \<and> new_quote_pool_balances cr = balances bp
      else reserve_with_slippage (new_base_pool_balances cr) = reserve_with_slippage (balances sp) + ucast amt
        \<and> total_liabilities (new_base_pool_balances cr) = total_liabilities (balances sp)
        \<and> unat (reserve_with_slippage (new_quote_pool_balances cr)) + unat m = unat (reserve_with_slippage (balances bp)))"
proof -
  have mo: "unat m \<le> unat (amount_out quote)" using m by (simp add: word_le_nat_alt unat_sat_to)
  then have le: "(ucast m :: u256) \<le> amount_out quote" by (simp add: word_le_nat_alt unat_ucast_up)
  have cr: "credited_amount_out cr = ucast m" using le by (simp add: cr_def credit_to_def Let_def min_def)
  show "sat_to (credited_amount_out cr) = m"
    using unat_less_exp [of m] by (simp add: cr word_unat_eq_iff unat_sat_to unat_ucast_up)
  show "(if quote = zero_quote sp bp then m = 0 \<and> new_base_pool_balances cr = balances sp \<and> new_quote_pool_balances cr = balances bp
      else reserve_with_slippage (new_base_pool_balances cr) = reserve_with_slippage (balances sp) + ucast amt
        \<and> total_liabilities (new_base_pool_balances cr) = total_liabilities (balances sp)
        \<and> unat (reserve_with_slippage (new_quote_pool_balances cr)) + unat m = unat (reserve_with_slippage (balances bp)))"
  proof (cases "quote = zero_quote sp bp")
    case True
    then have "m = 0" using mo by (simp add: zero_quote_def unat_eq_0)
    moreover have "sat_add z 0 = z" for z :: u256 using unat_less_exp [of z] by (simp add: sat_add_def)
    ultimately show ?thesis using True by (simp add: cr_def credit_to_def zero_quote_def Let_def)
  next
    case False
    then have b: "quote_balanced sp bp (ucast amt) quote"
      using q p by (auto simp: quote_swap_def res_simps dest: quote_Inr_cases)
    have "unat (amount_out quote - ucast m) = unat (amount_out quote) - unat m"
      using le by (simp add: unat_sub unat_ucast_up)
    moreover have "reserve_with_slippage (new_quote_pool_balances cr)
        = sat_add (reserve_with_slippage (new_quote_pool_balances quote)) (amount_out quote - ucast m)"
      using le by (simp add: cr_def credit_to_def Let_def min_def)
    ultimately show ?thesis
      using b mo False unat_less_exp [of "reserve_with_slippage (balances bp)"]
      by (auto simp: quote_balanced_def cr_def credit_to_def Let_def unat_sat_add)
  qed
qed

text \<open>
  C13: a processed order settles exactly as signed. The order has not expired and trades two different
  assets; its result and the stored proposal carry the signed amounts; the seller had the input and loses
  exactly it, and gains exactly the signed minimum (saturating at the 64-bit bound); no other balance and
  no other pool changes. The input pool's slippage reserve gains exactly the input and the output
  pool's loses exactly the signed minimum, with the liabilities of the input pool as before; only when the minimum
  is zero and the quote is the empty one do both pools stay as they are. The pending swap names the
  trader, the assets and amounts and the balances of both pools before and after, and is what a restart
  restores from the store.
\<close>

theorem processed_order_settles_as_signed:
  assumes "process_order v ord s = (Inr (Some (ord', sw)), s')"
  defines "d \<equiv> order_details ord" and "user \<equiv> order_user_id ord"
  shows "\<exists>sb bb sp bp sp' bp' pend.
    asset_in d \<noteq> asset_out d \<and> env_now_s v < expires_at (order_intent ord)
    \<and> state ord' = Processed \<lparr>result_amount_out = min_amount_out d\<rparr>
    \<and> ps_amount_in sw = amount_in d \<and> ps_amount_out sw = min_amount_out d
    \<and> user_balances s (user, asset_in d) \<in> {None, Some sb} \<and> amount_in d \<le> sb
    \<and> user_balances s (user, asset_out d) \<in> {None, Some bb}
    \<and> user_balances s' = (user_balances s)((user, asset_in d) \<mapsto> sb - amount_in d,
                                           (user, asset_out d) \<mapsto> sat_add bb (min_amount_out d))
    \<and> map_of (pool_states s) (asset_in d) = Some sp \<and> map_of (pool_states s) (asset_out d) = Some bp
    \<and> map_of (pool_states s') = (map_of (pool_states s))(asset_in d \<mapsto> sp', asset_out d \<mapsto> bp')
    \<and> (if quote_swap v s (asset_in d) (asset_out d) (amount_in d) = Inr (zero_quote sp bp)
       then min_amount_out d = 0 \<and> balances sp' = balances sp \<and> balances bp' = balances bp
       else reserve_with_slippage (balances sp') = reserve_with_slippage (balances sp) + ucast (amount_in d)
         \<and> total_liabilities (balances sp') = total_liabilities (balances sp)
         \<and> unat (reserve_with_slippage (balances bp')) + unat (min_amount_out d) = unat (reserve_with_slippage (balances bp)))
    \<and> map_of (pending_swaps s') (order_id ord) = Some pend \<and> restore_pending_swap (ps_finalization sw) = pend
    \<and> pend_user_id pend = user \<and> pend_sell_faucet pend = asset_in d \<and> pend_buy_faucet pend = asset_out d
    \<and> pend_amount_in pend = amount_in d \<and> pend_amount_out pend = min_amount_out d
    \<and> pend_sell_before pend = balances sp \<and> pend_sell_after pend = balances sp'
    \<and> pend_buy_before pend = balances bp \<and> pend_buy_after pend = balances bp'"
proof -
  obtain quote sb bb x y where acc: "\<not> is_expired_at (expires_at (order_intent ord)) (env_now_s v)" "asset_in d \<noteq> asset_out d"
    "quote_swap v s (asset_in d) (asset_out d) (amount_in d) = Inr quote"
    "min_amount_out d \<le> sat_to (amount_out quote)" "amount_in d \<le> sb"
    "user_balances s (user, asset_in d) \<in> {None, Some sb}" "user_balances s (user, asset_out d) \<in> {None, Some bb}"
    and st: "settle_order v ord (credit_to quote (ucast (min_amount_out d))) sb bb
       (s\<lparr>user_pools := x, en_registry := y,
          user_balances := (user_balances s)((user, asset_in d) \<mapsto> sb, (user, asset_out d) \<mapsto> bb)\<rparr>) = (Inr (Some (ord', sw)), s')"
    by (rule process_order_accepts [OF assms(1), folded d_def user_def])
  let ?cr = "credit_to quote (ucast (min_amount_out d))"
  let ?s = "s\<lparr>user_pools := x, en_registry := y,
      user_balances := (user_balances s)((user, asset_in d) \<mapsto> sb, (user, asset_out d) \<mapsto> bb)\<rparr>"
  obtain sp bp pend where p: "map_of (pool_states ?s) (asset_in d) = Some sp" "map_of (pool_states ?s) (asset_out d) = Some bp"
    and "order_id ord' = order_id ord" and out: "state ord' = Processed \<lparr>result_amount_out = sat_to (credited_amount_out ?cr)\<rparr>"
    and pend: "pend_user_id pend = user" "pend_sell_faucet pend = asset_in d" "pend_buy_faucet pend = asset_out d"
    "pend_amount_in pend = amount_in d" "pend_amount_out pend = sat_to (credited_amount_out ?cr)"
    "pend_sell_before pend = balances sp" "pend_sell_after pend = new_base_pool_balances ?cr"
    "pend_buy_before pend = balances bp" "pend_buy_after pend = new_quote_pool_balances ?cr"
    and "ps_order_id sw = order_id ord" and sw: "ps_amount_in sw = amount_in d" "ps_amount_out sw = sat_to (credited_amount_out ?cr)"
    "restore_pending_swap (ps_finalization sw) = pend"
    and s': "pending_swaps s' = AList.update (order_id ord) pend (pending_swaps ?s)"
    "user_balances s' = (user_balances ?s)((user, asset_in d) \<mapsto> sb - amount_in d,
        (user, asset_out d) \<mapsto> sat_add bb (sat_to (credited_amount_out ?cr)))"
    "pool_states s' = update_pool (asset_out d) (\<lambda>p. update_balances p (new_quote_pool_balances ?cr))
       (update_pool (asset_in d) (\<lambda>p. update_balances p (new_base_pool_balances ?cr)) (pool_states ?s))"
    by (rule settle_order_result [OF st, folded d_def user_def])
  have p: "map_of (pool_states s) (asset_in d) = Some sp" "map_of (pool_states s) (asset_out d) = Some bp"
    using p by simp_all
  have bals: "user_balances s' = (user_balances s)((user, asset_in d) \<mapsto> sb - amount_in d,
        (user, asset_out d) \<mapsto> sat_add bb (sat_to (credited_amount_out ?cr)))"
    using acc(2) by (simp add: s'(2) fun_upd_twist)
  note cm = credited_minimum [OF acc(3,4) p]
  define sp' where "sp' = update_balances sp (new_base_pool_balances ?cr)"
  define bp' where "bp' = update_balances bp (new_quote_pool_balances ?cr)"
  have pools: "map_of (pool_states s') = (map_of (pool_states s))(asset_in d \<mapsto> sp', asset_out d \<mapsto> bp')"
    using acc(2) p by (auto simp: s'(3) map_of_update_pool sp'_def bp'_def)
  have bal: "balances sp' = new_base_pool_balances ?cr" "balances bp' = new_quote_pool_balances ?cr"
    by (simp_all add: update_balances_def sp'_def bp'_def)
  have clause: "if quote_swap v s (asset_in d) (asset_out d) (amount_in d) = Inr (zero_quote sp bp)
       then min_amount_out d = 0 \<and> balances sp' = balances sp \<and> balances bp' = balances bp
       else reserve_with_slippage (balances sp') = reserve_with_slippage (balances sp) + ucast (amount_in d)
         \<and> total_liabilities (balances sp') = total_liabilities (balances sp)
         \<and> unat (reserve_with_slippage (balances bp')) + unat (min_amount_out d) = unat (reserve_with_slippage (balances bp))"
    unfolding bal acc(3) sum.inject by (rule cm(2))
  have kept: "map_of (pending_swaps s') (order_id ord) = Some pend" by (simp add: s'(1) update_conv')
  have fresh: "env_now_s v < expires_at (order_intent ord)" using acc(1) by (simp add: is_expired_at_def not_le)
  note rec = pend(1-4) pend(5) [unfolded cm(1)] pend(6) pend(7) [folded bal] pend(8) pend(9) [folded bal]
  show ?thesis
    apply (rule exI [of _ sb], rule exI [of _ bb], rule exI [of _ sp], rule exI [of _ bp], rule exI [of _ sp'],
      rule exI [of _ bp'], rule exI [of _ pend])
    apply (intro conjI)
    apply (rule acc(2) fresh out [unfolded cm(1)] sw(1) sw(2) [unfolded cm(1)] acc(6) acc(5) acc(7) bals [unfolded cm(1)]
      p pools clause kept sw(3) rec)+
    done
qed

section \<open>Rolling back\<close>

lemma revert_u256_self: "revert_u256 after before after = before"
  using unat_less_exp [of before]
  by (auto simp: revert_u256_def sat_sub_def sat_add_def word_le_nat_alt unat_sub word_less_nat_alt not_le)

lemma revert_balances_self: "revert_balances after before after = before"
  by (simp add: revert_balances_def revert_u256_self)

lemma sat_sub_sat_add: "sat_add a b \<noteq> - 1 \<Longrightarrow> sat_sub (sat_add a b) b = a" for a b :: "'a::len word"
  by (auto simp: sat_add_def sat_sub_def word_le_nat_alt unat_add_no_overflow split: if_splits)

lemma sat_add_sub: "b \<le> a \<Longrightarrow> sat_add (a - b) b = a" for a b :: "'a::len word"
  using unat_less_exp [of a] by (simp add: sat_add_def unat_sub word_le_nat_alt)


lemma map_of_revert_pool: "map_of (revert_pool f b a pools) h =
    (if h = f then map_option (\<lambda>p. update_balances p (revert_balances (balances p) b a)) (map_of pools h) else map_of pools h)"
  by (simp add: revert_pool_def map_of_update_pool)

text \<open>What a roll-back is to do to a pool, whatever happened to it since: every balance moves back by the change
  between the balances before and after the swap, kept within the 256-bit range.\<close>

definition clamp_u256 :: "int \<Rightarrow> u256" where
  "clamp_u256 z = word_of_int (max 0 (min (2 ^ 256 - 1) z))"

definition undo_change :: "pool_state \<Rightarrow> pool_state \<Rightarrow> pool_state \<Rightarrow> pool_state" where
  "undo_change before after p =
     (let back = (\<lambda>field. clamp_u256 (uint (field (balances p)) + uint (field (balances before)) - uint (field (balances after))))
      in update_balances p \<lparr>reserve = back reserve, reserve_with_slippage = back reserve_with_slippage,
           total_liabilities = back total_liabilities\<rparr>)"

lemma uint_clamp_u256: "uint (clamp_u256 z) = max 0 (min (2 ^ 256 - 1) z)"
  by (simp add: clamp_u256_def uint_word_of_int_eq take_bit_int_eq_self_iff)

lemma revert_u256_clamps: "revert_u256 cur before after = clamp_u256 (uint cur + uint before - uint after)"
proof (rule word_uint_eqI)
  define c b a where "c = unat cur" and "b = unat before" and "a = unat after"
  have "unat (revert_u256 cur before after) = (if b \<le> a then c - (a - b) else min (c + (b - a)) (2 ^ 256 - 1))"
    by (simp add: revert_u256_def unat_sat_sub unat_sat_add unat_sub word_le_nat_alt not_le a_def b_def c_def)
  then have "uint (revert_u256 cur before after) = int (if b \<le> a then c - (a - b) else min (c + (b - a)) (2 ^ 256 - 1))"
    by (metis uint_nat)
  moreover have "uint cur = int c" "uint before = int b" "uint after = int a" by (simp_all add: a_def b_def c_def)
  moreover have "c < 2 ^ 256" using unat_less_exp [of cur] by (simp add: c_def)
  ultimately show "uint (revert_u256 cur before after) = uint (clamp_u256 (uint cur + uint before - uint after))"
    by (simp only: uint_clamp_u256) (auto simp: min_def max_def)
qed

lemma undo_change_eq: "update_balances p (revert_balances (balances p) (balances before) (balances after)) = undo_change before after p"
  by (simp add: undo_change_def revert_balances_def revert_u256_clamps Let_def)

text \<open>
  C16: a failed swap is taken back, once, whatever the engine did since it processed the order. As long as
  the swap is still pending, its failure moves every balance of the two pools back by exactly the change the
  swap made, relative to the balances found, and touches no other pool; the seller's mirrored balance gets
  the input back and the buyer's loses the output, both saturating, and no other balance changes; only this
  swap stops being pending, its accounting is marked failed, and a second failure changes nothing. So with
  the pools as the swap left them they are those before it, and with the balances as it left them,
  short of the 64-bit bound, so are the balances.
\<close>

theorem failed_swap_is_rolled_back:
  fixes v v' v'' :: "('sg, 'pk) env"
  assumes "process_order v ord s = (Inr (Some (ord', sw)), s')"
    and "map_of (pending_swaps u) (order_id ord) = map_of (pending_swaps s') (order_id ord)"
  defines "sell \<equiv> asset_in (order_details ord)" and "buy \<equiv> asset_out (order_details ord)" and "user \<equiv> order_user_id ord"
    and "t \<equiv> handle_failed v' (order_id ord) u"
  shows "\<exists>sp sp' bp bp' sb bb.
    map_of (pool_states s) sell = Some sp \<and> map_of (pool_states s') sell = Some sp'
    \<and> map_of (pool_states s) buy = Some bp \<and> map_of (pool_states s') buy = Some bp'
    \<and> map_of (pool_states t) sell = map_option (undo_change sp sp') (map_of (pool_states u) sell)
    \<and> map_of (pool_states t) buy = map_option (undo_change bp bp') (map_of (pool_states u) buy)
    \<and> (\<forall>f. f \<noteq> sell \<and> f \<noteq> buy \<longrightarrow> map_of (pool_states t) f = map_of (pool_states u) f)
    \<and> user_balances t (user, sell) = map_option (\<lambda>b. sat_add b (amount_in (order_details ord))) (user_balances u (user, sell))
    \<and> user_balances t (user, buy) = map_option (\<lambda>b. sat_sub b (min_amount_out (order_details ord))) (user_balances u (user, buy))
    \<and> (\<forall>k. k \<noteq> (user, sell) \<and> k \<noteq> (user, buy) \<longrightarrow> user_balances t k = user_balances u k)
    \<and> map_of (pending_swaps t) = (map_of (pending_swaps u))(order_id ord := None)
    \<and> en_store t = snd (fail_swap (order_id ord) (env_now_ms v') (en_store u))
    \<and> handle_failed v'' (order_id ord) t = t
    \<and> (map_of (pool_states u) = map_of (pool_states s') \<longrightarrow> map_of (pool_states t) = map_of (pool_states s))
    \<and> user_balances s (user, sell) \<in> {None, Some sb} \<and> user_balances s (user, buy) \<in> {None, Some bb}
    \<and> (user_balances u = user_balances s' \<and> user_balances s' (user, buy) \<noteq> Some (- 1) \<longrightarrow>
        user_balances t = (user_balances s)((user, sell) \<mapsto> sb, (user, buy) \<mapsto> bb))"
proof -
  obtain quote sb bb x y where acc: "sell \<noteq> buy" "amount_in (order_details ord) \<le> sb"
    "user_balances s (user, sell) \<in> {None, Some sb}" "user_balances s (user, buy) \<in> {None, Some bb}"
    and quoted: "quote_swap v s sell buy (amount_in (order_details ord)) = Inr quote"
      "min_amount_out (order_details ord) \<le> sat_to (amount_out quote)"
    and st: "settle_order v ord (credit_to quote (ucast (min_amount_out (order_details ord)))) sb bb
       (s\<lparr>user_pools := x, en_registry := y,
          user_balances := (user_balances s)((user, sell) \<mapsto> sb, (user, buy) \<mapsto> bb)\<rparr>) = (Inr (Some (ord', sw)), s')"
    by (rule process_order_accepts [OF assms(1), folded sell_def buy_def user_def])
  let ?cr = "credit_to quote (ucast (min_amount_out (order_details ord)))"
  let ?out = "sat_to (credited_amount_out ?cr) :: u64"
  obtain sp bp pend where r: "map_of (pool_states s) sell = Some sp" "map_of (pool_states s) buy = Some bp"
    and pd: "pend_user_id pend = user" "pend_sell_faucet pend = sell" "pend_buy_faucet pend = buy"
    "pend_amount_in pend = amount_in (order_details ord)" "pend_amount_out pend = ?out"
    "pend_sell_before pend = balances sp" "pend_sell_after pend = new_base_pool_balances ?cr"
    "pend_buy_before pend = balances bp" "pend_buy_after pend = new_quote_pool_balances ?cr"
    and s': "pending_swaps s' = AList.update (order_id ord) pend (pending_swaps s)"
    "user_balances s' = (user_balances s)((user, sell) \<mapsto> sb - amount_in (order_details ord), (user, buy) \<mapsto> sat_add bb ?out)"
    "pool_states s' = update_pool buy (\<lambda>p. update_balances p (new_quote_pool_balances ?cr))
       (update_pool sell (\<lambda>p. update_balances p (new_base_pool_balances ?cr)) (pool_states s))"
    by (rule settle_order_result [OF st, folded sell_def buy_def user_def]) (use acc(1) in \<open>auto simp: fun_upd_twist\<close>)
  have out: "?out = min_amount_out (order_details ord)" by (rule credited_minimum(1) [OF quoted r])
  define sp' where "sp' = update_balances sp (new_base_pool_balances ?cr)"
  define bp' where "bp' = update_balances bp (new_quote_pool_balances ?cr)"
  have after: "map_of (pool_states s') sell = Some sp'" "map_of (pool_states s') buy = Some bp'"
    using acc(1) r by (simp_all add: s'(3) map_of_update_pool sp'_def bp'_def)
  have others: "map_of (pool_states s') f = map_of (pool_states s) f" if "f \<noteq> sell" "f \<noteq> buy" for f
    using that by (simp add: s'(3) map_of_update_pool)
  have bal: "new_base_pool_balances ?cr = balances sp'" "new_quote_pool_balances ?cr = balances bp'"
    by (simp_all add: update_balances_def sp'_def bp'_def)
  have pend: "map_of (pending_swaps u) (order_id ord) = Some pend" by (simp add: assms(2) s'(1) update_conv')
  have t: "pool_states t = revert_pool buy (balances bp) (balances bp') (revert_pool sell (balances sp) (balances sp') (pool_states u))"
    "pending_swaps t = AList.delete (order_id ord) (pending_swaps u)"
    "en_store t = snd (fail_swap (order_id ord) (env_now_ms v') (en_store u))"
    by (simp_all add: t_def handle_failed_def pend rollback_pending_swap_def pd bal emit_def Let_def)
  have balances: "user_balances t k =
      (if k = (user, sell) then map_option (\<lambda>b. sat_add b (amount_in (order_details ord))) (user_balances u k)
       else if k = (user, buy) then map_option (\<lambda>b. sat_sub b ?out) (user_balances u k) else user_balances u k)" for k
    using acc(1) by (auto simp: t_def handle_failed_def pend rollback_pending_swap_def pd emit_def Let_def split: option.split)
  have pools: "map_of (pool_states t) sell = map_option (undo_change sp sp') (map_of (pool_states u) sell)"
    "map_of (pool_states t) buy = map_option (undo_change bp bp') (map_of (pool_states u) buy)"
    using acc(1) by (simp_all add: t(1) map_of_revert_pool undo_change_eq)
  have untouched: "map_of (pool_states t) f = map_of (pool_states u) f" if "f \<noteq> sell \<and> f \<noteq> buy" for f
    using that by (simp add: t(1) map_of_revert_pool)
  have self: "undo_change sp sp' sp' = sp" "undo_change bp bp' bp' = bp"
    by (simp_all add: undo_change_eq [symmetric] revert_balances_self) (simp_all add: update_balances_def sp'_def bp'_def)
  have restored: "map_of (pool_states t) = map_of (pool_states s)" if "map_of (pool_states u) = map_of (pool_states s')"
  proof
    fix f
    show "map_of (pool_states t) f = map_of (pool_states s) f"
      using that pools untouched [of f] others [of f] after r self by (cases "f = sell"; cases "f = buy") auto
  qed
  have known: "user_balances t = (user_balances s)((user, sell) \<mapsto> sb, (user, buy) \<mapsto> bb)"
    if "user_balances u = user_balances s' \<and> user_balances s' (user, buy) \<noteq> Some (- 1)"
    using that acc(1,2) by (auto simp: balances s'(2) sat_sub_sat_add sat_add_sub fun_eq_iff)
  have twice: "handle_failed v'' (order_id ord) t = t" by (simp add: handle_failed_def [of v''] t(2) delete_conv')
  show ?thesis
    apply (rule exI [of _ sp], rule exI [of _ sp'], rule exI [of _ bp], rule exI [of _ bp'], rule exI [of _ sb], rule exI [of _ bb])
    apply (intro conjI)
    using r after pools untouched restored twice acc(3,4) known acc(1) by (auto simp: balances t(2,3) out delete_conv')
qed

section \<open>Liquidity events\<close>

lemma upsert_pools_notes: "upsert_pools pools now db = Inr db' \<Longrightarrow> applied_lp_notes db' = applied_lp_notes db"
  by (induction pools now db rule: upsert_pools.induct) (auto simp: res_simps upsert_pool_state_def Let_def)

lemma save_lp_application_marks:
  assumes "save_lp_application note f n pools now db = (r, db')" "applied_lp_shares note db = Inr None"
  shows "case r of Inr b \<Rightarrow> b \<and> applied_lp_shares note db' = Inr (Some n) | Inl e \<Rightarrow> db' = db"
proof (cases "lp_application_tx note f n pools now db")
  case (Inl e)
  then show ?thesis using assms(1) by (auto simp: save_lp_application_def atomically_def)
next
  case (Inr p)
  have none: "find (\<lambda>r. ln_note_id r = note) (applied_lp_notes db) = None"
    using assms(2) by (auto simp: applied_lp_shares_def res_simps split: option.splits)
  then have "\<not> sql_exists (\<lambda>r. ln_note_id r = note) (applied_lp_notes db)" by (auto simp: sql_exists_iff find_None_iff)
  then obtain db1 t where db1: "upsert_pools pools now db = Inr db1" and n: "to_i64 n = Inr (uint n)"
    and p: "p = (True, db1\<lparr>applied_lp_notes := applied_lp_notes db1 @
            [\<lparr>ln_note_id = note, ln_faucet_id = f, ln_lp_shares = uint n, ln_applied_at = t\<rparr>]\<rparr>)"
    using Inr by (auto simp: lp_application_tx_def res_simps to_i64_def split: if_splits)
  have "from_sql_u64 (uint n) = Inr n" by (simp add: from_sql_u64_def)
  then show ?thesis
    using assms(1) Inr p none upsert_pools_notes [OF db1]
    by (auto simp: save_lp_application_def atomically_def applied_lp_shares_def find_append)
qed

lemma on_lp_frame: "on_lp f s = (r, s') \<Longrightarrow> pool_states s' = pool_states s \<and> en_ledger s' = en_ledger s \<and> en_store s' = en_store s"
  by (auto simp: on_lp_def split: prod.splits)

lemma lp_acknowledge_frame:
  assumes "st_then (on_lp f) (\<lambda>_ s. (Inr (), record_lp_analytics v ev n s)) s = (r, s')"
  shows "pool_states s' = pool_states s \<and> en_ledger s' = en_ledger s \<and> en_store s' = en_store s"
  using assms on_lp_frame [of f s]
  by (auto simp: st_then_def record_lp_analytics_def emit_def split: prod.splits sum.splits)

lemma marked_lp_event:
  assumes "applied_lp_shares (lce_note_id ev) (en_store s) = Inr (Some n)"
  shows "pool_states (snd (apply_lp_chain_event v ev s)) = pool_states s \<and> en_ledger (snd (apply_lp_chain_event v ev s)) = en_ledger s
    \<and> en_store (snd (apply_lp_chain_event v ev s)) = en_store s"
  using assms by (simp add: apply_lp_chain_event_def) (rule lp_acknowledge_frame [OF surjective_pairing])

text \<open>
  C18: a liquidity event reaches pool and ledger exactly once. The first application that succeeds changes
  pool and ledger, exactly by the effect of the event on the pool of its asset, and leaves the note's marker
  with it; an application before the marker is there either does that, or fails and changes neither pools nor
  ledger nor the execution store, so that it can be tried again. Where the marker is there, or cannot be
  read, nothing changes: applying the event again never reaches the pool twice.
\<close>

theorem lp_event_reaches_pool_once:
  assumes "apply_lp_chain_event v ev s = (r, s')"
  shows "(r = Inr () \<longrightarrow> (\<exists>n. applied_lp_shares (lce_note_id ev) (en_store s') = Inr (Some n)))
    \<and> (case applied_lp_shares (lce_note_id ev) (en_store s) of
         Inl e \<Rightarrow> r = Inl e \<and> s' = s
       | Inr (Some n) \<Rightarrow> pool_states s' = pool_states s \<and> en_ledger s' = en_ledger s \<and> en_store s' = en_store s
       | Inr None \<Rightarrow>
           r \<noteq> Inr () \<and> pool_states s' = pool_states s \<and> en_ledger s' = en_ledger s \<and> en_store s' = en_store s
         \<or> (\<exists>n pool pool' ledger'. map_of (pool_states s) (lce_faucet_id ev) = Some pool
              \<and> lp_effect ev pool (en_ledger s) = Inr (n, pool', ledger')
              \<and> pool_states s' = update_pool (lce_faucet_id ev) (\<lambda>_. pool') (pool_states s) \<and> en_ledger s' = ledger'
              \<and> applied_lp_shares (lce_note_id ev) (en_store s') = Inr (Some n)))
    \<and> (\<forall>n v'. applied_lp_shares (lce_note_id ev) (en_store s') = Inr (Some n) \<longrightarrow>
         pool_states (snd (apply_lp_chain_event v' ev s')) = pool_states s'
         \<and> en_ledger (snd (apply_lp_chain_event v' ev s')) = en_ledger s')"
proof -
  let ?note = "lce_note_id ev" and ?f = "lce_faucet_id ev"
  have "(r = Inr () \<longrightarrow> (\<exists>n. applied_lp_shares ?note (en_store s') = Inr (Some n)))
    \<and> (case applied_lp_shares ?note (en_store s) of
         Inl e \<Rightarrow> r = Inl e \<and> s' = s
       | Inr (Some n) \<Rightarrow> pool_states s' = pool_states s \<and> en_ledger s' = en_ledger s \<and> en_store s' = en_store s
       | Inr None \<Rightarrow>
           r \<noteq> Inr () \<and> pool_states s' = pool_states s \<and> en_ledger s' = en_ledger s \<and> en_store s' = en_store s
         \<or> (\<exists>n pool pool' ledger'. map_of (pool_states s) ?f = Some pool
              \<and> lp_effect ev pool (en_ledger s) = Inr (n, pool', ledger')
              \<and> pool_states s' = update_pool ?f (\<lambda>_. pool') (pool_states s) \<and> en_ledger s' = ledger'
              \<and> applied_lp_shares ?note (en_store s') = Inr (Some n)))"
  proof (cases "applied_lp_shares ?note (en_store s)")
    case (Inl e)
    then show ?thesis using assms by (auto simp: apply_lp_chain_event_def)
  next
    case (Inr m)
    show ?thesis
    proof (cases m)
      case (Some n)
      then show ?thesis using marked_lp_event [of ev s n v] Inr assms by auto
    next
      case None
      show ?thesis
      proof (cases "and_then (ok_or (map_of (pool_states s) ?f) (Anyhow ''no pool for LP asset'')) (\<lambda>pool. lp_effect ev pool (en_ledger s))")
        case (Inl e)
        then show ?thesis using assms Inr None by (auto simp: apply_lp_chain_event_def)
      next
        case (Inr eff)
        then obtain pool n pool' ledger' where eff: "map_of (pool_states s) ?f = Some pool"
          "lp_effect ev pool (en_ledger s) = Inr (n, pool', ledger')" "eff = (n, pool', ledger')"
          by (cases eff) (auto simp: res_simps)
        let ?pools = "update_pool ?f (\<lambda>_. pool') (pool_states s)"
        obtain r1 db1 where sv: "save_lp_application ?note ?f n ?pools (env_now_ms v) (en_store s) = (r1, db1)" by fastforce
        have none: "applied_lp_shares ?note (en_store s) = Inr None" using \<open>applied_lp_shares _ _ = Inr m\<close> None by simp
        note mk = save_lp_application_marks [OF sv none]
        show ?thesis
        proof (cases r1)
          case (Inl e)
          then show ?thesis using assms none eff sv Inr mk
            by (auto simp: apply_lp_chain_event_def st_then_def on_exec_def)
        next
          case (Inr b)
          let ?s = "emit (OutPools ?pools (env_now_ms v)) (s\<lparr>en_store := db1, pool_states := ?pools, en_ledger := ledger'\<rparr>)"
          have "st_then (on_lp (apply_operation ?note n (env_now_ms v))) (\<lambda>_ s. (Inr (), record_lp_analytics v ev n s)) ?s = (r, s')"
            using assms none eff sv Inr mk
            by (simp add: apply_lp_chain_event_def st_then_def [of "on_exec _"] on_exec_def Let_def)
          from lp_acknowledge_frame [OF this] show ?thesis using eff none mk Inr by (auto simp: emit_def)
        qed
      qed
    qed
  qed
  then show ?thesis using marked_lp_event by blast
qed


section \<open>An example\<close>

text \<open>An engine with two equal pools and a seller whose balances are known.\<close>

definition example_pools :: "(account_id \<times> pool_state) list" where
  "example_pools = [(asset_in example_details, example_pool), (asset_out example_details, example_pool)]"

definition example_engine :: "(bytes, bytes) engine" where
  "example_engine = \<lparr>oracle_pricing = \<lparr>oracle_prices = (\<lambda>_. Some \<lparr>price_value = 1, price_timestamp = 0\<rparr>), oracle_assets = []\<rparr>,
     en_orders = empty_book, pool_states = example_pools, engine_busy = True, asset_ids = map fst example_pools,
     en_registry = new_registry [], user_pools = Map.empty,
     user_balances = Map.empty((example_user, asset_in example_details) \<mapsto> 5000, (example_user, asset_out example_details) \<mapsto> 1),
     en_ledger = default_ledger, en_lp_store = open_lp_db, lp_recovery_pending = False, en_store = open_db,
     en_fee_store = open_fee_db, pending_swaps = [], execution_finished = False, pool_resync_required = False,
     worker_id = ''w'', outputs = []\<rparr>"

definition example_env :: "(bytes, bytes) env" where
  "example_env = \<lparr>env_runtime = \<lparr>rt_codec = example_codec, rt_clock = 7, rt_from_millis = Some\<rparr>, env_now = 7, env_now_ms = 7,
     env_now_s = 7, env_batch_id = 1, env_max_age = None, env_max_orders = None, env_quote_with = (\<lambda>_ _. Inr 1000000000000),
     env_to_hex = (\<lambda>_. []), env_placement = (\<lambda>_. Inl SqlNoRows), env_try_from_elements = (\<lambda>_ _. Inl SqlNoRows),
     env_deployment = Inl SqlNoRows, env_balance_storage = (\<lambda>_ _ _. Inl SqlNoRows)\<rparr>"

lemmas quote_eval = get_curve_amount_out_with_volatility_fee_def curve_eval pool_eval PRICE_SCALING_FACTOR_def u_pow10_def
  FEE_PRECISION_def

lemma example_quote_value:
  "get_curve_amount_out_with_volatility_fee example_pool example_pool 8 8 1000 1000000000000 0 =
     Inr \<lparr>amount_out = 999, credited_amount_out = 999, retained_surplus = 0,
          new_base_pool_balances = \<lparr>reserve = 1000999, reserve_with_slippage = 1001000, total_liabilities = 1000000\<rparr>,
          new_quote_pool_balances = \<lparr>reserve = 999001, reserve_with_slippage = 999001, total_liabilities = 1000000\<rparr>,
          fees = \<lparr>fee_raw_amount_out = 999, fee_backstop = 0, fee_protocol = 0, fee_volatility = 0, fee_lp = 0, fee_max_lp = 0\<rparr>\<rparr>"
  by (simp add: quote_eval cong: eval_cong)

lemma example_pool_facts:
  "asset_decimals (metadata example_pool) = 8" "volatility_fee_in (settings example_pool) = 0"
  "volatility_fee_out (settings example_pool) = 0"
  by (simp_all add: pool_eval)

lemmas process_eval = process_order_def quote_swap_def example_engine_def example_env_def example_pools_def example_order_def
  new_with_id_def start_processing_def with_state_def example_details_def example_user_def example_intent_def new_swap_def
  max_admitted_age_ms_def admitted_at_ms_def is_expired_at_def price_of_def volatility_in_def volatility_out_def
  balance_of_def settle_order_def analytics_swap_def oracle_value_def oracle_value_u256_def pow10_u128_def pool_decimals_def

lemma example_process:
  "\<exists>ord' sw s'. process_order example_env (start_processing 2 example_order) example_engine = (Inr (Some (ord', sw)), s')
     \<and> user_balances s' (example_user, asset_out example_details) = Some 991"
  by (simp add: process_eval example_quote_value example_pool_facts credit_to_def sat_to_def sat_add_def sat_sub_def emit_def
      timing_start_processing_def new_timing_def Let_def update_pool_def or_default_def update_balances_def)


theorem processed_order_settles_as_signed_witness:
  "\<exists>ord' sw s'. process_order example_env (start_processing 2 example_order) example_engine = (Inr (Some (ord', sw)), s')
     \<and> ps_amount_out sw = 990"
proof -
  obtain ord' sw s' where p: "process_order example_env (start_processing 2 example_order) example_engine = (Inr (Some (ord', sw)), s')"
    using example_process by blast
  have d: "min_amount_out (order_details (start_processing 2 example_order)) = 990"
    by (simp add: start_processing_def with_state_def example_order_def new_with_id_def example_details_def)
  from processed_order_settles_as_signed [OF p] show ?thesis using p by (auto simp: d)
qed

theorem failed_swap_is_rolled_back_witness:
  "\<exists>ord' sw s' t. process_order example_env (start_processing 2 example_order) example_engine = (Inr (Some (ord', sw)), s')
     \<and> t = handle_failed example_env 42
         (s'\<lparr>engine_busy := False, user_balances := (user_balances s')((example_user, asset_in example_details) \<mapsto> 5)\<rparr>)
     \<and> map_of (pool_states t) = map_of (pool_states example_engine)
     \<and> user_balances t (example_user, asset_in example_details) = Some 1005"
proof -
  obtain ord' sw s' where p: "process_order example_env (start_processing 2 example_order) example_engine = (Inr (Some (ord', sw)), s')"
    using example_process by blast
  have o: "order_id (start_processing 2 example_order) = 42" "order_user_id (start_processing 2 example_order) = example_user"
    "order_details (start_processing 2 example_order) = example_details" "amount_in example_details = 1000"
    by (simp_all add: start_processing_def with_state_def example_order_def new_with_id_def example_details_def)
  define u where "u = s'\<lparr>engine_busy := False, user_balances := (user_balances s')((example_user, asset_in example_details) \<mapsto> 5)\<rparr>"
  have u: "map_of (pending_swaps u) (order_id (start_processing 2 example_order)) = map_of (pending_swaps s') (order_id (start_processing 2 example_order))"
    "pool_states u = pool_states s'" "user_balances u (example_user, asset_in example_details) = Some 5"
    by (simp_all add: u_def)
  have "sat_add 5 1000 = (1005 :: u64)" by (simp add: sat_add_def)
  then have "map_of (pool_states (handle_failed example_env 42 u)) = map_of (pool_states example_engine)
     \<and> user_balances (handle_failed example_env 42 u) (example_user, asset_in example_details) = Some 1005"
    using failed_swap_is_rolled_back [OF p u(1), of example_env example_env] by (auto simp: o u(2,3))
  then show ?thesis using p unfolding u_def by blast
qed

definition example_lp_event :: lp_chain_event where
  "example_lp_event = \<lparr>lce_note_id = ''n1'', lce_kind = LpDeposit, lce_lp_id = \<lparr>prefix = 1, suffix = 1\<rparr>,
     lce_faucet_id = \<lparr>prefix = 2, suffix = 2\<rparr>, lce_asset_amount = 500, lce_shares_hint = None\<rparr>"

definition example_lp_engine :: "(bytes, bytes) engine" where
  "example_lp_engine = example_engine\<lparr>pool_states := [(\<lparr>prefix = 2, suffix = 2\<rparr>, example_pool)], en_lp_store := example_lp_db\<rparr>"

lemma example_deposit: "get_deposit_lp_amount_out example_pool 500 =
     Inr (250, 500250, \<lparr>reserve = 1000500, reserve_with_slippage = 1000500, total_liabilities = 1000500\<rparr>)"
  by (simp add: curve_eval pool_eval cong: eval_cong)

lemma example_lp_application:
  "apply_lp_chain_event example_env example_lp_event example_lp_engine =
     (Inr (), snd (apply_lp_chain_event example_env example_lp_event example_lp_engine))"
  by (simp add: apply_lp_chain_event_def example_lp_event_def example_lp_engine_def example_engine_def applied_lp_shares_def
      open_db_def lp_effect_def example_deposit sat_to_def st_then_def on_exec_def save_lp_application_def atomically_def
      lp_application_tx_def sql_exists_def update_pool_def upsert_pool_state_def update_state_def to_i64_def
      example_env_def on_lp_def emit_def apply_operation_def apply_operation_tx_def example_lp_db_def record_confirmed_def
      open_lp_db_def checked_add_def Let_def)

theorem lp_event_reaches_pool_once_witness:
  "\<exists>n pool pool' ledger'. applied_lp_shares ''n1'' (en_store (snd (apply_lp_chain_event example_env example_lp_event example_lp_engine))) = Inr (Some n)
     \<and> lp_effect example_lp_event pool (en_ledger example_lp_engine) = Inr (n, pool', ledger')
     \<and> en_ledger (snd (apply_lp_chain_event example_env example_lp_event example_lp_engine)) = ledger'"
proof -
  have "applied_lp_shares (lce_note_id example_lp_event) (en_store example_lp_engine) = Inr None"
    by (simp add: example_lp_engine_def example_engine_def applied_lp_shares_def open_db_def)
  then show ?thesis using lp_event_reaches_pool_once [OF example_lp_application] by (auto simp: example_lp_event_def)
qed

section \<open>Findings\<close>

text \<open>An order without a minimum into a pool past twice its liabilities is processed: the seller pays,
  nobody receives anything, and the pools do not change.\<close>

definition overfull_pool :: pool_state where
  "overfull_pool = update_balances example_pool \<lparr>reserve = 3000000, reserve_with_slippage = 3000000, total_liabilities = 1000000\<rparr>"

lemma overfull_quote:
  "get_curve_amount_out_with_volatility_fee overfull_pool example_pool 8 8 1000 1000000000000 0 = Inr (zero_quote overfull_pool example_pool)"
  by (simp add: overfull_pool_def update_balances_def quote_eval cong: eval_cong)


lemma zero_output_order_is_charged:
  "\<exists>ord' sw s'. process_order example_env
       ((start_processing 2 example_order)\<lparr>order_details := example_details\<lparr>min_amount_out := 0\<rparr>\<rparr>)
       (example_engine\<lparr>pool_states := [(asset_in example_details, overfull_pool), (asset_out example_details, example_pool)]\<rparr>)
         = (Inr (Some (ord', sw)), s')
     \<and> user_balances s' (example_user, asset_in example_details) = Some 4000
     \<and> user_balances s' (example_user, asset_out example_details) = Some 1
     \<and> map_of (pool_states s') (asset_in example_details) = Some overfull_pool
     \<and> map_of (pool_states s') (asset_out example_details) = Some example_pool"
proof -
  have o: "asset_decimals (metadata overfull_pool) = 8" "volatility_fee_in (settings overfull_pool) = 0"
    "volatility_fee_out (settings overfull_pool) = 0"
    "unat (reserve (balances example_pool)) = 1000000" "unat (reserve_with_slippage (balances example_pool)) = 1000000"
    by (simp_all add: overfull_pool_def update_balances_def pool_eval)
  show ?thesis
    by (simp add: process_eval overfull_quote zero_quote_def example_pool_facts o credit_to_def sat_to_def sat_add_def sat_sub_def
        emit_def timing_start_processing_def new_timing_def Let_def update_pool_def or_default_def update_balances_def)
qed

text \<open>A confirmation without a pending swap applies the stored one, however often it comes.\<close>

lemma repeated_confirmation_applies_again:
  assumes "map_of (pending_swaps s) oid = None" "get_swap_finalization oid (en_store s) = Inr (Some f)"
  defines "p \<equiv> restore_pending_swap f"
  shows "pool_states (handle_confirmed v oid (handle_confirmed v oid s)) = pool_states (apply_pending_swap p (apply_pending_swap p s))"
  using assms by (simp add: handle_confirmed_def take_pending_def apply_pending_swap_def emit_def Let_def)

text \<open>Reloading the pools after a failed batch sets the volatility fees of every stored pool to zero,
  whatever the fee store has in force.\<close>

lemma restore_rows_fees:
  assumes "restore_rows rows m = Inr saved" "saved f = Some p" "m f = None \<or> (\<forall>q. m f = Some q \<longrightarrow> volatility_in now q = 0 \<and> volatility_out now q = 0)"
  shows "volatility_in now p = 0 \<and> volatility_out now p = 0"
  using assms
proof (induction rows m arbitrary: saved rule: restore_rows.induct)
  case (2 r rs m)
  then obtain q where q: "restored_pool r = Inr q" "restore_rows rs (m(pr_faucet_id r \<mapsto> q)) = Inr saved" by (auto simp: res_simps)
  then have "volatility_in now q = 0 \<and> volatility_out now q = 0"
    by (auto simp: restored_pool_def new_pool_state_def default_settings_def volatility_in_def volatility_out_def split: if_splits)
  then show ?case using "2.IH" [OF q(2) "2.prems"(2)] "2.prems"(3) by auto
qed auto

lemma reload_drops_volatility_fees:
  assumes "latest_pool_states (en_store s) = Inr saved" "saved f = Some p" "(f, q) \<in> set (pool_states (reload_pool_states_from_store v s))"
  shows "volatility_in now q = 0 \<and> volatility_out now q = 0"
proof -
  have "q = p" using assms by (auto simp: reload_pool_states_from_store_def emit_def or_default_def Let_def)
  then show ?thesis using restore_rows_fees [OF assms(1) [unfolded latest_pool_states_def] assms(2)] by simp
qed

end
