(* ===== verification/Stateful.thy ===== *)
theory Stateful
  imports Prelude
begin

text \<open>
  Stateful operations that only move the state along a reflexive and transitive relation: the composition
  operators of the workers keep such a relation, so that a whole worker refines the steps of the store
  it calls as soon as its single statements do.
\<close>

definition ignore_error :: "error \<Rightarrow> 's \<Rightarrow> (error + unit) \<times> 's" where
  "ignore_error e s = (Inr (), s)"

fun for_each :: "('a \<Rightarrow> 's \<Rightarrow> (error + unit) \<times> 's) \<Rightarrow> 'a list \<Rightarrow> 's \<Rightarrow> (error + unit) \<times> 's" where
  "for_each f [] s = (Inr (), s)"
| "for_each f (x # xs) s = st_then (f x) (\<lambda>_. for_each f xs) s"

text \<open>The result of a fallible call as a value; a panic still unwinds.\<close>

definition attempt :: "('s \<Rightarrow> (error + 'a) \<times> 's) \<Rightarrow> 's \<Rightarrow> (error + 'a result) \<times> 's" where
  "attempt m s =
     (case m s of (Inl e, s') \<Rightarrow> (if is_panic e then Inl e else Inr (Inl e), s') | (Inr x, s') \<Rightarrow> (Inr (Inr x), s'))"

definition keeps :: "('s \<Rightarrow> 's \<Rightarrow> bool) \<Rightarrow> ('s \<Rightarrow> 'r \<times> 's) \<Rightarrow> bool" where
  "keeps R m \<longleftrightarrow> (\<forall>s. R s (snd (m s)))"

lemma keepsI: "(\<And>s r t. m s = (r, t) \<Longrightarrow> R s t) \<Longrightarrow> keeps R m"
  by (simp add: keeps_def split_paired_all prod_eq_iff)

lemma keepsD: "keeps R m \<Longrightarrow> m s = (r, t) \<Longrightarrow> R s t"
  by (metis keeps_def snd_conv)

locale state_order =
  fixes R :: "'s \<Rightarrow> 's \<Rightarrow> bool"
  assumes refl: "R s s"
    and trans: "R s t \<Longrightarrow> R t u \<Longrightarrow> R s u"
begin

lemma keeps_pure: "keeps R (\<lambda>s. (f s, s))"
  by (simp add: keeps_def refl)

lemma keeps_Pair: "keeps R (Pair x)"
  by (simp add: keeps_def refl)

lemma keeps_ignore: "keeps R (ignore_error e)"
  by (simp add: keeps_def ignore_error_def refl)

lemma keeps_st_then: "keeps R m \<Longrightarrow> (\<And>x. keeps R (f x)) \<Longrightarrow> keeps R (st_then m f)"
  by (auto simp: keeps_def st_then_def split: prod.splits sum.splits) (metis snd_conv trans)+

text \<open>The continuation may rely on what the first part returned.\<close>

lemma keeps_then_result: "keeps R m \<Longrightarrow> (\<And>x s t. m s = (Inr x, t) \<Longrightarrow> keeps R (f x)) \<Longrightarrow> keeps R (st_then m f)"
  by (auto simp: keeps_def st_then_def split: prod.splits sum.splits) (metis snd_conv trans)+

lemma keeps_catch: "keeps R m \<Longrightarrow> (\<And>e. keeps R (h e)) \<Longrightarrow> keeps R (catch_error m h)"
  by (auto simp: keeps_def catch_error_def split: prod.splits sum.splits) (metis snd_conv trans)+

lemma keeps_attempt: "keeps R m \<Longrightarrow> keeps R (attempt m)"
  by (auto simp: keeps_def attempt_def split: prod.splits sum.splits) (metis snd_conv)+

lemma keeps_for_each: "(\<And>x. x \<in> set xs \<Longrightarrow> keeps R (f x)) \<Longrightarrow> keeps R (for_each f xs)"
proof (induction xs)
  case Nil
  have "for_each f [] = Pair (Inr ())" by (rule ext) simp
  then show ?case by (simp add: keeps_Pair)
next
  case (Cons x xs)
  have "for_each f (x # xs) = st_then (f x) (\<lambda>_. for_each f xs)" by (rule ext) simp
  then show ?case using Cons by (auto intro!: keeps_st_then)
qed

lemma fold_keeps: "(\<And>x s. x \<in> set xs \<Longrightarrow> R s (f x s)) \<Longrightarrow> R s (fold f xs s)"
  by (induction xs arbitrary: s) (auto intro: refl trans)

lemmas operators = keeps_pure keeps_Pair keeps_ignore keeps_st_then keeps_catch keeps_attempt keeps_for_each

end

text \<open>Runs of a step relation on a component of the state are such a relation.\<close>

lemma state_order_steps: "state_order (\<lambda>s t. step\<^sup>*\<^sup>* (get s) (get t))"
  by unfold_locales auto

end
