(* ===== verification/Submissions.thy ===== *)
theory Submissions
  imports Stateful Execution_Properties
begin

text \<open>
  The submitted transactions of the execution store: no two rows share a transaction hash, the columns
  of a submitted transaction never change, and a row that was confirmed or failed is never touched
  again, whatever the server and its workers do.
\<close>

section \<open>Operations that leave the submissions alone\<close>

named_theorems sub_frames "operations that keep the table of submissions"

lemma append_event_subs [sub_frames]: "append_event db oid ty d k now = Inr db' \<Longrightarrow> execution_submissions db' = execution_submissions db"
  by (auto simp: append_event_def res_simps split: if_splits)

lemma enqueue_subs [sub_frames]: "enqueue_outbox db topic agg now = Inr db' \<Longrightarrow> execution_submissions db' = execution_submissions db"
  by (auto simp: enqueue_outbox_def res_simps split: if_splits)

lemma update_subs [simp]:
  "execution_submissions (update_orders db P f) = execution_submissions db"
  "execution_submissions (update_swaps db Q g) = execution_submissions db"
  "execution_submissions (update_batches db S h) = execution_submissions db"
  "execution_submissions (mark_delivered db topic agg t) = execution_submissions db"
  "execution_submissions (fail_proposed_swap oid t db) = execution_submissions db"
  by (simp_all add: update_orders_def update_swaps_def update_batches_def mark_delivered_def fail_proposed_swap_def)

lemma finalize_subs [sub_frames]: "finalize_batch_if_ready db b now = Inr (x, db') \<Longrightarrow> execution_submissions db' = execution_submissions db"
  by (auto simp: res_simps Let_def dest!: enqueue_subs split: if_splits)

lemma insert_order_subs [sub_frames]: "insert_order db oid cid n d now = Inr db' \<Longrightarrow> execution_submissions db' = execution_submissions db"
  by (auto simp: insert_order_def res_simps split: if_splits)

lemma claim_rows_subs [sub_frames]: "claim_rows rt w now cu db rows = Inr (ords, db') \<Longrightarrow> execution_submissions db' = execution_submissions db"
  by (induction rows arbitrary: db ords)
    (auto simp: claim_one_def res_simps Let_def dest!: append_event_subs split: prod.splits)

lemma fail_ids_subs [sub_frames]: "fail_ids ids reason now db = Inr (n, db') \<Longrightarrow> execution_submissions db' = execution_submissions db"
proof (induction ids arbitrary: db n)
  case (Cons oid ids)
  then show ?case
    by (auto simp: res_simps Let_def dest!: append_event_subs split: prod.splits if_splits)
qed simp

lemma batch_orders_subs [sub_frames]: "batch_orders w b ids now db = Inr db' \<Longrightarrow> execution_submissions db' = execution_submissions db"
  by (induction ids arbitrary: db) (auto simp: res_simps Let_def dest!: append_event_subs split: if_splits)

lemma insert_swaps_subs [sub_frames]: "insert_swaps ss now db = Inr db' \<Longrightarrow> execution_submissions db' = execution_submissions db"
proof (induction ss arbitrary: db)
  case (Cons s ss)
  then obtain db1 where s: "insert_proposed_swap db s now = Inr db1" "insert_swaps ss now db1 = Inr db'" by (auto simp: res_simps)
  have "execution_submissions db1 = execution_submissions db"
    using s(1) by (auto simp: insert_proposed_swap_def res_simps split: if_splits)
  with Cons.IH [OF s(2)] show ?case by simp
qed simp

lemma submit_orders_subs [sub_frames]: "submit_orders b h ids now db = Inr db' \<Longrightarrow> execution_submissions db' = execution_submissions db"
  by (induction ids arbitrary: db) (auto simp: res_simps Let_def dest!: append_event_subs split: if_splits)

lemma pre_submission_fail_subs [sub_frames]:
  "pre_submission_fail b w ids reason now db = Inr db' \<Longrightarrow> execution_submissions db' = execution_submissions db"
  by (induction ids arbitrary: db) (auto simp: res_simps Let_def dest!: append_event_subs split: if_splits)

lemma fail_remaining_subs [sub_frames]:
  "fail_remaining b ids reason now db = Inr (failed, db') \<Longrightarrow> execution_submissions db' = execution_submissions db"
  by (induction ids arbitrary: db failed) (auto simp: res_simps Let_def dest!: append_event_subs split: if_splits prod.splits)

lemma resolve_orders_subs [sub_frames]:
  "resolve_orders h cf reason ids now db = Inr db' \<Longrightarrow> execution_submissions db' = execution_submissions db"
  by (induction ids arbitrary: db) (auto simp: res_simps Let_def dest!: append_event_subs)

lemma upsert_pools_subs [sub_frames]: "upsert_pools ps now db = Inr db' \<Longrightarrow> execution_submissions db' = execution_submissions db"
  by (induction ps now db rule: upsert_pools.induct) (auto simp: upsert_pool_state_def res_simps Let_def)

lemma atomically_subs:
  assumes "\<And>x db'. tx db = Inr (x, db') \<Longrightarrow> execution_submissions db' = execution_submissions db"
  shows "execution_submissions (snd (atomically tx db)) = execution_submissions db"
  using assms by (auto simp: atomically_def split: sum.splits)

lemmas tx_defs = lease_tx_def admit_tx_def claim_tx_def fail_claimed_tx_def create_batch_tx_def insert_batch_def
  begin_reconciliation_tx_def claim_batch_tx_def lp_application_tx_def

lemma claim_pending_subs: "execution_submissions (snd (claim_pending_batch rt w now lease db)) = execution_submissions db"
proof -
  have 1: "execution_submissions (snd (atomically (claim_batch_tx w now lease) db)) = execution_submissions db" for db
    by (rule atomically_subs) (force simp: tx_defs res_simps Let_def neq_Nil_conv split: list.splits if_splits)
  have 2: "execution_submissions (snd (begin_reconciliation b w now db)) = execution_submissions db" for b db
    unfolding begin_reconciliation_def
    by (rule atomically_subs) (auto simp: tx_defs res_simps Let_def dest!: sub_frames split: if_splits prod.splits
        simp del: finalize_batch_if_ready.simps)
  obtain r db1 where a: "atomically (claim_batch_tx w now lease) db = (r, db1)" by fastforce
  have db1: "execution_submissions db1 = execution_submissions db" using 1 [of db] by (simp add: a)
  show ?thesis
    using db1 2 [of _ db1] by (auto simp: claim_pending_batch_def a split: sum.splits option.splits list.splits prod.splits)
      (metis snd_conv)+
qed


section \<open>How a submission changes\<close>

text \<open>The columns written once, when the transaction is submitted.\<close>

definition same_tx :: "submission_row \<Rightarrow> submission_row \<Rightarrow> bool" where
  "same_tx r q \<longleftrightarrow> es_tx_hash q = es_tx_hash r \<and> es_tx_id q = es_tx_id r \<and> es_batch_id q = es_batch_id r
     \<and> es_pool_id q = es_pool_id r \<and> es_order_ids q = es_order_ids r
     \<and> es_transaction_update q = es_transaction_update r
     \<and> es_expected_initial_state q = es_expected_initial_state r \<and> es_expected_final_state q = es_expected_final_state r
     \<and> es_expiration_height q = es_expiration_height r \<and> es_submitted_at q = es_submitted_at r"

definition sub_next :: "submission_row \<Rightarrow> submission_row \<Rightarrow> bool" where
  "sub_next r q \<longleftrightarrow> same_tx r q \<and> (es_state r \<noteq> SubSubmitted \<longrightarrow> q = r)"

lemma same_tx_refl [simp]: "same_tx r r"
  by (simp add: same_tx_def)

lemma same_tx_trans: "same_tx r q \<Longrightarrow> same_tx q p \<Longrightarrow> same_tx r p"
  by (simp add: same_tx_def)

lemma sub_next_refl [simp]: "sub_next r r"
  by (simp add: sub_next_def)

lemma sub_next_trans: "sub_next r q \<Longrightarrow> sub_next q p \<Longrightarrow> sub_next r p"
  by (auto simp: sub_next_def intro: same_tx_trans)

definition hashes_unique :: "execution_db \<Rightarrow> bool" where
  "hashes_unique db \<longleftrightarrow> distinct (map es_tx_hash (execution_submissions db))"

definition subs_evolve :: "execution_db \<Rightarrow> execution_db \<Rightarrow> bool" where
  "subs_evolve db db' \<longleftrightarrow> (hashes_unique db \<longrightarrow> hashes_unique db'
     \<and> (\<exists>old new. execution_submissions db' = old @ new \<and> list_all2 sub_next (execution_submissions db) old))"

lemma subs_evolve_append:
  assumes "execution_submissions db' = execution_submissions db @ new"
    and "distinct (map es_tx_hash new)" "\<forall>q\<in>set new. \<forall>r\<in>set (execution_submissions db). es_tx_hash r \<noteq> es_tx_hash q"
  shows "subs_evolve db db'"
proof -
  have "list_all2 sub_next (execution_submissions db) (execution_submissions db)" by (simp add: list_all2_same)
  then show ?thesis using assms by (auto simp: subs_evolve_def hashes_unique_def)
qed

lemma subs_evolve_refl [simp]: "execution_submissions db' = execution_submissions db \<Longrightarrow> subs_evolve db db'"
  by (rule subs_evolve_append [of _ _ "[]"]) simp_all

lemma subs_evolve_trans:
  assumes "subs_evolve a b" "subs_evolve b d" shows "subs_evolve a d"
  unfolding subs_evolve_def
proof (intro impI conjI)
  assume u: "hashes_unique a"
  obtain o1 n1 where 1: "hashes_unique b" "execution_submissions b = o1 @ n1" "list_all2 sub_next (execution_submissions a) o1"
    using assms(1) u by (auto simp: subs_evolve_def)
  obtain o2 n2 where 2: "hashes_unique d" "execution_submissions d = o2 @ n2" "list_all2 sub_next (o1 @ n1) o2"
    using assms(2) 1(1,2) by (auto simp: subs_evolve_def)
  then obtain p q where pq: "o2 = p @ q" "list_all2 sub_next o1 p" by (auto simp: list_all2_append1)
  show "hashes_unique d" by (rule 2)
  show "\<exists>old new. execution_submissions d = old @ new \<and> list_all2 sub_next (execution_submissions a) old"
    using 2(2) pq list_all2_trans [OF sub_next_trans 1(3) pq(2)] by auto
qed

lemma subs_evolve_update:
  assumes "\<And>r. r \<in> set (execution_submissions db) \<Longrightarrow> hashes_unique db \<Longrightarrow> P r \<Longrightarrow> sub_next r (f r)"
  shows "subs_evolve db (update_submissions db P f)"
  unfolding subs_evolve_def
proof (intro impI conjI)
  assume u: "hashes_unique db"
  have n: "list_all2 sub_next (execution_submissions db) (sql_update P f (execution_submissions db))"
    using assms u by (auto simp: sql_update_def list_all2_map2 list_all2_same)
  then have "map es_tx_hash (sql_update P f (execution_submissions db)) = map es_tx_hash (execution_submissions db)"
    by (induction rule: list_all2_induct) (auto simp: sub_next_def same_tx_def)
  then show "hashes_unique (update_submissions db P f)" using u by (simp add: hashes_unique_def update_submissions_def)
  show "\<exists>old new. execution_submissions (update_submissions db P f) = old @ new \<and> list_all2 sub_next (execution_submissions db) old"
    using n by (intro exI [of _ "sql_update P f (execution_submissions db)"] exI [of _ "[]"]) (simp add: update_submissions_def)
qed

lemma found_submission:
  assumes "find (\<lambda>r. es_tx_hash r = h \<and> es_state r = SubSubmitted) rows = Some row" "distinct (map es_tx_hash rows)"
    "r \<in> set rows" "es_tx_hash r = h"
  shows "r = row"
  using assms by (auto simp: find_Some_iff distinct_map inj_on_def)

lemma resolve_submission_subs:
  assumes "resolve_submission_tx h cf blk reason now db = Inr (x, db')"
  shows "db' = db \<and> \<not> x \<or> x \<and> (\<exists>row t. find (\<lambda>r. es_tx_hash r = h \<and> es_state r = SubSubmitted) (execution_submissions db) = Some row
    \<and> execution_submissions db' = sql_update (\<lambda>r. es_tx_hash r = h)
        (\<lambda>r. r\<lparr>es_state := (if cf then SubConfirmed else SubFailed), es_confirmed_block := blk, es_last_error := reason,
               es_updated_at := t\<rparr>) (execution_submissions db))"
  using assms
  by (auto simp: resolve_submission_tx_def res_simps Let_def update_submissions_def dest!: finalize_subs resolve_orders_subs
      split: option.splits prod.splits simp del: finalize_batch_if_ready.simps)

lemma resolve_submission_evolves: "subs_evolve db (snd (resolve_submission h cf blk reason now db))"
proof (cases "resolve_submission_tx h cf blk reason now db")
  case (Inr y)
  obtain x db' where y: "y = (x, db')" by fastforce
  from resolve_submission_subs [OF Inr [unfolded y]] show ?thesis
  proof
    assume "x \<and> (\<exists>row t. find (\<lambda>r. es_tx_hash r = h \<and> es_state r = SubSubmitted) (execution_submissions db) = Some row
      \<and> execution_submissions db' = sql_update (\<lambda>r. es_tx_hash r = h)
        (\<lambda>r. r\<lparr>es_state := (if cf then SubConfirmed else SubFailed), es_confirmed_block := blk, es_last_error := reason,
               es_updated_at := t\<rparr>) (execution_submissions db))"
    then obtain row f t where f: "find (\<lambda>r. es_tx_hash r = h \<and> es_state r = SubSubmitted) (execution_submissions db) = Some row"
      and db': "execution_submissions db' = sql_update (\<lambda>r. es_tx_hash r = h) f (execution_submissions db)"
      and fd: "f = (\<lambda>r. r\<lparr>es_state := (if cf then SubConfirmed else SubFailed), es_confirmed_block := blk, es_last_error := reason,
               es_updated_at := t\<rparr>)" by auto
    have "subs_evolve db (update_submissions db (\<lambda>r. es_tx_hash r = h) f)"
    proof (rule subs_evolve_update)
      fix r assume r: "r \<in> set (execution_submissions db)" "hashes_unique db" "es_tx_hash r = h"
      then have "r = row" using found_submission [OF f] by (simp add: hashes_unique_def)
      moreover have "es_state row = SubSubmitted" using f by (auto simp: find_Some_iff)
      ultimately show "sub_next r (f r)" by (simp add: sub_next_def same_tx_def fd)
    qed
    moreover have "execution_submissions (update_submissions db (\<lambda>r. es_tx_hash r = h) f) = execution_submissions db'"
      by (simp add: db' update_submissions_def)
    ultimately show ?thesis using Inr y by (simp add: resolve_submission_def atomically_def subs_evolve_def hashes_unique_def)
  qed (use Inr y in \<open>simp add: resolve_submission_def atomically_def\<close>)
qed (simp add: resolve_submission_def atomically_def)

lemma record_submission_evolves: "subs_evolve db (snd (record_submission b w sub now db))"
proof (cases "record_submission_tx b w sub now db")
  case (Inr y)
  then have "execution_submissions (snd y) = execution_submissions db
    \<or> (\<exists>q. execution_submissions (snd y) = execution_submissions db @ [q]
         \<and> (\<forall>r\<in>set (execution_submissions db). es_tx_hash r \<noteq> es_tx_hash q))"
    by (fastforce simp: record_submission_tx_def res_simps Let_def sql_simps dest!: submit_orders_subs split: if_splits)
  then have "subs_evolve db (snd y)"
  proof
    assume "\<exists>q. execution_submissions (snd y) = execution_submissions db @ [q]
         \<and> (\<forall>r\<in>set (execution_submissions db). es_tx_hash r \<noteq> es_tx_hash q)"
    then obtain q where "execution_submissions (snd y) = execution_submissions db @ [q]"
      "\<forall>r\<in>set (execution_submissions db). es_tx_hash r \<noteq> es_tx_hash q" by blast
    then show ?thesis by (intro subs_evolve_append [of _ _ "[q]"]) simp_all
  qed simp
  then show ?thesis using Inr by (simp add: record_submission_def atomically_def split_beta)
qed (simp add: record_submission_def atomically_def)

lemma attempt_evolves: "subs_evolve db (snd (record_reconciliation_attempt h err now db))"
  unfolding record_reconciliation_attempt_def atomically_def and_then_def
  by (auto intro!: subs_evolve_update simp: sub_next_def same_tx_def split: sum.splits)

lemma applied_evolves: "subs_evolve db (snd (mark_submission_local_applied h now db))"
  unfolding mark_submission_local_applied_def atomically_def and_then_def
  by (auto intro!: subs_evolve_update simp: sub_next_def same_tx_def split: sum.splits)


lemma exec_step_subs:
  assumes "exec_step cd limit db db'" shows "subs_evolve db db'"
  using assms
proof cases
  case (confirm h block now)
  then show ?thesis using resolve_submission_evolves by (simp add: confirm_submission_def)
next
  case (fail_tx h reason now)
  then show ?thesis using resolve_submission_evolves by (simp add: fail_submission_def)
next
  case (submit b worker sub now)
  then show ?thesis using record_submission_evolves by simp
next
  case (attempt h err now)
  then show ?thesis using attempt_evolves by simp
next
  case (applied h now)
  then show ?thesis using applied_evolves by simp
next
  case (claim_batch rt worker now lease_ms)
  then show ?thesis by (simp add: claim_pending_subs)
next
  case (admit cid commitment order now)
  then show ?thesis unfolding admit_order_with_limit_def
    by (intro subs_evolve_refl, simp, intro atomically_subs)
      (auto simp: tx_defs res_simps Let_def dest!: sub_frames split: option.splits if_splits)
next
  case (create worker b ords swaps now)
  then show ?thesis
    by (intro subs_evolve_refl) (auto simp: create_execution_batch_def tx_defs res_simps Let_def dest!: sub_frames
        intro!: atomically_subs split: if_splits)
next
  case (reconcile b worker now)
  then show ?thesis unfolding begin_reconciliation_def
    by (intro subs_evolve_refl, simp, intro atomically_subs)
      (auto simp: tx_defs res_simps Let_def dest!: sub_frames split: if_splits prod.splits simp del: finalize_batch_if_ready.simps)
next
  case (fail_ids ids reason now)
  then show ?thesis
    by (intro subs_evolve_refl) (auto simp: fail_orders_by_ids_def dest!: sub_frames intro!: atomically_subs)
next
  case (fail_stale is_stale reason now)
  then show ?thesis
    by (intro subs_evolve_refl) (auto simp: fail_stale_prebatch_orders_def fail_orders_by_ids_def split_beta dest!: sub_frames
        intro!: atomically_subs)
qed (auto simp: allocate_nonce_lease_def claim_admitted_orders_def fail_claimed_order_def mark_pre_submission_failed_def
    fail_remaining_batched_orders_def mark_outbox_delivered_def fail_swap_def save_pool_states_def save_lp_application_def
    tx_defs res_simps Let_def dest!: sub_frames intro!: subs_evolve_refl atomically_subs split: if_splits option.splits)


interpretation subs: state_order subs_evolve
  by unfold_locales (auto intro: subs_evolve_trans)

lemma exec_steps_subs: "(exec_step cd limit)\<^sup>*\<^sup>* db db' \<Longrightarrow> subs_evolve db db'"
  by (induction rule: rtranclp_induct) (auto intro: subs.trans dest: exec_step_subs)

interpretation exec_subs: state_machine "\<lambda>db. db = open_db" "exec_step cd limit" hashes_unique for cd limit
  by unfold_locales (auto simp: hashes_unique_def open_db_def subs_evolve_def dest!: exec_step_subs)

text \<open>
  C10: a submitted transaction is resolved once. From every reachable store on, whatever the server and
  its workers do, a submission keeps the columns it was submitted with and stays the only row with its
  hash; once it is confirmed or failed its row never changes again.
\<close>

theorem submission_resolved_once:
  assumes "exec_reachable cd limit db" "(exec_step cd limit)\<^sup>*\<^sup>* db db'" "r \<in> set (execution_submissions db)"
  shows "\<exists>q\<in>set (execution_submissions db'). same_tx r q \<and> (es_state r \<noteq> SubSubmitted \<longrightarrow> q = r)
    \<and> (\<forall>p\<in>set (execution_submissions db'). es_tx_hash p = es_tx_hash r \<longrightarrow> p = q)"
proof -
  have "hashes_unique db" using assms(1) by (rule exec_subs.reachable_inv)
  with exec_steps_subs [OF assms(2)] obtain old new where e: "hashes_unique db'" "execution_submissions db' = old @ new"
    "list_all2 sub_next (execution_submissions db) old"
    by (auto simp: subs_evolve_def)
  obtain q where q: "q \<in> set old" "sub_next r q"
    using e(3) assms(3) by (metis in_set_conv_nth list_all2_conv_all_nth)
  have "q \<in> set (execution_submissions db')" using q(1) e(2) by simp
  moreover have "p = q" if "p \<in> set (execution_submissions db')" "es_tx_hash p = es_tx_hash r" for p
    using e(1) calculation that q(2) unfolding hashes_unique_def distinct_map inj_on_def sub_next_def same_tx_def by metis
  ultimately show ?thesis using q(2) unfolding sub_next_def by blast
qed

section \<open>An example\<close>

definition example_sub :: submission_row where
  "example_sub = \<lparr>es_tx_hash = ''h'', es_tx_id = [1], es_batch_id = 77, es_pool_id = example_user, es_order_ids = [42],
     es_transaction_update = [2], es_expected_initial_state = [3], es_expected_final_state = [4],
     es_submission_height = 10, es_expiration_height = 20, es_state = SubSubmitted, es_local_applied = False,
     es_attempts = 0, es_last_error = None, es_submitted_at = 1005, es_updated_at = 1005, es_confirmed_block = None\<rparr>"

definition db_submitted :: execution_db where
  "db_submitted = db_taken\<lparr>
     durable_orders := [example_row\<lparr>do_state := OrdSubmitted, do_batch_id := Some 77, do_tx_hash := Some ''h'', do_updated_at := 1005\<rparr>],
     swap_accounting := map (\<lambda>r. r\<lparr>sw_status := SwSubmitted, sw_tx_hash := Some ''h''\<rparr>) (swap_accounting db_taken),
     execution_submissions := [example_sub],
     order_lifecycle_events := order_lifecycle_events db_taken @ [\<lparr>ev_order_id = 42, ev_type = ''submitted'',
       ev_detail = TextDetail ''h'', ev_dedupe_key = KSubmitted 42, ev_created_at = 1005\<rparr>]\<rparr>"

lemma run_submit: "record_submission 77 ''x'' example_sub 1005 db_taken = (Inr True, db_submitted)"
  by (simp add: record_submission_def record_submission_tx_def owned_claim_def has_order_def
      run_defs run_dbs db_taken_def db_submitted_def example_sub_def)

definition db_reconciling :: execution_db where
  "db_reconciling = db_submitted\<lparr>
     execution_batches := [\<lparr>eb_batch_id = 77, eb_payload = Json [example_entry], eb_state = Reconciling, eb_claim_owner = None,
       eb_claim_until = None, eb_terminal_error = None, eb_created_at = 1003, eb_updated_at = 1006\<rparr>]\<rparr>"

lemma run_begin: "begin_reconciliation 77 ''x'' 1006 db_submitted = (Inr True, db_reconciling)"
  by (simp add: begin_reconciliation_def begin_reconciliation_tx_def run_defs run_dbs db_taken_def db_submitted_def db_reconciling_def)

lemma reconciling_reachable: "exec_reachable example_codec 1 db_submitted" "exec_reachable example_codec 1 db_reconciling"
proof -
  have taken: "exec_reachable example_codec 1 db_taken" by (rule reachable.next_state [OF run_reachable(3) run_steps(5)])
  have "exec_step example_codec 1 db_taken db_submitted"
    using exec_step.submit [of example_codec 1 db_taken 77 "''x''" example_sub 1005] by (simp add: run_submit)
  with taken show 1: "exec_reachable example_codec 1 db_submitted" by (rule reachable.next_state)
  have "exec_step example_codec 1 db_submitted db_reconciling"
    using exec_step.reconcile [of example_codec 1 db_submitted 77 "''x''" 1006] by (simp add: run_begin)
  with 1 show "exec_reachable example_codec 1 db_reconciling" by (rule reachable.next_state)
qed

theorem submission_resolved_once_witness:
  "\<exists>q\<in>set (execution_submissions (snd (confirm_submission ''h'' 30 2000 db_reconciling))). same_tx example_sub q"
proof -
  let ?db = "snd (confirm_submission ''h'' 30 2000 db_reconciling)"
  have "(exec_step example_codec 1)\<^sup>*\<^sup>* db_reconciling ?db" by (rule r_into_rtranclp) (rule exec_step.confirm)
  from submission_resolved_once [OF reconciling_reachable(2) this, of example_sub]
  show ?thesis by (auto simp: db_reconciling_def db_submitted_def)
qed

end
