(* ===== verification/Outbox_Keys.thy ===== *)
theory Outbox_Keys
  imports Submissions
begin

text \<open>
  What makes an announcement unique: in every reachable execution store an outbox entry is the only one
  with its topic and aggregate (the unique index of the table), and the payload of a batch names each of
  its orders once (batching an order twice is refused, because the first time takes its claim).
\<close>

definition outbox_key :: "outbox_row \<Rightarrow> string \<times> uuid" where
  "outbox_key r = (ob_topic r, ob_aggregate_id r)"

definition named_once :: "durable_batch_order list \<Rightarrow> bool" where
  "named_once entries \<longleftrightarrow> distinct (map (\<lambda>e. dur_id (dbo_order e)) entries)"

text \<open>The columns it speaks of, and the invariant.\<close>

definition keys :: "execution_db \<Rightarrow> (string \<times> uuid) list \<times> durable_batch_order list payload list" where
  "keys db = (map outbox_key (execution_outbox db), map eb_payload (execution_batches db))"

definition keys_ok :: "(string \<times> uuid) list \<times> durable_batch_order list payload list \<Rightarrow> bool" where
  "keys_ok = (\<lambda>(outbox, payloads). distinct outbox \<and> (\<forall>entries. Json entries \<in> set payloads \<longrightarrow> named_once entries))"

abbreviation keyed :: "execution_db \<Rightarrow> bool" where
  "keyed db \<equiv> keys_ok (keys db)"

section \<open>Operations that keep keys and payloads\<close>

named_theorems key_frames "operations that keep outbox keys and batch payloads"

lemma map_sql_update_same: "(\<And>r. g (f r) = g r) \<Longrightarrow> map g (sql_update P f rows) = map g rows"
  by (simp add: sql_update_def)

lemma keyed_updates [simp]:
  "keys (update_orders db P f) = keys db"
  "keys (update_swaps db Q g) = keys db"
  "keys (update_submissions db S h) = keys db"
  "keys (mark_delivered db topic agg t) = keys db"
  "keys (fail_proposed_swap oid t db) = keys db"
  by (simp_all add: keys_def update_orders_def update_swaps_def update_submissions_def mark_delivered_def
      fail_proposed_swap_def map_sql_update_same outbox_key_def)

lemma keyed_update_batches [simp]: "(\<And>r. eb_payload (f r) = eb_payload r) \<Longrightarrow> keys (update_batches db P f) = keys db"
  by (simp add: keys_def update_batches_def map_sql_update_same)

lemma keyed_other_tables [simp]:
  "keys (db\<lparr>order_lifecycle_events := ta\<rparr>) = keys db" "keys (db\<lparr>durable_orders := tb\<rparr>) = keys db"
  "keys (db\<lparr>intent_reservations := tc\<rparr>) = keys db" "keys (db\<lparr>swap_accounting := td\<rparr>) = keys db"
  "keys (db\<lparr>pool_snapshots := te\<rparr>) = keys db" "keys (db\<lparr>applied_lp_notes := tf\<rparr>) = keys db"
  "keys (db\<lparr>user_nonce_allocators := tg, nonce_leases := th\<rparr>) = keys db" "keys (db\<lparr>execution_submissions := ti\<rparr>) = keys db"
  by (simp_all add: keys_def)

lemma keyed_append_event [key_frames]: "append_event db oid ty d k now = Inr db' \<Longrightarrow> keys db' = keys db"
  by (auto simp: append_event_def res_simps split: if_splits)

lemma keyed_insert_order [key_frames]: "insert_order db oid cid n d now = Inr db' \<Longrightarrow> keys db' = keys db"
  by (auto simp: insert_order_def res_simps split: if_splits)

lemma keyed_claim_rows [key_frames]: "claim_rows rt w now cu db rows = Inr (ords, db') \<Longrightarrow> keys db' = keys db"
  by (induction rows arbitrary: db ords)
    (auto simp: claim_one_def res_simps Let_def dest!: keyed_append_event split: prod.splits)

lemma keyed_fail_ids [key_frames]: "fail_ids ids reason now db = Inr (n, db') \<Longrightarrow> keys db' = keys db"
  by (induction ids arbitrary: db n) (auto simp: res_simps Let_def dest!: keyed_append_event split: prod.splits if_splits)

lemma keyed_batch_orders [key_frames]: "batch_orders w b ids now db = Inr db' \<Longrightarrow> keys db' = keys db"
  by (induction ids arbitrary: db) (auto simp: res_simps Let_def dest!: keyed_append_event split: if_splits)

lemma keyed_insert_swaps [key_frames]: "insert_swaps ss now db = Inr db' \<Longrightarrow> keys db' = keys db"
proof (induction ss arbitrary: db)
  case (Cons s ss)
  then obtain db1 where s: "insert_proposed_swap db s now = Inr db1" "insert_swaps ss now db1 = Inr db'" by (auto simp: res_simps)
  have "keys db1 = keys db" using s(1) by (auto simp: insert_proposed_swap_def res_simps split: if_splits)
  with Cons.IH [OF s(2)] show ?case by simp
qed simp

lemma keyed_submit_orders [key_frames]: "submit_orders b h ids now db = Inr db' \<Longrightarrow> keys db' = keys db"
  by (induction ids arbitrary: db) (auto simp: res_simps Let_def dest!: keyed_append_event split: if_splits)

lemma keyed_pre_submission_fail [key_frames]: "pre_submission_fail b w ids reason now db = Inr db' \<Longrightarrow> keys db' = keys db"
  by (induction ids arbitrary: db) (auto simp: res_simps Let_def dest!: keyed_append_event split: if_splits)

lemma keyed_fail_remaining [key_frames]: "fail_remaining b ids reason now db = Inr (failed, db') \<Longrightarrow> keys db' = keys db"
  by (induction ids arbitrary: db failed) (auto simp: res_simps Let_def dest!: keyed_append_event split: if_splits prod.splits)

lemma keyed_resolve_orders [key_frames]: "resolve_orders h cf reason ids now db = Inr db' \<Longrightarrow> keys db' = keys db"
  by (induction ids arbitrary: db) (auto simp: res_simps Let_def dest!: keyed_append_event)

lemma keyed_upsert_pools [key_frames]: "upsert_pools ps now db = Inr db' \<Longrightarrow> keys db' = keys db"
  by (induction ps now db rule: upsert_pools.induct) (auto simp: upsert_pool_state_def res_simps Let_def)

section \<open>Operations that add a key or a payload\<close>

lemma keyed_enqueue: "enqueue_outbox db topic agg now = Inr db' \<Longrightarrow> keyed db \<Longrightarrow> keyed db'"
  by (auto simp: enqueue_outbox_def res_simps keys_ok_def keys_def outbox_key_def sql_exists_iff split: if_splits)

lemma keyed_finalize: "finalize_batch_if_ready db b now = Inr (x, db') \<Longrightarrow> keyed db \<Longrightarrow> keyed db'"
  by (auto simp: res_simps Let_def dest!: keyed_enqueue split: if_splits)

lemma keyed_insert_batch: "insert_batch b entries now db = Inr db' \<Longrightarrow> named_once entries \<Longrightarrow> keyed db \<Longrightarrow> keyed db'"
  by (auto simp: insert_batch_def res_simps Let_def keys_ok_def keys_def split: if_splits)

text \<open>An order that was batched is no longer claimed, so it cannot be batched again.\<close>

abbreviation claimed_by :: "string \<Rightarrow> uuid \<Rightarrow> order_row \<Rightarrow> bool" where
  "claimed_by w oid \<equiv> \<lambda>r. do_order_id r = oid \<and> do_state r = ProcessingClaimed \<and> do_claim_owner r = Some w"

lemma batch_orders_step:
  assumes "batch_orders w b (q # ids) now db = Inr db'"
  shows "\<exists>db2. sql_count (claimed_by w q) (durable_orders db) = 1 \<and> batch_orders w b ids now db2 = Inr db'
    \<and> (\<forall>r\<in>set (durable_orders db2). \<not> claimed_by w q r) \<and> (\<forall>oid. (\<forall>r\<in>set (durable_orders db). \<not> claimed_by w oid r)
          \<longrightarrow> (\<forall>r\<in>set (durable_orders db2). \<not> claimed_by w oid r))"
proof -
  obtain t where t: "to_i64 now = Inr t" using assms by (cases "to_i64 now") auto
  let ?db1 = "update_orders db (claimed_by w q) (\<lambda>r. r\<lparr>do_state := Batched, do_batch_id := Some b,
                 do_claim_owner := None, do_claim_until := None, do_updated_at := t\<rparr>)"
  have n: "sql_count (claimed_by w q) (durable_orders db) = 1"
    and "and_then (append_event ?db1 q ''batched'' (BatchDetail b) (KBatched q) now) (batch_orders w b ids now) = Inr db'"
    using assms by (simp_all add: t Let_def split: if_splits)
  then obtain db2 where s: "append_event ?db1 q ''batched'' (BatchDetail b) (KBatched q) now = Inr db2"
    and rest: "batch_orders w b ids now db2 = Inr db'" by (auto simp: and_then_Inr)
  have "durable_orders db2 = durable_orders ?db1"
    using s by (auto simp: append_event_def res_simps split: if_splits)
  then have gone: "claimed_by w oid r \<longrightarrow> r \<in> set (durable_orders db) \<and> oid \<noteq> q" if "r \<in> set (durable_orders db2)" for r oid
    using that by (auto simp: update_orders_def sql_simps split: if_splits)
  show ?thesis using n rest gone by (intro exI [of _ db2] conjI) blast+
qed

lemma batch_orders_refuses:
  "batch_orders w b ids now db = Inr db' \<Longrightarrow> \<forall>r\<in>set (durable_orders db). \<not> claimed_by w oid r \<Longrightarrow> oid \<notin> set ids"
proof (induction ids arbitrary: db)
  case (Cons q ids)
  obtain db2 where n: "sql_count (claimed_by w q) (durable_orders db) = 1" and rest: "batch_orders w b ids now db2 = Inr db'"
    and k: "\<forall>r\<in>set (durable_orders db2). \<not> claimed_by w oid r"
    using batch_orders_step [OF Cons.prems(1)] Cons.prems(2) by blast
  have "q \<noteq> oid" using n Cons.prems(2) sql_count_0_iff [of "claimed_by w oid" "durable_orders db"] by auto
  then show ?case using Cons.IH [OF rest k] by simp
qed simp

lemma batch_orders_distinct: "batch_orders w b ids now db = Inr db' \<Longrightarrow> distinct ids"
proof (induction ids arbitrary: db)
  case (Cons q ids)
  obtain db2 where "batch_orders w b ids now db2 = Inr db'" "\<forall>r\<in>set (durable_orders db2). \<not> claimed_by w q r"
    using batch_orders_step [OF Cons.prems] by blast
  then show ?case using batch_orders_refuses Cons.IH by simp
qed simp

section \<open>The invariant\<close>

lemma atomically_keyed:
  assumes "\<And>x db'. tx db = Inr (x, db') \<Longrightarrow> keyed db'" "keyed db"
  shows "keyed (snd (atomically tx db))"
  using assms by (auto simp: atomically_def split: sum.splits)

lemma keyed_create:
  assumes "create_batch_tx w b entries swaps now db = Inr (x, db')" "keyed db"
  shows "keyed db'"
proof -
  obtain db1 db2 db3 where s: "batch_orders w b (map (\<lambda>e. dur_id (dbo_order e)) entries) now db = Inr db1"
    "insert_swaps swaps now db1 = Inr db2" "insert_batch b entries now db2 = Inr db3" "enqueue_outbox db3 ''batch_pending'' b now = Inr db'"
    using assms(1) by (auto simp: create_batch_tx_def res_simps)
  have "keyed db2" using assms(2) keyed_batch_orders [OF s(1)] keyed_insert_swaps [OF s(2)] by simp
  moreover have "named_once entries" using batch_orders_distinct [OF s(1)] by (simp add: named_once_def)
  ultimately have "keyed db3" using keyed_insert_batch [OF s(3)] by blast
  then show ?thesis using keyed_enqueue [OF s(4)] by blast
qed

lemma keyed_begin:
  assumes "keyed db" shows "keyed (snd (begin_reconciliation b w now db))"
  unfolding begin_reconciliation_def
  by (rule atomically_keyed [OF _ assms])
    (use assms in \<open>auto simp: begin_reconciliation_tx_def res_simps Let_def dest!: keyed_finalize split: if_splits prod.splits
      simp del: finalize_batch_if_ready.simps\<close>)

lemma keyed_claim_pending:
  assumes "keyed db" shows "keyed (snd (claim_pending_batch rt w now lease db))"
proof -
  have 1: "keyed (snd (atomically (claim_batch_tx w now lease) db))"
    by (rule atomically_keyed [OF _ assms])
      (use assms in \<open>force simp: claim_batch_tx_def res_simps Let_def neq_Nil_conv split: list.splits if_splits\<close>)
  obtain r db1 where a: "atomically (claim_batch_tx w now lease) db = (r, db1)" by fastforce
  have "keyed db1" using 1 by (simp add: a)
  with keyed_begin [of db1] show ?thesis
    by (auto simp: claim_pending_batch_def a split: sum.splits option.splits list.splits prod.splits) (metis snd_conv)+
qed

lemma keyed_resolve:
  assumes "keyed db" shows "keyed (snd (resolve_submission h cf blk reason now db))"
  unfolding resolve_submission_def
  by (rule atomically_keyed [OF _ assms])
    (use assms in \<open>auto simp: resolve_submission_tx_def res_simps Let_def dest!: keyed_finalize key_frames
      split: option.splits prod.splits simp del: finalize_batch_if_ready.simps\<close>)

lemma keyed_outbox_delivered:
  assumes "keyed db" shows "keyed (snd (mark_outbox_delivered i now db))"
proof -
  have "map outbox_key (xs[j := (xs ! j)\<lparr>ob_delivered_at := x\<rparr>]) = map outbox_key xs" for xs j x
  proof (cases "j < length xs")
    case True
    then show ?thesis by (intro nth_equalityI) (auto simp: nth_list_update outbox_key_def)
  qed (simp add: list_update_beyond)
  then show ?thesis using assms by (auto simp: mark_outbox_delivered_def atomically_def and_then_def keys_ok_def keys_def split: sum.splits)
qed

lemma exec_step_keyed:
  assumes "exec_step cd limit db db'" "keyed db" shows "keyed db'"
  using assms(1)
proof cases
  case (admit cid commitment order now)
  then show ?thesis unfolding admit_order_with_limit_def
    by simp (rule atomically_keyed [OF _ assms(2)],
      use assms(2) in \<open>auto simp: admit_tx_def res_simps Let_def dest!: keyed_enqueue key_frames split: option.splits if_splits\<close>)
next
  case (create worker b ords swaps now)
  then show ?thesis using assms(2)
    by (auto simp: create_execution_batch_def intro!: atomically_keyed dest: keyed_create)
next
  case (claim_batch rt worker now lease_ms)
  then show ?thesis using keyed_claim_pending [OF assms(2)] by simp
next
  case (reconcile b worker now)
  then show ?thesis using keyed_begin [OF assms(2)] by simp
next
  case (confirm h block now)
  then show ?thesis using keyed_resolve [OF assms(2)] by (simp add: confirm_submission_def)
next
  case (fail_tx h reason now)
  then show ?thesis using keyed_resolve [OF assms(2)] by (simp add: fail_submission_def)
next
  case (delivered i now)
  then show ?thesis using keyed_outbox_delivered [OF assms(2)] by simp
next
  case (fail_stale is_stale reason now)
  then show ?thesis using assms(2)
    by (auto simp: fail_stale_prebatch_orders_def fail_orders_by_ids_def split_beta dest!: keyed_fail_ids intro!: atomically_keyed)
next
  case (fail_ids ids reason now)
  then show ?thesis using assms(2) by (auto simp: fail_orders_by_ids_def dest!: keyed_fail_ids intro!: atomically_keyed)
qed (use assms(2) in \<open>auto simp: allocate_nonce_lease_def claim_admitted_orders_def fail_claimed_order_def mark_pre_submission_failed_def
    fail_remaining_batched_orders_def fail_swap_def save_pool_states_def save_lp_application_def record_submission_def
    record_submission_tx_def mark_submission_local_applied_def record_reconciliation_attempt_def
    tx_defs res_simps Let_def dest!: key_frames intro!: atomically_keyed split: if_splits option.splits\<close>)

interpretation exec_keys: state_machine "\<lambda>db. db = open_db" "exec_step cd limit" keyed for cd limit
  by unfold_locales (auto simp: keys_ok_def keys_def open_db_def dest: exec_step_keyed)

text \<open>At most one pending entry, and no two orders of a batch, look alike.\<close>

lemma entry_unique:
  assumes "keyed db" "j < length (execution_outbox db)" "k < length (execution_outbox db)"
    "ob_topic (execution_outbox db ! j) = ob_topic (execution_outbox db ! k)"
    "ob_aggregate_id (execution_outbox db ! j) = ob_aggregate_id (execution_outbox db ! k)"
  shows "j = k"
proof -
  have "distinct (map outbox_key (execution_outbox db))" using assms(1) by (simp add: keys_ok_def keys_def)
  moreover have "map outbox_key (execution_outbox db) ! j = map outbox_key (execution_outbox db) ! k"
    using assms(2-5) by (simp add: outbox_key_def)
  ultimately show ?thesis using assms(2,3) nth_eq_iff_index_eq [of "map outbox_key (execution_outbox db)" j k] by simp
qed

end
