(* ===== verification/Finality_Observer.thy ===== *)
theory Finality_Observer
  imports Stateful Processing Execution_Properties
begin

text \<open>
  The finality observer (\<open>src/src/finality_observer.rs\<close>): it watches submitted transactions with a Miden
  client per pool shard, confirms or fails them in the execution store and announces finished batches.
  The Miden client is not part of the repository: a client is a value of a type variable, its calls
  are fields of \<open>chain\<close>. A transaction id is its canonical bytes. A hash set of pools is visited in the
  order the pools first occur; the clock is read once per round.
\<close>

section \<open>State\<close>

datatype transaction_status = TxCommitted u32 | TxDiscarded string | TxPending

record transaction_record =
  tr_id :: bytes
  tr_account_id :: account_id
  tr_init_account_state :: bytes
  tr_final_account_state :: bytes
  tr_status :: transaction_status

record ('cl, 'upd) chain =
  ch_attach :: "account_id \<Rightarrow> 'cl result"
  ch_read_tx_id :: "bytes \<Rightarrow> bytes result"
  ch_read_update :: "bytes \<Rightarrow> 'upd result"
  ch_get_transactions :: "'cl \<Rightarrow> bytes \<Rightarrow> transaction_record list result"
  ch_apply_update :: "'cl \<Rightarrow> 'upd \<Rightarrow> (error + unit) \<times> 'cl"
  ch_sync_state :: "'cl \<Rightarrow> (error + u32) \<times> 'cl"
  ch_deployment :: "account_id list result"
  ch_error_text :: "error \<Rightarrow> string"
  ch_retry_ms :: "u64 option"
  ch_retry_secs :: "u64 option"
  ch_max_attempts :: "u32 option"
  ch_timeout_secs :: "u64 option"

record ('sg, 'pk, 'cl) observer =
  pool_clients :: "account_id \<rightharpoonup> 'cl"
  fo_store :: execution_db
  fo_registry :: pool_registry
  fo_sent :: "('sg, 'pk) engine_event list"

definition fo_exec ::
  "(execution_db \<Rightarrow> (error + 'a) \<times> execution_db) \<Rightarrow> ('sg, 'pk, 'cl) observer \<Rightarrow> (error + 'a) \<times> ('sg, 'pk, 'cl) observer" where
  "fo_exec f s = (case f (fo_store s) of (r, db) \<Rightarrow> (r, s\<lparr>fo_store := db\<rparr>))"

definition finality_retry_millis :: "('cl, 'upd) chain \<Rightarrow> u64" where
  "finality_retry_millis ch =
     (case ch_retry_ms ch of
        Some ms \<Rightarrow> ms
      | None \<Rightarrow> (case ch_retry_secs ch of Some secs \<Rightarrow> sat_mul secs 1000 | None \<Rightarrow> 500))"

section \<open>Attaching pools\<close>

definition ensure_pool_attached ::
  "('cl, 'upd) chain \<Rightarrow> account_id \<Rightarrow> ('sg, 'pk, 'cl) observer \<Rightarrow> (error + unit) \<times> ('sg, 'pk, 'cl) observer" where
  "ensure_pool_attached ch p s =
     (if pool_clients s p \<noteq> None
      then (Inr (), s\<lparr>fo_registry := acknowledge p Finality (fo_registry s)\<rparr>)
      else
        case (if registry_contains (fo_registry s) p then (Inr True, fo_registry s)
              else ensure_from_deployment (ch_deployment ch) p (fo_registry s)) of
          (Inl e, r) \<Rightarrow> (Inl e, s\<lparr>fo_registry := r\<rparr>)
        | (Inr False, r) \<Rightarrow> (Inl (Anyhow ''submission references unlisted pool''), s\<lparr>fo_registry := r\<rparr>)
        | (Inr True, r) \<Rightarrow>
            (case ch_attach ch p of
               Inl e \<Rightarrow> (Inl e, s\<lparr>fo_registry := r\<rparr>)
             | Inr cl \<Rightarrow>
                 (Inr (), s\<lparr>pool_clients := (pool_clients s)(p \<mapsto> cl), fo_registry := acknowledge p Finality r\<rparr>)))"

definition attach_pending_pools ::
  "('cl, 'upd) chain \<Rightarrow> ('sg, 'pk, 'cl) observer \<Rightarrow> (error + unit) \<times> ('sg, 'pk, 'cl) observer" where
  "attach_pending_pools ch s =
     for_each (\<lambda>p. catch_error (ensure_pool_attached ch p) ignore_error) (pending_attach (fo_registry s)) s"

text \<open>The observer starts with a client for every pool of the registry.\<close>

fun attach_all :: "('cl, 'upd) chain \<Rightarrow> account_id list \<Rightarrow> (account_id \<rightharpoonup> 'cl) \<Rightarrow> (account_id \<rightharpoonup> 'cl) result" where
  "attach_all ch [] m = Inr m"
| "attach_all ch (p # ps) m = and_then (ch_attach ch p) (\<lambda>cl. attach_all ch ps (m(p \<mapsto> cl)))"

definition initialize ::
  "('cl, 'upd) chain \<Rightarrow> execution_db \<Rightarrow> pool_registry \<Rightarrow> ('sg, 'pk, 'cl) observer result" where
  "initialize ch db r =
     and_then (attach_all ch (reg_pools r) Map.empty) (\<lambda>m.
       Inr \<lparr>pool_clients = m, fo_store = db, fo_registry = r, fo_sent = []\<rparr>)"

section \<open>Reconciling submissions\<close>

definition due_submission :: "u64 \<Rightarrow> u64 \<Rightarrow> submission_row \<Rightarrow> bool" where
  "due_submission retry now r \<longleftrightarrow> retry \<le> sat_sub now (word_of_int (es_updated_at r))"

definition record_attempt ::
  "string option \<Rightarrow> u64 \<Rightarrow> submission_row \<Rightarrow> ('sg, 'pk, 'cl) observer \<Rightarrow> (error + unit) \<times> ('sg, 'pk, 'cl) observer" where
  "record_attempt err now r = fo_exec (record_reconciliation_attempt (es_tx_hash r) err now)"

definition fail_tx ::
  "string \<Rightarrow> u64 \<Rightarrow> submission_row \<Rightarrow> ('sg, 'pk, 'cl) observer \<Rightarrow> (error + unit) \<times> ('sg, 'pk, 'cl) observer" where
  "fail_tx reason now r = st_then (fo_exec (fail_submission (es_tx_hash r) reason now)) (\<lambda>_ s. (Inr (), s))"

definition attach_for ::
  "('cl, 'upd) chain \<Rightarrow> u64 \<Rightarrow> submission_row list \<Rightarrow> account_id \<Rightarrow> ('sg, 'pk, 'cl) observer
     \<Rightarrow> (error + unit) \<times> ('sg, 'pk, 'cl) observer" where
  "attach_for ch now subs p =
     catch_error (ensure_pool_attached ch p)
       (\<lambda>e. for_each (record_attempt (Some (''attach finality client: '' @ ch_error_text ch e)) now)
              (filter (\<lambda>r. es_pool_id r = p) subs))"

text \<open>Seeding the client's store with a submission it does not track yet; \<open>True\<close> when the submission is
  to be skipped in this round.\<close>

definition seed_one ::
  "('cl, 'upd) chain \<Rightarrow> u64 \<Rightarrow> submission_row \<Rightarrow> ('sg, 'pk, 'cl) observer \<Rightarrow> (error + bool) \<times> ('sg, 'pk, 'cl) observer" where
  "seed_one ch now r s =
     (case ch_read_tx_id ch (es_tx_id r) of
        Inl e \<Rightarrow>
          st_then (fail_tx (''persisted transaction id is invalid: '' @ ch_error_text ch e) now r) (\<lambda>_ s. (Inr True, s)) s
      | Inr tx_id \<Rightarrow>
          (case pool_clients s (es_pool_id r) of
             None \<Rightarrow> (Inr True, s)
           | Some cl \<Rightarrow>
               (case ch_get_transactions ch cl tx_id of
                  Inl e \<Rightarrow> (Inl e, s)
                | Inr recs \<Rightarrow>
                    if \<exists>rec\<in>set recs. tr_id rec = tx_id then (Inr False, s)
                    else
                      (case ch_read_update ch (es_transaction_update r) of
                         Inl e \<Rightarrow>
                           st_then (fail_tx (''persisted transaction update is invalid: '' @ ch_error_text ch e) now r)
                             (\<lambda>_ s. (Inr True, s)) s
                       | Inr upd \<Rightarrow>
                           (case ch_apply_update ch cl upd of
                              (res, cl') \<Rightarrow>
                                let s' = s\<lparr>pool_clients := (pool_clients s)(es_pool_id r \<mapsto> cl')\<rparr>
                                in case res of
                                     Inr _ \<Rightarrow> (Inr False, s')
                                   | Inl e \<Rightarrow>
                                       st_then (record_attempt (Some (''finality apply: '' @ ch_error_text ch e)) now r)
                                         (\<lambda>_ s. (Inr True, s)) s')))))"

fun seed_all_submissions ::
  "('cl, 'upd) chain \<Rightarrow> u64 \<Rightarrow> submission_row list \<Rightarrow> ('sg, 'pk, 'cl) observer \<Rightarrow> (error + string list) \<times> ('sg, 'pk, 'cl) observer" where
  "seed_all_submissions ch now [] s = (Inr [], s)"
| "seed_all_submissions ch now (r # rs) s =
     st_then (seed_one ch now r) (\<lambda>skip.
     st_then (seed_all_submissions ch now rs) (\<lambda>rest s.
       (Inr (if skip then es_tx_hash r # rest else rest), s))) s"

text \<open>Synchronising the pools of the submissions that are not skipped: the block each one reached.\<close>

fun sync_pools_of ::
  "('cl, 'upd) chain \<Rightarrow> u64 \<Rightarrow> submission_row list \<Rightarrow> account_id list \<Rightarrow> ('sg, 'pk, 'cl) observer
     \<Rightarrow> (error + (account_id \<times> u32) list) \<times> ('sg, 'pk, 'cl) observer" where
  "sync_pools_of ch now subs [] s = (Inr [], s)"
| "sync_pools_of ch now subs (p # ps) s =
     (case pool_clients s p of
        None \<Rightarrow> sync_pools_of ch now subs ps s
      | Some cl \<Rightarrow>
          (case ch_sync_state ch cl of
             (res, cl') \<Rightarrow>
               let s' = s\<lparr>pool_clients := (pool_clients s)(p \<mapsto> cl')\<rparr>
               in case res of
                    Inr block \<Rightarrow> st_then (sync_pools_of ch now subs ps) (\<lambda>rest s. (Inr ((p, block) # rest), s)) s'
                  | Inl e \<Rightarrow>
                      st_then (for_each (record_attempt (Some (''sync: '' @ ch_error_text ch e)) now)
                          (filter (\<lambda>r. es_pool_id r = p) subs))
                        (\<lambda>_. sync_pools_of ch now subs ps) s'))"

definition max_attempts :: "('cl, 'upd) chain \<Rightarrow> u32" where
  "max_attempts ch = or_default (ch_max_attempts ch) 900"

definition timeout_ms :: "('cl, 'upd) chain \<Rightarrow> u64" where
  "timeout_ms ch = sat_mul (or_default (ch_timeout_secs ch) 1800) 1000"

definition timed_out :: "('cl, 'upd) chain \<Rightarrow> u64 \<Rightarrow> submission_row \<Rightarrow> bool" where
  "timed_out ch now r \<longleftrightarrow> max_attempts ch \<le> sat_add (word_of_int (es_attempts r)) 1
     \<or> timeout_ms ch \<le> sat_sub now (word_of_int (es_submitted_at r))"

definition commitments_match :: "submission_row \<Rightarrow> transaction_record \<Rightarrow> bool" where
  "commitments_match r rec \<longleftrightarrow> tr_account_id rec = es_pool_id r
     \<and> tr_init_account_state rec = es_expected_initial_state r
     \<and> tr_final_account_state rec = es_expected_final_state r"

definition resolve_record ::
  "('cl, 'upd) chain \<Rightarrow> u64 \<Rightarrow> u32 \<Rightarrow> submission_row \<Rightarrow> transaction_record \<Rightarrow> ('sg, 'pk, 'cl) observer
     \<Rightarrow> (error + unit) \<times> ('sg, 'pk, 'cl) observer" where
  "resolve_record ch now synced r rec =
     (case tr_status rec of
        TxCommitted block \<Rightarrow>
          if commitments_match r rec
          then st_then (fo_exec (confirm_submission (es_tx_hash r) block now)) (\<lambda>_ s. (Inr (), s))
          else fail_tx ''committed transaction account commitments do not match submission'' now r
      | TxDiscarded cause \<Rightarrow> fail_tx (''Miden discarded transaction: '' @ cause) now r
      | TxPending \<Rightarrow>
          st_then (record_attempt None now r) (\<lambda>_.
            if sat_add (es_expiration_height r) 20 < synced \<or> timed_out ch now r
            then fail_tx ''confirmation timeout while Miden transaction remained pending'' now r
            else Pair (Inr ())))"

definition resolve_one ::
  "('cl, 'upd) chain \<Rightarrow> u64 \<Rightarrow> (account_id \<times> u32) list \<Rightarrow> submission_row \<Rightarrow> ('sg, 'pk, 'cl) observer
     \<Rightarrow> (error + unit) \<times> ('sg, 'pk, 'cl) observer" where
  "resolve_one ch now synced r s =
     (case ch_read_tx_id ch (es_tx_id r) of
        Inl e \<Rightarrow> fail_tx (''persisted transaction id is invalid: '' @ ch_error_text ch e) now r s
      | Inr tx_id \<Rightarrow>
          (case pool_clients s (es_pool_id r) of
             None \<Rightarrow> record_attempt (Some ''no finality client for submission pool'') now r s
           | Some cl \<Rightarrow>
               (case map_of synced (es_pool_id r) of
                  None \<Rightarrow> (Inr (), s)
                | Some block \<Rightarrow>
                    (case ch_get_transactions ch cl tx_id of
                       Inl e \<Rightarrow> (Inl e, s)
                     | Inr recs \<Rightarrow>
                         (case find (\<lambda>rec. tr_id rec = tx_id) recs of
                            Some rec \<Rightarrow> resolve_record ch now block r rec s
                          | None \<Rightarrow>
                              st_then (record_attempt (Some ''transaction is not present in local client store'') now r) (\<lambda>_.
                                if timed_out ch now r
                                then fail_tx ''confirmation timeout before transaction became observable'' now r
                                else Pair (Inr ())) s)))))"

text \<open>One round over the submissions that are due.\<close>

definition reconcile_due ::
  "('cl, 'upd) chain \<Rightarrow> u64 \<Rightarrow> submission_row list \<Rightarrow> ('sg, 'pk, 'cl) observer \<Rightarrow> (error + unit) \<times> ('sg, 'pk, 'cl) observer" where
  "reconcile_due ch now subs =
     st_then (for_each (attach_for ch now subs) (remdups (map es_pool_id subs))) (\<lambda>_.
     st_then (seed_all_submissions ch now subs) (\<lambda>skip.
       let kept = filter (\<lambda>r. es_tx_hash r \<notin> set skip) subs
       in st_then (sync_pools_of ch now kept (remdups (map es_pool_id kept))) (\<lambda>synced.
            if synced = [] then Pair (Inr ()) else for_each (resolve_one ch now synced) kept)))"

definition reconcile_submissions ::
  "('cl, 'upd) chain \<Rightarrow> u64 \<Rightarrow> ('sg, 'pk, 'cl) observer \<Rightarrow> (error + unit) \<times> ('sg, 'pk, 'cl) observer" where
  "reconcile_submissions ch now s =
     (case submitted_transactions (fo_store s) of
        Inl e \<Rightarrow> (Inl e, s)
      | Inr rows \<Rightarrow>
          let subs = filter (due_submission (finality_retry_millis ch) now) rows
          in if subs = [] then (Inr (), s) else reconcile_due ch now subs s)"

section \<open>Announcing finished batches\<close>

definition outcome_update ::
  "date_time \<Rightarrow> ('sg, 'pk, processed) order \<Rightarrow> batch_order_outcome \<Rightarrow> ('sg, 'pk) order_update" where
  "outcome_update now ord out =
     (if outcome_error out \<noteq> None then UFailed (processed_failed now ExecutionError None ord)
      else UConfirmed (processed_confirmed now now (or_default (outcome_tx_hash out) []) ord))"

fun outcome_updates ::
  "date_time \<Rightarrow> (uuid \<rightharpoonup> ('sg, 'pk, processed) order) \<Rightarrow> batch_order_outcome list \<Rightarrow> ('sg, 'pk) order_update list" where
  "outcome_updates now by_id [] = []"
| "outcome_updates now by_id (out # outs) =
     (case by_id (outcome_order_id out) of
        None \<Rightarrow> outcome_updates now by_id outs
      | Some ord \<Rightarrow> outcome_update now ord out # outcome_updates now by_id outs)"

definition orders_by_id :: "('sg, 'pk, 'st) order list \<Rightarrow> uuid \<rightharpoonup> ('sg, 'pk, 'st) order" where
  "orders_by_id ords = map_of (rev (map (\<lambda>ord. (order_id ord, ord)) ords))"

definition batch_notifications ::
  "date_time \<Rightarrow> ('sg, 'pk, processed) order list \<Rightarrow> batch_order_outcome list \<Rightarrow> ('sg, 'pk) engine_event list" where
  "batch_notifications now ords outs =
     map EvOrder (outcome_updates now (orders_by_id ords) outs)
     @ (if \<exists>out\<in>set outs. outcome_order_id out \<in> order_id ` set ords \<and> outcome_error out \<noteq> None
        then [EvAmm BatchFailed] else [])
     @ [EvAmm OrdersExecuted]"

definition mark_batch_delivered ::
  "u64 \<Rightarrow> uuid \<Rightarrow> ('sg, 'pk, 'cl) observer \<Rightarrow> ('sg, 'pk, 'cl) observer" where
  "mark_batch_delivered now b s =
     (case pending_outbox 100 (fo_store s) of
        Inl e \<Rightarrow> s
      | Inr entries \<Rightarrow>
          fold (\<lambda>(i, topic, agg) s.
              if topic = ''batch_terminal'' \<and> agg = b then snd (fo_exec (mark_outbox_delivered i now) s) else s) entries s)"

definition publish_terminal_notifications ::
  "date_time \<Rightarrow> u64 \<Rightarrow> ('sg, 'pk) recovered_execution_batch \<Rightarrow> ('sg, 'pk, 'cl) observer \<Rightarrow> ('sg, 'pk, 'cl) observer" where
  "publish_terminal_notifications clk now b s =
     mark_batch_delivered now (recovered_id b)
       (s\<lparr>fo_sent := fo_sent s @ batch_notifications clk (recovered_orders b) (recovered_outcomes b)\<rparr>)"

definition announce_entry ::
  "('sg, 'pk) runtime \<Rightarrow> u64 \<Rightarrow> nat \<times> string \<times> uuid \<Rightarrow> ('sg, 'pk, 'cl) observer \<Rightarrow> ('sg, 'pk, 'cl) observer" where
  "announce_entry rt now = (\<lambda>(_, topic, b) s.
     if topic \<noteq> ''batch_terminal'' then s
     else case recover_terminal_batch rt b (fo_store s) of
            Inr (Some batch) \<Rightarrow> publish_terminal_notifications (rt_clock rt) now batch s
          | _ \<Rightarrow> s)"

definition announce_finished ::
  "('sg, 'pk) runtime \<Rightarrow> u64 \<Rightarrow> ('sg, 'pk, 'cl) observer \<Rightarrow> ('sg, 'pk, 'cl) observer" where
  "announce_finished rt now s =
     (case pending_outbox 100 (fo_store s) of
        Inl e \<Rightarrow> s
      | Inr entries \<Rightarrow> fold (announce_entry rt now) entries s)"

text \<open>A panic while reconciling ends the task; errors are logged.\<close>

definition poll_once ::
  "('cl, 'upd) chain \<Rightarrow> ('sg, 'pk) runtime \<Rightarrow> u64 \<Rightarrow> ('sg, 'pk, 'cl) observer \<Rightarrow> (error + unit) \<times> ('sg, 'pk, 'cl) observer" where
  "poll_once ch rt now =
     st_then (catch_error (reconcile_submissions ch now) ignore_error) (\<lambda>_ s. (Inr (), announce_finished rt now s))"

section \<open>The loop\<close>

datatype observer_input = ObsTick | ObsRegistryChanged | ObsAmm amm_event | ObsLagged | ObsClosed

definition observer_step ::
  "('cl, 'upd) chain \<Rightarrow> ('sg, 'pk) runtime \<Rightarrow> u64 \<Rightarrow> observer_input \<Rightarrow> ('sg, 'pk, 'cl) observer
     \<Rightarrow> (error + bool) \<times> ('sg, 'pk, 'cl) observer" where
  "observer_step ch rt now inp =
     (case inp of
        ObsTick \<Rightarrow> st_then (attach_pending_pools ch) (\<lambda>_. st_then (poll_once ch rt now) (\<lambda>_ s. (Inr True, s)))
      | ObsRegistryChanged \<Rightarrow> st_then (attach_pending_pools ch) (\<lambda>_ s. (Inr True, s))
      | ObsAmm ev \<Rightarrow>
          (case ev of BatchSubmitted \<Rightarrow> st_then (poll_once ch rt now) (\<lambda>_ s. (Inr True, s)) | _ \<Rightarrow> Pair (Inr True))
      | ObsLagged \<Rightarrow> st_then (poll_once ch rt now) (\<lambda>_ s. (Inr True, s))
      | ObsClosed \<Rightarrow> Pair (Inr False))"

end
