(* ===== verification/Finality_Properties.thy ===== *)
theory Finality_Properties
  imports Finality_Observer Outbox_Keys
begin

text \<open>
  What the finality observer does to the execution store: it only takes steps of the store, it confirms
  a submission only on a committed transaction with the expected account states, it gives up an
  overdue submission in every round that reaches its pool, and it announces each finished batch in its place, with one
  update for each of its orders.
\<close>

section \<open>The observer as a client of the store\<close>

text \<open>A client of the observer saw the transaction of the submission committed in \<open>block\<close>, on the pool's
  account and with the account states recorded at submission.\<close>

definition committed_on_chain :: "('cl, 'upd) chain \<Rightarrow> submission_row \<Rightarrow> u32 \<Rightarrow> bool" where
  "committed_on_chain ch r block \<longleftrightarrow>
     (\<exists>cl tx_id recs rec. ch_read_tx_id ch (es_tx_id r) = Inr tx_id \<and> ch_get_transactions ch cl tx_id = Inr recs
        \<and> rec \<in> set recs \<and> tr_id rec = tx_id \<and> tr_status rec = TxCommitted block \<and> commitments_match r rec)"

lemma committed_same_tx: "committed_on_chain ch r block \<Longrightarrow> same_tx r q \<Longrightarrow> committed_on_chain ch q block"
  by (simp add: committed_on_chain_def commitments_match_def same_tx_def)

locale observer_store =
  fixes ch :: "('cl, 'upd) chain" and rows :: "submission_row list"
    and Q :: "execution_db \<Rightarrow> execution_db \<Rightarrow> bool"
  assumes Q_refl: "Q db db"
    and Q_trans: "Q db db1 \<Longrightarrow> Q db1 db2 \<Longrightarrow> Q db db2"
    and Q_attempt: "Q db (snd (record_reconciliation_attempt h err now db))"
    and Q_fail: "Q db (snd (fail_submission h reason now db))"
    and Q_delivered: "Q db (snd (mark_outbox_delivered i now db))"
    and Q_confirm: "r \<in> set rows \<Longrightarrow> committed_on_chain ch r block \<Longrightarrow> Q db (snd (confirm_submission (es_tx_hash r) block now db))"
begin

abbreviation kept :: "('sg, 'pk, 'cl) observer \<Rightarrow> ('sg, 'pk, 'cl) observer \<Rightarrow> bool" where
  "kept s t \<equiv> Q (fo_store s) (fo_store t)"

sublocale state_order "\<lambda>s t :: ('sg, 'pk, 'cl) observer. Q (fo_store s) (fo_store t)"
  by unfold_locales (auto intro: Q_refl Q_trans)

lemma fo_exec_kept: "(\<And>db. Q db (snd (f db))) \<Longrightarrow> keeps kept (fo_exec f)"
  by (auto simp: keeps_def fo_exec_def split: prod.splits) (metis snd_conv)

lemma frame_kept: "(\<And>s. fo_store (snd (m s)) = fo_store s) \<Longrightarrow> keeps kept m"
  by (simp add: keeps_def Q_refl)

lemma record_attempt_kept: "keeps kept (record_attempt err now r)"
  unfolding record_attempt_def by (rule fo_exec_kept) (rule Q_attempt)

lemma fail_tx_kept: "keeps kept (fail_tx reason now r)"
  unfolding fail_tx_def by (intro keeps_st_then fo_exec_kept Q_fail keeps_pure)

lemma ensure_attached_kept: "keeps kept (ensure_pool_attached ch p)"
  by (rule frame_kept) (auto simp: ensure_pool_attached_def split: prod.splits sum.splits bool.splits)

lemma attach_for_kept: "keeps kept (attach_for ch now subs p)"
  unfolding attach_for_def by (intro keeps_catch ensure_attached_kept keeps_for_each record_attempt_kept)

lemma attach_pending_kept: "keeps kept (attach_pending_pools ch)"
  unfolding keeps_def attach_pending_pools_def
  by (intro allI keeps_for_each [unfolded keeps_def, rule_format] keeps_catch [unfolded keeps_def, rule_format]
      ensure_attached_kept [unfolded keeps_def, rule_format] keeps_ignore [unfolded keeps_def, rule_format])

lemma applied_kept: "keeps kept m \<Longrightarrow> kept s (snd (m s))"
  by (simp add: keeps_def)

lemma seed_one_kept: "keeps kept (seed_one ch now r)"
  unfolding keeps_def
proof
  fix s
  have f: "kept s (snd (st_then (fail_tx reason now r) (\<lambda>_ s. (Inr True, s)) s))" for reason
    by (intro applied_kept keeps_st_then fail_tx_kept keeps_pure)
  have a: "kept s (snd (st_then (record_attempt err now r) (\<lambda>_ s. (Inr True, s)) (s\<lparr>pool_clients := m\<rparr>)))" for err m
    using applied_kept [OF keeps_st_then [OF record_attempt_kept keeps_pure], where s = "s\<lparr>pool_clients := m\<rparr>"] by simp
  show "kept s (snd (seed_one ch now r s))"
    by (auto simp: seed_one_def Let_def f a Q_refl split: sum.splits option.splits prod.splits)
qed

lemma seed_all_kept: "keeps (kept :: ('sg, 'pk, 'cl) observer \<Rightarrow> _) (seed_all_submissions ch now rs)"
proof (induction rs)
  case Nil
  show ?case by (simp add: keeps_def Q_refl)
next
  case (Cons r rs)
  have "keeps (kept :: ('sg, 'pk, 'cl) observer \<Rightarrow> _) (st_then (seed_one ch now r) (\<lambda>skip. st_then (seed_all_submissions ch now rs) (\<lambda>rest s.
       (Inr (if skip then es_tx_hash r # rest else rest), s))))"
    by (intro keeps_st_then seed_one_kept Cons keeps_pure)
  then show ?case by (simp add: keeps_def)
qed

lemma sync_kept: "keeps (kept :: ('sg, 'pk, 'cl) observer \<Rightarrow> _) (sync_pools_of ch now subs ps)"
proof (induction ps)
  case Nil
  show ?case by (simp add: keeps_def Q_refl)
next
  case (Cons p ps)
  show ?case unfolding keeps_def
  proof
    fix s :: "('sg, 'pk, 'cl) observer"
    have ok: "kept s (snd (st_then (sync_pools_of ch now subs ps) (\<lambda>rest s. (Inr ((p, block) # rest), s)) (s\<lparr>pool_clients := m\<rparr>)))" for block m
      using applied_kept [OF keeps_st_then [OF Cons keeps_pure], where s = "s\<lparr>pool_clients := m\<rparr>"] by simp
    have err: "kept s (snd (st_then (for_each (record_attempt e now) rs) (\<lambda>_. sync_pools_of ch now subs ps) (s\<lparr>pool_clients := m\<rparr>)))" for e rs m
      using applied_kept [OF keeps_st_then [OF keeps_for_each [OF record_attempt_kept] Cons], where s = "s\<lparr>pool_clients := m\<rparr>"] by simp
    show "kept s (snd (sync_pools_of ch now subs (p # ps) s))"
      using applied_kept [OF Cons, of s] by (auto simp: Let_def ok err split: sum.splits option.splits prod.splits)
  qed
qed

lemma resolve_record_kept:
  assumes "r \<in> set rows" "\<And>block. tr_status rec = TxCommitted block \<Longrightarrow> commitments_match r rec \<Longrightarrow> committed_on_chain ch r block"
  shows "keeps kept (resolve_record ch now synced r rec)"
  using assms
  by (auto simp: resolve_record_def split: transaction_status.split
      intro!: keeps_st_then fo_exec_kept Q_confirm fail_tx_kept keeps_pure keeps_Pair record_attempt_kept)

lemma resolve_one_kept:
  assumes "r \<in> set rows" shows "keeps kept (resolve_one ch now synced r)"
  unfolding keeps_def
proof
  fix s
  have late: "kept s (snd (st_then (record_attempt e now r) (\<lambda>_. fail_tx reason now r) s))"
    "kept s (snd (st_then (record_attempt e now r) (\<lambda>_. Pair (Inr ())) s))" for e reason
    by (intro applied_kept keeps_st_then record_attempt_kept fail_tx_kept keeps_Pair)+
  have found: "kept s (snd (resolve_record ch now block r rec s))"
    if f: "find (\<lambda>rec. tr_id rec = tx_id) recs = Some rec" "ch_get_transactions ch cl tx_id = Inr recs"
      "ch_read_tx_id ch (es_tx_id r) = Inr tx_id" for recs rec block tx_id cl
  proof (intro applied_kept resolve_record_kept assms)
    fix b assume "tr_status rec = TxCommitted b" "commitments_match r rec"
    moreover have "rec \<in> set recs" "tr_id rec = tx_id" using f(1) by (auto simp: find_Some_iff)
    ultimately show "committed_on_chain ch r b" using f(2,3) unfolding committed_on_chain_def by blast
  qed
  show "kept s (snd (resolve_one ch now synced r s))"
    by (auto simp: resolve_one_def late applied_kept [OF fail_tx_kept] applied_kept [OF record_attempt_kept] Q_refl
        split: sum.splits option.splits intro: found)
qed

lemma reconcile_kept:
  assumes "submitted_transactions (fo_store s) = Inr rws" "set rws \<subseteq> set rows"
  shows "kept s (snd (reconcile_submissions ch now s))"
proof -
  have "keeps kept (reconcile_due ch now (filter (due_submission (finality_retry_millis ch) now) rws))"
    unfolding reconcile_due_def Let_def using subsetD [OF assms(2)]
    by (auto intro!: keeps_st_then keeps_for_each attach_for_kept seed_all_kept sync_kept resolve_one_kept keeps_Pair)
  from applied_kept [OF this] show ?thesis using assms(1) by (auto simp: reconcile_submissions_def Let_def Q_refl)
qed

lemma mark_batch_kept: "kept s (mark_batch_delivered now b s)"
  unfolding mark_batch_delivered_def
  by (auto simp: Q_refl split: sum.split intro!: fold_keeps applied_kept fo_exec_kept Q_delivered)

lemma announce_kept: "kept s (announce_entry rt now e s)"
proof -
  have "kept s (publish_terminal_notifications clk now b s)" for clk b
    unfolding publish_terminal_notifications_def
    using mark_batch_kept [of "s\<lparr>fo_sent := fo_sent s @ batch_notifications clk (recovered_orders b) (recovered_outcomes b)\<rparr>"] by simp
  then show ?thesis by (auto simp: announce_entry_def Q_refl split: prod.splits sum.splits option.splits)
qed

lemma poll_kept:
  assumes "\<And>rws. submitted_transactions (fo_store s) = Inr rws \<Longrightarrow> set rws \<subseteq> set rows"
  shows "kept s (snd (poll_once ch rt now s))"
proof -
  obtain x t where t: "catch_error (reconcile_submissions ch now) ignore_error s = (x, t)" by fastforce
  have "kept s (snd (reconcile_submissions ch now s))"
  proof (cases "submitted_transactions (fo_store s)")
    case (Inr rws)
    then show ?thesis using assms by (intro reconcile_kept) simp_all
  qed (simp add: reconcile_submissions_def Q_refl)
  then have st: "kept s t" using t by (auto simp: catch_error_def ignore_error_def split: prod.splits sum.splits if_splits)
  have "kept t (announce_finished rt now t)"
    unfolding announce_finished_def by (auto split: sum.split intro!: fold_keeps announce_kept refl)
  then show ?thesis using st by (auto simp: poll_once_def st_then_def t intro: trans split: sum.splits)
qed

end


section \<open>The observer takes steps of the store\<close>

interpretation obs_run: observer_store ch rows "(exec_step cd limit)\<^sup>*\<^sup>*" for ch rows cd limit
  by unfold_locales (auto intro: r_into_rtranclp exec_step.intros)

lemma poll_store_run: "(exec_step cd limit)\<^sup>*\<^sup>* (fo_store s) (fo_store (snd (poll_once ch rt now s)))"
proof -
  have "\<exists>rows. \<forall>rws. submitted_transactions (fo_store s) = Inr rws \<longrightarrow> set rws \<subseteq> set rows"
    by (cases "submitted_transactions (fo_store s)") auto
  then obtain rows where "\<And>rws. submitted_transactions (fo_store s) = Inr rws \<Longrightarrow> set rws \<subseteq> set rows" by blast
  from obs_run.poll_kept [OF this] show ?thesis .
qed

lemma observer_step_run: "(exec_step cd limit)\<^sup>*\<^sup>* (fo_store s) (fo_store (snd (observer_step ch rt now inp s)))"
proof -
  have poll: "keeps (\<lambda>s t. (exec_step cd limit)\<^sup>*\<^sup>* (fo_store s) (fo_store t)) (poll_once ch rt now)"
    unfolding keeps_def by (intro allI poll_store_run)
  have "keeps (\<lambda>s t. (exec_step cd limit)\<^sup>*\<^sup>* (fo_store s) (fo_store t)) (observer_step ch rt now inp)"
    unfolding observer_step_def
    by (auto split: observer_input.split amm_event.split
        intro!: obs_run.keeps_st_then poll obs_run.attach_pending_kept obs_run.keeps_pure obs_run.keeps_Pair)
  then show ?thesis by (simp add: keeps_def)
qed

section \<open>Confirmations rest on the chain\<close>

text \<open>How one round may change a submission: it becomes confirmed only on a committed transaction.\<close>

definition sub_observed :: "('cl, 'upd) chain \<Rightarrow> submission_row \<Rightarrow> submission_row \<Rightarrow> bool" where
  "sub_observed ch r q \<longleftrightarrow> same_tx r q
     \<and> (es_state q = SubConfirmed \<longrightarrow> es_state r = SubConfirmed \<and> es_confirmed_block q = es_confirmed_block r
          \<or> (\<exists>block. es_confirmed_block q = Some block \<and> committed_on_chain ch q block))"

lemma sub_observed_refl: "sub_observed ch r r"
  by (simp add: sub_observed_def)

lemma sub_observed_trans: "sub_observed ch r q \<Longrightarrow> sub_observed ch q p \<Longrightarrow> sub_observed ch r p"
  unfolding sub_observed_def by (metis committed_same_tx same_tx_trans)

definition known_rows :: "submission_row list \<Rightarrow> execution_db \<Rightarrow> bool" where
  "known_rows rows db \<longleftrightarrow> hashes_unique db
     \<and> (\<forall>r\<in>set rows. \<forall>q\<in>set (execution_submissions db). es_tx_hash q = es_tx_hash r \<longrightarrow> same_tx r q)"

definition subs_observed :: "('cl, 'upd) chain \<Rightarrow> submission_row list \<Rightarrow> execution_db \<Rightarrow> execution_db \<Rightarrow> bool" where
  "subs_observed ch rows db db' \<longleftrightarrow> (known_rows rows db \<longrightarrow> known_rows rows db'
     \<and> list_all2 (sub_observed ch) (execution_submissions db) (execution_submissions db'))"

lemma subs_observed_same: "execution_submissions db' = execution_submissions db \<Longrightarrow> subs_observed ch rows db db'"
  by (auto simp: subs_observed_def known_rows_def hashes_unique_def list_all2_same sub_observed_refl)

lemma subs_observed_update:
  assumes "execution_submissions db' = sql_update P f (execution_submissions db)"
    and "\<And>r. r \<in> set (execution_submissions db) \<Longrightarrow> known_rows rows db \<Longrightarrow> P r \<Longrightarrow> sub_observed ch r (f r)"
  shows "subs_observed ch rows db db'"
  unfolding subs_observed_def
proof
  assume k: "known_rows rows db"
  have o: "list_all2 (sub_observed ch) (execution_submissions db) (execution_submissions db')"
    using assms k by (auto simp: sql_update_def list_all2_map2 list_all2_same sub_observed_refl)
  then have "list_all2 same_tx (execution_submissions db) (execution_submissions db')"
    by (rule list_all2_mono) (simp add: sub_observed_def)
  then have h: "map es_tx_hash (execution_submissions db') = map es_tx_hash (execution_submissions db)"
    and b: "\<forall>q\<in>set (execution_submissions db'). \<exists>r\<in>set (execution_submissions db). same_tx r q"
    by (induction rule: list_all2_induct) (auto simp: same_tx_def)
  have "same_tx r q" if m: "r \<in> set rows" "q \<in> set (execution_submissions db')" "es_tx_hash q = es_tx_hash r" for r q
  proof -
    obtain p where p: "p \<in> set (execution_submissions db)" "same_tx p q" using b m(2) by blast
    then have "same_tx r p" using k m(1,3) by (simp add: known_rows_def same_tx_def)
    then show ?thesis using p(2) by (rule same_tx_trans)
  qed
  then show "known_rows rows db' \<and> list_all2 (sub_observed ch) (execution_submissions db) (execution_submissions db')"
    using k o h by (simp add: known_rows_def hashes_unique_def)
qed


lemma resolve_observed:
  assumes "\<And>q block. q \<in> set (execution_submissions db) \<Longrightarrow> known_rows rows db \<Longrightarrow> es_tx_hash q = h \<Longrightarrow> cf
    \<Longrightarrow> \<exists>block. blk = Some block \<and> committed_on_chain ch q block"
  shows "subs_observed ch rows db (snd (resolve_submission h cf blk reason now db))"
proof (cases "resolve_submission_tx h cf blk reason now db")
  case (Inr y)
  obtain x db' where y: "y = (x, db')" by fastforce
  have "subs_observed ch rows db db'"
  proof (cases x)
    case True
    then obtain row t where f: "find (\<lambda>r. es_tx_hash r = h \<and> es_state r = SubSubmitted) (execution_submissions db) = Some row"
      and db': "execution_submissions db' = sql_update (\<lambda>r. es_tx_hash r = h)
        (\<lambda>r. r\<lparr>es_state := (if cf then SubConfirmed else SubFailed), es_confirmed_block := blk, es_last_error := reason,
               es_updated_at := t\<rparr>) (execution_submissions db)"
      using resolve_submission_subs [OF Inr [unfolded y]] by auto
    show ?thesis
    proof (rule subs_observed_update [OF db'])
      fix r assume r: "r \<in> set (execution_submissions db)" "known_rows rows db" "es_tx_hash r = h"
      let ?q = "r\<lparr>es_state := (if cf then SubConfirmed else SubFailed), es_confirmed_block := blk, es_last_error := reason, es_updated_at := t\<rparr>"
      have "same_tx r ?q" by (simp add: same_tx_def)
      moreover have "\<exists>block. blk = Some block \<and> committed_on_chain ch ?q block" if cf
        using assms [OF r that] committed_same_tx [OF _ \<open>same_tx r ?q\<close>] by blast
      ultimately show "sub_observed ch r ?q" by (auto simp: sub_observed_def)
    qed
  next
    case False
    then show ?thesis using resolve_submission_subs [OF Inr [unfolded y]] by (auto intro: subs_observed_same)
  qed
  then show ?thesis using Inr y by (simp add: resolve_submission_def atomically_def)
qed (simp add: resolve_submission_def atomically_def subs_observed_same)

lemma subs_observed_trans:
  assumes "subs_observed ch rows a b" "subs_observed ch rows b d" shows "subs_observed ch rows a d"
  unfolding subs_observed_def
proof
  assume k: "known_rows rows a"
  then have "known_rows rows b" "list_all2 (sub_observed ch) (execution_submissions a) (execution_submissions b)"
    using assms(1) by (simp_all add: subs_observed_def)
  moreover have "known_rows rows d" "list_all2 (sub_observed ch) (execution_submissions b) (execution_submissions d)"
    using assms(2) calculation(1) by (simp_all add: subs_observed_def)
  moreover have "list_all2 (sub_observed ch) (execution_submissions a) (execution_submissions d)"
    by (rule list_all2_trans [OF sub_observed_trans calculation(2,4)])
  ultimately show "known_rows rows d \<and> list_all2 (sub_observed ch) (execution_submissions a) (execution_submissions d)" by simp
qed

lemma attempt_observed: "subs_observed ch rows db (snd (record_reconciliation_attempt h err now db))"
proof (cases "to_i64 now")
  case (Inr t)
  show ?thesis
    by (rule subs_observed_update [where P = "\<lambda>r. es_tx_hash r = h \<and> es_state r = SubSubmitted"
          and f = "\<lambda>r. r\<lparr>es_attempts := es_attempts r + 1, es_last_error := err, es_updated_at := t\<rparr>"])
      (simp_all add: record_reconciliation_attempt_def atomically_def and_then_def update_submissions_def Inr sub_observed_def same_tx_def)
qed (simp add: record_reconciliation_attempt_def atomically_def and_then_def subs_observed_same)

lemma confirm_observed:
  assumes "r \<in> set rows" "committed_on_chain ch r block"
  shows "subs_observed ch rows db (snd (confirm_submission (es_tx_hash r) block now db))"
  unfolding confirm_submission_def
proof (rule resolve_observed)
  fix q assume "q \<in> set (execution_submissions db)" "known_rows rows db" "es_tx_hash q = es_tx_hash r"
  then have "same_tx r q" using assms(1) by (simp add: known_rows_def)
  then show "\<exists>b. Some block = Some b \<and> committed_on_chain ch q b" using committed_same_tx [OF assms(2)] by blast
qed

interpretation obs_chain: observer_store ch rows "subs_observed ch rows" for ch rows
proof (rule observer_store.intro)
  show "subs_observed ch rows db (snd (fail_submission h reason now db))" for h reason now db
    unfolding fail_submission_def by (rule resolve_observed) simp
  show "subs_observed ch rows db (snd (mark_outbox_delivered i now db))" for i now db
    by (rule subs_observed_same) (simp add: mark_outbox_delivered_def atomically_def and_then_def split: sum.split)
qed (auto intro: subs_observed_same attempt_observed confirm_observed elim: subs_observed_trans)

text \<open>
  C4: an order is confirmed only when the chain has committed its transaction. In every reachable store,
  whatever the Miden clients answer, a submission that is confirmed after a poll was confirmed with the
  same block before, or a client reported its transaction committed in that block, on the pool's
  account and with exactly the initial and final account states recorded at submission.
\<close>

theorem confirmed_only_when_committed:
  assumes "exec_reachable cd limit (fo_store s)" "poll_once ch rt now s = (res, s')"
    and q: "q \<in> set (execution_submissions (fo_store s'))" "es_state q = SubConfirmed"
  shows "(\<exists>r\<in>set (execution_submissions (fo_store s)). same_tx r q \<and> es_state r = SubConfirmed
            \<and> es_confirmed_block q = es_confirmed_block r)
    \<or> (\<exists>block. es_confirmed_block q = Some block \<and> committed_on_chain ch q block)"
proof -
  let ?db = "fo_store s"
  have u: "hashes_unique ?db" using assms(1) by (rule exec_subs.reachable_inv)
  then have k: "known_rows (execution_submissions ?db) ?db"
    by (auto simp: known_rows_def hashes_unique_def distinct_map inj_on_def)
  have "set rws \<subseteq> set (execution_submissions ?db)" if "submitted_transactions ?db = Inr rws" for rws
    using that by (auto simp: submitted_transactions_def Let_def split: if_splits)
  from obs_chain.poll_kept [OF this] have "subs_observed ch (execution_submissions ?db) ?db (fo_store s')"
    using assms(2) by (metis snd_conv)
  with k have "list_all2 (sub_observed ch) (execution_submissions ?db) (execution_submissions (fo_store s'))"
    by (simp add: subs_observed_def)
  with q(1) obtain r where "r \<in> set (execution_submissions ?db)" "sub_observed ch r q"
    by (metis in_set_conv_nth list_all2_conv_all_nth)
  then show ?thesis using q(2) unfolding sub_observed_def by blast
qed


section \<open>Overdue submissions are given up\<close>

definition resolved :: "string \<Rightarrow> execution_db \<Rightarrow> bool" where
  "resolved h db \<longleftrightarrow> (\<forall>q\<in>set (execution_submissions db). es_tx_hash q = h \<longrightarrow> es_state q \<noteq> SubSubmitted)"

lemma resolved_update:
  assumes "execution_submissions db' = sql_update (\<lambda>r. es_tx_hash r = h') f (execution_submissions db)"
    and "\<And>r. es_state (f r) \<noteq> SubSubmitted \<and> es_tx_hash (f r) = es_tx_hash r"
  shows "resolved h' db' \<and> (resolved h db \<longrightarrow> resolved h db')"
  using assms by (auto simp: resolved_def sql_simps)

lemma resolve_resolves:
  assumes "resolve_submission_tx h' cf blk reason now db = Inr (x, db')"
  shows "resolved h' db' \<and> (resolved h db \<longrightarrow> resolved h db')"
proof (cases x)
  case True
  with resolve_submission_subs [OF assms] obtain t where
    "execution_submissions db' = sql_update (\<lambda>r. es_tx_hash r = h')
        (\<lambda>r. r\<lparr>es_state := (if cf then SubConfirmed else SubFailed), es_confirmed_block := blk, es_last_error := reason,
               es_updated_at := t\<rparr>) (execution_submissions db)" by blast
  then show ?thesis by (rule resolved_update) simp
next
  case False
  with assms have "find (\<lambda>r. es_tx_hash r = h' \<and> es_state r = SubSubmitted) (execution_submissions db) = None"
    by (auto simp: resolve_submission_tx_def res_simps Let_def split: option.splits prod.splits simp del: finalize_batch_if_ready.simps)
  moreover have "db' = db" using resolve_submission_subs [OF assms] False by blast
  ultimately show ?thesis by (simp add: resolved_def find_None_iff)
qed

lemma resolve_keeps_resolved: "resolved h db \<longrightarrow> resolved h (snd (resolve_submission h' cf blk reason now db))"
  using resolve_resolves by (auto simp: resolve_submission_def atomically_def split: sum.splits prod.splits)

interpretation obs_res: observer_store ch rows "\<lambda>db db'. resolved h db \<longrightarrow> resolved h db'" for ch rows h
proof (rule observer_store.intro)
  show "resolved h db \<longrightarrow> resolved h (snd (record_reconciliation_attempt h' err now db))" for h' err now db
    by (auto simp: record_reconciliation_attempt_def atomically_def and_then_def update_submissions_def resolved_def sql_simps
        split: sum.split)
  show "resolved h db \<longrightarrow> resolved h (snd (mark_outbox_delivered i now db))" for i now db
    by (simp add: mark_outbox_delivered_def atomically_def and_then_def resolved_def split: sum.split)
  show "resolved h db \<longrightarrow> resolved h (snd (fail_submission h' reason now db))" for h' reason now db
    unfolding fail_submission_def by (rule resolve_keeps_resolved)
  show "resolved h db \<longrightarrow> resolved h (snd (confirm_submission (es_tx_hash r) block now db))" for r block now db
    unfolding confirm_submission_def by (rule resolve_keeps_resolved)
qed auto

lemma resolve_orders_total: "to_i64 now = Inr t \<Longrightarrow> \<exists>db'. resolve_orders h cf reason ids now db = Inr db'"
  by (induction ids arbitrary: db) (auto simp: and_then_def append_event_def Let_def)

lemma resolve_submission_total:
  assumes t: "to_i64 now = Inr t"
  shows "\<exists>x db'. resolve_submission h cf blk reason now db = (Inr x, db') \<and> resolved h db'"
proof -
  have "\<exists>y. resolve_submission_tx h cf blk reason now db = Inr y"
  proof (cases "find (\<lambda>r. es_tx_hash r = h \<and> es_state r = SubSubmitted) (execution_submissions db)")
    case (Some row)
    let ?f = "\<lambda>r. r\<lparr>es_state := (if cf then SubConfirmed else SubFailed), es_confirmed_block := blk, es_last_error := reason, es_updated_at := t\<rparr>"
    obtain db2 where 2: "resolve_orders h cf reason (es_order_ids row) now (update_submissions db (\<lambda>r. es_tx_hash r = h) ?f) = Inr db2"
      using resolve_orders_total [OF t] by blast
    obtain y db3 where "finalize_batch_if_ready db2 (es_batch_id row) now = Inr (y, db3)" using finalize_total [OF t] by blast
    with 2 Some have "resolve_submission_tx h cf blk reason now db = Inr (True, db3)"
      by (simp add: resolve_submission_tx_def and_then_def t Let_def del: finalize_batch_if_ready.simps)
    then show ?thesis by blast
  qed (use exI [of _ False] in \<open>simp add: resolve_submission_tx_def\<close>)
  then obtain x db' where "resolve_submission_tx h cf blk reason now db = Inr (x, db')" by auto
  with resolve_resolves [OF this] show ?thesis by (auto simp: resolve_submission_def atomically_def)
qed

text \<open>
  What a round needs of the Miden clients. No client's own store fails to be read, and a client that cannot
  attach is an error and no panic; beyond that, only the client of the submission's own pool has to work:
  \<open>alive\<close> says which of its states are in reach of the node. Such a client synchronises, stays alive
  whatever updates are applied to it, and takes the update of the submission itself.
\<close>

definition local_reads :: "('cl, 'upd) chain \<Rightarrow> bool" where
  "local_reads ch \<longleftrightarrow> (\<forall>cl i. \<exists>recs. ch_get_transactions ch cl i = Inr recs)
     \<and> (\<forall>p e. ch_attach ch p = Inl e \<longrightarrow> \<not> is_panic e) \<and> (\<forall>e. ch_deployment ch = Inl e \<longrightarrow> \<not> is_panic e)"

definition client_works :: "('cl, 'upd) chain \<Rightarrow> ('cl \<Rightarrow> bool) \<Rightarrow> submission_row \<Rightarrow> bool" where
  "client_works ch alive r \<longleftrightarrow>
     (\<forall>cl. alive cl \<longrightarrow>
        (\<exists>b cl'. ch_sync_state ch cl = (Inr b, cl') \<and> alive cl')
        \<and> (\<forall>u. alive (snd (ch_apply_update ch cl u)))
        \<and> (\<forall>u. ch_read_update ch (es_transaction_update r) = Inr u \<longrightarrow> fst (ch_apply_update ch cl u) = Inr ()))"

definition pool_reached :: "('cl, 'upd) chain \<Rightarrow> ('cl \<Rightarrow> bool) \<Rightarrow> account_id \<Rightarrow> ('sg, 'pk, 'cl) observer \<Rightarrow> bool" where
  "pool_reached ch alive p s \<longleftrightarrow>
     (case pool_clients s p of
        Some cl \<Rightarrow> alive cl
      | None \<Rightarrow> registry_contains (fo_registry s) p \<and> (\<exists>cl. ch_attach ch p = Inr cl \<and> alive cl))"

definition live :: "('cl \<Rightarrow> bool) \<Rightarrow> account_id \<Rightarrow> ('sg, 'pk, 'cl) observer \<Rightarrow> bool" where
  "live alive p s \<longleftrightarrow> (\<exists>cl. pool_clients s p = Some cl \<and> alive cl)"

lemma live_clients: "pool_clients s' = pool_clients s \<Longrightarrow> live alive p s' = live alive p s"
  by (simp add: live_def)

lemma fail_tx_total:
  assumes "to_i64 now = Inr t"
  shows "\<exists>s'. fail_tx reason now r s = (Inr (), s') \<and> resolved (es_tx_hash r) (fo_store s') \<and> pool_clients s' = pool_clients s"
  using resolve_submission_total [OF assms, of "es_tx_hash r" False None "Some reason" "fo_store s"]
  by (auto simp: fail_tx_def fail_submission_def fo_exec_def st_then_def)

lemma confirm_total:
  assumes "to_i64 now = Inr t"
  shows "\<exists>s'. st_then (fo_exec (confirm_submission (es_tx_hash r) block now)) (\<lambda>_ s. (Inr (), s)) s = (Inr (), s')
    \<and> resolved (es_tx_hash r) (fo_store s') \<and> pool_clients s' = pool_clients s"
  using resolve_submission_total [OF assms, of "es_tx_hash r" True "Some block" None "fo_store s"]
  by (auto simp: confirm_submission_def fo_exec_def st_then_def)

lemma record_attempt_total:
  assumes "to_i64 now = Inr t"
  shows "\<exists>s'. record_attempt err now r s = (Inr (), s') \<and> pool_clients s' = pool_clients s \<and> fo_registry s' = fo_registry s"
  using assms by (auto simp: record_attempt_def fo_exec_def record_reconciliation_attempt_def atomically_def and_then_def)

lemma record_attempts_total:
  assumes "to_i64 now = Inr t"
  shows "\<exists>s'. for_each (record_attempt err now) rs s = (Inr (), s') \<and> pool_clients s' = pool_clients s \<and> fo_registry s' = fo_registry s"
proof (induction rs arbitrary: s)
  case (Cons r rs)
  obtain s1 where "record_attempt err now r s = (Inr (), s1)" "pool_clients s1 = pool_clients s" "fo_registry s1 = fo_registry s"
    using record_attempt_total [OF assms] by blast
  with Cons [of s1] show ?case by (auto simp: st_then_def)
qed simp

lemma acknowledge_pools [simp]: "reg_pools (acknowledge p w r) = reg_pools r"
  by (simp add: acknowledge_def bump_def Let_def)

lemma ensured_pools: "registry_contains r p \<Longrightarrow> registry_contains (snd (ensure_from_deployment d q r)) p"
  by (auto simp: ensure_from_deployment_def registry_contains_def publish_def bump_def Let_def split: sum.split)

text \<open>Attaching any pool may fail, without ending the round; attaching the pool that is reached does not.\<close>

lemma ensure_attached_reached:
  assumes "local_reads ch" "pool_reached ch alive p s" "ensure_pool_attached ch q s = (x, s')"
  shows "(\<forall>e. x = Inl e \<longrightarrow> \<not> is_panic e) \<and> pool_reached ch alive p s' \<and> (live alive p s \<or> q = p \<longrightarrow> live alive p s')"
proof (cases "pool_clients s q")
  case (Some cl)
  then show ?thesis using assms(2,3)
    by (auto simp: ensure_pool_attached_def pool_reached_def live_def registry_contains_def split: option.splits)
next
  case None
  let ?c = "if registry_contains (fo_registry s) q then (Inr True, fo_registry s)
              else ensure_from_deployment (ch_deployment ch) q (fo_registry s)"
  obtain y r where y: "?c = (y, r)" by fastforce
  have keep: "registry_contains r p" if "registry_contains (fo_registry s) p"
    using ensured_pools [OF that, of "ch_deployment ch" q] that y by (auto split: if_splits)
  have quiet: "\<not> is_panic e" if "y = Inl e" for e
    using y that assms(1) by (auto simp: ensure_from_deployment_def local_reads_def split: if_splits sum.splits)
  have at: "\<not> is_panic e" if "ch_attach ch q = Inl e" for e using assms(1) that by (simp add: local_reads_def)
  have run: "(x, s') = (case y of Inl e \<Rightarrow> (Inl e, s\<lparr>fo_registry := r\<rparr>)
        | Inr False \<Rightarrow> (Inl (Anyhow ''submission references unlisted pool''), s\<lparr>fo_registry := r\<rparr>)
        | Inr True \<Rightarrow> (case ch_attach ch q of Inl e \<Rightarrow> (Inl e, s\<lparr>fo_registry := r\<rparr>)
            | Inr cl \<Rightarrow> (Inr (), s\<lparr>pool_clients := (pool_clients s)(q \<mapsto> cl), fo_registry := acknowledge q Finality r\<rparr>)))"
    using assms(3) None y by (simp add: ensure_pool_attached_def split: sum.splits bool.splits)
  show ?thesis
  proof (cases "q = p")
    case True
    then obtain cl where "ch_attach ch q = Inr cl" "alive cl" "registry_contains (fo_registry s) q"
      using assms(2) None by (auto simp: pool_reached_def)
    then show ?thesis using assms(3) None True by (auto simp: ensure_pool_attached_def pool_reached_def live_def)
  next
    case False
    then show ?thesis using run keep quiet at assms(2)
      by (auto simp: pool_reached_def live_def registry_contains_def split: option.splits sum.splits bool.splits)
  qed
qed

lemma attach_for_reached:
  assumes "local_reads ch" "to_i64 now = Inr t" "pool_reached ch alive p s"
  shows "\<exists>s'. attach_for ch now subs q s = (Inr (), s') \<and> pool_reached ch alive p s' \<and> (live alive p s \<or> q = p \<longrightarrow> live alive p s')"
proof -
  obtain x s1 where 1: "ensure_pool_attached ch q s = (x, s1)" "\<forall>e. x = Inl e \<longrightarrow> \<not> is_panic e" "pool_reached ch alive p s1"
    "live alive p s \<or> q = p \<longrightarrow> live alive p s1"
    using ensure_attached_reached [OF assms(1,3) prod.collapse [symmetric]] prod.collapse by metis
  show ?thesis
  proof (cases x)
    case (Inl e)
    obtain s2 where "for_each (record_attempt (Some (''attach finality client: '' @ ch_error_text ch e)) now)
        (filter (\<lambda>r. es_pool_id r = q) subs) s1 = (Inr (), s2)" "pool_clients s2 = pool_clients s1" "fo_registry s2 = fo_registry s1"
      using record_attempts_total [OF assms(2)] by blast
    then show ?thesis using 1 Inl by (auto simp: attach_for_def catch_error_def pool_reached_def live_def split: option.splits)
  qed (use 1 in \<open>simp add: attach_for_def catch_error_def\<close>)
qed

lemma attach_all_reached:
  assumes "local_reads ch" "to_i64 now = Inr t" "pool_reached ch alive p s"
  shows "\<exists>s'. for_each (attach_for ch now subs) ps s = (Inr (), s') \<and> (live alive p s \<or> p \<in> set ps \<longrightarrow> live alive p s')"
  using assms(3)
proof (induction ps arbitrary: s)
  case (Cons q ps)
  obtain s1 where 1: "attach_for ch now subs q s = (Inr (), s1)" "pool_reached ch alive p s1"
    "live alive p s \<or> q = p \<longrightarrow> live alive p s1" using attach_for_reached [OF assms(1,2) Cons.prems] by blast
  obtain s2 where "for_each (attach_for ch now subs) ps s1 = (Inr (), s2)" "live alive p s1 \<or> p \<in> set ps \<longrightarrow> live alive p s2"
    using Cons.IH [OF 1(2)] by blast
  then show ?case using 1 by (auto simp: st_then_def)
qed simp

text \<open>Seeding any submission succeeds as a step and keeps the client alive; the submission itself is skipped
  only when it was resolved.\<close>

lemma seed_one_live:
  assumes w: "client_works ch alive r" "local_reads ch" and t: "to_i64 now = Inr t" and l: "live alive (es_pool_id r) s"
  shows "\<exists>skip s'. seed_one ch now q s = (Inr skip, s') \<and> live alive (es_pool_id r) s'
    \<and> (q = r \<and> skip \<longrightarrow> resolved (es_tx_hash r) (fo_store s'))"
proof -
  have fail: "\<exists>s'. st_then (fail_tx reason now q) (\<lambda>_ s. (Inr True, s)) s = (Inr True, s') \<and> live alive (es_pool_id r) s'
      \<and> resolved (es_tx_hash q) (fo_store s')" for reason
    using fail_tx_total [OF t, of reason q s] l by (auto simp: st_then_def live_def)
  show ?thesis
  proof (cases "ch_read_tx_id ch (es_tx_id q)")
    case (Inl e)
    then show ?thesis using fail by (fastforce simp: seed_one_def)
  next
    case (Inr tx_id)
    show ?thesis
    proof (cases "pool_clients s (es_pool_id q)")
      case None
      then have "q \<noteq> r" using l by (auto simp: live_def)
      then show ?thesis using None Inr l by (intro exI [of _ True] exI [of _ s]) (simp add: seed_one_def)
    next
      case (Some cl)
      obtain recs where recs: "ch_get_transactions ch cl tx_id = Inr recs" using w(2) unfolding local_reads_def by blast
      consider (tracked) "\<exists>rec\<in>set recs. tr_id rec = tx_id" | (bad) e where "\<not> (\<exists>rec\<in>set recs. tr_id rec = tx_id)"
          "ch_read_update ch (es_transaction_update q) = Inl e"
        | (new) u where "\<not> (\<exists>rec\<in>set recs. tr_id rec = tx_id)" "ch_read_update ch (es_transaction_update q) = Inr u"
        by (cases "ch_read_update ch (es_transaction_update q)") auto
      then show ?thesis
      proof cases
        case tracked
        then have "seed_one ch now q s = (Inr False, s)" using Inr Some recs by (simp add: seed_one_def)
        then show ?thesis using l by blast
      next
        case bad
        then show ?thesis using Inr Some recs fail by (fastforce simp: seed_one_def)
      next
        case new
        obtain res cl' where ap: "ch_apply_update ch cl u = (res, cl')" by fastforce
        let ?s = "s\<lparr>pool_clients := (pool_clients s)(es_pool_id q \<mapsto> cl')\<rparr>"
        have l': "live alive (es_pool_id r) ?s"
        proof (cases "es_pool_id q = es_pool_id r")
          case True
          then have "alive cl" using l Some by (auto simp: live_def)
          then have "alive cl'" using w(1) ap unfolding client_works_def by (metis snd_conv)
          then show ?thesis using True by (simp add: live_def)
        qed (use l in \<open>simp add: live_def\<close>)
        have own: "res = Inr ()" if "q = r"
        proof -
          have "alive cl" using l Some that by (auto simp: live_def)
          then show ?thesis using w(1) ap new(2) that unfolding client_works_def by (metis fst_conv)
        qed
        obtain s2 where s2: "record_attempt (Some (''finality apply: '' @ ch_error_text ch (projl res))) now q ?s = (Inr (), s2)"
          "pool_clients s2 = pool_clients ?s" using record_attempt_total [OF t] by blast
        have "live alive (es_pool_id r) s2" using l' by (simp only: live_clients [OF s2(2)])
        then show ?thesis using new Inr Some recs ap l' own s2
          by (cases res) (auto simp: seed_one_def st_then_def Let_def)
      qed
    qed
  qed
qed

lemma seed_all_live:
  assumes w: "client_works ch alive r" "local_reads ch" and t: "to_i64 now = Inr t" and l: "live alive (es_pool_id r) s"
    and u: "\<And>q. q \<in> set rs \<Longrightarrow> es_tx_hash q = es_tx_hash r \<Longrightarrow> q = r"
  shows "\<exists>skip s'. seed_all_submissions ch now rs s = (Inr skip, s') \<and> live alive (es_pool_id r) s'
    \<and> (es_tx_hash r \<in> set skip \<longrightarrow> resolved (es_tx_hash r) (fo_store s'))"
  using l u
proof (induction rs arbitrary: s)
  case (Cons q rs)
  obtain sk s1 where 1: "seed_one ch now q s = (Inr sk, s1)" "live alive (es_pool_id r) s1"
      "q = r \<and> sk \<longrightarrow> resolved (es_tx_hash r) (fo_store s1)"
    using seed_one_live [OF w t Cons.prems(1)] by blast
  obtain skip s2 where 2: "seed_all_submissions ch now rs s1 = (Inr skip, s2)" "live alive (es_pool_id r) s2"
      "es_tx_hash r \<in> set skip \<longrightarrow> resolved (es_tx_hash r) (fo_store s2)"
    using Cons.IH [OF 1(2)] Cons.prems(2) by auto
  have "resolved (es_tx_hash r) (fo_store s2)" if "q = r \<and> sk"
    using obs_res.seed_all_kept [of "es_tx_hash r" ch now rs] 1(3) 2(1) that by (metis keepsD)
  then show ?case using 1 2 Cons.prems(2) [of q] by (auto simp: st_then_def)
qed simp

lemma sync_live:
  assumes w: "client_works ch alive r" and t: "to_i64 now = Inr t" and l: "live alive (es_pool_id r) s"
  shows "\<exists>synced s'. sync_pools_of ch now subs qs s = (Inr synced, s') \<and> live alive (es_pool_id r) s'
    \<and> (es_pool_id r \<in> set qs \<longrightarrow> es_pool_id r \<in> fst ` set synced)"
  using l
proof (induction qs arbitrary: s)
  case (Cons q qs)
  show ?case
  proof (cases "pool_clients s q")
    case None
    then have "q \<noteq> es_pool_id r" using Cons.prems by (auto simp: live_def)
    then show ?thesis using None Cons.IH [OF Cons.prems] by auto
  next
    case (Some cl)
    obtain res cl' where sy: "ch_sync_state ch cl = (res, cl')" by fastforce
    let ?s = "s\<lparr>pool_clients := (pool_clients s)(q \<mapsto> cl')\<rparr>"
    have own: "alive cl' \<and> (\<exists>b. res = Inr b)" if "q = es_pool_id r"
    proof -
      have "alive cl" using that Cons.prems Some by (auto simp: live_def)
      then show ?thesis using w sy unfolding client_works_def by (metis Pair_inject)
    qed
    have l': "live alive (es_pool_id r) ?s" using own Cons.prems by (auto simp: live_def)
    show ?thesis
    proof (cases res)
      case (Inr b)
      obtain synced s' where "sync_pools_of ch now subs qs ?s = (Inr synced, s')" "live alive (es_pool_id r) s'"
        "es_pool_id r \<in> set qs \<longrightarrow> es_pool_id r \<in> fst ` set synced" using Cons.IH [OF l'] by blast
      then show ?thesis using Some sy Inr by (auto simp: st_then_def)
    next
      case (Inl e)
      obtain s2 where s2: "for_each (record_attempt (Some (''sync: '' @ ch_error_text ch e)) now) (filter (\<lambda>r. es_pool_id r = q) subs) ?s
          = (Inr (), s2)" "pool_clients s2 = pool_clients ?s" using record_attempts_total [OF t] by blast
      have l2: "live alive (es_pool_id r) s2" using l' by (simp only: live_clients [OF s2(2)])
      have "q \<noteq> es_pool_id r" using own Inl by auto
      then show ?thesis using Some sy Inl s2(1) Cons.IH [OF l2] by (auto simp: st_then_def)
    qed
  qed
qed simp

lemma resolve_one_live:
  fixes s :: "('sg, 'pk, 'cl) observer"
  assumes w: "local_reads ch" and t: "to_i64 now = Inr t" and l: "live alive (es_pool_id r) s"
  shows "\<exists>s'. resolve_one ch now synced q s = (Inr (), s') \<and> live alive (es_pool_id r) s'
    \<and> (q = r \<and> es_pool_id r \<in> fst ` set synced \<and> timed_out ch now r \<longrightarrow> resolved (es_tx_hash r) (fo_store s'))"
proof -
  define good where "good m b \<longleftrightarrow> (\<exists>s'. m = (Inr () :: error + unit, s') \<and> live alive (es_pool_id r) s' \<and> (b \<longrightarrow> resolved (es_tx_hash q) (fo_store s')))"
    for m :: "(error + unit) \<times> ('sg, 'pk, 'cl) observer" and b
  have fail: "good (fail_tx reason now q u) b" if "live alive (es_pool_id r) u" for reason u b
    using fail_tx_total [OF t, of reason q u] that live_clients unfolding good_def by metis
  have att: "\<exists>s'. record_attempt e now q s = (Inr (), s') \<and> live alive (es_pool_id r) s'" for e
    using record_attempt_total [OF t, of e q s] l live_clients by metis
  have late: "good (st_then (record_attempt e now q) (\<lambda>_. if b then fail_tx reason now q else Pair (Inr ())) s) b" for e b reason
  proof -
    obtain s1 where s1: "record_attempt e now q s = (Inr (), s1)" "live alive (es_pool_id r) s1" using att by blast
    show ?thesis using fail [OF s1(2), of reason True] s1 by (cases b) (simp_all add: st_then_def good_def)
  qed
  have conf: "good (st_then (fo_exec (confirm_submission (es_tx_hash q) block now)) (\<lambda>_ s. (Inr (), s)) s) b" for block b
    using confirm_total [OF t, of q block s] l live_clients unfolding good_def by metis
  have weaken: "good m b'" if "good m b" "b' \<longrightarrow> b" for m b b' using that unfolding good_def by blast
  have rec: "good (resolve_record ch now b q rec s) (timed_out ch now q)" for b rec
  proof (cases "tr_status rec")
    case (TxCommitted block)
    then show ?thesis by (simp add: resolve_record_def conf fail [OF l])
  next
    case (TxDiscarded cause)
    then show ?thesis by (simp only: resolve_record_def transaction_status.case fail [OF l])
  next
    case TxPending
    show ?thesis unfolding resolve_record_def TxPending transaction_status.case
      by (rule weaken [OF late]) blast
  qed
  have "good (resolve_one ch now synced q s) (q = r \<and> es_pool_id r \<in> fst ` set synced \<and> timed_out ch now r)"
  proof (cases "ch_read_tx_id ch (es_tx_id q)")
    case (Inl e)
    then show ?thesis by (simp only: resolve_one_def sum.case fail [OF l])
  next
    case (Inr tx_id)
    show ?thesis
    proof (cases "pool_clients s (es_pool_id q)")
      case None
      then have "q \<noteq> r" using l by (auto simp: live_def)
      moreover have "resolve_one ch now synced q s = record_attempt (Some ''no finality client for submission pool'') now q s"
        by (simp only: resolve_one_def Inr None sum.case option.case)
      ultimately show ?thesis using att unfolding good_def by metis
    next
      case cl: (Some cl)
      obtain recs where g: "ch_get_transactions ch cl tx_id = Inr recs" using w unfolding local_reads_def by blast
      note run = resolve_one_def [of ch now synced q s, unfolded Inr cl sum.case option.case]
      show ?thesis
      proof (cases "map_of synced (es_pool_id q)")
        case None
        then have "\<not> (q = r \<and> es_pool_id r \<in> fst ` set synced)" by (auto simp: map_of_eq_None_iff)
        then show ?thesis unfolding run None option.case good_def using l by blast
      next
        case (Some b)
        have "good (case find (\<lambda>rec. tr_id rec = tx_id) recs of
              Some rec \<Rightarrow> resolve_record ch now b q rec s
            | None \<Rightarrow> st_then (record_attempt (Some ''transaction is not present in local client store'') now q) (\<lambda>_.
                if timed_out ch now q then fail_tx ''confirmation timeout before transaction became observable'' now q
                else Pair (Inr ())) s) (timed_out ch now q)"
          using rec late by (cases "find (\<lambda>rec. tr_id rec = tx_id) recs") (simp_all only: option.case)
        then show ?thesis unfolding run Some g option.case sum.case by (rule weaken) blast
      qed
    qed
  qed
  then show ?thesis unfolding good_def by blast
qed

lemma resolve_all_live:
  assumes w: "local_reads ch" and t: "to_i64 now = Inr t" and l: "live alive (es_pool_id r) s"
  shows "\<exists>s'. for_each (resolve_one ch now synced) rs s = (Inr (), s')
    \<and> (r \<in> set rs \<and> es_pool_id r \<in> fst ` set synced \<and> timed_out ch now r \<longrightarrow> resolved (es_tx_hash r) (fo_store s'))"
  using l
proof (induction rs arbitrary: s)
  case (Cons q rs)
  obtain s1 where 1: "resolve_one ch now synced q s = (Inr (), s1)" "live alive (es_pool_id r) s1"
      "q = r \<and> es_pool_id r \<in> fst ` set synced \<and> timed_out ch now r \<longrightarrow> resolved (es_tx_hash r) (fo_store s1)"
    using resolve_one_live [OF w t Cons.prems, of synced q] by blast
  obtain s2 where 2: "for_each (resolve_one ch now synced) rs s1 = (Inr (), s2)"
      "r \<in> set rs \<and> es_pool_id r \<in> fst ` set synced \<and> timed_out ch now r \<longrightarrow> resolved (es_tx_hash r) (fo_store s2)"
    using Cons.IH [OF 1(2)] by blast
  have "keeps (\<lambda>s u. resolved (es_tx_hash r) (fo_store s) \<longrightarrow> resolved (es_tx_hash r) (fo_store u)) (for_each (resolve_one ch now synced) rs)"
    by (rule obs_res.keeps_for_each) (rule obs_res.resolve_one_kept)
  from keepsD [OF this 2(1)] show ?case using 1 2 by (auto simp: st_then_def)
qed simp

lemma reconcile_due_resolves:
  assumes w: "client_works ch alive r" "local_reads ch" and t: "to_i64 now = Inr t" and re: "pool_reached ch alive (es_pool_id r) s"
    and u: "\<And>q. q \<in> set subs \<Longrightarrow> es_tx_hash q = es_tx_hash r \<Longrightarrow> q = r"
    and r: "r \<in> set subs" "timed_out ch now r"
  shows "\<exists>s'. reconcile_due ch now subs s = (Inr (), s') \<and> resolved (es_tx_hash r) (fo_store s')"
proof -
  let ?p = "es_pool_id r" and ?h = "es_tx_hash r"
  obtain s1 where 1: "for_each (attach_for ch now subs) (remdups (map es_pool_id subs)) s = (Inr (), s1)" "live alive ?p s1"
    using attach_all_reached [OF w(2) t re, of subs "remdups (map es_pool_id subs)"] r(1) by auto
  obtain skip s2 where 2: "seed_all_submissions ch now subs s1 = (Inr skip, s2)" "live alive ?p s2" "?h \<in> set skip \<longrightarrow> resolved ?h (fo_store s2)"
    using seed_all_live [OF w t 1(2), of subs] u by blast
  let ?ks = "filter (\<lambda>r. es_tx_hash r \<notin> set skip) subs"
  obtain synced s3 where 3: "sync_pools_of ch now ?ks (remdups (map es_pool_id ?ks)) s2 = (Inr synced, s3)" "live alive ?p s3"
      "?p \<in> set (remdups (map es_pool_id ?ks)) \<longrightarrow> ?p \<in> fst ` set synced"
    using sync_live [OF w(1) t 2(2)] by blast
  have skipped: "?h \<in> set skip \<longrightarrow> resolved ?h (fo_store s3)"
    using 2(3) keepsD [OF obs_res.sync_kept 3(1)] by blast
  have kept: "keeps (\<lambda>s u. resolved ?h (fo_store s) \<longrightarrow> resolved ?h (fo_store u)) (for_each (resolve_one ch now synced) ?ks)"
    by (rule obs_res.keeps_for_each) (rule obs_res.resolve_one_kept)
  obtain s4 where 4: "for_each (resolve_one ch now synced) ?ks s3 = (Inr (), s4)"
      "r \<in> set ?ks \<and> ?p \<in> fst ` set synced \<and> timed_out ch now r \<longrightarrow> resolved ?h (fo_store s4)"
    using resolve_all_live [OF w(2) t 3(2), of synced ?ks] by blast
  have "resolved ?h (fo_store s4) \<and> (synced = [] \<longrightarrow> resolved ?h (fo_store s3))"
  proof (cases "?h \<in> set skip")
    case True
    then show ?thesis using skipped keepsD [OF kept 4(1)] by blast
  next
    case False
    then have "r \<in> set ?ks" using r(1) by simp
    moreover from this have "?p \<in> fst ` set synced" using 3(3) by auto
    ultimately show ?thesis using 4(2) r(2) by auto
  qed
  then show ?thesis using 1 2 3 4(1) by (auto simp: reconcile_due_def st_then_def Let_def)
qed

text \<open>
  C23: no submission waits for ever. In every reachable store, when a round of the observer reaches the pool
  of a due submission that has been tried often enough or waited long enough, the round succeeds and
  resolves the submission, whatever state the chain reports for it: afterwards it is confirmed or
  failed, so its batch can finish. The round reaches the pool when its client is attached or attaches,
  synchronises and takes the submission's own update, and no client's local store fails to be read; the clients
  of all other pools may fail to attach, to apply or to synchronise.
\<close>

theorem overdue_submission_resolved:
  assumes "exec_reachable cd limit (fo_store s)" "to_i64 now = Inr t"
    and rows: "submitted_transactions (fo_store s) = Inr rows"
    and r: "r \<in> set rows" "due_submission (finality_retry_millis ch) now r" "timed_out ch now r"
    and "local_reads ch" "client_works ch alive r" "pool_reached ch alive (es_pool_id r) s"
  shows "\<exists>s'. reconcile_submissions ch now s = (Inr (), s')
    \<and> (\<forall>q\<in>set (execution_submissions (fo_store s')). es_tx_hash q = es_tx_hash r \<longrightarrow> es_state q \<noteq> SubSubmitted)"
proof -
  let ?subs = "filter (due_submission (finality_retry_millis ch) now) rows"
  have m: "r \<in> set ?subs" using r by simp
  have sub: "set rows \<subseteq> set (execution_submissions (fo_store s))"
    using rows by (auto simp: submitted_transactions_def Let_def split: if_splits)
  have "hashes_unique (fo_store s)" using assms(1) by (rule exec_subs.reachable_inv)
  then have u: "q = r" if "q \<in> set ?subs" "es_tx_hash q = es_tx_hash r" for q
    using that r(1) sub by (auto simp: hashes_unique_def distinct_map inj_on_def)
  have "\<exists>s'. reconcile_due ch now ?subs s = (Inr (), s') \<and> resolved (es_tx_hash r) (fo_store s')"
    by (rule reconcile_due_resolves [OF assms(8,7,2,9) u m r(3)])
  moreover have "?subs \<noteq> []" using m by (auto simp: filter_empty_conv)
  ultimately show ?thesis using rows by (simp add: reconcile_submissions_def Let_def resolved_def)
qed

text \<open>A submission whose own update never applies is not given up, however long it waits: every round only
  counts an attempt.\<close>

lemma record_attempt_eq:
  assumes "to_i64 now = Inr t"
  shows "record_attempt err now r s = (Inr (), s\<lparr>fo_store := update_submissions (fo_store s)
      (\<lambda>q. es_tx_hash q = es_tx_hash r \<and> es_state q = SubSubmitted)
      (\<lambda>q. q\<lparr>es_attempts := es_attempts q + 1, es_last_error := err, es_updated_at := t\<rparr>)\<rparr>)"
  using assms by (simp add: record_attempt_def fo_exec_def record_reconciliation_attempt_def atomically_def and_then_def)

lemma failing_apply_never_times_out:
  assumes "ch_read_tx_id ch (es_tx_id r) = Inr tx_id" "pool_clients s (es_pool_id r) = Some cl"
    and "ch_get_transactions ch cl tx_id = Inr []" "ch_read_update ch (es_transaction_update r) = Inr u"
    and "ch_apply_update ch cl u = (Inl e, cl)" "to_i64 now = Inr t"
  shows "fst (reconcile_due ch now [r] s) = Inr ()
    \<and> map es_state (execution_submissions (fo_store (snd (reconcile_due ch now [r] s)))) = map es_state (execution_submissions (fo_store s))"
proof -
  obtain s1 where a: "attach_for ch now [r] (es_pool_id r) s = (Inr (), s1)" "pool_clients s1 = pool_clients s" "fo_store s1 = fo_store s"
    using assms(2) by (simp add: attach_for_def catch_error_def ensure_pool_attached_def)
  obtain err where "seed_one ch now r s1 = (Inr True, snd (record_attempt err now r (s1\<lparr>pool_clients := (pool_clients s1)(es_pool_id r \<mapsto> cl)\<rparr>)))"
    using assms a(2) by (auto simp: seed_one_def Let_def st_then_def record_attempt_eq)
  then show ?thesis using a assms(6)
    by (simp add: reconcile_due_def st_then_def Let_def record_attempt_eq update_submissions_def sql_update_def)
qed


section \<open>Finished batches are announced\<close>

definition delivered :: "nat \<Rightarrow> execution_db \<Rightarrow> bool" where
  "delivered k db \<longleftrightarrow> k < length (execution_outbox db) \<and> ob_delivered_at (execution_outbox db ! k) \<noteq> None"

definition outbox_evolves :: "execution_db \<Rightarrow> execution_db \<Rightarrow> bool" where
  "outbox_evolves db db' \<longleftrightarrow> execution_batches db' = execution_batches db \<and> durable_orders db' = durable_orders db
     \<and> length (execution_outbox db') = length (execution_outbox db)
     \<and> (\<forall>k<length (execution_outbox db). ob_topic (execution_outbox db' ! k) = ob_topic (execution_outbox db ! k)
          \<and> ob_aggregate_id (execution_outbox db' ! k) = ob_aggregate_id (execution_outbox db ! k)
          \<and> (ob_delivered_at (execution_outbox db ! k) \<noteq> None \<longrightarrow> ob_delivered_at (execution_outbox db' ! k) \<noteq> None))"

interpretation out: state_order "\<lambda>s t. outbox_evolves (fo_store s) (fo_store t)"
  by unfold_locales (auto simp: outbox_evolves_def)

lemma outbox_evolves_trans: "outbox_evolves a b \<Longrightarrow> outbox_evolves b d \<Longrightarrow> outbox_evolves a d"
  by (auto simp: outbox_evolves_def)

lemma outbox_evolves_delivered: "outbox_evolves db db' \<Longrightarrow> delivered k db \<Longrightarrow> delivered k db'"
  by (simp add: outbox_evolves_def delivered_def)

lemma mark_outbox_evolves: "outbox_evolves db (snd (mark_outbox_delivered i now db))"
  by (auto simp: outbox_evolves_def mark_outbox_delivered_def atomically_def and_then_def nth_list_update split: sum.split)

lemma mark_outbox_delivers:
  assumes "to_i64 now = Inr t" "k < length (execution_outbox db)"
  shows "delivered k (snd (mark_outbox_delivered (Suc k) now db))"
  using assms by (auto simp: delivered_def mark_outbox_delivered_def atomically_def and_then_def)

lemma take_filter_mono:
  assumes "x \<in> set (take n (filter P xs))" "Q x" "\<And>y. Q y \<Longrightarrow> P y"
  shows "x \<in> set (take n (filter Q xs))"
  using assms(1)
proof (induction xs arbitrary: n)
  case (Cons y xs)
  show ?case
  proof (cases n)
    case (Suc m)
    show ?thesis
    proof (cases "P y")
      case True
      then show ?thesis using Cons Suc assms(2) set_take_subset_set_take [of m n "filter Q xs"] by auto
    next
      case False
      then show ?thesis using Cons Suc assms(3) by auto
    qed
  qed (use Cons in simp)
qed simp

definition undelivered :: "execution_db \<Rightarrow> nat list" where
  "undelivered db = filter (\<lambda>k. ob_delivered_at (execution_outbox db ! k) = None) [0..<length (execution_outbox db)]"

lemma pending_outbox_100:
  "pending_outbox 100 db = Inr (map (\<lambda>k. (Suc k, ob_topic (execution_outbox db ! k), ob_aggregate_id (execution_outbox db ! k)))
     (take 100 (undelivered db)))"
proof -
  let ?xs = "execution_outbox db"
  have e: "enumerate 1 ?xs = map (\<lambda>k. (Suc k, ?xs ! k)) [0..<length ?xs]"
    by (rule nth_equalityI) (simp_all add: nth_enumerate_eq)
  show ?thesis unfolding pending_outbox_def e
    by (simp add: usize_i64_def and_then_def undelivered_def filter_map comp_def take_map)
qed

lemma pending_entry:
  assumes "pending_outbox 100 db = Inr es"
  shows "(Suc k, topic, agg) \<in> set es \<longleftrightarrow> k \<in> set (take 100 (undelivered db)) \<and> k < length (execution_outbox db)
    \<and> ob_topic (execution_outbox db ! k) = topic \<and> ob_aggregate_id (execution_outbox db ! k) = agg"
proof -
  have "k < length (execution_outbox db)" if "k \<in> set (take 100 (undelivered db))"
    using in_set_takeD [OF that] by (simp add: undelivered_def)
  then show ?thesis using assms unfolding pending_outbox_100 by auto
qed

text \<open>An entry that is pending stays within the limit while other entries are delivered.\<close>

lemma entry_delivered_or_pending:
  assumes "outbox_evolves db db'" "pending_outbox 100 db = Inr es" "(Suc k, topic, agg) \<in> set es"
    and "pending_outbox 100 db' = Inr es'"
  shows "delivered k db' \<or> (Suc k, topic, agg) \<in> set es'"
proof (cases "ob_delivered_at (execution_outbox db' ! k) = None")
  case True
  have k: "k \<in> set (take 100 (undelivered db))" "k < length (execution_outbox db)" "ob_topic (execution_outbox db ! k) = topic"
    "ob_aggregate_id (execution_outbox db ! k) = agg"
    using assms(3) by (simp_all add: pending_entry [OF assms(2)])
  let ?Q = "\<lambda>k. ob_delivered_at (execution_outbox db' ! k) = None \<and> ob_delivered_at (execution_outbox db ! k) = None"
  have mono: "undelivered db' = filter ?Q [0..<length (execution_outbox db)]"
    using assms(1) unfolding undelivered_def by (intro filter_cong) (auto simp: outbox_evolves_def)
  have "?Q k" using assms(1) True k(2) unfolding outbox_evolves_def by blast
  then have "k \<in> set (take 100 (undelivered db'))"
    unfolding mono by (intro take_filter_mono [OF k(1) [unfolded undelivered_def]]) auto
  moreover have "k < length (execution_outbox db')" "ob_topic (execution_outbox db' ! k) = topic" "ob_aggregate_id (execution_outbox db' ! k) = agg"
    using assms(1) k(2-4) by (auto simp: outbox_evolves_def)
  ultimately show ?thesis by (simp add: pending_entry [OF assms(4)])
next
  case False
  moreover have "k < length (execution_outbox db')"
    using assms(1,3) by (simp add: pending_entry [OF assms(2)] outbox_evolves_def)
  ultimately show ?thesis by (simp add: delivered_def)
qed

abbreviation deliver_if :: "u64 \<Rightarrow> uuid \<Rightarrow> nat \<times> string \<times> uuid \<Rightarrow> ('sg, 'pk, 'cl) observer \<Rightarrow> ('sg, 'pk, 'cl) observer" where
  "deliver_if now b \<equiv> \<lambda>(i, topic, agg) s.
     if topic = ''batch_terminal'' \<and> agg = b then snd (fo_exec (mark_outbox_delivered i now) s) else s"

lemma fo_exec_parts [simp]: "fo_store (snd (fo_exec f s)) = snd (f (fo_store s))" "fo_sent (snd (fo_exec f s)) = fo_sent s"
  by (simp_all add: fo_exec_def split: prod.split)

lemma deliver_evolves: "outbox_evolves (fo_store s) (fo_store (deliver_if now b e s))"
  using out.refl by (auto simp: mark_outbox_evolves split: prod.split)

lemma deliver_sent: "fo_sent (fold (deliver_if now b) es s) = fo_sent s"
  by (induction es arbitrary: s) (auto split: prod.split)

lemma mark_batch_delivers:
  assumes "to_i64 now = Inr t" "(Suc k, ''batch_terminal'', b) \<in> set es" "k < length (execution_outbox (fo_store s))"
  shows "delivered k (fo_store (fold (deliver_if now b) es s))"
  using assms(2,3)
proof (induction es arbitrary: s)
  case (Cons e es)
  let ?s = "deliver_if now b e s"
  have l: "k < length (execution_outbox (fo_store ?s))"
    using deliver_evolves [where s = s and now = now and b = b and e = e] Cons.prems(2) by (simp add: outbox_evolves_def)
  show ?case
  proof (cases "(Suc k, ''batch_terminal'', b) \<in> set es")
    case True
    then show ?thesis using Cons.IH [OF True l] by simp
  next
    case False
    then have "e = (Suc k, ''batch_terminal'', b)" using Cons.prems(1) by simp
    then have "delivered k (fo_store ?s)" using mark_outbox_delivers [OF assms(1) Cons.prems(2)] by simp
    moreover have "outbox_evolves (fo_store ?s) (fo_store (fold (deliver_if now b) es ?s))"
      by (rule out.fold_keeps) (rule deliver_evolves)
    ultimately show ?thesis by (simp add: outbox_evolves_delivered)
  qed
qed simp


lemma mark_batch_fold: "pending_outbox 100 (fo_store s) = Inr es \<Longrightarrow> mark_batch_delivered now b s = fold (deliver_if now b) es s"
  by (simp add: mark_batch_delivered_def)

lemma announce_publishes:
  assumes "recover_terminal_batch rt b (fo_store s) = Inr (Some batch)" "pending_outbox 100 (fo_store s) = Inr es"
  shows "announce_entry rt now (i, ''batch_terminal'', b) s = fold (deliver_if now b) es
    (s\<lparr>fo_sent := fo_sent s @ batch_notifications (rt_clock rt) (recovered_orders batch) (recovered_outcomes batch)\<rparr>)"
proof -
  have "recovered_id batch = b"
    using assms(1) by (auto simp: recover_terminal_batch_def and_then_def split: option.splits sum.splits)
  then show ?thesis using assms by (simp add: announce_entry_def publish_terminal_notifications_def mark_batch_fold)
qed

lemma announce_frame:
  "outbox_evolves (fo_store s) (fo_store (announce_entry rt now e s)) \<and> (\<exists>xs. fo_sent (announce_entry rt now e s) = fo_sent s @ xs)"
proof -
  obtain i topic b where e: "e = (i, topic, b)" by (cases e)
  obtain es where es: "pending_outbox 100 (fo_store s) = Inr es" unfolding pending_outbox_100 by blast
  have "outbox_evolves (fo_store s) (fo_store (fold (deliver_if now b) es u)) \<and> fo_sent (fold (deliver_if now b) es u) = fo_sent u"
    if "fo_store u = fo_store s" for u :: "('a, 'b, 'c) observer"
  proof -
    have "outbox_evolves (fo_store u) (fo_store (fold (deliver_if now b) es u))" by (rule out.fold_keeps) (rule deliver_evolves)
    then show ?thesis using that by (simp add: deliver_sent)
  qed
  then show ?thesis
    using announce_publishes [OF _ es] out.refl
    by (cases "topic = ''batch_terminal''"; cases "recover_terminal_batch rt b (fo_store s)")
      (auto simp: e announce_entry_def split: option.splits)
qed

lemma announced_frame:
  "outbox_evolves (fo_store s) (fo_store (fold (announce_entry rt now) es s)) \<and> (\<exists>xs. fo_sent (fold (announce_entry rt now) es s) = fo_sent s @ xs)"
proof (induction es arbitrary: s)
  case (Cons e es)
  show ?case using Cons [of "announce_entry rt now e s"] announce_frame [of s rt now e]
    by (auto intro: out.trans)
qed (use out.refl in auto)

lemma recover_entries_frame:
  "durable_orders db' = durable_orders db \<Longrightarrow> recover_entries rt db' b es = recover_entries rt db b es"
  by (induction es) (simp_all add: Let_def split: option.split)

lemma recover_frame:
  assumes "outbox_evolves db db'" shows "recover_terminal_batch rt b db' = recover_terminal_batch rt b db"
proof -
  have "execution_batches db' = execution_batches db" "durable_orders db' = durable_orders db"
    using assms by (simp_all add: outbox_evolves_def)
  then show ?thesis by (simp only: recover_terminal_batch_def recover_entries_frame [of db' db])
qed

lemma fold_delivers:
  assumes rec: "recover_terminal_batch rt b (fo_store s0) = Inr (Some batch)" and t: "to_i64 now = Inr t"
    and es0: "pending_outbox 100 (fo_store s0) = Inr es0" "(Suc k, ''batch_terminal'', b) \<in> set es0"
    and "outbox_evolves (fo_store s0) (fo_store s)" "(Suc k, ''batch_terminal'', b) \<in> set es"
  shows "delivered k (fo_store (fold (announce_entry rt now) es s))"
  using assms(5,6)
proof (induction es arbitrary: s)
  case (Cons e es)
  let ?s = "announce_entry rt now e s"
  show ?case
  proof (cases "e = (Suc k, ''batch_terminal'', b)")
    case True
    obtain ps where ps: "pending_outbox 100 (fo_store s) = Inr ps" unfolding pending_outbox_100 by blast
    have r: "recover_terminal_batch rt b (fo_store s) = Inr (Some batch)" using recover_frame [OF Cons.prems(1), of rt b] rec by simp
    let ?u = "s\<lparr>fo_sent := fo_sent s @ batch_notifications (rt_clock rt) (recovered_orders batch) (recovered_outcomes batch)\<rparr>"
    have s: "?s = fold (deliver_if now b) ps ?u" unfolding True by (rule announce_publishes [OF r ps])
    have l: "k < length (execution_outbox (fo_store s))"
      using Cons.prems(1) es0(2) by (simp add: pending_entry [OF es0(1)] outbox_evolves_def)
    have "delivered k (fo_store ?s)"
      using entry_delivered_or_pending [OF Cons.prems(1) es0 ps]
    proof
      assume "delivered k (fo_store s)"
      then show ?thesis using announce_frame [of s rt now e] by (auto intro: outbox_evolves_delivered)
    next
      assume "(Suc k, ''batch_terminal'', b) \<in> set ps"
      then show ?thesis unfolding s using mark_batch_delivers [OF t, of k b ps ?u] l by simp
    qed
    then show ?thesis using announced_frame [of ?s rt now es]
      by (auto intro: outbox_evolves_delivered)
  next
    case False
    have "outbox_evolves (fo_store s0) (fo_store ?s)"
      using Cons.prems(1) announce_frame [of s rt now e] by (auto intro: outbox_evolves_trans)
    then show ?thesis using Cons.IH [of ?s] Cons.prems(2) False by simp
  qed
qed simp


text \<open>The update that tells the outcome of a stored order.\<close>

definition tells_outcome :: "order_row \<Rightarrow> ('sg, 'pk) order_update \<Rightarrow> bool" where
  "tells_outcome r u \<longleftrightarrow>
     (if do_state r = OrdFailed then \<exists>ord. u = UFailed ord \<and> order_id ord = do_order_id r
      else \<exists>ord. u = UConfirmed ord \<and> order_id ord = do_order_id r)"

lemma orders_by_id_found: "ord \<in> set ords \<Longrightarrow> \<exists>ord'. orders_by_id ords (order_id ord) = Some ord' \<and> order_id ord' = order_id ord"
proof -
  assume "ord \<in> set ords"
  then have "order_id ord \<in> dom (orders_by_id ords)" by (simp add: orders_by_id_def dom_map_of_conv_image_fst image_image)
  then obtain ord' where "orders_by_id ords (order_id ord) = Some ord'" by blast
  moreover from this have "order_id ord' = order_id ord" by (auto simp: orders_by_id_def dest!: map_of_SomeD)
  ultimately show ?thesis by blast
qed

lemma outcome_updates_tell:
  assumes "\<And>out. out \<in> set outs \<Longrightarrow> \<exists>ord. by_id (outcome_order_id out) = Some ord \<and> order_id ord = outcome_order_id out"
    and "\<And>out. out \<in> set outs \<Longrightarrow> do_order_id (row out) = outcome_order_id out \<and> (do_state (row out) = OrdFailed \<longleftrightarrow> outcome_error out \<noteq> None)"
  shows "list_all2 tells_outcome (map row outs) (outcome_updates now by_id outs)"
  using assms
proof (induction outs)
  case (Cons out outs)
  obtain ord where "by_id (outcome_order_id out) = Some ord" "order_id ord = outcome_order_id out" using Cons.prems(1) by force
  then show ?case using Cons
    by (auto simp: tells_outcome_def outcome_update_def processed_failed_def processed_confirmed_def submitted_confirmed_def
        processed_submitted_def with_state_def)
qed simp

lemma recovered_outcomes_told:
  assumes inv: "orders_ok db" and ids: "map outcome_order_id outs = map order_id ords"
    and mem: "order_id ` set ords = do_order_id ` {r \<in> set (durable_orders db). do_batch_id r = Some b}"
    and rw: "\<And>x. x \<in> set outs \<Longrightarrow> rw x \<in> set (durable_orders db) \<and> do_order_id (rw x) = outcome_order_id x
      \<and> do_terminal_error (rw x) = outcome_error x"
  shows "set (map rw outs) = {r \<in> set (durable_orders db). do_batch_id r = Some b}"
    "list_all2 tells_outcome (map rw outs) (outcome_updates now (orders_by_id ords) outs)"
    "(\<exists>r\<in>set (map rw outs). do_state r = OrdFailed) \<longleftrightarrow> (\<exists>out\<in>set outs. outcome_order_id out \<in> order_id ` set ords \<and> outcome_error out \<noteq> None)"
proof -
  have inj: "r = q" if "r \<in> set (durable_orders db)" "q \<in> set (durable_orders db)" "do_order_id r = do_order_id q" for r q
    using inv that by (auto simp: orders_ok_def distinct_map inj_on_def)
  have idset: "outcome_order_id ` set outs = order_id ` set ords" using arg_cong [OF ids, of set] by simp
  have err: "do_state (rw x) = OrdFailed \<longleftrightarrow> outcome_error x \<noteq> None" if "x \<in> set outs" for x
    using rw [OF that] inv unfolding orders_ok_def error_matches_def by metis
  show "set (map rw outs) = {r \<in> set (durable_orders db). do_batch_id r = Some b}"
  proof (intro set_eqI iffI)
    fix r assume "r \<in> set (map rw outs)"
    then obtain x where x: "x \<in> set outs" "r = rw x" by auto
    then have "do_order_id r \<in> order_id ` set ords" using rw [OF x(1)] idset by auto
    then obtain q where "q \<in> set (durable_orders db)" "do_batch_id q = Some b" "do_order_id q = do_order_id r" unfolding mem by auto
    then show "r \<in> {r \<in> set (durable_orders db). do_batch_id r = Some b}" using inj [of q r] rw [OF x(1)] x(2) by auto
  next
    fix r assume r: "r \<in> {r \<in> set (durable_orders db). do_batch_id r = Some b}"
    then have "do_order_id r \<in> outcome_order_id ` set outs" unfolding idset mem by auto
    then obtain x where x: "x \<in> set outs" "outcome_order_id x = do_order_id r" by auto
    then have "rw x = r" using rw [OF x(1)] r by (intro inj) auto
    then show "r \<in> set (map rw outs)" using x(1) by auto
  qed
  show "list_all2 tells_outcome (map rw outs) (outcome_updates now (orders_by_id ords) outs)"
  proof (rule outcome_updates_tell)
    fix x assume x: "x \<in> set outs"
    then obtain ord where "ord \<in> set ords" "order_id ord = outcome_order_id x" using idset by (metis image_iff)
    then show "\<exists>ord. orders_by_id ords (outcome_order_id x) = Some ord \<and> order_id ord = outcome_order_id x"
      using orders_by_id_found by metis
    show "do_order_id (rw x) = outcome_order_id x \<and> (do_state (rw x) = OrdFailed \<longleftrightarrow> outcome_error x \<noteq> None)"
      using rw [OF x] err [OF x] by simp
  qed
  show "(\<exists>r\<in>set (map rw outs). do_state r = OrdFailed) \<longleftrightarrow> (\<exists>out\<in>set outs. outcome_order_id out \<in> order_id ` set ords \<and> outcome_error out \<noteq> None)"
    using err unfolding idset [symmetric] by fastforce
qed

text \<open>A batch recovers each of its orders once, and an entry announces orders of its own batch only.\<close>

lemma recover_entries_ids:
  assumes "recover_entries rt db b es = Inr (ords, outs)"
  shows "map outcome_order_id outs = map (\<lambda>e. dur_id (dbo_order e)) es
    \<and> (\<forall>x\<in>set outs. \<exists>r\<in>set (durable_orders db). do_order_id r = outcome_order_id x \<and> do_batch_id r = Some b)"
  using assms
proof (induction es arbitrary: ords outs)
  case (Cons e es)
  obtain r where r: "find (\<lambda>r. do_order_id r = dur_id (dbo_order e) \<and> do_batch_id r = Some b) (durable_orders db) = Some r"
    using Cons.prems by (cases "find (\<lambda>r. do_order_id r = dur_id (dbo_order e) \<and> do_batch_id r = Some b) (durable_orders db)") auto
  then obtain ords' outs' where rest: "recover_entries rt db b es = Inr (ords', outs')"
    and outs: "outs = \<lparr>outcome_order_id = dur_id (dbo_order e), outcome_tx_hash = do_tx_hash r, outcome_error = do_terminal_error r\<rparr> # outs'"
    using Cons.prems by (auto simp: Let_def res_simps split: if_splits)
  have "r \<in> set (durable_orders db)" "do_order_id r = dur_id (dbo_order e)" "do_batch_id r = Some b"
    using r by (auto simp: find_Some_iff)
  then show ?case using Cons.IH [OF rest] by (auto simp: outs)
qed simp

lemma recovered_batch:
  assumes "recover_terminal_batch rt b db = Inr (Some batch)"
  obtains row entries where "row \<in> set (execution_batches db)" "eb_payload row = Json entries"
    "recover_entries rt db b entries = Inr (recovered_orders batch, recovered_outcomes batch)"
proof -
  obtain row where f: "find (\<lambda>r. eb_batch_id r = b \<and> eb_state r = Terminal) (execution_batches db) = Some row"
    using assms by (auto simp: recover_terminal_batch_def split: option.splits)
  then obtain entries ords outs where "eb_payload row = Json entries" "recover_entries rt db b entries = Inr (ords, outs)"
    "batch = \<lparr>recovered_id = b, recovered_orders = ords, recovered_outcomes = outs\<rparr>"
    using assms by (cases "eb_payload row") (auto simp: recover_terminal_batch_def res_simps)
  moreover have "row \<in> set (execution_batches db)" using f by (auto simp: find_Some_iff)
  ultimately show ?thesis using that by simp
qed

lemma recovered_once:
  assumes "keyed db" "recover_terminal_batch rt b db = Inr (Some batch)"
  shows "distinct (map outcome_order_id (recovered_outcomes batch))"
proof -
  obtain row entries where "row \<in> set (execution_batches db)" and p: "eb_payload row = Json entries"
    and r: "recover_entries rt db b entries = Inr (recovered_orders batch, recovered_outcomes batch)"
    by (rule recovered_batch [OF assms(2)])
  then have "Json entries \<in> eb_payload ` set (execution_batches db)" by (metis image_eqI)
  then have "named_once entries" using assms(1) by (auto simp: keys_ok_def keys_def)
  then show ?thesis using recover_entries_ids [OF r] by (simp add: named_once_def)
qed

lemma update_id_outcome: "update_id (outcome_update now ord out) = order_id ord"
  by (simp add: outcome_update_def processed_failed_def processed_confirmed_def submitted_confirmed_def processed_submitted_def
      with_state_def)

lemma outcome_update_ids: "u \<in> set (outcome_updates now (orders_by_id ords) outs) \<Longrightarrow> update_id u \<in> outcome_order_id ` set outs"
proof (induction outs)
  case (Cons out outs)
  have "order_id ord = oid" if "orders_by_id ords oid = Some ord" for ord oid
    using that by (auto simp: orders_by_id_def dest!: map_of_SomeD)
  then show ?case using Cons by (auto simp: update_id_outcome split: option.splits)
qed simp

abbreviation about_batch :: "execution_db \<Rightarrow> uuid \<Rightarrow> ('sg, 'pk) order_update \<Rightarrow> bool" where
  "about_batch db b u \<equiv> \<exists>r\<in>set (durable_orders db). do_order_id r = update_id u \<and> do_batch_id r = Some b"

lemma announce_sends:
  "\<exists>xs. fo_sent (announce_entry rt now (i, topic, b) s) = fo_sent s @ xs
    \<and> (\<forall>u. EvOrder u \<in> set xs \<longrightarrow> topic = ''batch_terminal'' \<and> about_batch (fo_store s) b u)"
proof (cases "topic = ''batch_terminal'' \<and> (\<exists>batch. recover_terminal_batch rt b (fo_store s) = Inr (Some batch))")
  case True
  then obtain batch where t: "topic = ''batch_terminal''" and rec: "recover_terminal_batch rt b (fo_store s) = Inr (Some batch)" by blast
  obtain es where es: "pending_outbox 100 (fo_store s) = Inr es" unfolding pending_outbox_100 by blast
  obtain row entries where r: "recover_entries rt (fo_store s) b entries = Inr (recovered_orders batch, recovered_outcomes batch)"
    by (rule recovered_batch [OF rec])
  have "about_batch (fo_store s) b u" if "EvOrder u \<in> set (batch_notifications (rt_clock rt) (recovered_orders batch) (recovered_outcomes batch))" for u
  proof -
    have "u \<in> set (outcome_updates (rt_clock rt) (orders_by_id (recovered_orders batch)) (recovered_outcomes batch))"
      using that by (auto simp: batch_notifications_def split: if_splits)
    from outcome_update_ids [OF this] recover_entries_ids [OF r] show ?thesis by auto
  qed
  moreover have "fo_sent (announce_entry rt now (i, topic, b) s)
      = fo_sent s @ batch_notifications (rt_clock rt) (recovered_orders batch) (recovered_outcomes batch)"
    unfolding t announce_publishes [OF rec es] by (simp add: deliver_sent)
  ultimately show ?thesis using t by blast
next
  case False
  then have "announce_entry rt now (i, topic, b) s = s"
    by (cases "recover_terminal_batch rt b (fo_store s)") (auto simp: announce_entry_def split: option.splits)
  then show ?thesis by simp
qed

lemma fold_sends_others:
  assumes "orders_ok (fo_store s)" "\<forall>i. (i, ''batch_terminal'', b) \<notin> set es"
  shows "\<exists>xs. fo_sent (fold (announce_entry rt now) es s) = fo_sent s @ xs \<and> (\<forall>u. EvOrder u \<in> set xs \<longrightarrow> \<not> about_batch (fo_store s) b u)"
  using assms
proof (induction es arbitrary: s)
  case (Cons e es)
  obtain i topic b' where e: "e = (i, topic, b')" by (cases e)
  let ?s = "announce_entry rt now e s"
  have same: "durable_orders (fo_store ?s) = durable_orders (fo_store s)" using announce_frame [of s rt now e] by (auto simp: outbox_evolves_def)
  then have "orders_ok (fo_store ?s)" using Cons.prems(1) by (simp add: orders_ok_def)
  then obtain ys where ys: "fo_sent (fold (announce_entry rt now) es ?s) = fo_sent ?s @ ys" "\<forall>u. EvOrder u \<in> set ys \<longrightarrow> \<not> about_batch (fo_store s) b u"
    using Cons.IH [of ?s] Cons.prems(2) same by auto
  obtain xs where xs: "fo_sent ?s = fo_sent s @ xs" "\<forall>u. EvOrder u \<in> set xs \<longrightarrow> topic = ''batch_terminal'' \<and> about_batch (fo_store s) b' u"
    using announce_sends [of rt now i topic b' s] by (auto simp: e)
  have inj: "r = q" if "r \<in> set (durable_orders (fo_store s))" "q \<in> set (durable_orders (fo_store s))" "do_order_id r = do_order_id q" for r q
    using Cons.prems(1) that by (auto simp: orders_ok_def distinct_map inj_on_def)
  have "\<not> about_batch (fo_store s) b u" if u: "EvOrder u \<in> set xs" for u
  proof
    assume "about_batch (fo_store s) b u"
    then obtain r where r: "r \<in> set (durable_orders (fo_store s))" "do_order_id r = update_id u" "do_batch_id r = Some b" by blast
    obtain q where q: "q \<in> set (durable_orders (fo_store s))" "do_order_id q = update_id u" "do_batch_id q = Some b'" and t: "topic = ''batch_terminal''"
      using xs(2) u by blast
    have "b' = b" using inj [OF r(1) q(1)] r q by simp
    then show False using Cons.prems(2) t by (auto simp: e)
  qed
  then show ?case using xs(1) ys by (intro exI [of _ "xs @ ys"]) auto
qed simp

text \<open>The pending entries name a batch once.\<close>

lemma pending_split:
  assumes "keyed db" "pending_outbox 100 db = Inr es" "(Suc k, ''batch_terminal'', b) \<in> set es"
  obtains es1 es2 where "es = es1 @ (Suc k, ''batch_terminal'', b) # es2"
    "\<forall>i. (i, ''batch_terminal'', b) \<notin> set es1" "\<forall>i. (i, ''batch_terminal'', b) \<notin> set es2"
proof -
  let ?e = "\<lambda>k. (Suc k, ob_topic (execution_outbox db ! k), ob_aggregate_id (execution_outbox db ! k))"
  have es: "es = map ?e (take 100 (undelivered db))" using assms(2) by (simp add: pending_outbox_100)
  have d: "distinct es" unfolding es by (auto simp: distinct_map inj_on_def undelivered_def)
  have one: "i = Suc k" if m: "(i, ''batch_terminal'', b) \<in> set es" for i
  proof -
    obtain j where j: "i = Suc j" using m by (auto simp: es)
    have "j = k" using entry_unique [OF assms(1), of j k] m assms(3) by (simp add: j pending_entry [OF assms(2)])
    then show ?thesis by (simp add: j)
  qed
  obtain es1 es2 where sp: "es = es1 @ (Suc k, ''batch_terminal'', b) # es2" using assms(3) by (auto dest: split_list)
  have "(i, ''batch_terminal'', b) \<notin> set es1 \<and> (i, ''batch_terminal'', b) \<notin> set es2" for i
    using one [of i] d by (auto simp: sp)
  then show ?thesis using that [OF sp] by blast
qed

lemma announced_once:
  assumes ok: "orders_ok (fo_store s)" "keyed (fo_store s)" and rec: "recover_terminal_batch rt b (fo_store s) = Inr (Some batch)"
    and es: "pending_outbox 100 (fo_store s) = Inr es" "(Suc k, ''batch_terminal'', b) \<in> set es"
  shows "\<exists>pre post. fo_sent (announce_finished rt now s) = fo_sent s @ pre
      @ batch_notifications (rt_clock rt) (recovered_orders batch) (recovered_outcomes batch) @ post
    \<and> (\<forall>u. EvOrder u \<in> set pre \<union> set post \<longrightarrow> \<not> about_batch (fo_store s) b u)"
proof -
  obtain es1 es2 where sp: "es = es1 @ (Suc k, ''batch_terminal'', b) # es2"
    "\<forall>i. (i, ''batch_terminal'', b) \<notin> set es1" "\<forall>i. (i, ''batch_terminal'', b) \<notin> set es2"
    by (rule pending_split [OF ok(2) es])
  let ?s1 = "fold (announce_entry rt now) es1 s"
  let ?s2 = "announce_entry rt now (Suc k, ''batch_terminal'', b) ?s1"
  have ev: "outbox_evolves (fo_store s) (fo_store ?s1)" "outbox_evolves (fo_store s) (fo_store ?s2)"
    using announced_frame [of s rt now es1] announce_frame [of ?s1 rt now] by (auto intro: outbox_evolves_trans)
  then have same: "durable_orders (fo_store ?s2) = durable_orders (fo_store s)" by (simp add: outbox_evolves_def)
  obtain pre where pre: "fo_sent ?s1 = fo_sent s @ pre" "\<forall>u. EvOrder u \<in> set pre \<longrightarrow> \<not> about_batch (fo_store s) b u"
    using fold_sends_others [OF ok(1) sp(2)] by blast
  have "recover_terminal_batch rt b (fo_store ?s1) = Inr (Some batch)" by (rule trans [OF recover_frame [OF ev(1)] rec])
  moreover obtain ps where "pending_outbox 100 (fo_store ?s1) = Inr ps" unfolding pending_outbox_100 by blast
  ultimately have s2: "fo_sent ?s2 = fo_sent ?s1 @ batch_notifications (rt_clock rt) (recovered_orders batch) (recovered_outcomes batch)"
    by (simp add: announce_publishes deliver_sent)
  have "orders_ok (fo_store ?s2)" using ok(1) same by (simp add: orders_ok_def)
  then obtain post where "fo_sent (fold (announce_entry rt now) es2 ?s2) = fo_sent ?s2 @ post"
    "\<forall>u. EvOrder u \<in> set post \<longrightarrow> \<not> about_batch (fo_store s) b u"
    using fold_sends_others [of ?s2 b es2 rt now] sp(3) same by auto
  then show ?thesis using es(1) pre s2 by (intro exI [of _ pre] exI [of _ post]) (auto simp: announce_finished_def sp(1))
qed

text \<open>
  C26: every finished batch is announced, once. In every reachable store, for a batch that is terminal and
  whose outbox entry is among the first hundred undelivered ones, one announcing round appends to the events
  sent, in one piece, exactly one update for each order of the batch, a confirmation when its stored order is
  not failed and a failure otherwise, then, exactly when an order failed, the notice that makes the engine
  reload its pools, and the notice that the batch was executed; no other update of the round is about an order
  of the batch, and afterwards the entry is marked delivered.
\<close>

theorem finished_batch_announced:
  fixes cd :: "('sg, 'pk) codec" and s :: "('sg, 'pk, 'cl) observer"
  assumes "exec_reachable cd limit (fo_store s)" "codec_ok cd" "rt_codec rt = cd" "to_i64 now = Inr t"
    and row: "row \<in> set (execution_batches (fo_store s))" "eb_state row = Terminal"
    and es: "pending_outbox 100 (fo_store s) = Inr es" "(Suc k, ''batch_terminal'', eb_batch_id row) \<in> set es"
  shows "\<exists>pre rows ups post.
    fo_sent (announce_finished rt now s) = fo_sent s @ pre @ map EvOrder ups
      @ (if \<exists>r\<in>set rows. do_state r = OrdFailed then [EvAmm BatchFailed] else []) @ [EvAmm OrdersExecuted] @ post
    \<and> distinct (map do_order_id rows)
    \<and> set rows = {r \<in> set (durable_orders (fo_store s)). do_batch_id r = Some (eb_batch_id row)}
    \<and> list_all2 tells_outcome rows ups
    \<and> (\<forall>u. EvOrder u \<in> set pre \<union> set post \<longrightarrow> update_id u \<notin> do_order_id ` set rows)
    \<and> ob_delivered_at (execution_outbox (fo_store (announce_finished rt now s)) ! k) \<noteq> None"
proof -
  let ?db = "fo_store s" and ?b = "eb_batch_id row"
  obtain batch where rec: "recover_terminal_batch rt ?b ?db = Inr (Some batch)"
    and ids: "map outcome_order_id (recovered_outcomes batch) = map order_id (recovered_orders batch)"
    and mem: "order_id ` set (recovered_orders batch) = do_order_id ` {r \<in> set (durable_orders ?db). do_batch_id r = Some ?b}"
    and outs: "\<forall>x\<in>set (recovered_outcomes batch). \<exists>r\<in>set (durable_orders ?db). do_order_id r = outcome_order_id x
          \<and> terminal_state (do_state r) \<and> do_tx_hash r = outcome_tx_hash x \<and> do_terminal_error r = outcome_error x"
    using terminal_recovered [OF assms(1-3) row] by blast
  have inv: "orders_ok ?db" using exec.reachable_inv [OF assms(1)] by (simp add: store_inv_def)
  have keys: "keyed ?db" using assms(1) by (rule exec_keys.reachable_inv)
  obtain rw where rw: "\<And>x. x \<in> set (recovered_outcomes batch) \<Longrightarrow> rw x \<in> set (durable_orders ?db) \<and> do_order_id (rw x) = outcome_order_id x
      \<and> do_terminal_error (rw x) = outcome_error x" using outs by metis
  let ?ups = "outcome_updates (rt_clock rt) (orders_by_id (recovered_orders batch)) (recovered_outcomes batch)"
  let ?rows = "map rw (recovered_outcomes batch)"
  note told = recovered_outcomes_told [OF inv ids mem rw]
  obtain pre post where sent: "fo_sent (announce_finished rt now s) = fo_sent s @ pre
      @ batch_notifications (rt_clock rt) (recovered_orders batch) (recovered_outcomes batch) @ post"
    and quiet: "\<forall>u. EvOrder u \<in> set pre \<union> set post \<longrightarrow> \<not> about_batch ?db ?b u"
    using announced_once [OF inv keys rec es] by blast
  have "map do_order_id ?rows = map outcome_order_id (recovered_outcomes batch)" using rw by simp
  then have "distinct (map do_order_id ?rows)" by (simp only: recovered_once [OF keys rec])
  moreover have "fo_sent (announce_finished rt now s) = fo_sent s @ pre @ map EvOrder ?ups
      @ (if \<exists>r\<in>set ?rows. do_state r = OrdFailed then [EvAmm BatchFailed] else []) @ [EvAmm OrdersExecuted] @ post"
    by (simp only: sent batch_notifications_def told(3) append_assoc)
  moreover have "\<forall>u. EvOrder u \<in> set pre \<union> set post \<longrightarrow> update_id u \<notin> do_order_id ` set ?rows"
  proof (intro allI impI notI)
    fix u :: "('sg, 'pk) order_update"
    assume u: "EvOrder u \<in> set pre \<union> set post" "update_id u \<in> do_order_id ` set ?rows"
    have "update_id u \<in> do_order_id ` {r \<in> set (durable_orders ?db). do_batch_id r = Some ?b}" using u(2) by (simp only: told(1))
    then have "about_batch ?db ?b u" by auto
    then show False using quiet u(1) by blast
  qed
  moreover have "ob_delivered_at (execution_outbox (fo_store (announce_finished rt now s)) ! k) \<noteq> None"
    using fold_delivers [OF rec assms(4) es, of s es] es out.refl by (auto simp: announce_finished_def delivered_def)
  ultimately show ?thesis using told(1,2) by blast
qed


lemma mark_outbox_subs [simp]: "execution_submissions (snd (mark_outbox_delivered i now db)) = execution_submissions db"
  by (simp add: mark_outbox_delivered_def atomically_def and_then_def split: sum.split)

lemma deliver_subs: "execution_submissions (fo_store (fold (deliver_if now b) es s)) = execution_submissions (fo_store s)"
  by (induction es arbitrary: s) (auto split: prod.split)

lemma announced_subs: "execution_submissions (fo_store (announce_finished rt now s)) = execution_submissions (fo_store s)"
proof -
  have one: "execution_submissions (fo_store (announce_entry rt now e s)) = execution_submissions (fo_store s)" for e s
    by (auto simp: announce_entry_def publish_terminal_notifications_def mark_batch_delivered_def deliver_subs
        split: prod.split sum.split option.split)
  have "execution_submissions (fo_store (fold (announce_entry rt now) es s)) = execution_submissions (fo_store s)" for es
    by (induction es arbitrary: s) (simp_all add: one)
  then show ?thesis by (simp add: announce_finished_def split: sum.split)
qed

section \<open>An example\<close>

definition example_chain :: "transaction_status \<Rightarrow> (unit, unit) chain" where
  "example_chain st = \<lparr>ch_attach = \<lambda>_. Inr (), ch_read_tx_id = Inr, ch_read_update = \<lambda>_. Inr (),
     ch_get_transactions = \<lambda>_ i. Inr [\<lparr>tr_id = i, tr_account_id = example_user, tr_init_account_state = [3],
       tr_final_account_state = [4], tr_status = st\<rparr>],
     ch_apply_update = \<lambda>_ _. (Inr (), ()), ch_sync_state = \<lambda>_. (Inr 30, ()), ch_deployment = Inr [],
     ch_error_text = \<lambda>_. [], ch_retry_ms = None, ch_retry_secs = None, ch_max_attempts = None, ch_timeout_secs = None\<rparr>"

definition example_observer :: "execution_db \<Rightarrow> ('sg, 'pk, unit) observer" where
  "example_observer db = \<lparr>pool_clients = Map.empty, fo_store = db, fo_registry = new_registry [example_user], fo_sent = []\<rparr>"

lemma example_chain_works:
  "local_reads (example_chain st)" "client_works (example_chain st) (\<lambda>_. True) r"
  by (simp_all add: local_reads_def client_works_def example_chain_def)

lemma reconciling_rows: "submitted_transactions db_reconciling = Inr [example_sub]"
  by (simp add: submitted_transactions_def db_reconciling_def db_submitted_def submission_converts_def example_sub_def to_u32_def)

theorem overdue_submission_resolved_witness:
  "\<exists>s'. reconcile_submissions (example_chain TxPending) 2000000 (example_observer db_reconciling :: (bytes, bytes, unit) observer) = (Inr (), s')
    \<and> (\<forall>q\<in>set (execution_submissions (fo_store s')). es_tx_hash q = ''h'' \<longrightarrow> es_state q \<noteq> SubSubmitted)"
proof -
  let ?s = "example_observer db_reconciling :: (bytes, bytes, unit) observer"
  have "submitted_transactions (fo_store ?s) = Inr [example_sub]" by (simp add: example_observer_def reconciling_rows)
  moreover have "pool_reached (example_chain TxPending) (\<lambda>_. True) (es_pool_id example_sub) ?s"
    by (simp add: pool_reached_def example_observer_def registry_contains_def new_registry_def example_sub_def example_chain_def)
  moreover have "due_submission (finality_retry_millis (example_chain TxPending)) 2000000 example_sub"
    by (simp add: due_submission_def finality_retry_millis_def example_chain_def example_sub_def sat_sub_def)
  moreover have "timed_out (example_chain TxPending) 2000000 example_sub"
    by (simp add: timed_out_def timeout_ms_def example_chain_def example_sub_def sat_sub_def sat_mul_def or_default_def)
  moreover have "exec_reachable example_codec 1 (fo_store ?s)" using reconciling_reachable(2) by (simp add: example_observer_def)
  ultimately show ?thesis
    using overdue_submission_resolved [of example_codec 1 ?s 2000000 2000000 "[example_sub]" example_sub "example_chain TxPending" "\<lambda>_. True"]
      example_chain_works
    by (simp add: to_i64_def example_sub_def)
qed


lemma example_sub_row: "execution_submissions db_reconciling = [example_sub]"
  by (simp add: db_reconciling_def db_submitted_def)

lemma example_reconciled:
  "\<exists>s'. reconcile_submissions (example_chain (TxCommitted 25)) 10000 (example_observer db_reconciling :: (bytes, bytes, unit) observer) = (Inr (), s')
    \<and> (\<exists>q\<in>set (execution_submissions (fo_store s')). es_state q = SubConfirmed)"
proof -
  let ?ch = "example_chain (TxCommitted 25)" and ?s = "example_observer db_reconciling :: (bytes, bytes, unit) observer"
  let ?s1 = "?s\<lparr>pool_clients := [example_user \<mapsto> ()]\<rparr>"
  have due: "due_submission (finality_retry_millis ?ch) 10000 example_sub"
    by (simp add: due_submission_def finality_retry_millis_def example_chain_def example_sub_def sat_sub_def)
  have att: "attach_for ?ch 10000 [example_sub] example_user ?s = (Inr (), ?s1)"
    by (simp add: attach_for_def catch_error_def ensure_pool_attached_def example_observer_def example_chain_def
        registry_contains_def new_registry_def acknowledge_def bump_def Let_def or_default_def)
  have seed: "seed_one ?ch 10000 example_sub ?s1 = (Inr False, ?s1)"
    by (simp add: seed_one_def example_observer_def example_chain_def example_sub_def)
  have sync: "sync_pools_of ?ch 10000 [example_sub] [example_user] ?s1 = (Inr [(example_user, 30)], ?s1)"
    by (simp add: example_observer_def example_chain_def st_then_def)
  obtain x db' where c: "confirm_submission ''h'' 25 10000 db_reconciling = (Inr x, db')" "resolved ''h'' db'"
    using resolve_submission_total [of 10000 10000 "''h''" True "Some 25" None db_reconciling]
    by (auto simp: confirm_submission_def to_i64_def)
  then have "db' \<noteq> db_reconciling" by (auto simp: resolved_def example_sub_row example_sub_def)
  have res: "resolve_one ?ch 10000 [(example_user, 30)] example_sub ?s1 = (Inr (), ?s1\<lparr>fo_store := db'\<rparr>)"
    by (simp add: resolve_one_def resolve_record_def commitments_match_def example_chain_def example_sub_def example_observer_def
        fo_exec_def st_then_def c)
  have "es_pool_id example_sub = example_user" "fo_store ?s = db_reconciling" by (simp_all add: example_sub_def example_observer_def)
  then have "reconcile_submissions ?ch 10000 ?s = (Inr (), ?s1\<lparr>fo_store := db'\<rparr>)"
    by (simp add: reconcile_submissions_def reconcile_due_def st_then_def reconciling_rows Let_def att seed sync res due
        del: sync_pools_of.simps)
  moreover have "\<exists>q\<in>set (execution_submissions db'). es_state q = SubConfirmed"
    using c(1) \<open>db' \<noteq> db_reconciling\<close>
    by (auto simp: confirm_submission_def resolve_submission_def atomically_def example_sub_row example_sub_def sql_update_def
        dest!: resolve_submission_subs split: sum.splits)
  ultimately show ?thesis by simp
qed

theorem finished_batch_announced_witness:
  "\<exists>pre ups post. fo_sent (announce_finished example_runtime 2000 (example_observer db_terminal)) = pre @ map EvOrder ups @ [EvAmm BatchFailed, EvAmm OrdersExecuted] @ post
    \<and> length ups = 1"
proof -
  let ?row = "\<lparr>eb_batch_id = 77, eb_payload = Json [example_entry], eb_state = Terminal, eb_claim_owner = None,
       eb_claim_until = None, eb_terminal_error = Some ''bad'', eb_created_at = 1003, eb_updated_at = 1006\<rparr>"
  have db: "fo_store (example_observer db_terminal) = db_terminal" by (simp add: example_observer_def)
  have row: "?row \<in> set (execution_batches db_terminal)" by (simp add: db_terminal_def)
  have out: "pending_outbox 100 db_terminal = Inr [(3, ''batch_terminal'', 77)]"
    by (simp add: pending_outbox_def usize_i64_def and_then_def db_terminal_def db_failed_def db_taken_def run_dbs db_admitted_def)
  have ords: "{r \<in> set (durable_orders db_terminal). do_batch_id r = Some 77} = set (durable_orders db_terminal)"
      "\<exists>r\<in>set (durable_orders db_terminal). do_state r = OrdFailed"
    by (auto simp: db_terminal_def db_failed_def)
  have n: "length rows = 1" if "distinct (map do_order_id rows)" "set rows = set (durable_orders db_terminal)" for rows
  proof -
    have "length (durable_orders db_terminal) = 1" by (simp add: db_terminal_def db_failed_def)
    then show ?thesis using that distinct_card [of rows] card_length [of "durable_orders db_terminal"]
      by (cases "durable_orders db_terminal") (auto simp: distinct_map)
  qed
  from finished_batch_announced [of example_codec 1 "example_observer db_terminal" example_runtime 2000 2000 ?row "[(3, ''batch_terminal'', 77)]" 2]
  obtain pre rows ups post where sent: "fo_sent (announce_finished example_runtime 2000 (example_observer db_terminal))
      = fo_sent (example_observer db_terminal) @ pre @ map EvOrder ups
        @ (if \<exists>r\<in>set rows. do_state r = OrdFailed then [EvAmm BatchFailed] else []) @ [EvAmm OrdersExecuted] @ post"
      and rows: "distinct (map do_order_id rows)" "set rows = set (durable_orders db_terminal)" "list_all2 tells_outcome rows ups"
    using run_reachable(4) example_codec_ok row out ords(1) unfolding db by (auto simp: to_i64_def example_runtime_def)
  have "length ups = 1" using rows(3) n [OF rows(1,2)] by (simp add: list_all2_lengthD)
  moreover have "\<exists>r\<in>set rows. do_state r = OrdFailed" using ords(2) rows(2) by simp
  ultimately show ?thesis using sent by (intro exI [of _ "fo_sent (example_observer db_terminal) @ pre"] exI [of _ ups] exI [of _ post]) simp
qed

theorem confirmed_only_when_committed_witness:
  "\<exists>s'. snd (poll_once (example_chain (TxCommitted 25)) example_runtime 10000 (example_observer db_reconciling :: (bytes, bytes, unit) observer)) = s'
    \<and> (\<exists>q\<in>set (execution_submissions (fo_store s')). es_state q = SubConfirmed
         \<and> (\<exists>block. es_confirmed_block q = Some block \<and> committed_on_chain (example_chain (TxCommitted 25)) q block))"
proof -
  let ?ch = "example_chain (TxCommitted 25)" and ?s = "example_observer db_reconciling :: (bytes, bytes, unit) observer"
  obtain s1 q where s1: "reconcile_submissions ?ch 10000 ?s = (Inr (), s1)" "q \<in> set (execution_submissions (fo_store s1))" "es_state q = SubConfirmed"
    using example_reconciled by blast
  obtain res s' where p: "poll_once ?ch example_runtime 10000 ?s = (res, s')" by fastforce
  have "s' = announce_finished example_runtime 10000 s1" using p s1(1) by (simp add: poll_once_def st_then_def catch_error_def)
  then have q: "q \<in> set (execution_submissions (fo_store s'))"
    using s1(2) by (simp add: announced_subs)
  have st: "fo_store ?s = db_reconciling" by (simp add: example_observer_def)
  have "exec_reachable example_codec 1 (fo_store ?s)" using reconciling_reachable(2) by (simp add: st)
  from confirmed_only_when_committed [OF this p q s1(3)]
  have "\<exists>block. es_confirmed_block q = Some block \<and> committed_on_chain ?ch q block"
    by (auto simp: st example_sub_row example_sub_def)
  then show ?thesis using p q s1(3) by auto
qed

end
