(* ===== verification/Exec_Script.thy ===== *)
theory Exec_Script
  imports Intent
begin

text \<open>
  The transaction script of a shard (\<open>src/src/execution_script.rs\<close>): one call of the pool's swap procedure
  per signed intent, with the intent's field elements pushed so that the procedure finds them on the stack
  in the order they were signed.
\<close>

section \<open>Decimal text\<close>

fun decimal :: "nat \<Rightarrow> string" where
  "decimal n = (if n < 10 then [char_of (48 + n)] else decimal (n div 10) @ [char_of (48 + n mod 10)])"

declare decimal.simps [simp del]

definition digit :: "char \<Rightarrow> bool" where
  "digit c \<longleftrightarrow> 48 \<le> (of_char c :: nat) \<and> (of_char c :: nat) \<le> 57"

fun undecimal :: "nat \<Rightarrow> string \<Rightarrow> nat" where
  "undecimal acc [] = acc"
| "undecimal acc (c # cs) = undecimal (10 * acc + (of_char c - 48)) cs"

lemma undecimal_append: "undecimal acc (xs @ ys) = undecimal (undecimal acc xs) ys"
  by (induction xs arbitrary: acc) auto

lemma digit_char: "(d :: nat) < 10 \<Longrightarrow> digit (char_of (48 + d)) \<and> of_char (char_of (48 + d) :: char) = 48 + d"
  by (simp add: digit_def)

lemma decimal_digits: "\<forall>c\<in>set (decimal n). digit c"
proof (induction n rule: decimal.induct)
  case (1 n)
  have "digit (char_of (48 + n mod 10))" by (simp add: digit_char)
  then show ?case using 1 digit_char [of n] by (subst decimal.simps) auto
qed

lemma undecimal_decimal: "undecimal 0 (decimal n) = n"
proof (induction n rule: decimal.induct)
  case (1 n)
  show ?case
  proof (cases "n < 10")
    case True
    then show ?thesis by (simp add: decimal.simps [of n] digit_char)
  next
    case False
    have "of_char (char_of (48 + n mod 10) :: char) = 48 + n mod 10" using digit_char [of "n mod 10"] by simp
    then show ?thesis using 1 False by (simp add: decimal.simps [of n] undecimal_append)
  qed
qed

lemma digits_then: "\<forall>c\<in>set xs. digit c \<Longrightarrow> \<not> digit c \<Longrightarrow> takeWhile digit (xs @ c # r) = xs"
  by (simp add: takeWhile_append2)

text \<open>A number in front of a character that is no digit is read back, whatever follows.\<close>

lemma decimal_prefix:
  assumes "decimal m @ c # r = decimal n @ d # r'" "\<not> digit c" "\<not> digit d"
  shows "m = n \<and> c = d \<and> r = r'"
proof -
  have "decimal m = decimal n"
    using arg_cong [OF assms(1), of "takeWhile digit"] assms(2,3) decimal_digits by (simp add: digits_then)
  then show ?thesis using assms(1) undecimal_decimal by (metis append_same_eq list.inject same_append_eq)
qed

section \<open>The script\<close>

abbreviation newline :: char where "newline \<equiv> CHR 0x0A"

definition TX_SCRIPT_START :: string where
  "TX_SCRIPT_START =
     newline # ''use zoro_miden::pool::execute_swap'' @ newline # ''use miden::core::sys'' @ newline #
     ''    const ADV_MAP_KEY = [0, 0, 0, 1]'' @ newline # newline # ''  begin'' @ newline #
     ''    push.ADV_MAP_KEY adv.push_mapval dropw'' @ [newline, newline]"

definition TX_SCRIPT_END :: string where
  "TX_SCRIPT_END = newline # ''    exec.sys::truncate_stack'' @ newline # ''end''"

definition push_operands :: "intent \<Rightarrow> u64 list" where
  "push_operands i =
     (let (uuid0, uuid1, uuid2, uuid3) = client_order_id i
      in [expires_at i, uuid3, uuid2, uuid1, uuid0, buy_amount i, buy_asset_prefix i, buy_asset_suffix i,
          sell_amount i, sell_asset_prefix i, sell_asset_suffix i, user_prefix i, user_suffix i,
          network i, domain i, purpose i])"

fun dotted :: "u64 list \<Rightarrow> string" where
  "dotted [] = []"
| "dotted (v # vs) = CHR ''.'' # decimal (unat v) @ dotted vs"

definition trade_string :: "intent \<Rightarrow> string" where
  "trade_string i = newline # ''       push'' @ dotted (push_operands i) @ newline # ''       call.execute_swap''"

definition make_exec_script :: "intent list \<Rightarrow> string" where
  "make_exec_script intents = TX_SCRIPT_START @ concat (map trade_string intents) @ TX_SCRIPT_END"

section \<open>What the script says\<close>

lemma digit_separators [simp]: "\<not> digit (CHR ''.'')" "\<not> digit newline"
  by (simp_all add: digit_def)

text \<open>The procedure pops the last push first: its arguments are the signed field elements in order.\<close>

lemma operands_on_stack: "rev (push_operands i) = canonical_felts i"
  by (simp add: push_operands_def canonical_felts_def split: prod.splits)

lemma dotted_prefix:
  assumes "length vs = length ws" "dotted vs @ newline # r = dotted ws @ newline # r'"
  shows "vs = ws \<and> r = r'"
  using assms
proof (induction vs ws rule: list_induct2)
  case (Cons v vs w ws)
  obtain c q d q' where q: "dotted vs @ newline # r = c # q" "dotted ws @ newline # r' = d # q'" "\<not> digit c" "\<not> digit d"
    by (cases vs; cases ws) auto
  from Cons(3) q have "decimal (unat v) @ c # q = decimal (unat w) @ d # q'" by simp
  from decimal_prefix [OF this q(3,4)] have "unat v = unat w" "dotted vs @ newline # r = dotted ws @ newline # r'" using q by auto
  then show ?case using Cons.IH by (auto intro: unsigned_word_eqI)
qed simp

lemma operands_length: "length (push_operands i) = 16"
  by (simp add: push_operands_def split: prod.splits)

lemma trades_inject:
  "concat (map trade_string is) @ TX_SCRIPT_END = concat (map trade_string js) @ TX_SCRIPT_END \<Longrightarrow> map push_operands is = map push_operands js"
proof (induction "is" arbitrary: js)
  case Nil
  then show ?case by (cases js) (auto simp: trade_string_def TX_SCRIPT_END_def)
next
  case (Cons i "is")
  from Cons(2) obtain j js' where js: "js = j # js'" by (cases js) (auto simp: trade_string_def TX_SCRIPT_END_def)
  have "dotted (push_operands i) @ newline # ''       call.execute_swap'' @ concat (map trade_string is) @ TX_SCRIPT_END
      = dotted (push_operands j) @ newline # ''       call.execute_swap'' @ concat (map trade_string js') @ TX_SCRIPT_END"
    using Cons(2) by (simp add: js trade_string_def [of i] trade_string_def [of j])
  from dotted_prefix [OF _ this] Cons.IH show ?case by (simp add: js operands_length)
qed

text \<open>
  C28: the script of a shard transaction executes exactly the intents that were signed. The operands of
  every call, in the order the procedure takes them from the stack, are the canonical field elements the
  user signed, and two lists of intents with the same script are the same list: nothing is lost or
  rounded in the decimal text.
\<close>

theorem exec_script_binds_intents:
  "rev (push_operands i) = canonical_felts i \<and> (make_exec_script is = make_exec_script js \<longleftrightarrow> is = js)"
proof -
  have "is = js" if "make_exec_script is = make_exec_script js"
  proof -
    have "map push_operands is = map push_operands js" using that by (intro trades_inject) (simp add: make_exec_script_def)
    moreover have "inj push_operands"
      by (rule injI, rule intent.equality) (auto simp: push_operands_def split: prod.splits)
    ultimately show ?thesis using inj_map_eq_map by blast
  qed
  then show ?thesis by (auto simp: operands_on_stack)
qed

end
