(* ===== verification/Miden_Execution.thy ===== *)
theory Miden_Execution
  imports Stateful Processing Exec_Script
begin

text \<open>
  The execution worker (\<open>src/src/miden_execution.rs\<close>): it claims a durable batch, routes its orders to the
  pool shards of their users, packs each shard into transactions, executes, proves and submits them with a
  Miden client per pool and records every submission in the execution store.
  The Miden client is not part of the repository: a client is a value of a type variable, its calls are
  fields of \<open>node\<close>. The shards of a batch run concurrently in the code, each with its own client and its
  own orders; here one after the other. The clock is read once per round.
\<close>

section \<open>State\<close>

datatype 'a timed = Elapsed | Finished "'a result"

text \<open>What the worker reads of an executed transaction.\<close>

record executed_tx =
  etx_hash :: string
  etx_id :: bytes
  etx_initial_commitment :: bytes
  etx_final_commitment :: bytes
  etx_expiration_block :: u32

record ('sg, 'w, 'cl, 'scr, 'req, 'prf, 'upd) node =
  nd_attach :: "account_id \<Rightarrow> 'cl result"
  nd_deployment :: "account_id list result"
  nd_placement :: "account_id \<Rightarrow> account_storage result"
  nd_try_from_elements :: "u64 \<Rightarrow> u64 \<Rightarrow> account_id result"
  nd_error_text :: "error \<Rightarrow> string"
  nd_hash_elements :: "u64 list \<Rightarrow> 'w"
  nd_prepared_signature :: "'sg \<Rightarrow> 'w \<Rightarrow> u64 list"
  nd_sync_state :: "'cl \<Rightarrow> unit timed \<times> 'cl"
  nd_sync_chain :: "'cl \<Rightarrow> unit timed \<times> 'cl"
  nd_compile :: "'cl \<Rightarrow> string \<Rightarrow> 'scr result"
  nd_request :: "'scr \<Rightarrow> u64 list \<Rightarrow> (account_id \<times> account_id) list \<Rightarrow> 'req result"
  nd_execute :: "account_id \<Rightarrow> 'req \<Rightarrow> 'cl \<Rightarrow> executed_tx result \<times> 'cl"
  nd_prove :: "executed_tx \<Rightarrow> 'cl \<Rightarrow> 'prf result \<times> 'cl"
  nd_submit :: "'prf \<Rightarrow> executed_tx \<Rightarrow> 'cl \<Rightarrow> u32 result \<times> 'cl"
  nd_store_update :: "executed_tx \<Rightarrow> u32 \<Rightarrow> 'cl \<Rightarrow> 'upd result \<times> 'cl"
  nd_update_bytes :: "'upd \<Rightarrow> bytes"
  nd_read_update :: "bytes \<Rightarrow> 'upd result"
  nd_apply_update :: "'upd \<Rightarrow> 'cl \<Rightarrow> unit result \<times> 'cl"
  nd_max_orders :: "nat option"
  nd_retry_secs :: "u64 option"

text \<open>The clock and the codec of stored orders.\<close>

record ('sg, 'pk) tick =
  tk_runtime :: "('sg, 'pk) runtime"
  tk_now_ms :: u64
  tk_now_s :: u64

record ('sg, 'pk, 'cl) executor =
  mx_clients :: "account_id \<rightharpoonup> 'cl"
  mx_cycle :: u64
  mx_registry :: pool_registry
  mx_orders :: "('sg, 'pk) orders"
  mx_user_pools :: "account_id \<rightharpoonup> account_id"
  mx_pool_states :: "account_id \<rightharpoonup> pool_state"
  mx_store :: execution_db
  mx_worker_id :: string
  mx_sent :: "('sg, 'pk) engine_event list"

definition mx_exec ::
  "(execution_db \<Rightarrow> (error + 'a) \<times> execution_db) \<Rightarrow> ('sg, 'pk, 'cl) executor \<Rightarrow> (error + 'a) \<times> ('sg, 'pk, 'cl) executor" where
  "mx_exec f s = (case f (mx_store s) of (r, db) \<Rightarrow> (r, s\<lparr>mx_store := db\<rparr>))"

definition mx_send :: "('sg, 'pk) engine_event \<Rightarrow> ('sg, 'pk, 'cl) executor \<Rightarrow> ('sg, 'pk, 'cl) executor" where
  "mx_send ev s = s\<lparr>mx_sent := mx_sent s @ [ev]\<rparr>"

section \<open>Startup\<close>

text \<open>The deployment: its pools, its assets with their decimals and the seeding deposits in order.\<close>

record deployment =
  dep_pools :: "account_id list"
  dep_assets :: "(account_id \<times> u8) list"
  dep_deposits :: "(account_id \<times> u64) list"

definition deployment_pool :: "u8 \<Rightarrow> pool_state" where
  "deployment_pool decs =
     new_pool_state default_settings default_balances 0 \<lparr>pool_name = ''Deployment asset'', asset_decimals = decs\<rparr>"

definition deployment_pools :: "deployment \<Rightarrow> account_id \<rightharpoonup> pool_state" where
  "deployment_pools dep = fold (\<lambda>(f, decs) m. m(f \<mapsto> deployment_pool decs)) (dep_assets dep) Map.empty"

definition change_pool ::
  "account_id \<Rightarrow> (pool_state \<Rightarrow> (u256 \<times> u64 \<times> pool_balances) result) \<Rightarrow> string
     \<Rightarrow> (account_id \<rightharpoonup> pool_state) \<Rightarrow> (account_id \<rightharpoonup> pool_state) result" where
  "change_pool f change unknown m =
     (case m f of
        None \<Rightarrow> Inl (Anyhow unknown)
      | Some p \<Rightarrow> and_then (change p) (\<lambda>(_, supply, bals). Inr (m(f \<mapsto> update_state p bals supply))))"

fun replay_deposits :: "(account_id \<times> u64) list \<Rightarrow> (account_id \<rightharpoonup> pool_state) \<Rightarrow> (account_id \<rightharpoonup> pool_state) result" where
  "replay_deposits [] m = Inr m"
| "replay_deposits ((f, amount) # ds) m =
     and_then (change_pool f (\<lambda>p. get_deposit_lp_amount_out p (ucast amount)) ''deposit record references unknown faucet'' m)
       (replay_deposits ds)"

definition replay_operation :: "lp_operation \<Rightarrow> pool_state \<Rightarrow> (u256 \<times> u64 \<times> pool_balances) result" where
  "replay_operation op p =
     (if lo_kind op = LpDeposit
      then get_deposit_lp_amount_out p (ucast (word_of_int (lo_asset_amount op) :: u64))
      else get_withdraw_asset_amount_out p (ucast (word_of_int (lo_lp_shares op) :: u64)))"

fun replay_operations :: "lp_operation list \<Rightarrow> (account_id \<rightharpoonup> pool_state) \<Rightarrow> (account_id \<rightharpoonup> pool_state) result" where
  "replay_operations [] m = Inr m"
| "replay_operations (op # ops) m =
     and_then (change_pool (lo_faucet_id op) (replay_operation op) ''LP journal references unknown faucet'' m)
       (replay_operations ops)"

text \<open>Snapshots replace the states of known pools only.\<close>

definition restore_snapshots ::
  "(account_id \<rightharpoonup> pool_state) \<Rightarrow> (account_id \<rightharpoonup> pool_state) \<Rightarrow> account_id \<rightharpoonup> pool_state" where
  "restore_snapshots saved m = (\<lambda>f. if m f = None then None else case saved f of None \<Rightarrow> m f | Some p \<Rightarrow> Some p)"

definition rebuild_pool_states :: "deployment \<Rightarrow> lp_db \<Rightarrow> execution_db \<Rightarrow> (account_id \<rightharpoonup> pool_state) result" where
  "rebuild_pool_states dep lp db =
     and_then (replay_deposits (dep_deposits dep) (deployment_pools dep)) (\<lambda>m.
     and_then (applied_operations lp) (\<lambda>ops.
     and_then (replay_operations ops m) (\<lambda>m.
     and_then (latest_pool_states db) (\<lambda>saved.
       Inr (restore_snapshots saved m)))))"

fun attach_clients ::
  "('sg, 'w, 'cl, 'scr, 'req, 'prf, 'upd) node \<Rightarrow> account_id list \<Rightarrow> (account_id \<rightharpoonup> 'cl) \<Rightarrow> (account_id \<rightharpoonup> 'cl) result" where
  "attach_clients nd [] m = Inr m"
| "attach_clients nd (p # ps) m = and_then (nd_attach nd p) (\<lambda>cl. attach_clients nd ps (m(p \<mapsto> cl)))"

definition initialize_executor ::
  "('sg, 'w, 'cl, 'scr, 'req, 'prf, 'upd) node \<Rightarrow> deployment \<Rightarrow> lp_db \<Rightarrow> execution_db \<Rightarrow> string
     \<Rightarrow> ('sg, 'pk, 'cl) executor result" where
  "initialize_executor nd dep lp db worker =
     and_then (attach_clients nd (dep_pools dep) Map.empty) (\<lambda>clients.
     and_then (rebuild_pool_states dep lp db) (\<lambda>pools.
       Inr \<lparr>mx_clients = clients, mx_cycle = 0, mx_registry = new_registry (dep_pools dep), mx_orders = empty_book,
            mx_user_pools = Map.empty, mx_pool_states = pools, mx_store = db, mx_worker_id = worker, mx_sent = []\<rparr>))"

section \<open>Pools and users\<close>

definition mx_ensure_pool_attached ::
  "('sg, 'w, 'cl, 'scr, 'req, 'prf, 'upd) node \<Rightarrow> account_id \<Rightarrow> ('sg, 'pk, 'cl) executor
     \<Rightarrow> (error + unit) \<times> ('sg, 'pk, 'cl) executor" where
  "mx_ensure_pool_attached nd p s =
     (if mx_clients s p \<noteq> None
      then (Inr (), s\<lparr>mx_registry := acknowledge p Execution (mx_registry s)\<rparr>)
      else
        case (if registry_contains (mx_registry s) p then (Inr True, mx_registry s)
              else ensure_from_deployment (nd_deployment nd) p (mx_registry s)) of
          (Inl e, r) \<Rightarrow> (Inl e, s\<lparr>mx_registry := r\<rparr>)
        | (Inr False, r) \<Rightarrow> (Inl (Anyhow ''user is assigned to unlisted pool''), s\<lparr>mx_registry := r\<rparr>)
        | (Inr True, r) \<Rightarrow>
            (case nd_attach nd p of
               Inl e \<Rightarrow> (Inl e, s\<lparr>mx_registry := r\<rparr>)
             | Inr cl \<Rightarrow>
                 (Inr (), s\<lparr>mx_clients := (mx_clients s)(p \<mapsto> cl), mx_registry := acknowledge p Execution r\<rparr>)))"

definition mx_attach_pending_pools ::
  "('sg, 'w, 'cl, 'scr, 'req, 'prf, 'upd) node \<Rightarrow> ('sg, 'pk, 'cl) executor \<Rightarrow> (error + unit) \<times> ('sg, 'pk, 'cl) executor" where
  "mx_attach_pending_pools nd s =
     for_each (\<lambda>p. catch_error (mx_ensure_pool_attached nd p) ignore_error) (pending_attach (mx_registry s)) s"

text \<open>The shard the vault assigned to a trader, read once and remembered.\<close>

definition assigned_pool ::
  "('sg, 'w, 'cl, 'scr, 'req, 'prf, 'upd) node \<Rightarrow> account_id \<Rightarrow> account_id result" where
  "assigned_pool nd user =
     and_then (nd_placement nd user) (\<lambda>st.
     and_then (vault_user_registration st user) (\<lambda>reg.
     and_then (ok_or reg (Anyhow ''user is not registered on the vault'')) (\<lambda>_.
     and_then (user_pool_from_storage (nd_try_from_elements nd) st user) (\<lambda>p.
       ok_or p (Anyhow ''user has no assigned pool'')))))"

definition mx_resolve_user_pool ::
  "('sg, 'w, 'cl, 'scr, 'req, 'prf, 'upd) node \<Rightarrow> account_id \<Rightarrow> ('sg, 'pk, 'cl) executor
     \<Rightarrow> (error + account_id) \<times> ('sg, 'pk, 'cl) executor" where
  "mx_resolve_user_pool nd user s =
     (case mx_user_pools s user of
        Some p \<Rightarrow> (Inr p, s)
      | None \<Rightarrow>
          (case assigned_pool nd user of
             Inl e \<Rightarrow> (Inl e, s)
           | Inr p \<Rightarrow>
               st_then (catch_error (mx_ensure_pool_attached nd p)
                          (\<lambda>e. Pair (Inl (Anyhow (''user is assigned to unlisted pool: '' @ nd_error_text nd e)))))
                 (\<lambda>_ s. (Inr p, s\<lparr>mx_user_pools := (mx_user_pools s)(user \<mapsto> p)\<rparr>)) s))"

section \<open>Packing a shard\<close>

definition MAX_FPI_ASSET_USER_PAIRS :: nat where
  "MAX_FPI_ASSET_USER_PAIRS = 48"

definition fpi_pair :: "('sg, 'pk, 'st) order \<Rightarrow> account_id \<times> account_id" where
  "fpi_pair ord = (asset_in (order_details ord), order_user_id ord)"

text \<open>One turn of the loop: the chunks so far, the current chunk and the storage keys counted for it.\<close>

definition chunk_order ::
  "nat \<Rightarrow> ('sg, 'pk, 'st) order
     \<Rightarrow> ('sg, 'pk, 'st) order list list \<times> ('sg, 'pk, 'st) order list \<times> (account_id \<times> account_id) list
     \<Rightarrow> ('sg, 'pk, 'st) order list list \<times> ('sg, 'pk, 'st) order list \<times> (account_id \<times> account_id) list" where
  "chunk_order max_orders ord = (\<lambda>(chunks, current, pairs).
     let pair = fpi_pair ord;
         would_add_pair = pair \<notin> set pairs;
         over_pair_budget = (would_add_pair \<and> MAX_FPI_ASSET_USER_PAIRS \<le> length pairs);
         over_order_budget = (max_orders \<le> length current);
         (chunks, current, pairs) =
           (if current \<noteq> [] \<and> (over_pair_budget \<or> over_order_budget) then (chunks @ [current], [], [])
            else (chunks, current, pairs))
     in (chunks, current @ [ord], if would_add_pair then pairs @ [pair] else pairs))"

definition chunk_orders_for_fpi ::
  "('sg, 'pk, 'st) order list \<Rightarrow> nat \<Rightarrow> ('sg, 'pk, 'st) order list list" where
  "chunk_orders_for_fpi ords max_orders =
     (case fold (chunk_order max_orders) ords ([], [], []) of
        (chunks, current, _) \<Rightarrow> if current = [] then chunks else chunks @ [current])"

section \<open>One transaction\<close>

text \<open>The client's calls and the worker's, on the pair of the shard's client and the worker.\<close>

definition on_client :: "('cl \<Rightarrow> (error + 'a) \<times> 'cl) \<Rightarrow> 'cl \<times> 's \<Rightarrow> (error + 'a) \<times> 'cl \<times> 's" where
  "on_client f = (\<lambda>(cl, s). case f cl of (r, cl') \<Rightarrow> (r, cl', s))"

definition on_worker :: "('s \<Rightarrow> (error + 'a) \<times> 's) \<Rightarrow> 'cl \<times> 's \<Rightarrow> (error + 'a) \<times> 'cl \<times> 's" where
  "on_worker f = (\<lambda>(cl, s). case f s of (r, s') \<Rightarrow> (r, cl, s'))"

definition ignoring :: "('s \<Rightarrow> (error + 'a) \<times> 's) \<Rightarrow> 's \<Rightarrow> (error + unit) \<times> 's" where
  "ignoring m = catch_error (st_then m (\<lambda>_. Pair (Inr ()))) ignore_error"

text \<open>A failure recorded before submission; only durable batches have rows to update.\<close>

definition fail_one ::
  "uuid option \<Rightarrow> string \<Rightarrow> u64 \<Rightarrow> ('sg, 'pk, 'st) order \<Rightarrow> ('sg, 'pk, 'cl) executor \<Rightarrow> (error + unit) \<times> ('sg, 'pk, 'cl) executor" where
  "fail_one b reason now ord s =
     (case b of
        None \<Rightarrow> (Inr (), s)
      | Some b \<Rightarrow> ignoring (mx_exec (mark_pre_submission_failed b (mx_worker_id s) [order_id ord] reason now)) s)"

fun filter_live_orders ::
  "('sg, 'pk) tick \<Rightarrow> uuid option \<Rightarrow> ('sg, 'pk, processed) order list \<Rightarrow> ('sg, 'pk, 'cl) executor
     \<Rightarrow> (error + ('sg, 'pk, processed) order list) \<times> ('sg, 'pk, 'cl) executor" where
  "filter_live_orders tk b [] s = (Inr [], s)"
| "filter_live_orders tk b (ord # ords) s =
     (if is_expired_at (expires_at (order_intent ord)) (tk_now_s tk)
      then st_then (fail_one b ''signed intent expired before execution'' (tk_now_ms tk) ord)
             (\<lambda>_ s. filter_live_orders tk b ords
                (mx_send (EvOrder (UFailed (processed_failed (rt_clock (tk_runtime tk)) Expired None ord))) s)) s
      else st_then (filter_live_orders tk b ords) (\<lambda>live s. (Inr (ord # live), s)) s)"

definition fail_chunk_orders ::
  "uuid option \<Rightarrow> string \<Rightarrow> u64 \<Rightarrow> ('sg, 'pk, 'st) order list \<Rightarrow> ('sg, 'pk, 'cl) executor \<Rightarrow> (error + unit) \<times> ('sg, 'pk, 'cl) executor" where
  "fail_chunk_orders b reason now = for_each (fail_one b reason now)"

definition ascii_lowercase :: "string \<Rightarrow> string" where
  "ascii_lowercase = map (\<lambda>c. let n = of_char c :: nat in if 65 \<le> n \<and> n \<le> 90 then char_of (n + 32) else c)"

fun contains_text :: "string \<Rightarrow> string \<Rightarrow> bool" where
  "contains_text [] needle \<longleftrightarrow> needle = []"
| "contains_text (x # xs) needle \<longleftrightarrow> take (length needle) (x # xs) = needle \<or> contains_text xs needle"

definition tip_race :: "string \<Rightarrow> bool" where
  "tip_race msg \<longleftrightarrow> contains_text (ascii_lowercase msg) ''block_to'' \<and> contains_text (ascii_lowercase msg) ''greater than chain tip''"

definition sync_chain_fallback ::
  "('sg, 'w, 'cl, 'scr, 'req, 'prf, 'upd) node \<Rightarrow> string \<Rightarrow> (string \<Rightarrow> string) \<Rightarrow> 'cl \<Rightarrow> (error + unit) \<times> 'cl" where
  "sync_chain_fallback nd elapsed failed cl =
     (case nd_sync_chain nd cl of
        (Elapsed, cl') \<Rightarrow> (Inl (Anyhow elapsed), cl')
      | (Finished (Inl e), cl') \<Rightarrow> (Inl (Anyhow (failed (nd_error_text nd e))), cl')
      | (Finished (Inr _), cl') \<Rightarrow> (Inr (), cl'))"

fun sync_attempts ::
  "('sg, 'w, 'cl, 'scr, 'req, 'prf, 'upd) node \<Rightarrow> nat \<Rightarrow> 'cl \<Rightarrow> (error + unit) \<times> 'cl" where
  "sync_attempts nd 0 cl = (Inl (Panic Unreachable), cl)"
| "sync_attempts nd (Suc left) cl =
     (case nd_sync_state nd cl of
        (Finished (Inr _), cl') \<Rightarrow> (Inr (), cl')
      | (Finished (Inl e), cl') \<Rightarrow>
          if tip_race (nd_error_text nd e) \<and> 0 < left then sync_attempts nd left cl'
          else sync_chain_fallback nd ''sync_chain timed out after sync_state failure''
                 (\<lambda>fallback. ''sync_state failed: '' @ nd_error_text nd e @ ''; sync_chain failed: '' @ fallback) cl'
      | (Elapsed, cl') \<Rightarrow>
          sync_chain_fallback nd ''sync_chain timed out after sync_state timeout'' (\<lambda>e. ''sync_chain failed: '' @ e) cl')"

definition sync_before_execution ::
  "('sg, 'w, 'cl, 'scr, 'req, 'prf, 'upd) node \<Rightarrow> 'cl \<Rightarrow> (error + unit) \<times> 'cl" where
  "sync_before_execution nd = sync_attempts nd 3"

text \<open>The prepared signatures of the chunk; hashing an intent panics on a value outside the field.\<close>

fun advice_data ::
  "('sg, 'w, 'cl, 'scr, 'req, 'prf, 'upd) node \<Rightarrow> ('sg, 'pk, 'st) order list \<Rightarrow> u64 list result" where
  "advice_data nd [] = Inr []"
| "advice_data nd (ord # ords) =
     and_then (intent_message_word (nd_hash_elements nd) (order_intent ord)) (\<lambda>msg.
     and_then (advice_data nd ords) (\<lambda>rest.
       Inr (nd_prepared_signature nd (signed_order ord) msg @ rest)))"

text \<open>An error before submission fails the orders of the chunk and is returned.\<close>

definition or_fail_chunk ::
  "('sg, 'w, 'cl, 'scr, 'req, 'prf, 'upd) node \<Rightarrow> ('sg, 'pk) tick \<Rightarrow> uuid option \<Rightarrow> ('sg, 'pk, processed) order list
     \<Rightarrow> ('cl \<times> ('sg, 'pk, 'cl) executor \<Rightarrow> (error + 'a) \<times> 'cl \<times> ('sg, 'pk, 'cl) executor)
     \<Rightarrow> 'cl \<times> ('sg, 'pk, 'cl) executor \<Rightarrow> (error + 'a) \<times> 'cl \<times> ('sg, 'pk, 'cl) executor" where
  "or_fail_chunk nd tk b ords m =
     catch_error m (\<lambda>e. st_then (on_worker (fail_chunk_orders b (nd_error_text nd e) (tk_now_ms tk) ords)) (\<lambda>_. Pair (Inl e)))"

definition prepare_request ::
  "('sg, 'w, 'cl, 'scr, 'req, 'prf, 'upd) node \<Rightarrow> ('sg, 'pk) tick \<Rightarrow> uuid option \<Rightarrow> ('sg, 'pk, processed) order list
     \<Rightarrow> u64 list \<Rightarrow> 'cl \<times> ('sg, 'pk, 'cl) executor \<Rightarrow> (error + 'req) \<times> 'cl \<times> ('sg, 'pk, 'cl) executor" where
  "prepare_request nd tk b ords advice =
     st_then (or_fail_chunk nd tk b ords (on_client (sync_before_execution nd))) (\<lambda>_.
     st_then (or_fail_chunk nd tk b ords (on_client (\<lambda>cl. (nd_compile nd cl (make_exec_script (map order_intent ords)), cl)))) (\<lambda>scr.
       or_fail_chunk nd tk b ords (on_client (\<lambda>cl. (nd_request nd scr advice (map fpi_pair ords), cl)))))"

definition submission_of ::
  "('sg, 'w, 'cl, 'scr, 'req, 'prf, 'upd) node \<Rightarrow> uuid \<Rightarrow> account_id \<Rightarrow> ('sg, 'pk, processed) order list \<Rightarrow> executed_tx \<Rightarrow> u32 \<Rightarrow> 'upd
     \<Rightarrow> submission_row" where
  "submission_of nd b p ords tx height upd =
     \<lparr>es_tx_hash = etx_hash tx, es_tx_id = etx_id tx, es_batch_id = b, es_pool_id = p, es_order_ids = map order_id ords,
      es_transaction_update = nd_update_bytes nd upd, es_expected_initial_state = etx_initial_commitment tx,
      es_expected_final_state = etx_final_commitment tx, es_submission_height = height,
      es_expiration_height = etx_expiration_block tx, es_state = SubSubmitted, es_local_applied = False, es_attempts = 0,
      es_last_error = None, es_submitted_at = 0, es_updated_at = 0, es_confirmed_block = None\<rparr>"

definition record_shard ::
  "('sg, 'w, 'cl, 'scr, 'req, 'prf, 'upd) node \<Rightarrow> ('sg, 'pk) tick \<Rightarrow> uuid option \<Rightarrow> account_id \<Rightarrow> ('sg, 'pk, processed) order list
     \<Rightarrow> executed_tx \<Rightarrow> u32 \<Rightarrow> 'upd \<Rightarrow> ('sg, 'pk, 'cl) executor \<Rightarrow> (error + unit) \<times> ('sg, 'pk, 'cl) executor" where
  "record_shard nd tk b p ords tx height upd s =
     (case b of
        None \<Rightarrow> (Inr (), s)
      | Some b \<Rightarrow>
          st_then (mx_exec (record_submission b (mx_worker_id s) (submission_of nd b p ords tx height upd) (tk_now_ms tk)))
            (\<lambda>recorded. Pair (if recorded then Inr () else Inl (Anyhow ''execution batch lease was lost after submission''))) s)"

definition apply_locally ::
  "('sg, 'w, 'cl, 'scr, 'req, 'prf, 'upd) node \<Rightarrow> ('sg, 'pk) tick \<Rightarrow> uuid option \<Rightarrow> executed_tx \<Rightarrow> 'upd
     \<Rightarrow> 'cl \<times> ('sg, 'pk, 'cl) executor \<Rightarrow> (error + unit) \<times> 'cl \<times> ('sg, 'pk, 'cl) executor" where
  "apply_locally nd tk b tx upd =
     ignoring (st_then (on_client (nd_apply_update nd upd)) (\<lambda>_.
       if b = None then Pair (Inr ())
       else on_worker (mx_exec (mark_submission_local_applied (etx_hash tx) (tk_now_ms tk)))))"

definition sync_after :: "('sg, 'w, 'cl, 'scr, 'req, 'prf, 'upd) node \<Rightarrow> 'cl \<Rightarrow> (error + unit) \<times> 'cl" where
  "sync_after nd cl = (Inr (), snd (nd_sync_state nd cl))"

type_synonym ('sg, 'pk) shard_submit = "string \<times> ('sg, 'pk, processed) order list"

definition submit_shard ::
  "('sg, 'w, 'cl, 'scr, 'req, 'prf, 'upd) node \<Rightarrow> ('sg, 'pk) tick \<Rightarrow> uuid option \<Rightarrow> account_id \<Rightarrow> ('sg, 'pk, processed) order list
     \<Rightarrow> u64 list \<Rightarrow> 'cl \<times> ('sg, 'pk, 'cl) executor \<Rightarrow> (error + ('sg, 'pk) shard_submit) \<times> 'cl \<times> ('sg, 'pk, 'cl) executor" where
  "submit_shard nd tk b p ords advice =
     st_then (prepare_request nd tk b ords advice) (\<lambda>req.
     st_then (or_fail_chunk nd tk b ords (on_client (nd_execute nd p req))) (\<lambda>tx.
     st_then (or_fail_chunk nd tk b ords (on_client (nd_prove nd tx))) (\<lambda>prf.
     st_then (or_fail_chunk nd tk b ords (on_client (nd_submit nd prf tx))) (\<lambda>height.
     st_then (on_client (nd_store_update nd tx height)) (\<lambda>upd.
     st_then (on_worker (record_shard nd tk b p ords tx height upd)) (\<lambda>_.
     st_then (apply_locally nd tk b tx upd) (\<lambda>_.
     st_then (on_client (sync_after nd)) (\<lambda>_.
       Pair (Inr (etx_hash tx, ords))))))))))"

definition execute_shard_on_client ::
  "('sg, 'w, 'cl, 'scr, 'req, 'prf, 'upd) node \<Rightarrow> ('sg, 'pk) tick \<Rightarrow> uuid option \<Rightarrow> account_id \<Rightarrow> ('sg, 'pk, processed) order list
     \<Rightarrow> 'cl \<times> ('sg, 'pk, 'cl) executor \<Rightarrow> (error + ('sg, 'pk) shard_submit) \<times> 'cl \<times> ('sg, 'pk, 'cl) executor" where
  "execute_shard_on_client nd tk b p ords =
     st_then (on_worker (filter_live_orders tk b ords)) (\<lambda>live.
       if live = [] then Pair (Inr ([], []))
       else (case advice_data nd live of
               Inl e \<Rightarrow> Pair (Inl e)
             | Inr advice \<Rightarrow> submit_shard nd tk b p live advice))"

section \<open>One batch\<close>

text \<open>Orders whose shard is not known fail at once.\<close>

fun route_orders ::
  "('sg, 'w, 'cl, 'scr, 'req, 'prf, 'upd) node \<Rightarrow> ('sg, 'pk) tick \<Rightarrow> uuid option \<Rightarrow> ('sg, 'pk, processed) order list
     \<Rightarrow> (account_id \<rightharpoonup> ('sg, 'pk, processed) order list) \<Rightarrow> ('sg, 'pk, 'cl) executor
     \<Rightarrow> (error + (account_id \<rightharpoonup> ('sg, 'pk, processed) order list)) \<times> ('sg, 'pk, 'cl) executor" where
  "route_orders nd tk b [] m s = (Inr m, s)"
| "route_orders nd tk b (ord # ords) m s =
     (case mx_resolve_user_pool nd (order_user_id ord) s of
        (Inr p, s') \<Rightarrow> route_orders nd tk b ords (m(p \<mapsto> or_default (m p) [] @ [ord])) s'
      | (Inl e, s') \<Rightarrow>
          if is_panic e then (Inl e, s')
          else st_then (fail_one b (nd_error_text nd e) (tk_now_ms tk) ord) (\<lambda>_. route_orders nd tk b ords m) s')"

text \<open>A shard is taken out with its client; a shard without a client is dropped.\<close>

fun pool_jobs ::
  "account_id list \<Rightarrow> (account_id \<rightharpoonup> 'o list) \<Rightarrow> (account_id \<rightharpoonup> 'cl) \<Rightarrow> (account_id \<times> 'cl \<times> 'o list) list \<times> (account_id \<rightharpoonup> 'cl)" where
  "pool_jobs [] m clients = ([], clients)"
| "pool_jobs (p # ps) m clients =
     (case m p of
        None \<Rightarrow> pool_jobs ps m clients
      | Some shard \<Rightarrow>
          (case clients p of
             None \<Rightarrow> pool_jobs ps (m(p := None)) clients
           | Some cl \<Rightarrow>
               (case pool_jobs ps (m(p := None)) (clients(p := None)) of (jobs, rest) \<Rightarrow> ((p, cl, shard) # jobs, rest))))"

fun run_chunks ::
  "('sg, 'w, 'cl, 'scr, 'req, 'prf, 'upd) node \<Rightarrow> ('sg, 'pk) tick \<Rightarrow> uuid option \<Rightarrow> account_id \<Rightarrow> ('sg, 'pk, processed) order list list
     \<Rightarrow> 'cl \<times> ('sg, 'pk, 'cl) executor \<Rightarrow> (error + ('sg, 'pk) shard_submit result list) \<times> 'cl \<times> ('sg, 'pk, 'cl) executor" where
  "run_chunks nd tk b p [] s = (Inr [], s)"
| "run_chunks nd tk b p (chunk # chunks) s =
     st_then (attempt (execute_shard_on_client nd tk b p chunk)) (\<lambda>res.
     st_then (run_chunks nd tk b p chunks) (\<lambda>rest. Pair (Inr (res # rest)))) s"

fun run_jobs ::
  "('sg, 'w, 'cl, 'scr, 'req, 'prf, 'upd) node \<Rightarrow> ('sg, 'pk) tick \<Rightarrow> uuid option
     \<Rightarrow> (account_id \<times> 'cl \<times> ('sg, 'pk, processed) order list) list \<Rightarrow> ('sg, 'pk, 'cl) executor
     \<Rightarrow> (error + (account_id \<times> 'cl \<times> ('sg, 'pk) shard_submit result list) list) \<times> ('sg, 'pk, 'cl) executor" where
  "run_jobs nd tk b [] s = (Inr [], s)"
| "run_jobs nd tk b ((p, cl, shard) # jobs) s =
     (case run_chunks nd tk b p (chunk_orders_for_fpi shard (max_orders_per_shard_tx (nd_max_orders nd))) (cl, s) of
        (Inl e, _, s') \<Rightarrow> (Inl e, s')
      | (Inr results, cl', s') \<Rightarrow>
          st_then (run_jobs nd tk b jobs) (\<lambda>rest. Pair (Inr ((p, cl', results) # rest))) s')"

definition publish_submitted_notifications ::
  "('sg, 'pk) tick \<Rightarrow> ('sg, 'pk) shard_submit \<Rightarrow> ('sg, 'pk, 'cl) executor \<Rightarrow> ('sg, 'pk, 'cl) executor" where
  "publish_submitted_notifications tk = (\<lambda>(tx_hash, ords).
     fold (\<lambda>ord. mx_send (EvOrder (USubmitted (processed_submitted (rt_clock (tk_runtime tk)) tx_hash ord)))) ords)"

definition collect_result ::
  "('sg, 'pk) tick \<Rightarrow> ('sg, 'pk) shard_submit result \<Rightarrow> ('sg, 'pk, 'cl) executor \<Rightarrow> ('sg, 'pk, 'cl) executor" where
  "collect_result tk res s =
     (case res of
        Inl _ \<Rightarrow> s
      | Inr (tx_hash, ords) \<Rightarrow>
          if tx_hash = [] \<or> ords = [] then s else publish_submitted_notifications tk (tx_hash, ords) s)"

definition collect_outcomes ::
  "('sg, 'pk) tick \<Rightarrow> (account_id \<times> 'cl \<times> ('sg, 'pk) shard_submit result list) list \<Rightarrow> ('sg, 'pk, 'cl) executor \<Rightarrow> ('sg, 'pk, 'cl) executor" where
  "collect_outcomes tk =
     fold (\<lambda>(p, cl, results) s. fold (collect_result tk) results (s\<lparr>mx_clients := (mx_clients s)(p \<mapsto> cl)\<rparr>))"

definition fail_residual ::
  "uuid \<Rightarrow> string \<Rightarrow> u64 \<Rightarrow> ('sg, 'pk, 'cl) executor \<Rightarrow> (error + uuid list) \<times> ('sg, 'pk, 'cl) executor" where
  "fail_residual b reason now s = mx_exec (fail_remaining_batched_orders b (mx_worker_id s) reason now) s"

definition begin_finality :: "uuid \<Rightarrow> u64 \<Rightarrow> ('sg, 'pk, 'cl) executor \<Rightarrow> (error + bool) \<times> ('sg, 'pk, 'cl) executor" where
  "begin_finality b now s = mx_exec (begin_reconciliation b (mx_worker_id s) now) s"

text \<open>Whatever was not submitted fails, then the batch is handed to the finality observer; one more try
  when that is refused.\<close>

definition finish_batch ::
  "('sg, 'w, 'cl, 'scr, 'req, 'prf, 'upd) node \<Rightarrow> uuid \<Rightarrow> u64 \<Rightarrow> ('sg, 'pk, 'cl) executor \<Rightarrow> (error + unit) \<times> ('sg, 'pk, 'cl) executor" where
  "finish_batch nd b now =
     st_then (ignoring (fail_residual b ''shard preparation ended before transaction submission'' now)) (\<lambda>_.
       ignoring
         (st_then
           (catch_error (begin_finality b now) (\<lambda>first_error.
              st_then (fail_residual b (''batch reconciliation recovery: '' @ nd_error_text nd first_error) now)
                (\<lambda>_. begin_finality b now)))
           (\<lambda>ok s. (Inr (), if ok then mx_send (EvAmm BatchSubmitted) s else s))))"

definition dispatch_shards ::
  "('sg, 'w, 'cl, 'scr, 'req, 'prf, 'upd) node \<Rightarrow> ('sg, 'pk) tick \<Rightarrow> uuid option \<Rightarrow> (account_id \<rightharpoonup> ('sg, 'pk, processed) order list)
     \<Rightarrow> ('sg, 'pk, 'cl) executor \<Rightarrow> (error + unit) \<times> ('sg, 'pk, 'cl) executor" where
  "dispatch_shards nd tk b shards s =
     (case pool_jobs (reg_pools (mx_registry s)) shards (mx_clients s) of
        (jobs, rest) \<Rightarrow>
          st_then (run_jobs nd tk b jobs) (\<lambda>outcomes s.
            let s = collect_outcomes tk outcomes (s\<lparr>mx_cycle := sat_add (mx_cycle s) (of_nat (length jobs))\<rparr>)
            in case b of None \<Rightarrow> (Inr (), s) | Some b \<Rightarrow> finish_batch nd b (tk_now_ms tk) s)
          (s\<lparr>mx_clients := rest\<rparr>))"

definition handle_batch_inner ::
  "('sg, 'w, 'cl, 'scr, 'req, 'prf, 'upd) node \<Rightarrow> ('sg, 'pk) tick \<Rightarrow> uuid option \<Rightarrow> ('sg, 'pk, processed) order list
     \<Rightarrow> ('sg, 'pk, 'cl) executor \<Rightarrow> (error + unit) \<times> ('sg, 'pk, 'cl) executor" where
  "handle_batch_inner nd tk b ords = st_then (route_orders nd tk b ords Map.empty) (dispatch_shards nd tk b)"

definition claim_and_handle_pending_batch ::
  "('sg, 'w, 'cl, 'scr, 'req, 'prf, 'upd) node \<Rightarrow> ('sg, 'pk) tick \<Rightarrow> ('sg, 'pk, 'cl) executor \<Rightarrow> (error + unit) \<times> ('sg, 'pk, 'cl) executor" where
  "claim_and_handle_pending_batch nd tk s =
     (case mx_exec (claim_pending_batch (tk_runtime tk) (mx_worker_id s) (tk_now_ms tk) 600000) s of
        (Inr (Some batch), s') \<Rightarrow> handle_batch_inner nd tk (Some (claimed_id batch)) (claimed_orders batch) s'
      | (Inr None, s') \<Rightarrow> (Inr (), s')
      | (Inl e, s') \<Rightarrow> if is_panic e then (Inl e, s') else (Inr (), s'))"

section \<open>Retrying local updates\<close>

definition retry_millis :: "('sg, 'w, 'cl, 'scr, 'req, 'prf, 'upd) node \<Rightarrow> u64" where
  "retry_millis nd = sat_mul (or_default (nd_retry_secs nd) 2) 1000"

definition retry_due :: "('sg, 'w, 'cl, 'scr, 'req, 'prf, 'upd) node \<Rightarrow> u64 \<Rightarrow> submission_row \<Rightarrow> bool" where
  "retry_due nd now r \<longleftrightarrow> \<not> es_local_applied r \<and> retry_millis nd \<le> sat_sub now (word_of_int (es_updated_at r))"

definition retry_one ::
  "('sg, 'w, 'cl, 'scr, 'req, 'prf, 'upd) node \<Rightarrow> u64 \<Rightarrow> submission_row \<Rightarrow> ('sg, 'pk, 'cl) executor \<Rightarrow> (error + unit) \<times> ('sg, 'pk, 'cl) executor" where
  "retry_one nd now r s =
     (case mx_clients s (es_pool_id r) of
        None \<Rightarrow> mx_exec (record_reconciliation_attempt (es_tx_hash r) (Some ''no pool client for submission pool'') now) s
      | Some cl \<Rightarrow>
          (case nd_read_update nd (es_transaction_update r) of
             Inl e \<Rightarrow>
               st_then (mx_exec (fail_submission (es_tx_hash r)
                   (''persisted transaction update is invalid: '' @ nd_error_text nd e) now)) (\<lambda>_. Pair (Inr ())) s
           | Inr upd \<Rightarrow>
               (case nd_apply_update nd upd cl of
                  (res, cl') \<Rightarrow>
                    let s' = s\<lparr>mx_clients := (mx_clients s)(es_pool_id r \<mapsto> cl')\<rparr>
                    in case res of
                         Inr _ \<Rightarrow> mx_exec (mark_submission_local_applied (es_tx_hash r) now) s'
                       | Inl e \<Rightarrow>
                           mx_exec (record_reconciliation_attempt (es_tx_hash r)
                             (Some (''local apply: '' @ nd_error_text nd e)) now) s')))"

definition retry_pending_local_applies ::
  "('sg, 'w, 'cl, 'scr, 'req, 'prf, 'upd) node \<Rightarrow> u64 \<Rightarrow> ('sg, 'pk, 'cl) executor \<Rightarrow> (error + unit) \<times> ('sg, 'pk, 'cl) executor" where
  "retry_pending_local_applies nd now s =
     (case submitted_transactions (mx_store s) of
        Inl e \<Rightarrow> (Inl e, s)
      | Inr rows \<Rightarrow> for_each (retry_one nd now) (filter (retry_due nd now) rows) s)"

definition poll_durable_work ::
  "('sg, 'w, 'cl, 'scr, 'req, 'prf, 'upd) node \<Rightarrow> ('sg, 'pk) tick \<Rightarrow> ('sg, 'pk, 'cl) executor \<Rightarrow> (error + unit) \<times> ('sg, 'pk, 'cl) executor" where
  "poll_durable_work nd tk =
     st_then (ignoring (retry_pending_local_applies nd (tk_now_ms tk))) (\<lambda>_. claim_and_handle_pending_batch nd tk)"

section \<open>The loop\<close>

datatype ('sg, 'pk) executor_input =
    MxTick
  | MxRegistryChanged
  | MxProcessedBatch
  | MxOrder "('sg, 'pk) order_update"
  | MxPoolStates "(account_id \<times> pool_state) list"
  | MxLagged
  | MxClosed

text \<open>\<open>False\<close> ends the loop. A lagged receiver of batches polls like a received batch.\<close>

definition executor_step ::
  "('sg, 'w, 'cl, 'scr, 'req, 'prf, 'upd) node \<Rightarrow> ('sg, 'pk) tick \<Rightarrow> ('sg, 'pk) executor_input \<Rightarrow> ('sg, 'pk, 'cl) executor
     \<Rightarrow> (error + bool) \<times> ('sg, 'pk, 'cl) executor" where
  "executor_step nd tk inp =
     (case inp of
        MxTick \<Rightarrow> st_then (poll_durable_work nd tk) (\<lambda>_. st_then (mx_attach_pending_pools nd) (\<lambda>_. Pair (Inr True)))
      | MxRegistryChanged \<Rightarrow> st_then (mx_attach_pending_pools nd) (\<lambda>_. Pair (Inr True))
      | MxProcessedBatch \<Rightarrow> st_then (claim_and_handle_pending_batch nd tk) (\<lambda>_. Pair (Inr True))
      | MxOrder upd \<Rightarrow> (\<lambda>s. (Inr True, s\<lparr>mx_orders := apply_order_update (mx_orders s) upd\<rparr>))
      | MxPoolStates pools \<Rightarrow>
          (\<lambda>s. (Inr True, s\<lparr>mx_pool_states := fold (\<lambda>(f, p) m. m(f \<mapsto> p)) pools (mx_pool_states s)\<rparr>))
      | MxLagged \<Rightarrow> Pair (Inr True)
      | MxClosed \<Rightarrow> Pair (Inr False))"

text \<open>Before the loop the worker reloads the snapshots a recovery may have written.\<close>

definition start_executor :: "('sg, 'pk, 'cl) executor \<Rightarrow> (error + unit) \<times> ('sg, 'pk, 'cl) executor" where
  "start_executor s =
     (case latest_pool_states (mx_store s) of
        Inl e \<Rightarrow> (Inl e, s)
      | Inr saved \<Rightarrow> (Inr (), s\<lparr>mx_pool_states := restore_snapshots saved (mx_pool_states s)\<rparr>))"

end
