(* ===== verification/Miden_Execution_Properties.thy ===== *)
theory Miden_Execution_Properties
  imports Miden_Execution Submissions
begin

text \<open>
  What the execution worker does: it packs the orders of a shard within the vault's limits, it only takes
  steps of the execution store, a transaction it records carries only live orders of users whom the vault
  placed on that pool, and no order of a batch is left behind when the batch is handed to the finality observer.
\<close>

section \<open>Packing\<close>

text \<open>Between two orders the current chunk is empty only at the start.\<close>

definition packed ::
  "nat \<Rightarrow> ('sg, 'pk, 'st) order list \<Rightarrow> ('sg, 'pk, 'st) order list list \<times> ('sg, 'pk, 'st) order list \<times> (account_id \<times> account_id) list \<Rightarrow> bool" where
  "packed k done = (\<lambda>(chunks, current, pairs). concat chunks @ current = done \<and> length current \<le> k
     \<and> list_all (\<lambda>chunk. chunk \<noteq> [] \<and> length chunk \<le> k) chunks)"

lemma chunk_order_packed: "1 \<le> k \<Longrightarrow> packed k done st \<Longrightarrow> packed k (done @ [ord]) (chunk_order k ord st)"
  by (cases st) (auto simp: packed_def chunk_order_def Let_def)

lemma chunks_packed: "1 \<le> k \<Longrightarrow> packed k done st \<Longrightarrow> packed k (done @ ords) (fold (chunk_order k) ords st)"
proof (induction ords arbitrary: "done" st)
  case (Cons ord ords)
  from Cons.IH [OF Cons.prems(1) chunk_order_packed [OF Cons.prems]] show ?case by simp
qed simp

lemma max_orders_bounds: "1 \<le> max_orders_per_shard_tx env" "max_orders_per_shard_tx env \<le> 48"
  by (auto simp: max_orders_per_shard_tx_def)

lemma chunk_properties:
  assumes "1 \<le> k"
  shows "concat (chunk_orders_for_fpi ords k) = ords"
    "list_all (\<lambda>chunk. chunk \<noteq> [] \<and> length chunk \<le> k) (chunk_orders_for_fpi ords k)"
proof -
  have "packed k ords (fold (chunk_order k) ords ([], [], []))"
    using chunks_packed [OF assms, of "[]" "([], [], [])" ords] by (simp add: packed_def)
  then show "concat (chunk_orders_for_fpi ords k) = ords"
    "list_all (\<lambda>chunk. chunk \<noteq> [] \<and> length chunk \<le> k) (chunk_orders_for_fpi ords k)"
    by (auto simp: packed_def chunk_orders_for_fpi_def split: prod.splits)
qed

text \<open>
  Packing a shard loses no order and respects the limits of one transaction. For every list of orders
  and every setting of the environment the chunks are non-empty, concatenate to the list, hold at most
  the configured number of orders, and touch at most 48 storage keys of the vault.
\<close>

theorem chunks_fit_vault_limits:
  "concat (chunk_orders_for_fpi ords (max_orders_per_shard_tx env)) = ords
   \<and> list_all (\<lambda>chunk. chunk \<noteq> [] \<and> length chunk \<le> max_orders_per_shard_tx env
       \<and> card (fpi_pair ` set chunk) \<le> MAX_FPI_ASSET_USER_PAIRS)
     (chunk_orders_for_fpi ords (max_orders_per_shard_tx env))"
proof -
  have "card (fpi_pair ` set chunk) \<le> MAX_FPI_ASSET_USER_PAIRS" if "length chunk \<le> max_orders_per_shard_tx env"
    for chunk :: "('a, 'b, 'c) order list"
  proof -
    have "card (fpi_pair ` set chunk) \<le> card (set chunk)" by (simp add: card_image_le)
    also have "\<dots> \<le> length chunk" by (rule card_length)
    also have "\<dots> \<le> 48" using that max_orders_bounds(2) le_trans by blast
    finally show ?thesis by (simp add: MAX_FPI_ASSET_USER_PAIRS_def)
  qed
  then show ?thesis using chunk_properties [OF max_orders_bounds(1) [of env], where ords = ords] by (auto simp: list_all_iff)
qed

section \<open>The worker as a client of the store\<close>

text \<open>The operations on one pair of client and worker, and on the worker alone, move the store along \<open>R\<close>,
  keep the worker's name, never forget where a user was placed and learn a placement from the vault only. \<open>good\<close> says which orders may go into
  one transaction on a pool.\<close>

text \<open>The transaction is the execution, on the pool, of the request built from the orders: the script of their
  signed intents, their prepared signatures and their storage keys.\<close>

definition built_for :: "('sg, 'w, 'cl, 'scr, 'req, 'prf, 'upd) node \<Rightarrow> ('sg, 'pk, processed) order list \<Rightarrow> 'req \<Rightarrow> bool" where
  "built_for nd ords req \<longleftrightarrow> (\<exists>cl scr advice. nd_compile nd cl (make_exec_script (map order_intent ords)) = Inr scr
     \<and> advice_data nd ords = Inr advice \<and> nd_request nd scr advice (map fpi_pair ords) = Inr req)"

definition executes ::
  "('sg, 'w, 'cl, 'scr, 'req, 'prf, 'upd) node \<Rightarrow> account_id \<Rightarrow> ('sg, 'pk, processed) order list \<Rightarrow> executed_tx \<Rightarrow> bool" where
  "executes nd p ords tx \<longleftrightarrow> (\<exists>req cl cl'. built_for nd ords req \<and> nd_execute nd p req cl = (Inr tx, cl'))"

lemma or_fail_result: "or_fail_chunk nd tk b ords m s = (Inr x, t) \<Longrightarrow> m s = (Inr x, t)"
  by (auto simp: or_fail_chunk_def catch_error_def st_then_def split: prod.splits sum.splits if_splits)

lemma on_client_result: "on_client f s = (Inr x, t) \<Longrightarrow> f (fst s) = (Inr x, fst t)"
  by (auto simp: on_client_def split: prod.splits)

lemma prepare_result:
  assumes "prepare_request nd tk b ords advice s = (Inr req, t)" "advice_data nd ords = Inr advice"
  shows "built_for nd ords req"
  using assms unfolding prepare_request_def built_for_def
  by (auto elim!: st_then_InrE dest!: or_fail_result on_client_result)

definition moved ::
  "('sg, 'w, 'cl, 'scr, 'req, 'prf, 'upd) node \<Rightarrow> (execution_db \<Rightarrow> execution_db \<Rightarrow> bool) \<Rightarrow> ('sg, 'pk, 'cl) executor \<Rightarrow> ('sg, 'pk, 'cl) executor \<Rightarrow> bool" where
  "moved nd R s t \<longleftrightarrow> R (mx_store s) (mx_store t) \<and> mx_worker_id t = mx_worker_id s \<and> mx_user_pools s \<subseteq>\<^sub>m mx_user_pools t
     \<and> (\<forall>user p. mx_user_pools t user = Some p \<longrightarrow> mx_user_pools s user = Some p \<or> assigned_pool nd user = Inr p)"

definition moved2 ::
  "('sg, 'w, 'cl, 'scr, 'req, 'prf, 'upd) node \<Rightarrow> (execution_db \<Rightarrow> execution_db \<Rightarrow> bool) \<Rightarrow> 'cl \<times> ('sg, 'pk, 'cl) executor \<Rightarrow> 'cl \<times> ('sg, 'pk, 'cl) executor \<Rightarrow> bool" where
  "moved2 nd R s t \<longleftrightarrow> moved nd R (snd s) (snd t)"

locale executor_store =
  fixes R :: "execution_db \<Rightarrow> execution_db \<Rightarrow> bool"
    and good :: "uuid \<Rightarrow> account_id \<Rightarrow> ('sg, 'pk, processed) order list \<Rightarrow> executed_tx \<Rightarrow> bool"
    and nd :: "('sg, 'w, 'cl, 'scr, 'req, 'prf, 'upd) node"
    and tk :: "('sg, 'pk) tick"
  assumes R_refl: "R db db"
    and R_trans: "R db db1 \<Longrightarrow> R db1 db2 \<Longrightarrow> R db db2"
    and R_pre_fail: "R db (snd (mark_pre_submission_failed b w ids reason now db))"
    and R_record: "good b p ords tx \<Longrightarrow> R db (snd (record_submission b w (submission_of nd b p ords tx height upd) now db))"
    and R_applied: "R db (snd (mark_submission_local_applied h now db))"
begin

abbreviation mv :: "('sg, 'pk, 'cl) executor \<Rightarrow> ('sg, 'pk, 'cl) executor \<Rightarrow> bool" where
  "mv \<equiv> moved nd R"

abbreviation mv2 :: "'cl \<times> ('sg, 'pk, 'cl) executor \<Rightarrow> 'cl \<times> ('sg, 'pk, 'cl) executor \<Rightarrow> bool" where
  "mv2 \<equiv> moved2 nd R"

lemma moved_refl: "mv s s"
  by (simp add: moved_def R_refl)

lemma moved_trans: "mv s t \<Longrightarrow> mv t u \<Longrightarrow> mv s u"
  by (auto simp: moved_def intro: R_trans map_le_trans)

sublocale wk: state_order mv
  by unfold_locales (auto intro: moved_refl moved_trans)

sublocale pr: state_order mv2
  by unfold_locales (auto simp: moved2_def intro: moved_refl moved_trans)

lemma mx_exec_moved: "(\<And>db. R db (snd (f db))) \<Longrightarrow> keeps mv (mx_exec f)"
  by (auto simp: keeps_def mx_exec_def moved_def split: prod.splits) (metis snd_conv)

lemma ignoring_moved: "keeps mv m \<Longrightarrow> keeps mv (ignoring m)"
  unfolding ignoring_def by (intro wk.keeps_catch wk.keeps_st_then wk.keeps_Pair wk.keeps_ignore)

lemma ignoring_moved2: "keeps mv2 m \<Longrightarrow> keeps mv2 (ignoring m)"
  unfolding ignoring_def by (intro pr.keeps_catch pr.keeps_st_then pr.keeps_Pair pr.keeps_ignore)

lemma on_client_moved: "keeps mv2 (on_client f)"
  by (auto simp: keeps_def on_client_def moved2_def moved_refl split: prod.splits)

lemma on_worker_moved: "keeps mv m \<Longrightarrow> keeps mv2 (on_worker m)"
  by (auto simp: keeps_def on_worker_def moved2_def split: prod.splits) (metis snd_conv)

lemma fail_one_moved: "keeps mv (fail_one b reason now ord)"
proof (cases b)
  case None
  then show ?thesis by (simp add: keeps_def fail_one_def moved_refl)
next
  case (Some x)
  have "keeps mv (ignoring (mx_exec (mark_pre_submission_failed x w [order_id ord] reason now)))" for w
    by (intro ignoring_moved mx_exec_moved R_pre_fail)
  then show ?thesis by (simp add: keeps_def fail_one_def Some)
qed

lemma fail_chunk_moved: "keeps mv (fail_chunk_orders b reason now ords)"
  unfolding fail_chunk_orders_def by (intro wk.keeps_for_each fail_one_moved)

lemma mx_send_moved: "mv (mx_send ev s) t \<Longrightarrow> mv s t"
  by (simp add: moved_def mx_send_def)

lemma filter_live_moved: "keeps mv (filter_live_orders tk b ords)"
proof (induction ords)
  case Nil
  show ?case by (simp add: keeps_def moved_refl)
next
  case (Cons ord ords)
  have later: "keeps mv (\<lambda>s. filter_live_orders tk b ords (mx_send ev s))" for ev
    using Cons by (auto simp: keeps_def intro: mx_send_moved)
  have "keeps mv (st_then (fail_one b reason now ord) (\<lambda>_ s. filter_live_orders tk b ords (mx_send ev s)))"
    "keeps mv (st_then (filter_live_orders tk b ords) (\<lambda>live s. (Inr (ord # live), s)))" for ev reason now
    by (intro wk.keeps_st_then fail_one_moved later Cons wk.keeps_pure)+
  then show ?case by (simp add: keeps_def)
qed

lemma or_fail_moved: "keeps mv2 m \<Longrightarrow> keeps mv2 (or_fail_chunk nd tk b ords m)"
  unfolding or_fail_chunk_def by (intro pr.keeps_catch pr.keeps_st_then on_worker_moved fail_chunk_moved pr.keeps_Pair)

lemma record_shard_moved:
  assumes "\<And>x. b = Some x \<Longrightarrow> good x p ords tx"
  shows "keeps mv (record_shard nd tk b p ords tx height upd)"
proof (cases b)
  case None
  then show ?thesis by (simp add: keeps_def record_shard_def moved_refl)
next
  case (Some x)
  have "keeps mv (st_then (mx_exec (record_submission x w (submission_of nd x p ords tx height upd) now)) (\<lambda>recorded. Pair (res recorded)))"
    for w now and res :: "bool \<Rightarrow> unit result"
    by (intro wk.keeps_st_then mx_exec_moved R_record assms Some wk.keeps_Pair)
  then show ?thesis by (simp add: keeps_def record_shard_def Some)
qed

lemma apply_locally_moved: "keeps mv2 (apply_locally nd tk b tx upd)"
  unfolding apply_locally_def
  by (cases "b = None") (auto intro!: ignoring_moved2 pr.keeps_st_then on_client_moved on_worker_moved mx_exec_moved R_applied pr.keeps_Pair)

lemma submit_shard_moved:
  assumes good: "\<And>x tx. b = Some x \<Longrightarrow> executes nd p ords tx \<Longrightarrow> good x p ords tx" and advice: "advice_data nd ords = Inr advice"
  shows "keeps mv2 (submit_shard nd tk b p ords advice)"
  unfolding submit_shard_def
proof (intro pr.keeps_then_result)
  show "keeps mv2 (prepare_request nd tk b ords advice)"
    unfolding prepare_request_def by (intro pr.keeps_st_then or_fail_moved on_client_moved)
next
  fix req s t tx s' t'
  assume req: "prepare_request nd tk b ords advice s = (Inr req, t)"
    and tx: "or_fail_chunk nd tk b ords (on_client (nd_execute nd p req)) s' = (Inr tx, t')"
  have "executes nd p ords tx"
    unfolding executes_def using prepare_result [OF req advice] on_client_result [OF or_fail_result [OF tx]] by blast
  then show "keeps mv2 (on_worker (record_shard nd tk b p ords tx height upd))" for height upd
    using good by (intro on_worker_moved record_shard_moved)
qed (intro or_fail_moved on_client_moved apply_locally_moved pr.keeps_Pair)+

end

text \<open>The orders a transaction is built from are those that have not expired.\<close>

definition live_at :: "u64 \<Rightarrow> ('sg, 'pk, 'st) order \<Rightarrow> bool" where
  "live_at now ord \<longleftrightarrow> \<not> is_expired_at (expires_at (order_intent ord)) now"

lemma filter_live_result:
  "filter_live_orders tk b ords s = (Inr live, t) \<Longrightarrow> live = filter (live_at (tk_now_s tk)) ords"
  by (induction ords arbitrary: s t live)
    (auto simp: live_at_def st_then_def split: if_splits prod.splits sum.splits)

text \<open>Errors are handled; only a panic leaves a round.\<close>

lemma ignoring_panics: "ignoring m s = (Inl e, t) \<Longrightarrow> is_panic e"
  by (auto simp: ignoring_def catch_error_def ignore_error_def split: prod.splits sum.splits if_splits)

lemma fail_one_panics: "fail_one b reason now ord s = (Inl e, t) \<Longrightarrow> is_panic e"
  by (auto simp: fail_one_def dest: ignoring_panics split: option.splits)

lemma route_panics: "route_orders nd tk b ords m s = (Inl e, t) \<Longrightarrow> is_panic e"
  by (induction ords arbitrary: m s) (auto simp: st_then_def dest: fail_one_panics split: prod.splits sum.splits if_splits)

lemma run_chunks_panics: "run_chunks nd tk b p chunks s = (Inl e, t) \<Longrightarrow> is_panic e"
  by (induction chunks arbitrary: s) (auto simp: st_then_def attempt_def split: prod.splits sum.splits if_splits)

lemma run_jobs_panics: "run_jobs nd tk b jobs s = (Inl e, t) \<Longrightarrow> is_panic e"
  by (induction jobs arbitrary: s) (auto simp: st_then_def dest: run_chunks_panics split: prod.splits sum.splits)

lemma pool_jobs_from: "pool_jobs ps m clients = (jobs, rest) \<Longrightarrow> (p, cl, shard) \<in> set jobs \<Longrightarrow> m p = Some shard"
  by (induction ps arbitrary: m clients jobs) (auto split: option.splits prod.splits if_splits, (metis fun_upd_apply option.distinct(1))+)

context executor_store
begin

lemma execute_shard_moved:
  assumes "\<And>x tx. b = Some x \<Longrightarrow> filter (live_at (tk_now_s tk)) ords \<noteq> [] \<Longrightarrow> executes nd p (filter (live_at (tk_now_s tk)) ords) tx
      \<Longrightarrow> good x p (filter (live_at (tk_now_s tk)) ords) tx"
  shows "keeps mv2 (execute_shard_on_client nd tk b p ords)"
proof (rule keepsI)
  fix s r t
  assume run: "execute_shard_on_client nd tk b p ords s = (r, t)"
  have first: "mv2 s u" if "on_worker (filter_live_orders tk b ords) s = (y, u)" for y u
    using keepsD [OF on_worker_moved [OF filter_live_moved] that] .
  obtain y u where f: "on_worker (filter_live_orders tk b ords) s = (y, u)" by (metis surj_pair)
  show "mv2 s t"
  proof (cases y)
    case (Inl e)
    then show ?thesis using run first [OF f] f by (simp add: execute_shard_on_client_def st_then_def)
  next
    case (Inr live)
    have live: "live = filter (live_at (tk_now_s tk)) ords"
      using f Inr by (auto simp: on_worker_def split: prod.splits dest: filter_live_result)
    have "keeps mv2 (submit_shard nd tk b p live advice)" if "live \<noteq> []" "advice_data nd live = Inr advice" for advice
      using assms that unfolding live by (intro submit_shard_moved) auto
    then have "mv2 u t"
      using run f Inr by (auto simp: execute_shard_on_client_def st_then_def pr.refl dest: keepsD split: if_splits sum.splits)
    then show ?thesis using first [OF f] pr.trans by blast
  qed
qed

lemma run_chunks_moved:
  assumes "\<And>x chunk tx. b = Some x \<Longrightarrow> chunk \<in> set chunks \<Longrightarrow> filter (live_at (tk_now_s tk)) chunk \<noteq> []
      \<Longrightarrow> executes nd p (filter (live_at (tk_now_s tk)) chunk) tx \<Longrightarrow> good x p (filter (live_at (tk_now_s tk)) chunk) tx"
  shows "keeps mv2 (run_chunks nd tk b p chunks)"
  using assms
proof (induction chunks)
  case Nil
  show ?case by (simp add: keeps_def pr.refl)
next
  case (Cons chunk chunks)
  have "keeps mv2 (st_then (attempt (execute_shard_on_client nd tk b p chunk)) (\<lambda>res.
     st_then (run_chunks nd tk b p chunks) (\<lambda>rest. Pair (Inr (res # rest)))))"
    by (intro pr.keeps_st_then pr.keeps_attempt execute_shard_moved Cons pr.keeps_Pair) (auto intro: Cons.prems)
  then show ?case by (simp add: keeps_def)
qed

lemma run_jobs_moved:
  assumes "\<And>x p cl shard chunk tx. b = Some x \<Longrightarrow> (p, cl, shard) \<in> set jobs \<Longrightarrow>
      chunk \<in> set (chunk_orders_for_fpi shard (max_orders_per_shard_tx (nd_max_orders nd))) \<Longrightarrow>
      filter (live_at (tk_now_s tk)) chunk \<noteq> [] \<Longrightarrow> executes nd p (filter (live_at (tk_now_s tk)) chunk) tx
      \<Longrightarrow> good x p (filter (live_at (tk_now_s tk)) chunk) tx"
  shows "keeps mv (run_jobs nd tk b jobs)"
  using assms
proof (induction jobs)
  case Nil
  show ?case by (simp add: keeps_def wk.refl)
next
  case (Cons job jobs)
  obtain p cl shard where job: "job = (p, cl, shard)" by (cases job)
  let ?chunks = "chunk_orders_for_fpi shard (max_orders_per_shard_tx (nd_max_orders nd))"
  have c: "keeps mv2 (run_chunks nd tk b p ?chunks)" by (rule run_chunks_moved) (use Cons.prems job in fastforce)
  have j: "keeps mv (st_then (run_jobs nd tk b jobs) (\<lambda>rest. Pair (Inr (x # rest))))" for x
    by (intro wk.keeps_st_then wk.keeps_Pair Cons.IH) (use Cons.prems in fastforce)
  show ?case
  proof (rule keepsI)
    fix s r t
    assume run: "run_jobs nd tk b (job # jobs) s = (r, t)"
    obtain y cl' s' where y: "run_chunks nd tk b p ?chunks (cl, s) = (y, cl', s')" by (metis prod_cases3)
    have "mv s s'" using keepsD [OF c y] by (simp add: moved2_def)
    moreover have "mv s' t"
      using run y by (auto simp: job wk.refl split: sum.splits dest: keepsD [OF j])
    ultimately show "mv s t" by (rule wk.trans)
  qed
qed

lemma resolve_moved: "keeps mv (mx_resolve_user_pool nd user)"
proof -
  have e: "mv s (snd (mx_ensure_pool_attached nd p s))" and u: "mx_user_pools (snd (mx_ensure_pool_attached nd p s)) = mx_user_pools s" for p s
    by (auto simp: mx_ensure_pool_attached_def moved_def R_refl split: prod.splits sum.splits bool.splits)
  show ?thesis unfolding keeps_def
  proof
    fix s
    show "mv s (snd (mx_resolve_user_pool nd user s))"
    proof (cases "mx_user_pools s user")
      case (Some p)
      then show ?thesis by (simp add: mx_resolve_user_pool_def moved_refl)
    next
      case None
      show ?thesis
      proof (cases "assigned_pool nd user")
        case (Inl e)
        then show ?thesis by (simp add: mx_resolve_user_pool_def None moved_refl)
      next
        case (Inr p)
        obtain y s' where y: "mx_ensure_pool_attached nd p s = (y, s')" by fastforce
        have "mv s s'" "mx_user_pools s' = mx_user_pools s" using e [of s p] u [of p s] y by auto
        then show ?thesis
          using None by (auto simp: mx_resolve_user_pool_def Inr y st_then_def catch_error_def moved_def map_le_def split: sum.splits)
      qed
    qed
  qed
qed

lemma route_moved: "keeps mv (route_orders nd tk b ords m)"
proof (induction ords arbitrary: m)
  case Nil
  show ?case by (simp add: keeps_def wk.refl)
next
  case (Cons ord ords)
  have f: "keeps mv (st_then (fail_one b reason now ord) (\<lambda>_. route_orders nd tk b ords m))" for reason now
    by (intro wk.keeps_st_then fail_one_moved Cons)
  show ?case
  proof (rule keepsI)
    fix s r t
    assume run: "route_orders nd tk b (ord # ords) m s = (r, t)"
    obtain y s' where y: "mx_resolve_user_pool nd (order_user_id ord) s = (y, s')" by fastforce
    have "mv s s'" by (rule keepsD [OF resolve_moved y])
    moreover have "mv s' t"
      using run y by (auto simp: wk.refl split: sum.splits if_splits dest: keepsD [OF f] keepsD [OF Cons])
    ultimately show "mv s t" by (rule wk.trans)
  qed
qed

lemma publish_moved: "mv s (publish_submitted_notifications tk sub s)"
proof -
  have "mv s (mx_send ev s)" for ev and s :: "('sg, 'pk, 'cl) executor" by (simp add: moved_def mx_send_def R_refl)
  then show ?thesis by (auto simp: publish_submitted_notifications_def intro: wk.fold_keeps split: prod.split)
qed

lemma collect_result_moved: "mv s (collect_result tk res s)"
  by (cases res) (auto simp: collect_result_def moved_refl publish_moved split: prod.split)

lemma collect_moved: "mv s (collect_outcomes tk outcomes s)"
  unfolding collect_outcomes_def
proof (rule wk.fold_keeps)
  fix x :: "account_id \<times> 'cl \<times> ('sg, 'pk) shard_submit result list" and s :: "('sg, 'pk, 'cl) executor"
  obtain p cl results where x: "x = (p, cl, results)" by (cases x)
  have "mv (s\<lparr>mx_clients := (mx_clients s)(p \<mapsto> cl)\<rparr>) (fold (collect_result tk) results (s\<lparr>mx_clients := (mx_clients s)(p \<mapsto> cl)\<rparr>))"
    by (intro wk.fold_keeps collect_result_moved)
  then show "mv s ((case x of (p, cl, results) \<Rightarrow> \<lambda>s. fold (collect_result tk) results (s\<lparr>mx_clients := (mx_clients s)(p \<mapsto> cl)\<rparr>)) s)"
    by (simp add: x moved_def)
qed

lemma dispatch_shards_moved:
  assumes run: "dispatch_shards nd tk (Some b) shards s = (r, t)"
    and good: "\<And>p shard chunk tx. shards p = Some shard \<Longrightarrow>
      chunk \<in> set (chunk_orders_for_fpi shard (max_orders_per_shard_tx (nd_max_orders nd))) \<Longrightarrow>
      filter (live_at (tk_now_s tk)) chunk \<noteq> [] \<Longrightarrow> executes nd p (filter (live_at (tk_now_s tk)) chunk) tx
      \<Longrightarrow> good b p (filter (live_at (tk_now_s tk)) chunk) tx"
  shows "(\<exists>e. r = Inl e \<and> is_panic e \<and> mv s t) \<or> (\<exists>u. mv s u \<and> finish_batch nd b (tk_now_ms tk) u = (r, t))"
proof -
  obtain jobs rest where j: "pool_jobs (reg_pools (mx_registry s)) shards (mx_clients s) = (jobs, rest)" by fastforce
  obtain z u where z: "run_jobs nd tk (Some b) jobs (s\<lparr>mx_clients := rest\<rparr>) = (z, u)" by fastforce
  have "keeps mv (run_jobs nd tk (Some b) jobs)"
    using good pool_jobs_from [OF j] by (intro run_jobs_moved) blast
  from keepsD [OF this z] have m: "mv s u" by (simp add: moved_def)
  show ?thesis
  proof (cases z)
    case (Inl e)
    then show ?thesis using run j z m run_jobs_panics [of nd tk "Some b" jobs] by (auto simp: dispatch_shards_def st_then_def)
  next
    case (Inr outcomes)
    let ?u = "u\<lparr>mx_cycle := sat_add (mx_cycle u) (of_nat (length jobs))\<rparr>"
    have "mv s ?u" using m by (simp add: moved_def)
    then have "mv s (collect_outcomes tk outcomes ?u)" by (rule wk.trans) (rule collect_moved)
    moreover have "finish_batch nd b (tk_now_ms tk) (collect_outcomes tk outcomes ?u) = (r, t)"
      using run j z Inr by (simp add: dispatch_shards_def st_then_def Let_def)
    ultimately show ?thesis by blast
  qed
qed

end

section \<open>No order is left behind\<close>

lemma pre_fail_batches: "execution_batches (snd (mark_pre_submission_failed b w ids reason now db)) = execution_batches db"
  by (auto simp: mark_pre_submission_failed_def atomically_def res_simps order_effect_def others_def
      dest: pre_submission_fail_effect [where bs = "{}"] split: sum.split)

lemma record_batches: "execution_batches (snd (record_submission b w sub now db)) = execution_batches db"
  by (auto simp: record_submission_def record_submission_tx_def atomically_def res_simps order_effect_def others_def Let_def
      dest!: submit_orders_effect [where bs = "{}"] split: sum.split if_splits)

lemma local_applied_batches: "execution_batches (snd (mark_submission_local_applied h now db)) = execution_batches db"
  by (auto simp: mark_submission_local_applied_def atomically_def res_simps update_submissions_def split: sum.split)

lemmas dispatch_batches = pre_fail_batches record_batches local_applied_batches

text \<open>Until the shards are done the worker takes steps of the store that leave the batches alone.\<close>

definition dispatches :: "('sg, 'pk) codec \<Rightarrow> nat \<Rightarrow> execution_db \<Rightarrow> execution_db \<Rightarrow> bool" where
  "dispatches cd limit db db' \<longleftrightarrow> (exec_step cd limit)\<^sup>*\<^sup>* db db' \<and> execution_batches db' = execution_batches db"

interpretation dispatch: executor_store "dispatches cd limit" "\<lambda>_ _ _ _. True" nd tk
  for cd limit and nd :: "('sg, 'w, 'cl, 'scr, 'req, 'prf, 'upd) node" and tk :: "('sg, 'pk) tick"
  by unfold_locales (auto simp: dispatches_def dispatch_batches intro: exec_step.pre_fail exec_step.submit exec_step.applied)

lemma fail_remaining_total: "to_i64 now = Inr t \<Longrightarrow> \<exists>gone db'. fail_remaining b ids reason now db = Inr (gone, db')"
proof (induction ids arbitrary: db)
  case (Cons oid ids)
  have a: "\<exists>db'. append_event db oid ty d k now = Inr db'" for db oid ty d k using Cons.prems by (simp add: append_event_def)
  let ?P = "\<lambda>r. do_order_id r = oid \<and> do_batch_id r = Some b \<and> do_state r = Batched"
  let ?db = "update_orders db ?P (fail_batched_row reason t)"
  obtain db2 where e: "append_event (fail_proposed_swap oid t ?db) oid ''failed'' (TextDetail reason) (KTerminal oid) now = Inr db2" using a by blast
  obtain g1 d1 where 1: "fail_remaining b ids reason now ?db = Inr (g1, d1)" using Cons.IH [OF Cons.prems, of ?db] by blast
  obtain g2 d2 where 2: "fail_remaining b ids reason now db2 = Inr (g2, d2)" using Cons.IH [OF Cons.prems, of db2] by blast
  show ?case by (cases "sql_count ?P (durable_orders db) = 1") (simp_all add: Cons.prems e 1 2 Let_def)
qed simp

lemma append_event_orders: "append_event db oid ty d k now = Inr db' \<Longrightarrow> durable_orders db' = durable_orders db"
  by (auto simp: append_event_def res_simps split: if_splits)

lemma fail_swap_orders [simp]: "durable_orders (fail_proposed_swap oid t db) = durable_orders db"
  by (simp add: fail_proposed_swap_def update_swaps_def)

lemma fail_remaining_clears:
  assumes "fail_remaining b ids reason now db = Inr (gone, db')"
    and "r \<in> set (durable_orders db')" "do_batch_id r = Some b" "do_state r = Batched"
  shows "do_order_id r \<notin> set ids \<and> r \<in> set (durable_orders db)"
  using assms
proof (induction ids arbitrary: db gone)
  case (Cons oid ids)
  let ?P = "\<lambda>r. do_order_id r = oid \<and> do_batch_id r = Some b \<and> do_state r = Batched"
  from Cons.prems(1) obtain t db2 fl where
    s: "db2 = update_orders db ?P (fail_batched_row reason t)
        \<or> append_event (fail_proposed_swap oid t (update_orders db ?P (fail_batched_row reason t))) oid ''failed''
                (TextDetail reason) (KTerminal oid) now = Inr db2"
    and rest: "fail_remaining b ids reason now db2 = Inr (fl, db')"
    by (auto simp: res_simps Let_def split: if_splits prod.splits)
  have s: "durable_orders db2 = sql_update ?P (fail_batched_row reason t) (durable_orders db)"
    using s by (auto simp: update_orders_def dest: append_event_orders)
  have "do_order_id r \<notin> set ids" "r \<in> set (durable_orders db2)" using Cons.IH [OF rest Cons.prems(2-4)] by auto
  then show ?case using s Cons.prems(3,4) by (auto simp: sql_simps fail_batched_row_def split: if_splits)
qed simp

lemma residual_cleared:
  assumes "sql_exists (owned_claim b w) (execution_batches db)" "to_i64 now = Inr t"
  shows "\<exists>gone db'. fail_remaining_batched_orders b w reason now db = (Inr gone, db')
    \<and> (\<forall>r\<in>set (durable_orders db'). do_batch_id r = Some b \<longrightarrow> do_state r \<noteq> Batched) \<and> execution_batches db' = execution_batches db"
proof -
  let ?rows = "filter (\<lambda>r. do_batch_id r = Some b \<and> do_state r = Batched) (durable_orders db)"
  let ?ids = "map do_order_id (sort_key (\<lambda>r. (do_created_at r, do_order_id r)) ?rows)"
  obtain gone db' where run: "fail_remaining b ?ids reason now db = Inr (gone, db')" using fail_remaining_total [OF assms(2)] by blast
  have "do_state r \<noteq> Batched" if "r \<in> set (durable_orders db')" "do_batch_id r = Some b" for r
    using fail_remaining_clears [OF run that] that by auto
  moreover have "execution_batches db' = execution_batches db"
    using fail_remaining_effect [OF run, where bs = "{}"] by (simp add: order_effect_def others_def)
  ultimately show ?thesis using run assms(1) by (simp add: fail_remaining_batched_orders_def atomically_def)
qed

lemma exec_reachable_steps: "(exec_step cd limit)\<^sup>*\<^sup>* db db' \<Longrightarrow> exec_reachable cd limit db \<Longrightarrow> exec_reachable cd limit db'"
  by (induction rule: rtranclp_induct) (auto intro: reachable.next_state)

lemma finish_batch_completes:
  assumes reach: "exec_reachable cd limit (mx_store s)" and own: "sql_exists (owned_claim b (mx_worker_id s)) (execution_batches (mx_store s))"
    and now: "to_i64 now = Inr x"
  shows "\<exists>t. finish_batch nd b now s = (Inr (), t) \<and> EvAmm BatchSubmitted \<in> set (mx_sent t) \<and> exec_reachable cd limit (mx_store t)
    \<and> (\<exists>B\<in>set (execution_batches (mx_store t)). eb_batch_id B = b \<and> eb_state B \<in> {Reconciling, Terminal})
    \<and> (\<forall>r\<in>set (durable_orders (mx_store t)). do_batch_id r = Some b \<longrightarrow> do_state r \<noteq> Batched)"
proof -
  let ?w = "mx_worker_id s"
  obtain reason where reason: "reason = ''shard preparation ended before transaction submission''" by blast
  obtain gone db1 where r1: "fail_remaining_batched_orders b ?w reason now (mx_store s) = (Inr gone, db1)"
    and clear: "\<forall>r\<in>set (durable_orders db1). do_batch_id r = Some b \<longrightarrow> do_state r \<noteq> Batched"
    and same: "execution_batches db1 = execution_batches (mx_store s)"
    using residual_cleared [OF own now] by blast
  have reach1: "exec_reachable cd limit db1"
  proof (rule reachable.next_state [OF reach])
    show "exec_step cd limit (mx_store s) db1" using exec_step.fail_rest [of cd limit "mx_store s" b ?w reason now] unfolding r1 by simp
  qed
  have "batches_ok db1" using exec.reachable_inv [OF reach1] unfolding store_inv_def by blast
  moreover have "sql_exists (owned_claim b ?w) (execution_batches db1)" using own same by simp
  ultimately obtain db2 where r2: "begin_reconciliation b ?w now db1 = (Inr True, db2)" and post: "durable_orders db2 = durable_orders db1"
    "\<exists>B\<in>set (execution_batches db2). eb_batch_id B = b \<and> eb_state B \<in> {Reconciling, Terminal}"
    using begin_reconciliation_owned [OF _ _ now clear] by blast
  have reach2: "exec_reachable cd limit db2"
  proof (rule reachable.next_state [OF reach1])
    show "exec_step cd limit db1 db2" using exec_step.reconcile [of cd limit db1 b ?w now] unfolding r2 by simp
  qed
  let ?t = "mx_send (EvAmm BatchSubmitted) (s\<lparr>mx_store := db2\<rparr>)"
  have f: "fail_residual b reason now s = (Inr gone, s\<lparr>mx_store := db1\<rparr>)"
    "begin_finality b now (s\<lparr>mx_store := db1\<rparr>) = (Inr True, s\<lparr>mx_store := db2\<rparr>)"
    by (simp_all add: fail_residual_def begin_finality_def mx_exec_def r1 r2)
  have "finish_batch nd b now s = (Inr (), ?t)"
    by (simp add: finish_batch_def ignoring_def st_then_def catch_error_def f flip: reason)
  moreover have "mx_store ?t = db2" "EvAmm BatchSubmitted \<in> set (mx_sent ?t)" by (simp_all add: mx_send_def)
  moreover have "\<forall>r\<in>set (durable_orders db2). do_batch_id r = Some b \<longrightarrow> do_state r \<noteq> Batched" unfolding post(1) by (rule clear)
  ultimately show ?thesis using post(2) reach2 by (intro exI [of _ ?t] conjI) (simp_all only:)
qed

text \<open>The state a batch is finished in: the store moved by the shards, the batches as before.\<close>

lemma handle_batch_shape:
  assumes "handle_batch_inner nd tk (Some b) ords s = (r, t)"
  shows "(\<exists>e. r = Inl e \<and> is_panic e) \<or>
    (\<exists>u. moved nd (dispatches cd limit) s u \<and> finish_batch nd b (tk_now_ms tk) u = (r, t))"
proof -
  obtain y s1 where y: "route_orders nd tk (Some b) ords Map.empty s = (y, s1)" by fastforce
  have m: "moved nd (dispatches cd limit) s s1" by (rule keepsD [OF dispatch.route_moved y])
  show ?thesis
  proof (cases y)
    case (Inl e)
    then show ?thesis using assms y route_panics [of nd tk "Some b" ords] by (auto simp: handle_batch_inner_def st_then_def)
  next
    case (Inr shards)
    have "dispatch_shards nd tk (Some b) shards s1 = (r, t)"
      using assms y Inr by (simp add: handle_batch_inner_def st_then_def)
    from dispatch.dispatch_shards_moved [OF this, of cd limit] show ?thesis using dispatch.moved_trans [OF m] by blast
  qed
qed

text \<open>
  C8: no order of a batch is left behind. When the worker that holds the claim of a batch handles it,
  whatever the chain and the vault answer, then, unless a panic ends the worker, the batch is handed to the finality observer
  and announced as submitted, and every order of it is submitted, confirmed, executed or failed:
  none waits for a submission that will never come.
\<close>

theorem batch_dispatched_completely:
  assumes "exec_reachable cd limit (mx_store s)"
    and "sql_exists (owned_claim b (mx_worker_id s)) (execution_batches (mx_store s))"
    and "to_i64 (tk_now_ms tk) = Inr x"
    and "handle_batch_inner nd tk (Some b) ords s = (r, t)"
  shows "(\<exists>e. r = Inl e \<and> is_panic e) \<or>
    (r = Inr () \<and> EvAmm BatchSubmitted \<in> set (mx_sent t)
     \<and> (\<exists>B\<in>set (execution_batches (mx_store t)). eb_batch_id B = b \<and> eb_state B \<in> {Reconciling, Terminal})
     \<and> (\<forall>row\<in>set (durable_orders (mx_store t)). do_batch_id row = Some b
          \<longrightarrow> do_state row \<in> {OrdSubmitted, OrdConfirmed, OrdExecuted, OrdFailed}))"
proof -
  have left: "do_state row \<in> {OrdSubmitted, OrdConfirmed, OrdExecuted, OrdFailed}"
    if "exec_reachable cd limit db" "row \<in> set (durable_orders db)" "do_batch_id row = Some b" "do_state row \<noteq> Batched" for db row
    using exec.reachable_inv [OF that(1)] that(2-4)
    by (cases "do_state row") (auto simp: store_inv_def orders_ok_def prebatch_def)
  from handle_batch_shape [OF assms(4), of cd limit] show ?thesis
  proof
    assume "\<exists>u. moved nd (dispatches cd limit) s u \<and> finish_batch nd b (tk_now_ms tk) u = (r, t)"
    then obtain u where u: "moved nd (dispatches cd limit) s u" and fin: "finish_batch nd b (tk_now_ms tk) u = (r, t)" by blast
    have "exec_reachable cd limit (mx_store u)" "sql_exists (owned_claim b (mx_worker_id u)) (execution_batches (mx_store u))"
      using u assms(1,2) by (auto simp: moved_def dispatches_def intro: exec_reachable_steps)
    from finish_batch_completes [OF this assms(3), of nd] fin show ?thesis using left by auto
  qed simp
qed

text \<open>A node on which everything succeeds, a vault that places everybody on one pool, and a fresh worker.\<close>

definition example_tx :: executed_tx where
  "example_tx = \<lparr>etx_hash = ''h'', etx_id = [1], etx_initial_commitment = [3], etx_final_commitment = [4], etx_expiration_block = 20\<rparr>"

definition example_node :: "(bytes, unit, unit, unit, unit, unit, unit) node" where
  "example_node = \<lparr>nd_attach = (\<lambda>_. Inr ()), nd_deployment = Inr [], nd_placement = (\<lambda>_. Inr \<lparr>get_map_item = (\<lambda>_ _. Inr (1, 2, 3, 4)), slots = []\<rparr>),
     nd_try_from_elements = (\<lambda>_ _. Inr example_user), nd_error_text = (\<lambda>_. ''bad''), nd_hash_elements = (\<lambda>_. ()),
     nd_prepared_signature = (\<lambda>_ _. []), nd_sync_state = (\<lambda>cl. (Finished (Inr ()), cl)), nd_sync_chain = (\<lambda>cl. (Elapsed, cl)),
     nd_compile = (\<lambda>_ _. Inr ()), nd_request = (\<lambda>_ _ _. Inr ()), nd_execute = (\<lambda>_ _ cl. (Inr example_tx, cl)),
     nd_prove = (\<lambda>_ cl. (Inr (), cl)), nd_submit = (\<lambda>_ _ cl. (Inr 10, cl)),
     nd_store_update = (\<lambda>_ _ cl. (Inr (), cl)), nd_update_bytes = (\<lambda>_. [2]), nd_read_update = (\<lambda>_. Inr ()),
     nd_apply_update = (\<lambda>_ cl. (Inr (), cl)), nd_max_orders = None, nd_retry_secs = None\<rparr>"

definition example_executor :: "execution_db \<Rightarrow> (bytes, bytes, unit) executor" where
  "example_executor db = \<lparr>mx_clients = Map.empty(example_user \<mapsto> ()), mx_cycle = 0, mx_registry = new_registry [example_user],
     mx_orders = empty_book, mx_user_pools = Map.empty, mx_pool_states = Map.empty, mx_store = db,
     mx_worker_id = ''x'', mx_sent = []\<rparr>"

definition example_tick :: "(bytes, bytes) tick" where
  "example_tick = \<lparr>tk_runtime = example_runtime, tk_now_ms = 1005, tk_now_s = 1\<rparr>"

lemma example_processed_facts: "order_user_id example_processed = example_user" "order_intent example_processed = example_intent"
  by (simp_all add: example_processed_def processing_processed_def start_processing_def with_state_def example_order_def new_with_id_def)

lemma example_intent_valid: "felts_valid (canonical_felts example_intent)" "\<not> is_expired_at (expires_at example_intent) 1"
  by code_simp+

lemma example_node_calls:
  "nd_error_text example_node = (\<lambda>_. ''bad'')" "nd_sync_state example_node cl = (Finished (Inr ()), cl)"
  "nd_compile example_node cl scr = Inr ()" "nd_request example_node u advice pairs = Inr ()"
  "nd_execute example_node p u cl = (Inr example_tx, cl)" "nd_prove example_node tx cl = (Inr (), cl)"
  "nd_submit example_node u tx cl = (Inr 10, cl)" "nd_store_update example_node tx h cl = (Inr (), cl)"
  "nd_apply_update example_node u cl = (Inr (), cl)" "nd_max_orders example_node = None"
  "etx_hash example_tx = ''h''"
  by (simp_all add: example_node_def example_tx_def)

lemma example_chunks: "chunk_orders_for_fpi [example_processed] (max_orders_per_shard_tx None) = [[example_processed]]"
  by (simp add: chunk_orders_for_fpi_def chunk_order_def max_orders_per_shard_tx_def Let_def)

lemma example_record: "record_submission 77 ''x'' (submission_of example_node 77 example_user [example_processed] example_tx 10 ()) 1005 db_taken
    = (Inr True, db_submitted)"
  by (simp add: record_submission_def record_submission_tx_def owned_claim_def has_order_def submission_of_def example_node_def example_tx_def
      run_defs run_dbs db_taken_def db_submitted_def example_sub_def)

definition db_local :: execution_db where
  "db_local = db_submitted\<lparr>execution_submissions := [example_sub\<lparr>es_local_applied := True\<rparr>]\<rparr>"

lemma example_applied: "mark_submission_local_applied ''h'' 1005 db_submitted = (Inr (), db_local)"
  by (simp add: mark_submission_local_applied_def run_defs update_submissions_def db_submitted_def db_local_def example_sub_def)

lemma example_shard:
  "execute_shard_on_client example_node example_tick (Some 77) example_user [example_processed]
       ((), (example_executor db_taken)\<lparr>mx_registry := rg, mx_user_pools := up, mx_clients := m\<rparr>)
    = (Inr (''h'', [example_processed]), (), (example_executor db_local)\<lparr>mx_registry := rg, mx_user_pools := up, mx_clients := m\<rparr>)"
  using example_record example_applied
  by (simp add: execute_shard_on_client_def submit_shard_def prepare_request_def record_shard_def apply_locally_def sync_after_def
      or_fail_chunk_def ignoring_def on_client_def on_worker_def st_then_def catch_error_def mx_exec_def sync_before_execution_def
      example_processed_facts example_intent_valid intent_message_word_def message_word_def example_node_calls
      example_tick_def example_executor_def numeral_3_eq_3)

lemma example_finish:
  "fail_remaining_batched_orders 77 ''x'' reason 1005 db_local = (Inr [], db_local)"
  "\<exists>db. begin_reconciliation 77 ''x'' 1005 db_local = (Inr True, db) \<and> execution_submissions db = [example_sub\<lparr>es_local_applied := True\<rparr>]"
  by (simp_all add: fail_remaining_batched_orders_def begin_reconciliation_def begin_reconciliation_tx_def run_defs run_dbs db_taken_def
      db_submitted_def db_local_def)

lemma example_placement: "assigned_pool example_node user = Inr example_user"
  by (simp add: assigned_pool_def example_node_def vault_user_registration_def user_pool_from_storage_def word_first_def)

lemma example_run:
  "\<exists>t. handle_batch_inner example_node example_tick (Some 77) [example_processed] (example_executor db_taken) = (Inr (), t)
     \<and> execution_submissions (mx_store t) = [example_sub\<lparr>es_local_applied := True\<rparr>]"
proof -
  define rg where "rg = acknowledge example_user Execution (new_registry [example_user])"
  let ?up = "[example_user \<mapsto> example_user]"
  let ?routed = "\<lambda>db. (example_executor db)\<lparr>mx_registry := rg, mx_user_pools := ?up\<rparr>"
  have route: "route_orders example_node example_tick (Some 77) [example_processed] Map.empty (example_executor db_taken)
      = (Inr [example_user \<mapsto> [example_processed]], ?routed db_taken)"
    by (simp add: mx_resolve_user_pool_def example_executor_def example_processed_facts or_default_def example_placement
        mx_ensure_pool_attached_def catch_error_def st_then_def rg_def)
  have run: "run_jobs example_node example_tick (Some 77) [(example_user, (), [example_processed])]
        ((example_executor db_taken)\<lparr>mx_registry := rg, mx_user_pools := ?up, mx_clients := Map.empty\<rparr>)
      = (Inr [(example_user, (), [Inr (''h'', [example_processed])])],
         (example_executor db_local)\<lparr>mx_registry := rg, mx_user_pools := ?up, mx_clients := Map.empty\<rparr>)"
    by (simp add: example_node_calls example_chunks example_shard attempt_def st_then_def)
  obtain db where db: "begin_reconciliation 77 ''x'' 1005 db_local = (Inr True, db)"
    "execution_submissions db = [example_sub\<lparr>es_local_applied := True\<rparr>]" using example_finish(2) by blast
  have pools: "reg_pools rg = [example_user]"
    "mx_clients (example_executor db_taken) = [example_user \<mapsto> ()]" "mx_worker_id (example_executor db) = ''x''"
    "mx_store (example_executor db) = db" "tk_now_ms example_tick = 1005" for db
    by (simp_all add: example_executor_def new_registry_def example_tick_def rg_def acknowledge_def bump_def Let_def)
  show ?thesis
    using db(2) by (simp add: handle_batch_inner_def dispatch_shards_def st_then_def route pools run collect_outcomes_def collect_result_def
        publish_submitted_notifications_def finish_batch_def ignoring_def catch_error_def fail_residual_def begin_finality_def
        mx_exec_def mx_send_def example_finish(1) db(1) Let_def del: route_orders.simps run_jobs.simps)
qed

theorem batch_dispatched_completely_witness:
  "\<exists>t. handle_batch_inner example_node example_tick (Some 77) [example_processed] (example_executor db_taken) = (Inr (), t)
     \<and> EvAmm BatchSubmitted \<in> set (mx_sent t)
     \<and> (\<forall>row\<in>set (durable_orders (mx_store t)). do_batch_id row = Some 77
          \<longrightarrow> do_state row \<in> {OrdSubmitted, OrdConfirmed, OrdExecuted, OrdFailed})"
proof -
  let ?s = "example_executor db_taken"
  obtain t where run: "handle_batch_inner example_node example_tick (Some 77) [example_processed] ?s = (Inr (), t)"
    using example_run by blast
  have own: "sql_exists (owned_claim 77 (mx_worker_id ?s)) (execution_batches (mx_store ?s))"
    by (simp add: example_executor_def db_taken_def run_dbs sql_exists_def owned_claim_def)
  have now: "to_i64 (tk_now_ms example_tick) = Inr 1005" by (simp add: example_tick_def to_i64_def)
  have "exec_reachable example_codec 1 db_taken" by (rule reachable.next_state [OF run_reachable(3) run_steps(5)])
  then have reach: "exec_reachable example_codec 1 (mx_store ?s)" by (simp add: example_executor_def)
  from batch_dispatched_completely [OF reach own now run] run show ?thesis by auto
qed

section \<open>The whole worker\<close>

text \<open>Beside handling a batch the worker claims one, hands it over, retries local updates and attaches pools.\<close>

locale executor_loop = executor_store R good nd tk
  for R :: "execution_db \<Rightarrow> execution_db \<Rightarrow> bool"
    and good :: "uuid \<Rightarrow> account_id \<Rightarrow> ('sg, 'pk, processed) order list \<Rightarrow> executed_tx \<Rightarrow> bool"
    and nd :: "('sg, 'w, 'cl, 'scr, 'req, 'prf, 'upd) node"
    and tk :: "('sg, 'pk) tick" +
  assumes any_good: "good b p ords tx"
    and R_claim: "R db (snd (claim_pending_batch (tk_runtime tk) w now lease_ms db))"
    and R_residual: "R db (snd (fail_remaining_batched_orders b w reason now db))"
    and R_begin: "R db (snd (begin_reconciliation b w now db))"
    and R_attempt: "R db (snd (record_reconciliation_attempt h err now db))"
    and R_fail: "R db (snd (fail_submission h reason now db))"
begin

lemma finish_moved: "keeps mv (finish_batch nd b now)"
proof -
  have r: "keeps mv (fail_residual b reason now)" for reason
    using mx_exec_moved [OF R_residual] by (auto simp: keeps_def fail_residual_def)
  have g: "keeps mv (begin_finality b now)"
    using mx_exec_moved [OF R_begin] by (auto simp: keeps_def begin_finality_def)
  have a: "keeps mv (\<lambda>s. (Inr (), if ok then mx_send (EvAmm BatchSubmitted) s else s))" for ok
    by (simp add: keeps_def mx_send_def moved_def R_refl)
  show ?thesis unfolding finish_batch_def
    by (intro wk.keeps_st_then wk.keeps_catch ignoring_moved r g a)
qed

lemma dispatch_moved: "keeps mv (dispatch_shards nd tk b shards)"
proof (rule keepsI)
  fix s r t assume run: "dispatch_shards nd tk b shards s = (r, t)"
  obtain jobs rest where j: "pool_jobs (reg_pools (mx_registry s)) shards (mx_clients s) = (jobs, rest)" by fastforce
  obtain z u where z: "run_jobs nd tk b jobs (s\<lparr>mx_clients := rest\<rparr>) = (z, u)" by fastforce
  have "keeps mv (run_jobs nd tk b jobs)" by (rule run_jobs_moved) (rule any_good)
  from keepsD [OF this z] have m: "mv s u" by (simp add: moved_def)
  show "mv s t"
  proof (cases z)
    case (Inl e)
    then show ?thesis using run j z m by (simp add: dispatch_shards_def st_then_def)
  next
    case (Inr outcomes)
    let ?u = "u\<lparr>mx_cycle := sat_add (mx_cycle u) (of_nat (length jobs))\<rparr>"
    let ?c = "collect_outcomes tk outcomes ?u"
    have "mv s ?u" using m by (simp add: moved_def)
    then have "mv s ?c" by (rule wk.trans) (rule collect_moved)
    moreover have "mv ?c t"
      using run j z Inr by (auto simp: dispatch_shards_def st_then_def Let_def wk.refl split: option.splits dest: keepsD [OF finish_moved])
    ultimately show ?thesis by (rule wk.trans)
  qed
qed

lemma handle_moved: "keeps mv (handle_batch_inner nd tk b ords)"
  unfolding handle_batch_inner_def by (intro wk.keeps_st_then route_moved dispatch_moved)

lemma claim_moved: "keeps mv (claim_and_handle_pending_batch nd tk)"
proof (rule keepsI)
  fix s r t assume run: "claim_and_handle_pending_batch nd tk s = (r, t)"
  obtain y u where y: "mx_exec (claim_pending_batch (tk_runtime tk) (mx_worker_id s) (tk_now_ms tk) 600000) s = (y, u)" by fastforce
  have "mv s u" by (rule keepsD [OF mx_exec_moved [OF R_claim] y])
  moreover have "mv u t"
    using run y by (auto simp: claim_and_handle_pending_batch_def wk.refl split: sum.splits option.splits if_splits dest: keepsD [OF handle_moved])
  ultimately show "mv s t" by (rule wk.trans)
qed

lemma retry_one_moved: "keeps mv (retry_one nd now r)"
proof (rule keepsI)
  fix s t :: "('sg, 'pk, 'cl) executor" and y
  assume run: "retry_one nd now r s = (y, t)"
  have e: "mv s t" if "mx_exec f (s\<lparr>mx_clients := m\<rparr>) = (y, t)" "\<And>db. R db (snd (f db))" for f :: "execution_db \<Rightarrow> unit result \<times> execution_db" and m
    using keepsD [OF mx_exec_moved [OF that(2)] that(1)] by (simp add: moved_def)
  have f: "keeps mv (st_then (mx_exec (fail_submission h reason now)) (\<lambda>_. Pair (Inr ())))" for h reason
    by (intro wk.keeps_st_then mx_exec_moved R_fail wk.keeps_Pair)
  show "mv s t"
    using run by (auto simp: retry_one_def Let_def split: option.splits sum.splits prod.splits
        intro: keepsD [OF mx_exec_moved [OF R_attempt]] e [OF _ R_attempt] e [OF _ R_applied] keepsD [OF f])
qed

lemma retry_moved: "keeps mv (retry_pending_local_applies nd now)"
  unfolding keeps_def
proof
  fix s :: "('sg, 'pk, 'cl) executor"
  have f: "mv s (snd (for_each (retry_one nd now) rs s))" for rs
    using wk.keeps_for_each [OF retry_one_moved, where xs = rs] by (simp add: keeps_def)
  show "mv s (snd (retry_pending_local_applies nd now s))"
    by (simp add: retry_pending_local_applies_def f wk.refl split: sum.split)
qed

lemma ensure_moved: "keeps mv (mx_ensure_pool_attached nd p)"
  by (auto simp: keeps_def mx_ensure_pool_attached_def moved_def R_refl split: prod.splits sum.splits bool.splits)

lemma attach_moved: "keeps mv (mx_attach_pending_pools nd)"
  unfolding keeps_def
proof
  fix s
  have "keeps mv (for_each (\<lambda>p. catch_error (mx_ensure_pool_attached nd p) ignore_error) ps)" for ps
    by (intro wk.keeps_for_each wk.keeps_catch ensure_moved wk.keeps_ignore)
  then show "mv s (snd (mx_attach_pending_pools nd s))" by (simp add: keeps_def mx_attach_pending_pools_def)
qed

lemma executor_step_moved: "keeps mv (executor_step nd tk inp)"
proof (cases inp)
  case MxTick
  show ?thesis unfolding MxTick executor_step_def poll_durable_work_def executor_input.case
    by (intro wk.keeps_st_then ignoring_moved retry_moved claim_moved attach_moved wk.keeps_Pair)
next
  case MxRegistryChanged
  show ?thesis unfolding MxRegistryChanged executor_step_def executor_input.case by (intro wk.keeps_st_then attach_moved wk.keeps_Pair)
next
  case MxProcessedBatch
  show ?thesis unfolding MxProcessedBatch executor_step_def executor_input.case by (intro wk.keeps_st_then claim_moved wk.keeps_Pair)
qed (simp_all add: executor_step_def wk.keeps_Pair keeps_def moved_def R_refl)

end

interpretation stepping: executor_loop "(exec_step (rt_codec (tk_runtime tk)) limit)\<^sup>*\<^sup>*" "\<lambda>_ _ _ _. True" nd tk
  for limit and nd :: "('sg, 'w, 'cl, 'scr, 'req, 'prf, 'upd) node" and tk :: "('sg, 'pk) tick"
  by unfold_locales
    (auto intro!: r_into_rtranclp intro: exec_step.pre_fail exec_step.submit exec_step.applied exec_step.claim_batch exec_step.fail_rest
      exec_step.reconcile exec_step.attempt exec_step.fail_tx)

lemma executor_step_run:
  "executor_step nd tk inp s = (r, t) \<Longrightarrow> (exec_step (rt_codec (tk_runtime tk)) limit)\<^sup>*\<^sup>* (mx_store s) (mx_store t)"
  using keepsD [OF stepping.executor_step_moved] unfolding moved_def by blast

section \<open>What the worker knows of the vault\<close>

text \<open>The placement of a user in the vault's storage: the user is registered and bound to an authorised pool.\<close>

definition vault_placed :: "('sg, 'w, 'cl, 'scr, 'req, 'prf, 'upd) node \<Rightarrow> account_id \<Rightarrow> account_id \<Rightarrow> bool" where
  "vault_placed nd user p \<longleftrightarrow> (\<exists>st key. nd_placement nd user = Inr st \<and> vault_user_registration st user = Inr (Some key)
     \<and> user_pool_from_storage (nd_try_from_elements nd) st user = Inr (Some p))"

lemma assigned_pool_placed: "assigned_pool nd user = Inr p \<longleftrightarrow> vault_placed nd user p"
  by (auto simp: assigned_pool_def vault_placed_def res_simps)

text \<open>A worker as the server runs it: it is initialised, loads the snapshots and takes steps, each with the answers
  of chain and vault of its time, while other components work on the shared store and registry.\<close>

inductive executor_run ::
  "('sg, 'w, 'cl, 'scr, 'req, 'prf, 'upd) node list \<Rightarrow> ('sg, 'pk, 'cl) executor \<Rightarrow> bool" where
  run_init: "initialize_executor (nd :: ('sg, 'w, 'cl, 'scr, 'req, 'prf, 'upd) node) dep lp db worker = Inr s \<Longrightarrow> executor_run [] s"
| run_load: "executor_run nds s \<Longrightarrow> start_executor s = (r, t) \<Longrightarrow> executor_run nds t"
| run_step: "executor_run nds s \<Longrightarrow> executor_step nd tk inp s = (r, t) \<Longrightarrow> executor_run (nd # nds) t"
| run_shared: "executor_run nds s \<Longrightarrow> executor_run nds (s\<lparr>mx_store := db, mx_registry := reg\<rparr>)"

lemma executor_run_placed: "executor_run nds s \<Longrightarrow> mx_user_pools s user = Some p \<Longrightarrow> \<exists>nd\<in>set nds. vault_placed nd user p"
proof (induction rule: executor_run.induct)
  case (run_init nd dep lp db worker s)
  then show ?case by (auto simp: initialize_executor_def res_simps)
next
  case (run_load nds s r t)
  then have "mx_user_pools t = mx_user_pools s" by (auto simp: start_executor_def split: sum.splits)
  then show ?case using run_load by simp
next
  case (run_step nds s nd tk inp r t)
  have "mx_user_pools s user = Some p \<or> assigned_pool nd user = Inr p"
    using keepsD [OF stepping.executor_step_moved run_step.hyps(2)] run_step.prems unfolding moved_def by blast
  then show ?case using run_step.IH by (auto simp: assigned_pool_placed)
qed simp

section \<open>What a recorded transaction carries\<close>

text \<open>Some live orders of the batch, of users placed on the pool, no more than fit, and the transaction is
  the execution of exactly their signed intents.\<close>

definition carries ::
  "('sg, 'w, 'cl, 'scr, 'req, 'prf, 'upd) node \<Rightarrow> ('sg, 'pk) tick \<Rightarrow> ('sg, 'pk, processed) order list \<Rightarrow> (account_id \<Rightarrow> account_id \<Rightarrow> bool)
     \<Rightarrow> account_id \<Rightarrow> ('sg, 'pk, processed) order list \<Rightarrow> executed_tx \<Rightarrow> bool" where
  "carries nd tk ords places p os tx \<longleftrightarrow> os \<noteq> [] \<and> set os \<subseteq> set ords \<and> length os \<le> max_orders_per_shard_tx (nd_max_orders nd)
     \<and> (\<forall>ord\<in>set os. live_at (tk_now_s tk) ord \<and> places (order_user_id ord) p) \<and> executes nd p os tx"

definition recorded_for ::
  "('sg, 'w, 'cl, 'scr, 'req, 'prf, 'upd) node \<Rightarrow> ('sg, 'pk) tick \<Rightarrow> ('sg, 'pk, processed) order list \<Rightarrow> (account_id \<Rightarrow> account_id \<Rightarrow> bool)
     \<Rightarrow> uuid \<Rightarrow> submission_row \<Rightarrow> bool" where
  "recorded_for nd tk ords places b row \<longleftrightarrow> es_batch_id row = b
     \<and> (\<exists>os tx. carries nd tk ords places (es_pool_id row) os tx \<and> es_order_ids row = map order_id os
          \<and> es_tx_hash row = etx_hash tx \<and> es_tx_id row = etx_id tx
          \<and> es_expected_initial_state row = etx_initial_commitment tx \<and> es_expected_final_state row = etx_final_commitment tx)"

definition only_records :: "(submission_row \<Rightarrow> bool) \<Rightarrow> execution_db \<Rightarrow> execution_db \<Rightarrow> bool" where
  "only_records ok db db' \<longleftrightarrow> (\<forall>row\<in>set (execution_submissions db').
     (\<exists>q\<in>set (execution_submissions db). same_tx q row) \<or> ok row)"

lemma recorded_same_tx: "recorded_for nd tk ords places b q \<Longrightarrow> same_tx q row \<Longrightarrow> recorded_for nd tk ords places b row"
  by (simp add: recorded_for_def same_tx_def)

lemma only_records_frame: "execution_submissions db' = execution_submissions db \<Longrightarrow> only_records ok db db'"
  by (auto simp: only_records_def intro: same_tx_refl)

lemma only_records_update: "(\<And>r. same_tx r (f r)) \<Longrightarrow> only_records ok db (update_submissions db P f)"
  by (auto simp: only_records_def update_submissions_def sql_simps intro: same_tx_refl)

lemma only_records_trans:
  assumes "only_records (recorded_for nd tk ords places b) db db1" "only_records (recorded_for nd tk ords places b) db1 db2"
  shows "only_records (recorded_for nd tk ords places b) db db2"
  using assms unfolding only_records_def by (meson recorded_same_tx same_tx_trans)

lemma pre_fail_subs: "execution_submissions (snd (mark_pre_submission_failed b w ids reason now db)) = execution_submissions db"
  unfolding mark_pre_submission_failed_def by (rule atomically_subs) (auto simp: res_simps dest: sub_frames)

lemma record_submission_rows:
  "\<exists>new. execution_submissions (snd (record_submission b w sub now db)) = execution_submissions db @ new
     \<and> (\<forall>q\<in>set new. es_batch_id q = b \<and> es_pool_id q = es_pool_id sub \<and> es_order_ids q = es_order_ids sub
          \<and> es_tx_hash q = es_tx_hash sub \<and> es_tx_id q = es_tx_id sub
          \<and> es_expected_initial_state q = es_expected_initial_state sub \<and> es_expected_final_state q = es_expected_final_state sub)"
proof (cases "record_submission_tx b w sub now db")
  case (Inl e)
  then show ?thesis by (simp add: record_submission_def atomically_def)
next
  case (Inr y)
  obtain x db' where y: "y = (x, db')" by (cases y)
  have "execution_submissions db' = execution_submissions db \<or> (\<exists>t. execution_submissions db' = execution_submissions db
      @ [sub\<lparr>es_batch_id := b, es_state := SubSubmitted, es_local_applied := False, es_attempts := 0, es_last_error := None,
             es_submitted_at := t, es_updated_at := t, es_confirmed_block := None\<rparr>])"
    using Inr unfolding y by (auto simp: record_submission_tx_def res_simps Let_def dest!: submit_orders_subs split: if_splits)
  then show ?thesis using Inr y by (auto simp: record_submission_def atomically_def)
qed

interpretation recording: executor_store "only_records (recorded_for nd tk ords places b)"
    "\<lambda>b' p os tx. b' = b \<and> carries nd tk ords places p os tx" nd tk
  for nd :: "('sg, 'w, 'cl, 'scr, 'req, 'prf, 'upd) node" and tk :: "('sg, 'pk) tick" and ords places b
proof unfold_locales
  let ?R = "only_records (recorded_for nd tk ords places b)"
  show "?R db (snd (record_submission b' w (submission_of nd b' p os tx height upd) now db))"
    if "b' = b \<and> carries nd tk ords places p os tx" for db b' w p os tx height upd now
    using record_submission_rows [of b' w "submission_of nd b' p os tx height upd" now db] that
    by (fastforce simp: only_records_def recorded_for_def submission_of_def)
  show "?R db (snd (mark_submission_local_applied h now db))" for db h now
    by (auto simp: mark_submission_local_applied_def atomically_def and_then_def only_records_frame same_tx_def
        intro!: only_records_update split: sum.split)
  show "?R db db" "?R db (snd (mark_pre_submission_failed b' w ids reason now db))" for db b' w ids reason now
    by (simp_all add: only_records_frame pre_fail_subs)
  show "?R db db2" if "?R db db1" "?R db1 db2" for db db1 db2 using that by (rule only_records_trans)
qed

text \<open>Finishing a batch records nothing and places nobody.\<close>

definition same_subs :: "('sg, 'pk, 'cl) executor \<Rightarrow> ('sg, 'pk, 'cl) executor \<Rightarrow> bool" where
  "same_subs s t \<longleftrightarrow> execution_submissions (mx_store t) = execution_submissions (mx_store s)
     \<and> mx_user_pools t = mx_user_pools s \<and> mx_worker_id t = mx_worker_id s"

interpretation unchanged: state_order same_subs
  by unfold_locales (simp_all add: same_subs_def)

lemma mx_exec_subs:
  "(\<And>db. execution_submissions (snd (f db)) = execution_submissions db) \<Longrightarrow> same_subs s (snd (mx_exec f s))"
  by (simp add: mx_exec_def same_subs_def split_beta)

lemma fail_remaining_orders_subs: "execution_submissions (snd (fail_remaining_batched_orders b w reason now db)) = execution_submissions db"
  unfolding fail_remaining_batched_orders_def Let_def by (rule atomically_subs) (erule fail_remaining_subs)

lemma begin_reconciliation_subs: "execution_submissions (snd (begin_reconciliation b w now db)) = execution_submissions db"
  unfolding begin_reconciliation_def
  by (rule atomically_subs)
    (auto simp: begin_reconciliation_tx_def res_simps Let_def dest!: finalize_subs split: if_splits prod.splits
      simp del: finalize_batch_if_ready.simps)

lemma finish_subs: "keeps same_subs (finish_batch nd b now)"
proof -
  have r: "keeps same_subs (fail_residual b reason now)" for reason
    by (simp add: keeps_def fail_residual_def mx_exec_subs fail_remaining_orders_subs)
  have g: "keeps same_subs (begin_finality b now)"
    by (simp add: keeps_def begin_finality_def mx_exec_subs begin_reconciliation_subs)
  have a: "keeps same_subs (\<lambda>s. (Inr (), if ok then mx_send (EvAmm BatchSubmitted) s else s))" for ok
    by (simp add: keeps_def mx_send_def same_subs_def)
  show ?thesis
    unfolding finish_batch_def ignoring_def
    by (intro unchanged.keeps_st_then unchanged.keeps_catch unchanged.keeps_Pair unchanged.keeps_ignore r g a)
qed

section \<open>Routing\<close>

text \<open>Every order of a shard is from the batch and its user is known to be placed on that pool.\<close>

definition placed ::
  "('sg, 'pk, processed) order list \<Rightarrow> (account_id \<rightharpoonup> account_id) \<Rightarrow> (account_id \<rightharpoonup> ('sg, 'pk, processed) order list) \<Rightarrow> bool" where
  "placed ords pools m \<longleftrightarrow> (\<forall>p os. m p = Some os \<longrightarrow> (\<forall>ord\<in>set os. ord \<in> set ords \<and> pools (order_user_id ord) = Some p))"

lemma placed_mono: "placed ords pools m \<Longrightarrow> pools \<subseteq>\<^sub>m pools' \<Longrightarrow> placed ords pools' m"
  unfolding placed_def map_le_def by (metis domI)

lemma resolve_result: "mx_resolve_user_pool nd user s = (Inr p, t) \<Longrightarrow> mx_user_pools t user = Some p"
  by (auto simp: mx_resolve_user_pool_def elim!: st_then_InrE split: option.splits sum.splits)

lemma route_placed:
  assumes "route_orders nd tk b os m s = (Inr m', t)" "placed ords (mx_user_pools s) m" "set os \<subseteq> set ords"
  shows "placed ords (mx_user_pools t) m'"
  using assms
proof (induction os arbitrary: m s)
  case (Cons ord os)
  obtain y s' where y: "mx_resolve_user_pool nd (order_user_id ord) s = (y, s')" by fastforce
  have grow: "mx_user_pools s \<subseteq>\<^sub>m mx_user_pools s'"
    using keepsD [OF dispatch.resolve_moved y] unfolding moved_def by blast
  have known: "placed ords (mx_user_pools s') m" by (rule placed_mono [OF Cons.prems(2) grow])
  show ?case
  proof (cases y)
    case (Inr p)
    have "placed ords (mx_user_pools s') (m(p \<mapsto> or_default (m p) [] @ [ord]))"
      using known Cons.prems(3) resolve_result [OF y [unfolded Inr]]
      by (cases "m p") (auto simp: placed_def or_default_def)
    then show ?thesis using Cons.IH Cons.prems y Inr by simp
  next
    case (Inl e)
    then obtain u s2 where f: "fail_one b (nd_error_text nd e) (tk_now_ms tk) ord s' = (Inr u, s2)"
      and rest: "route_orders nd tk b os m s2 = (Inr m', t)"
      using Cons.prems(1) y by (auto elim!: st_then_InrE split: if_splits)
    have "mx_user_pools s' \<subseteq>\<^sub>m mx_user_pools s2"
      using keepsD [OF dispatch.fail_one_moved f] unfolding moved_def by blast
    from placed_mono [OF known this] show ?thesis using Cons.IH [OF rest] Cons.prems(3) by simp
  qed
qed simp

lemma chunk_subset: "chunk \<in> set (chunk_orders_for_fpi ords (max_orders_per_shard_tx env)) \<Longrightarrow> set chunk \<subseteq> set ords"
  and chunk_length: "chunk \<in> set (chunk_orders_for_fpi ords (max_orders_per_shard_tx env)) \<Longrightarrow> length chunk \<le> max_orders_per_shard_tx env"
  using chunk_properties [OF max_orders_bounds(1) [of env], where ords = ords] by (fastforce simp: list_all_iff dest: arg_cong [of _ _ set])+

text \<open>
  C5: the worker records only what was signed and executed. Every submission that appears while a running worker
  handles a batch belongs to that batch; its orders are orders of the batch, at least one and at most as many
  as one transaction takes, none of them expired, and each of a user whom the vault, when the worker asked it
  during this batch or earlier in its run, answered to be registered and placed on the submission's pool; and its
  transaction and account states are those of the execution, on that pool, of a request built from the script of exactly
  these orders' signed intents.
\<close>

theorem recorded_transactions_carry_signed_orders:
  assumes "executor_run nds s" "handle_batch_inner nd tk (Some b) ords s = (r, t)"
    and "row \<in> set (execution_submissions (mx_store t))"
    and "\<And>q. q \<in> set (execution_submissions (mx_store s)) \<Longrightarrow> es_tx_hash q \<noteq> es_tx_hash row"
  shows "recorded_for nd tk ords (\<lambda>user p. \<exists>n\<in>set (nd # nds). vault_placed n user p) b row"
proof -
  let ?places = "\<lambda>user p. \<exists>n\<in>set (nd # nds). vault_placed n user p"
  let ?R = "only_records (recorded_for nd tk ords ?places b)"
  obtain y s1 where y: "route_orders nd tk (Some b) ords Map.empty s = (y, s1)" by fastforce
  have m: "moved nd ?R s s1" by (rule keepsD [OF recording.route_moved y])
  have vault: "?places user p" if "mx_user_pools s1 user = Some p" for user p
    using m that executor_run_placed [OF assms(1), of user p] unfolding moved_def by (auto simp: assigned_pool_placed)
  have "moved nd ?R s t"
  proof (cases y)
    case (Inl e)
    then show ?thesis using assms(2) y m by (simp add: handle_batch_inner_def st_then_def)
  next
    case (Inr shards)
    have run: "dispatch_shards nd tk (Some b) shards s1 = (r, t)" using assms(2) y Inr by (simp add: handle_batch_inner_def st_then_def)
    have "placed ords (mx_user_pools s1) shards" using route_placed [OF y [unfolded Inr], of ords] by (simp add: placed_def)
    then have carry: "carries nd tk ords ?places p (filter (live_at (tk_now_s tk)) chunk) tx"
      if "shards p = Some shard" "chunk \<in> set (chunk_orders_for_fpi shard (max_orders_per_shard_tx (nd_max_orders nd)))"
        "filter (live_at (tk_now_s tk)) chunk \<noteq> []" "executes nd p (filter (live_at (tk_now_s tk)) chunk) tx" for p shard chunk tx
      using that chunk_subset [OF that(2)] le_trans [OF length_filter_le chunk_length [OF that(2)]] vault
      unfolding carries_def placed_def by fastforce
    have finished: "moved nd ?R s1 t" if "moved nd ?R s1 u" "finish_batch nd b (tk_now_ms tk) u = (r, t)" for u
      using that(1) keepsD [OF finish_subs that(2)] by (simp add: moved_def only_records_def same_subs_def)
    have "(\<exists>e. r = Inl e \<and> is_panic e \<and> moved nd ?R s1 t) \<or> (\<exists>u. moved nd ?R s1 u \<and> finish_batch nd b (tk_now_ms tk) u = (r, t))"
    proof (rule recording.dispatch_shards_moved [OF run])
      show "b = b \<and> carries nd tk ords ?places p (filter (live_at (tk_now_s tk)) chunk) tx"
        if "shards p = Some shard" "chunk \<in> set (chunk_orders_for_fpi shard (max_orders_per_shard_tx (nd_max_orders nd)))"
          "filter (live_at (tk_now_s tk)) chunk \<noteq> []" "executes nd p (filter (live_at (tk_now_s tk)) chunk) tx" for p shard chunk tx
        using carry [OF that] by (rule conjI [OF refl])
    qed
    then have "moved nd ?R s1 t" using finished by blast
    then show ?thesis by (rule recording.moved_trans [OF m])
  qed
  then have "(\<exists>q\<in>set (execution_submissions (mx_store s)). same_tx q row) \<or> recorded_for nd tk ords ?places b row"
    using assms(3) unfolding moved_def only_records_def by blast
  moreover have "\<not> same_tx q row" if "q \<in> set (execution_submissions (mx_store s))" for q
    using assms(4) [OF that] by (simp add: same_tx_def)
  ultimately show ?thesis by blast
qed

theorem recorded_transactions_carry_signed_orders_witness:
  "\<exists>t. handle_batch_inner example_node example_tick (Some 77) [example_processed] (example_executor db_taken) = (Inr (), t)
     \<and> recorded_for example_node example_tick [example_processed] (vault_placed example_node) 77 (example_sub\<lparr>es_local_applied := True\<rparr>)"
proof -
  let ?dep = "\<lparr>dep_pools = [example_user], dep_assets = [], dep_deposits = []\<rparr>"
  obtain t where run: "handle_batch_inner example_node example_tick (Some 77) [example_processed] (example_executor db_taken) = (Inr (), t)"
    and subs: "execution_submissions (mx_store t) = [example_sub\<lparr>es_local_applied := True\<rparr>]" using example_run by blast
  have "execution_submissions (mx_store (example_executor db_taken)) = []"
    by (simp add: example_executor_def db_taken_def run_dbs db_admitted_def db_leased_def open_db_def)
  moreover have "restore_snapshots saved Map.empty = Map.empty" for saved by (simp add: restore_snapshots_def)
  then have "initialize_executor example_node ?dep open_lp_db open_db ''x'' = Inr (example_executor open_db)"
    by (simp add: initialize_executor_def rebuild_pool_states_def deployment_pools_def applied_operations_def operations_in_def open_lp_db_def
        latest_pool_states_def open_db_def example_executor_def example_node_def)
  from run_shared [OF run_init [OF this], of "new_registry [example_user]" db_taken]
  have "executor_run ([] :: (bytes, unit, unit, unit, unit, unit, unit) node list) (example_executor db_taken)" by (simp add: example_executor_def)
  ultimately show ?thesis
    using recorded_transactions_carry_signed_orders [OF _ run, of "[]" "example_sub\<lparr>es_local_applied := True\<rparr>"] run subs by simp
qed

end
