(* ===== verification/Server.thy ===== *)
theory Server
  imports Finality_Properties Processing_Properties Miden_Execution_Properties
begin

text \<open>
  The server as a whole: the processing engine, the execution worker and the finality observer share one
  execution store. Every operation of each is a run of the store's own steps and, for the engine, of the
  liquidity journal's, so that whatever order their events arrive in, the invariants of the stores hold
  at every moment.
\<close>

section \<open>The engine as a client of the stores\<close>

definition stores_run :: "('sg, 'pk) codec \<Rightarrow> nat \<Rightarrow> ('sg, 'pk) engine \<Rightarrow> ('sg, 'pk) engine \<Rightarrow> bool" where
  "stores_run cd limit s t \<longleftrightarrow> (exec_step cd limit)\<^sup>*\<^sup>* (en_store s) (en_store t) \<and> lp_step\<^sup>*\<^sup>* (en_lp_store s) (en_lp_store t)"

interpretation eng: state_order "stores_run cd limit" for cd limit
  by unfold_locales (auto simp: stores_run_def)

abbreviation runs :: "('sg, 'pk) codec \<Rightarrow> nat \<Rightarrow> (('sg, 'pk) engine \<Rightarrow> 'r \<times> ('sg, 'pk) engine) \<Rightarrow> bool" where
  "runs cd limit \<equiv> keeps (stores_run cd limit)"

lemma on_exec_runs: "(\<And>db. exec_step cd limit db (snd (f db))) \<Longrightarrow> runs cd limit (on_exec f)"
  by (auto simp: keeps_def on_exec_def stores_run_def split: prod.splits) (metis r_into_rtranclp snd_conv)

lemma on_lp_runs: "(\<And>db. lp_step db (snd (f db))) \<Longrightarrow> runs cd limit (on_lp f)"
  by (auto simp: keeps_def on_lp_def stores_run_def split: prod.splits) (metis r_into_rtranclp snd_conv)

lemma frame_runs: "(\<And>s. en_store (snd (m s)) = en_store s \<and> en_lp_store (snd (m s)) = en_lp_store s) \<Longrightarrow> runs cd limit m"
  by (simp add: keeps_def stores_run_def)

lemma runsD: "runs cd limit m \<Longrightarrow> stores_run cd limit s (snd (m s))"
  by (simp add: keeps_def)

lemma emit_stores [simp]: "en_store (emit out s) = en_store s" "en_lp_store (emit out s) = en_lp_store s"
  by (simp_all add: emit_def)

lemma stores_run_frame: "stores_run cd limit s u \<Longrightarrow> en_store t = en_store s \<Longrightarrow> en_lp_store t = en_lp_store s \<Longrightarrow> stores_run cd limit t u"
  by (simp add: stores_run_def)

lemma publish_update_runs: "runs cd limit (publish_order_update v upd)"
  unfolding publish_order_update_def
  by (rule eng.keeps_st_then)
    (auto simp: keeps_def eng.refl stores_run_def split: order_update.split sum.split
      intro!: runsD [OF on_exec_runs [OF exec_step.fail_claimed], unfolded stores_run_def, THEN conjunct1]
        runsD [OF on_exec_runs [OF exec_step.fail_claimed], unfolded stores_run_def, THEN conjunct2])

lemma fail_order_runs: "runs cd limit (fail_order v ord reason)"
  unfolding fail_order_def by (intro eng.keeps_st_then publish_update_runs eng.keeps_pure)

lemma resolve_pool_runs: "runs cd limit (resolve_user_pool v user)"
  by (rule frame_runs) (auto simp: resolve_user_pool_def split: option.split sum.split prod.split bool.split)

lemma balance_runs: "runs cd limit (balance_of v user faucet)"
proof -
  have f: "runs cd limit (fetch_balance_from_chain v user faucet)"
    unfolding keeps_def
  proof
    fix s
    have "runs cd limit (st_then (resolve_user_pool v user) (\<lambda>p s.
        (and_then (env_balance_storage v p faucet user) (\<lambda>(vault_storage, pool_storage).
         and_then (user_balance_details vault_storage pool_storage faucet user) (\<lambda>(_, available). Inr available)), s)))"
      by (intro eng.keeps_st_then resolve_pool_runs eng.keeps_pure)
    from runsD [OF this] show "stores_run cd limit s (snd (fetch_balance_from_chain v user faucet s))"
      by (simp add: fetch_balance_from_chain_def eng.refl)
  qed
  show ?thesis unfolding keeps_def
  proof
    fix s
    have "runs cd limit (st_then (fetch_balance_from_chain v user faucet) (\<lambda>b s.
        (Inr b, s\<lparr>user_balances := (user_balances s)((user, faucet) \<mapsto> b)\<rparr>)))"
      by (intro eng.keeps_st_then f frame_runs) simp
    from runsD [OF this] show "stores_run cd limit s (snd (balance_of v user faucet s))"
      by (simp add: balance_of_def eng.refl split: option.split)
  qed
qed

lemma settle_runs: "runs cd limit (settle_order v ord quote sell_balance buy_balance)"
  by (rule frame_runs) (simp add: settle_order_def Let_def split: option.split sum.split)

lemma process_order_runs: "runs cd limit (process_order v ord)"
  unfolding keeps_def
proof
  fix s
  let ?d = "order_details ord" and ?u = "order_user_id ord"
  obtain r1 s1 where 1: "balance_of v ?u (asset_in ?d) s = (r1, s1)" by fastforce
  obtain r2 s2 where 2: "balance_of v ?u (asset_out ?d) s1 = (r2, s2)" by fastforce
  have s1: "stores_run cd limit s s1" using keepsD [OF balance_runs 1] .
  have s2: "stores_run cd limit s s2" using eng.trans [OF s1 keepsD [OF balance_runs 2]] .
  have f: "stores_run cd limit s (snd (fail_order v ord reason u))" if "stores_run cd limit s u" for reason u
    using eng.trans [OF that runsD [OF fail_order_runs]] .
  have g: "stores_run cd limit s (snd (settle_order v ord quote a b s2))" for quote a b
    using eng.trans [OF s2 runsD [OF settle_runs]] .
  show "stores_run cd limit s (snd (process_order v ord s))"
    by (auto simp: process_order_def Let_def 1 2 intro: f g s1 s2 eng.refl split: sum.split)
qed

lemma process_each_runs: "runs cd limit (process_each v ords)"
proof (induction ords)
  case (Cons ord ords)
  have "runs cd limit (st_then (process_order v ord) (\<lambda>r. st_then (process_each v ords)
      (\<lambda>rest s. (Inr (case r of None \<Rightarrow> rest | Some x \<Rightarrow> x # rest), s))))"
    by (intro eng.keeps_st_then process_order_runs Cons eng.keeps_pure)
  then show ?case by (simp add: keeps_def)
qed (simp add: keeps_def eng.refl)

lemma publish_all_runs: "runs cd limit (publish_all v us)"
proof (induction us)
  case (Cons u us)
  have "runs cd limit (st_then (publish_order_update v u) (\<lambda>_. publish_all v us))"
    by (intro eng.keeps_st_then publish_update_runs Cons)
  then show ?case by (simp add: keeps_def)
qed (simp add: keeps_def eng.refl)

lemma process_orders_runs:
  assumes "rt_codec (env_runtime v) = cd" shows "runs cd limit (process_orders v batch)"
proof -
  have create: "runs cd limit (\<lambda>s. on_exec (create_execution_batch (rt_codec (env_runtime v)) (worker_id s) b ords swaps now) s)" for b ords swaps now
    unfolding keeps_def assms by (intro allI runsD on_exec_runs exec_step.create)
  show ?thesis unfolding process_orders_def Let_def
    by (intro eng.keeps_st_then publish_all_runs process_each_runs create frame_runs) simp
qed


lemma exec_step_run:
  assumes "exec_step cd limit (en_store s) db" "en_store t = db" "en_lp_store t = en_lp_store s"
  shows "stores_run cd limit s t"
  using assms by (auto simp: stores_run_def)

lemma persist_runs: "runs cd limit (persist_final_pool_states_if_ready v)"
  unfolding keeps_def
proof
  fix s
  have "stores_run cd limit s (s\<lparr>en_store := snd (save_pool_states (pool_states s) (env_now_ms v) (en_store s))\<rparr>)"
    by (rule exec_step_run [OF exec_step.save_pools]) simp_all
  then show "stores_run cd limit s (snd (persist_final_pool_states_if_ready v s))"
    by (auto simp: persist_final_pool_states_if_ready_def Let_def eng.refl stores_run_def split: sum.split)
qed

lemma handle_failed_run: "stores_run cd limit s (handle_failed v oid s)"
proof (cases "map_of (pending_swaps s) oid")
  case (Some p)
  have frame: "en_store (rollback_pending_swap p u) = en_store u" "en_lp_store (rollback_pending_swap p u) = en_lp_store u" for u
    by (simp_all add: rollback_pending_swap_def Let_def split: option.split)
  show ?thesis by (rule exec_step_run [OF exec_step.fail_swap]) (simp_all add: handle_failed_def Some Let_def frame)
qed (simp add: handle_failed_def eng.refl)

lemma handle_confirmed_run: "stores_run cd limit s (handle_confirmed v oid s)"
proof -
  have "en_store (snd (take_pending oid s)) = en_store s \<and> en_lp_store (snd (take_pending oid s)) = en_lp_store s"
    by (auto simp: take_pending_def apply_pending_swap_def Let_def split: option.split sum.split)
  then show ?thesis by (auto simp: handle_confirmed_def stores_run_def split: prod.split option.split)
qed

lemma acknowledge_runs: "runs cd limit (st_then (on_lp (apply_operation note_id n now)) (\<lambda>_ s. (Inr (), record_lp_analytics v ev n s)))"
  by (intro eng.keeps_st_then on_lp_runs lp_step.apply_op frame_runs) (simp add: record_lp_analytics_def)

lemma apply_lp_runs: "runs cd limit (apply_lp_chain_event v ev)"
  unfolding keeps_def
proof
  fix s
  let ?ack = "\<lambda>n. st_then (on_lp (apply_operation (lce_note_id ev) n (env_now_ms v))) (\<lambda>_ s. (Inr (), record_lp_analytics v ev n s))"
  have store: "runs cd limit (st_then (on_exec (save_lp_application (lce_note_id ev) (lce_faucet_id ev) n pools (env_now_ms v)))
      (\<lambda>inserted s.
         let s1 = (if inserted then s\<lparr>pool_states := pools, en_ledger := ledger\<rparr> else s);
             s2 = emit (OutPools (pool_states s1) (env_now_ms v)) s1
         in ?ack n s2))" for n pools ledger
  proof (intro eng.keeps_st_then on_exec_runs exec_step.save_lp)
    fix inserted
    show "runs cd limit (\<lambda>s. let s1 = (if inserted then s\<lparr>pool_states := pools, en_ledger := ledger\<rparr> else s);
             s2 = emit (OutPools (pool_states s1) (env_now_ms v)) s1 in ?ack n s2)"
      unfolding keeps_def Let_def by (auto intro!: stores_run_frame [OF runsD [OF acknowledge_runs]])
  qed
  show "stores_run cd limit s (snd (apply_lp_chain_event v ev s))"
    using runsD [OF acknowledge_runs, of cd limit s] runsD [OF store, of s]
    by (auto simp: apply_lp_chain_event_def Let_def eng.refl split: sum.split option.split prod.split)
qed

lemma recover_operations_runs: "runs cd limit (recover_operations v ops)"
proof (induction ops)
  case (Cons op ops)
  have a: "runs cd limit (st_then (on_lp (apply_operation m n now)) (\<lambda>_. recover_operations v ops))" for m n now
    by (intro eng.keeps_st_then on_lp_runs lp_step.apply_op Cons)
  have b: "runs cd limit (st_then (apply_lp_chain_event v ev) (\<lambda>_. recover_operations v ops))" for ev
    by (intro eng.keeps_st_then apply_lp_runs Cons)
  show ?case unfolding keeps_def
    using runsD [OF a] runsD [OF b] by (auto simp: eng.refl split: sum.split option.split)
qed (simp add: keeps_def eng.refl)

lemma recover_runs: "runs cd limit (recover_unapplied_lp_operations v)"
  unfolding keeps_def recover_unapplied_lp_operations_def
  using runsD [OF recover_operations_runs] by (auto simp: eng.refl split: sum.split)

lemma set_pending_runs: "runs cd limit (set_recovery_pending e)"
  by (rule frame_runs) (simp add: set_recovery_pending_def)

lemma retry_runs: "runs cd limit (retry_pending_lp_recovery v)"
  unfolding keeps_def
proof
  fix s
  have "runs cd limit (catch_error (recover_unapplied_lp_operations v) set_recovery_pending)"
    by (intro eng.keeps_catch recover_runs set_pending_runs)
  from runsD [OF this, of "s\<lparr>lp_recovery_pending := False\<rparr>"]
  show "stores_run cd limit s (snd (retry_pending_lp_recovery v s))"
    by (auto simp: retry_pending_lp_recovery_def eng.refl stores_run_def)
qed

lemma reload_stores [simp]:
  "en_store (reload_pool_states_from_store v s) = en_store s" "en_lp_store (reload_pool_states_from_store v s) = en_lp_store s"
  by (simp_all add: reload_pool_states_from_store_def Let_def split: sum.split)

lemma try_start_runs:
  assumes "rt_codec (env_runtime v) = cd" shows "runs cd limit (try_start_batch v)"
  unfolding keeps_def
proof
  fix s
  let ?s1 = "if pool_resync_required s then (reload_pool_states_from_store v s)\<lparr>pool_resync_required := False\<rparr> else s"
  let ?claim = "on_exec (claim_admitted_orders (env_runtime v) (worker_id ?s1) (env_now_ms v) 600000
                     (2 * max_orders_per_shard_tx (env_max_orders v)))"
  obtain r s2 where 2: "?claim ?s1 = (r, s2)" by fastforce
  have "runs cd limit ?claim" by (intro on_exec_runs exec_step.claim assms)
  from keepsD [OF this 2] have s2: "stores_run cd limit s s2" by (simp add: stores_run_def split: if_splits)
  have "runs cd limit (catch_error (process_orders v batch) (\<lambda>e s. (Inr (), s\<lparr>engine_busy := False\<rparr>)))" for batch
    by (intro eng.keeps_catch process_orders_runs assms frame_runs) simp
  from runsD [OF this] have "stores_run cd limit s (snd (catch_error (process_orders v batch) (\<lambda>e s. (Inr (), s\<lparr>engine_busy := False\<rparr>))
      (s2\<lparr>engine_busy := True, execution_finished := False\<rparr>)))" for batch
    using eng.trans [OF s2 stores_run_frame [where t = s2 and s = "s2\<lparr>engine_busy := True, execution_finished := False\<rparr>"]] by simp
  then show "stores_run cd limit s (snd (try_start_batch v s))"
    using s2 2 by (auto simp: try_start_batch_def Let_def eng.refl split: sum.split list.split)
qed


lemma start_after_runs:
  assumes "rt_codec (env_runtime v) = cd" "\<And>s. en_store (f s) = en_store s \<and> en_lp_store (f s) = en_lp_store s"
  shows "runs cd limit (\<lambda>s. try_start_batch v (f s))"
  unfolding keeps_def
proof
  fix s
  show "stores_run cd limit s (snd (try_start_batch v (f s)))"
    by (rule stores_run_frame [OF runsD [OF try_start_runs [OF assms(1)]]]) (simp_all add: assms(2))
qed

lemma handle_order_runs:
  assumes "rt_codec (env_runtime v) = cd" shows "runs cd limit (handle_order v upd)"
  unfolding keeps_def
proof
  fix s
  let ?s1 = "case upd of UConfirmed ord \<Rightarrow> handle_confirmed v (order_id ord) s | UFailed ord \<Rightarrow> handle_failed v (order_id ord) s | _ \<Rightarrow> s"
  have s1: "stores_run cd limit s ?s1"
    by (simp add: handle_confirmed_run handle_failed_run eng.refl split: order_update.split)
  have "runs cd limit (\<lambda>s. case upd of UNew _ \<Rightarrow> try_start_batch v s | _ \<Rightarrow> (Inr (), s))"
    using runsD [OF try_start_runs [OF assms]] by (simp add: keeps_def eng.refl split: order_update.split)
  then have "runs cd limit (st_then (persist_final_pool_states_if_ready v) (\<lambda>_ s. case upd of UNew _ \<Rightarrow> try_start_batch v s | _ \<Rightarrow> (Inr (), s)))"
    by (intro eng.keeps_st_then persist_runs)
  from eng.trans [OF s1 stores_run_frame [OF runsD [OF this, of "?s1\<lparr>en_orders := apply_order_update (en_orders ?s1) upd\<rparr>"]]]
  show "stores_run cd limit s (snd (handle_order v upd s))" by (simp add: handle_order_def Let_def)
qed

lemma handle_amm_runs:
  assumes "rt_codec (env_runtime v) = cd" shows "runs cd limit (handle_amm v ev)"
proof -
  have e: "runs cd limit (st_then (persist_final_pool_states_if_ready v) (\<lambda>_ s.
       if engine_busy s then try_start_batch v (s\<lparr>engine_busy := False\<rparr>) else (Inr (), s)))"
    using runsD [OF start_after_runs [OF assms, of "\<lambda>s. s\<lparr>engine_busy := False\<rparr>" limit]]
    by (intro eng.keeps_st_then persist_runs) (simp add: keeps_def eng.refl)
  show ?thesis
  proof (cases ev)
    case BatchSubmitted
    then show ?thesis using start_after_runs [OF assms, of "\<lambda>s. s\<lparr>engine_busy := False\<rparr>" limit] by (simp add: keeps_def)
  next
    case BatchFailed
    then show ?thesis
      using start_after_runs [OF assms, of "\<lambda>s. (reload_pool_states_from_store v (s\<lparr>pool_resync_required := True, engine_busy := True\<rparr>))
        \<lparr>pool_resync_required := False, engine_busy := False\<rparr>" limit] by (simp add: keeps_def Let_def)
  next
    case OrdersExecuted
    have "stores_run cd limit s (snd (handle_amm v OrdersExecuted s))" for s
      unfolding handle_amm.simps by (rule stores_run_frame [OF runsD [OF e]]) simp_all
    with OrdersExecuted show ?thesis by (simp add: keeps_def)
  qed (simp_all add: keeps_def eng.refl)
qed

lemma handle_oracle_stores: "en_store (handle_oracle_price v ev s) = en_store s \<and> en_lp_store (handle_oracle_price v ev s) = en_lp_store s"
  by (simp add: handle_oracle_price_def Let_def split: option.split prod.split)

lemma then_retry_run:
  assumes "en_store (f s) = en_store s \<and> en_lp_store (f s) = en_lp_store s"
  shows "stores_run cd limit s (snd (st_then (\<lambda>s. (Inr (), f s)) (\<lambda>_. retry_pending_lp_recovery v) s))"
  using stores_run_frame [OF runsD [OF retry_runs, of cd limit "f s"], of s] assms by (simp add: st_then_def)

lemma handle_event_runs:
  assumes "rt_codec (env_runtime v) = cd" shows "runs cd limit (handle_event v ev)"
proof (cases ev)
  case (EvLpChain e)
  have "runs cd limit (st_then (catch_error (recover_unapplied_lp_operations v) set_recovery_pending) (\<lambda>_. retry_pending_lp_recovery v))"
    by (intro eng.keeps_st_then eng.keeps_catch recover_runs set_pending_runs retry_runs)
  from runsD [OF this] show ?thesis by (auto simp: keeps_def EvLpChain handle_event_def stores_run_def)
next
  case (EvOrder upd)
  have "runs cd limit (st_then (handle_order v upd) (\<lambda>_. retry_pending_lp_recovery v))"
    by (intro eng.keeps_st_then handle_order_runs assms retry_runs)
  then show ?thesis by (simp add: keeps_def EvOrder handle_event_def)
next
  case (EvAmm a)
  have "runs cd limit (st_then (handle_amm v a) (\<lambda>_. retry_pending_lp_recovery v))"
    by (intro eng.keeps_st_then handle_amm_runs assms retry_runs)
  then show ?thesis by (simp add: keeps_def EvAmm handle_event_def)
qed (simp_all add: keeps_def handle_event_def handle_oracle_stores Let_def then_retry_run)

lemma engine_step_runs:
  assumes "rt_codec (env_runtime v) = cd" shows "runs cd limit (engine_step v inp)"
proof (cases inp)
  case LaggedLp
  have "runs cd limit (st_then (catch_error (recover_unapplied_lp_operations v) (\<lambda>_ s. (Inr (), s))) (\<lambda>_ s. (Inr True, s)))"
    by (intro eng.keeps_st_then eng.keeps_catch recover_runs eng.keeps_pure)
  from runsD [OF this] show ?thesis by (auto simp: keeps_def engine_step_def LaggedLp stores_run_def)
next
  case LaggedFees
  then show ?thesis by (auto simp: engine_step_def intro!: frame_runs split: sum.split)
qed (auto simp: engine_step_def intro!: eng.keeps_st_then try_start_runs handle_event_runs assms eng.keeps_pure eng.keeps_Pair)

section \<open>The whole server\<close>

text \<open>The engine, the execution worker and the observer hold the same store; the API and the startup
  recovery take steps of the store on their own. A component that panics takes no further step, which is
  no restriction here: its last step counts. Transaction updates, requests, proofs and the like are represented by their bytes.\<close>

record ('sg, 'pk, 'cl) server =
  sv_store :: execution_db
  sv_engine :: "('sg, 'pk) engine"
  sv_executor :: "('sg, 'pk, 'cl) executor"
  sv_observer :: "('sg, 'pk, 'cl) observer"

inductive server_step :: "('sg, 'pk) codec \<Rightarrow> nat \<Rightarrow> ('sg, 'pk, 'cl) server \<Rightarrow> ('sg, 'pk, 'cl) server \<Rightarrow> bool" for cd limit where
  engine_turn: "rt_codec (env_runtime v) = cd \<Longrightarrow> engine_step v inp ((sv_engine s)\<lparr>en_store := sv_store s\<rparr>) = (r, e)
    \<Longrightarrow> server_step cd limit s (s\<lparr>sv_store := en_store e, sv_engine := e\<rparr>)"
| executor_turn: "rt_codec (tk_runtime tk) = cd
    \<Longrightarrow> executor_step (nd :: ('sg, bytes, 'cl, string, bytes, bytes, bytes) node) tk inp ((sv_executor s)\<lparr>mx_store := sv_store s\<rparr>) = (r, x)
    \<Longrightarrow> server_step cd limit s (s\<lparr>sv_store := mx_store x, sv_executor := x\<rparr>)"
| observer_turn: "rt_codec rt = cd \<Longrightarrow> observer_step (ch :: ('cl, bytes) chain) rt now inp ((sv_observer s)\<lparr>fo_store := sv_store s\<rparr>) = (r, ob)
    \<Longrightarrow> server_step cd limit s (s\<lparr>sv_store := fo_store ob, sv_observer := ob\<rparr>)"
| store_turn: "exec_step cd limit (sv_store s) db \<Longrightarrow> server_step cd limit s (s\<lparr>sv_store := db\<rparr>)"
| journal_turn: "lp_step (en_lp_store (sv_engine s)) db \<Longrightarrow> server_step cd limit s (s\<lparr>sv_engine := (sv_engine s)\<lparr>en_lp_store := db\<rparr>\<rparr>)"

definition server_start :: "('sg, 'pk, 'cl) server \<Rightarrow> bool" where
  "server_start s \<longleftrightarrow> sv_store s = open_db \<and> en_lp_store (sv_engine s) = open_lp_db"

lemma server_step_runs:
  assumes "server_step cd limit s t"
  shows "(exec_step cd limit)\<^sup>*\<^sup>* (sv_store s) (sv_store t) \<and> lp_step\<^sup>*\<^sup>* (en_lp_store (sv_engine s)) (en_lp_store (sv_engine t))"
  using assms
proof cases
  case (engine_turn v inp r e)
  show ?thesis using keepsD [OF engine_step_runs [OF engine_turn(2)] engine_turn(3), of limit] engine_turn(1) by (simp add: stores_run_def)
next
  case (executor_turn tk nd inp r x)
  show ?thesis using executor_step_run [OF executor_turn(3), of limit] executor_turn(1,2) by simp
next
  case (observer_turn rt ch now inp r ob)
  show ?thesis
    using observer_step_run [of cd limit "(sv_observer s)\<lparr>fo_store := sv_store s\<rparr>" ch rt now inp] observer_turn(1,3) by simp
qed (auto)

lemma server_reachable_stores:
  "reachable server_start (server_step cd limit) s \<Longrightarrow> exec_reachable cd limit (sv_store s) \<and> lp_reachable (en_lp_store (sv_engine s))"
proof (induction rule: reachable.induct)
  case (start s)
  then show ?case by (simp add: server_start_def reachable.start)
next
  case (next_state s t)
  have ex: "exec_reachable cd limit db'" if "(exec_step cd limit)\<^sup>*\<^sup>* db db'" "exec_reachable cd limit db" for db db'
    using that by (induction rule: rtranclp_induct) (auto intro: reachable.next_state)
  have lp: "lp_reachable db'" if "lp_step\<^sup>*\<^sup>* db db'" "lp_reachable db" for db db'
    using that by (induction rule: rtranclp_induct) (auto intro: reachable.next_state)
  show ?case using server_step_runs [OF next_state(2)] next_state(3) ex lp by blast
qed

text \<open>
  C1: however the events interleave, the stores stay consistent. In every state the server can reach, with
  any interleaving of messages to the engine, batches of the execution worker, polls of the observer, requests
  to the API and startup recovery, and whatever the Miden node answers, the execution store satisfies its invariant (unique
  orders, at most one pending and one claimed batch, terminal batches with only terminal orders, every
  order reserved, nonces leased once, the queue within its limit), submissions have unique hashes and the
  liquidity journal its own; and every further step moves orders only along their lifecycle.
\<close>

theorem server_stores_consistent:
  assumes "reachable server_start (server_step cd limit) s"
  shows "store_inv cd limit (sv_store s) \<and> hashes_unique (sv_store s) \<and> lp_inv (en_lp_store (sv_engine s))
    \<and> (\<forall>t. server_step cd limit s t \<longrightarrow> store_extends (sv_store s) (sv_store t))"
proof -
  have r: "exec_reachable cd limit (sv_store s)" "lp_reachable (en_lp_store (sv_engine s))"
    using server_reachable_stores [OF assms] by auto
  have inv: "store_inv cd limit (sv_store s)" using r(1) by (rule exec.reachable_inv)
  have "store_extends (sv_store s) (sv_store t)" if "server_step cd limit s t" for t
    using exec_steps_extend [OF conjunct1 [OF server_step_runs [OF that]] inv] by simp
  then show ?thesis using inv exec_subs.reachable_inv [OF r(1)] lps.reachable_inv [OF r(2)] by simp
qed

definition example_server :: "execution_db \<Rightarrow> (bytes, bytes, unit) server" where
  "example_server db = \<lparr>sv_store = db, sv_engine = example_engine, sv_executor = example_executor open_db, sv_observer = example_observer open_db\<rparr>"

text \<open>A user has leased a nonce and the API has admitted the order that spends it.\<close>

theorem server_stores_consistent_witness:
  "store_inv example_codec 1 (sv_store (example_server db_admitted)) \<and> length (durable_orders (sv_store (example_server db_admitted))) = 1"
proof -
  have start: "reachable server_start (server_step example_codec 1) (example_server open_db)"
    by (intro reachable.start) (simp add: server_start_def example_server_def example_engine_def)
  have lease: "server_step example_codec 1 (example_server open_db) (example_server db_leased)"
    using server_step.store_turn [OF exec_step.lease [of example_codec 1 _ example_user 5 1000], of "example_server open_db"]
    by (simp add: example_server_def run_lease)
  have admit: "server_step example_codec 1 (example_server db_leased) (example_server db_admitted)"
    using server_step.store_turn [OF exec_step.admit [of example_codec 1 _ example_cid "''c''" example_order 1001], of "example_server db_leased"]
    by (simp add: example_server_def run_admit del: One_nat_def)
  from server_stores_consistent [OF reachable.next_state [OF reachable.next_state [OF start lease] admit]]
  show ?thesis by (simp add: example_server_def db_admitted_def)
qed

end
