(* ===== verification/Auth_Store.thy ===== *)
theory Auth_Store
  imports Nonce_Window Intent
begin

text \<open>
  Wallet challenges and bearer sessions (\<open>src/src/auth.rs\<close>) and the scoped credentials of services
  (\<open>src/src/service_auth.rs\<close>). A user proves possession of the key registered on the vault by signing a
  challenge; a challenge is consumed by the session it opens. Keys, signatures, the hash and the base-64
  encoding are library code, the fields of \<open>wallet\<close>; random bytes are arguments. Account identifiers are
  stored as themselves (the code stores their hexadecimal text).
\<close>

section \<open>Types\<close>

datatype auth_error =
    Configuration string
  | StorageError string
  | ChallengeNotFound
  | ChallengeExpired
  | ChallengeConsumed
  | WrongBinding
  | UnsupportedKeyScheme
  | InvalidSignature
  | InvalidTimestamp
  | HashPanic

text \<open>\<open>HashPanic\<close> stands for the panic on a value that is no field element.\<close>

definition auth_error_text :: "auth_error \<Rightarrow> string" where
  "auth_error_text e =
     (case e of
        Configuration message \<Rightarrow> ''invalid auth configuration: '' @ message
      | StorageError message \<Rightarrow> ''auth storage error: '' @ message
      | ChallengeNotFound \<Rightarrow> ''challenge not found''
      | ChallengeExpired \<Rightarrow> ''challenge expired''
      | ChallengeConsumed \<Rightarrow> ''challenge already consumed''
      | WrongBinding \<Rightarrow> ''challenge, user, or public-key binding is wrong''
      | UnsupportedKeyScheme \<Rightarrow> ''only ECDSA k256-keccak wallet keys are accepted''
      | InvalidSignature \<Rightarrow> ''invalid challenge signature''
      | InvalidTimestamp \<Rightarrow> ''timestamp exceeds supported range''
      | HashPanic \<Rightarrow> ''canonical limbs fit in a Felt'')"

text \<open>The \<open>?\<close> operator in a closure that returns \<open>anyhow::Result\<close>.\<close>

definition from_auth :: "auth_error + 'a \<Rightarrow> 'a result" where
  "from_auth r =
     (case r of
        Inl HashPanic \<Rightarrow> Inl (Panic UnwrapFailed)
      | Inl e \<Rightarrow> Inl (Anyhow (auth_error_text e))
      | Inr v \<Rightarrow> Inr v)"

record auth_config =
  cfg_domain :: string
  cfg_network :: string
  challenge_ttl_secs :: u64
  session_ttl_secs :: u64

definition new_auth_config :: "string \<Rightarrow> string \<Rightarrow> u64 \<Rightarrow> u64 \<Rightarrow> auth_error + auth_config" where
  "new_auth_config domain_name network_name challenge_ttl session_ttl =
     (if domain_name = [] \<or> network_name = [] then Inl (Configuration ''auth domain and network must not be empty'')
      else if challenge_ttl = 0 \<or> session_ttl = 0 then Inl (Configuration ''challenge and session TTLs must be non-zero'')
      else Inr \<lparr>cfg_domain = domain_name, cfg_network = network_name, challenge_ttl_secs = challenge_ttl, session_ttl_secs = session_ttl\<rparr>)"

record auth_challenge =
  chal_id :: string
  chal_nonce :: bytes
  chal_user_id :: account_id
  chal_commitment :: storage_word
  chal_issued_at :: u64
  chal_expires_at :: u64
  chal_message :: storage_word

record auth_session =
  ses_user_id :: account_id
  ses_commitment :: storage_word
  ses_created_at :: u64
  ses_expires_at :: u64

record new_session =
  bearer_token :: string
  new_session :: auth_session

record ('pk, 'sg) wallet =
  wl_ecdsa_key :: "'pk \<Rightarrow> bool"
  wl_ecdsa_signature :: "'sg \<Rightarrow> bool"
  wl_commitment :: "'pk \<Rightarrow> storage_word"
  wl_verify :: "'pk \<Rightarrow> storage_word \<Rightarrow> 'sg \<Rightarrow> bool"
  wl_hash_elements :: "u64 list \<Rightarrow> storage_word"
  wl_encode :: "bytes \<Rightarrow> string"

record challenge_row =
  cr_challenge_id :: string
  cr_nonce :: bytes
  cr_user_id :: account_id
  cr_vault_commitment :: bytes
  cr_issued_at :: int
  cr_expires_at :: int
  cr_consumed_at :: "int option"

record session_row =
  sr_token_commitment :: bytes
  sr_user_id :: account_id
  sr_vault_commitment :: bytes
  sr_created_at :: int
  sr_expires_at :: int
  sr_revoked_at :: "int option"

record auth_db =
  auth_challenges :: "challenge_row list"
  auth_sessions :: "session_row list"

definition open_auth_db :: auth_db where
  "open_auth_db = \<lparr>auth_challenges = [], auth_sessions = []\<rparr>"

section \<open>Encodings\<close>

definition CHALLENGE_PURPOSE :: u64 where
  "CHALLENGE_PURPOSE = 0x4d5a4b4541555448"

definition TOKEN_PURPOSE :: u64 where
  "TOKEN_PURPOSE = 0x4d5a4b4553455353"

fun chunks_of_seven :: "bytes \<Rightarrow> bytes list" where
  "chunks_of_seven [] = []"
| "chunks_of_seven (b # bs) = take 7 (b # bs) # chunks_of_seven (drop 7 (b # bs))"

definition le_limb :: "bytes \<Rightarrow> u64" where
  "le_limb chunk = from_be_bytes (rev (chunk @ replicate (8 - length chunk) 0))"

definition push_bytes :: "bytes \<Rightarrow> u64 list" where
  "push_bytes bs = of_nat (length bs) # map le_limb (chunks_of_seven bs)"

definition word_felts :: "storage_word \<Rightarrow> u64 list" where
  "word_felts = (\<lambda>(e0, e1, e2, e3). [e0, e1, e2, e3])"

definition hash_felts :: "('pk, 'sg) wallet \<Rightarrow> u64 list \<Rightarrow> auth_error + storage_word" where
  "hash_felts w felts = (if felts_valid felts then Inr (wl_hash_elements w felts) else Inl HashPanic)"

definition challenge_felts :: "auth_config \<Rightarrow> account_id \<Rightarrow> storage_word \<Rightarrow> bytes \<Rightarrow> u64 \<Rightarrow> u64 \<Rightarrow> u64 list" where
  "challenge_felts cfg user vc nonce iss exp =
     [CHALLENGE_PURPOSE] @ push_bytes (ascii (cfg_domain cfg)) @ push_bytes (ascii (cfg_network cfg))
     @ [suffix user, prefix user] @ word_felts vc @ push_bytes nonce @ [iss, exp]"

definition challenge_word ::
  "('pk, 'sg) wallet \<Rightarrow> auth_config \<Rightarrow> account_id \<Rightarrow> storage_word \<Rightarrow> bytes \<Rightarrow> u64 \<Rightarrow> u64 \<Rightarrow> auth_error + storage_word" where
  "challenge_word w cfg user vc nonce iss exp = hash_felts w (challenge_felts cfg user vc nonce iss exp)"

definition token_commitment :: "('pk, 'sg) wallet \<Rightarrow> string \<Rightarrow> auth_error + storage_word" where
  "token_commitment w token = hash_felts w (TOKEN_PURPOSE # push_bytes (ascii token))"

definition word_bytes :: "storage_word \<Rightarrow> bytes" where
  "word_bytes vc = concat (map (\<lambda>e. rev (be_bytes e)) (word_felts vc))"

definition le_felt :: "bytes \<Rightarrow> auth_error + u64" where
  "le_felt bs =
     (let limb = from_be_bytes (rev bs)
      in if limb < FELT_MODULUS then Inr limb else Inl (StorageError ''invalid stored field element''))"

definition bytes_word :: "bytes \<Rightarrow> auth_error + storage_word" where
  "bytes_word bs =
     (if length bs \<noteq> 32 then Inl (StorageError ''invalid stored Word length'')
      else and_then (le_felt (take 8 bs)) (\<lambda>e0.
           and_then (le_felt (take 8 (drop 8 bs))) (\<lambda>e1.
           and_then (le_felt (take 8 (drop 16 bs))) (\<lambda>e2.
           and_then (le_felt (take 8 (drop 24 bs))) (\<lambda>e3. Inr (e0, e1, e2, e3))))))"

definition timestamp :: "u64 \<Rightarrow> auth_error + int" where
  "timestamp v = (if uint v < 2 ^ 63 then Inr (uint v) else Inl InvalidTimestamp)"

definition from_sql :: "string \<Rightarrow> int \<Rightarrow> auth_error + u64" where
  "from_sql msg v = (if 0 \<le> v then Inr (word_of_int v) else Inl (StorageError msg))"

section \<open>Operations\<close>

definition issue_challenge ::
  "('pk, 'sg) wallet \<Rightarrow> auth_config \<Rightarrow> account_id \<Rightarrow> storage_word \<Rightarrow> u64 \<Rightarrow> bytes \<Rightarrow> bytes \<Rightarrow> auth_db
     \<Rightarrow> (auth_error + auth_challenge) \<times> auth_db" where
  "issue_challenge w cfg user vc now nonce id_bytes db =
     (case and_then (ok_or (checked_add now (challenge_ttl_secs cfg)) InvalidTimestamp) (\<lambda>exp.
           and_then (challenge_word w cfg user vc nonce now exp) (\<lambda>msg.
           and_then (timestamp now) (\<lambda>t.
           and_then (timestamp exp) (\<lambda>texp.
           let cid = wl_encode w id_bytes
           in if sql_exists (\<lambda>r. cr_challenge_id r = cid) (auth_challenges db)
              then Inl (StorageError ''UNIQUE constraint failed: auth_challenges.challenge_id'')
              else Inr (\<lparr>chal_id = cid, chal_nonce = nonce, chal_user_id = user, chal_commitment = vc,
                          chal_issued_at = now, chal_expires_at = exp, chal_message = msg\<rparr>,
                        db\<lparr>auth_challenges := auth_challenges db @
                             [\<lparr>cr_challenge_id = cid, cr_nonce = nonce, cr_user_id = user, cr_vault_commitment = word_bytes vc,
                               cr_issued_at = t, cr_expires_at = texp, cr_consumed_at = None\<rparr>]\<rparr>))))) of
        Inl e \<Rightarrow> (Inl e, db)
      | Inr (ch, db') \<Rightarrow> (Inr ch, db'))"

text \<open>The body of the transaction; an error rolls it back.\<close>

definition authenticate_tx ::
  "('pk, 'sg) wallet \<Rightarrow> auth_config \<Rightarrow> string \<Rightarrow> account_id \<Rightarrow> storage_word \<Rightarrow> 'pk \<Rightarrow> 'sg \<Rightarrow> u64 \<Rightarrow> bytes \<Rightarrow> auth_db
     \<Rightarrow> auth_error + new_session \<times> auth_db" where
  "authenticate_tx w cfg cid user vc pk sg now token_bytes db =
     and_then (ok_or (find (\<lambda>r. cr_challenge_id r = cid) (auth_challenges db)) ChallengeNotFound) (\<lambda>stored.
     if cr_consumed_at stored \<noteq> None then Inl ChallengeConsumed
     else and_then (timestamp now) (\<lambda>t.
     if cr_expires_at stored < t then Inl ChallengeExpired
     else if cr_user_id stored \<noteq> user \<or> cr_vault_commitment stored \<noteq> word_bytes vc then Inl WrongBinding
     else if length (cr_nonce stored) \<noteq> 32 then Inl (StorageError ''invalid stored challenge nonce'')
     else and_then (from_sql ''negative issued_at'' (cr_issued_at stored)) (\<lambda>iss.
          and_then (from_sql ''negative expires_at'' (cr_expires_at stored)) (\<lambda>exp.
          and_then (challenge_word w cfg user vc (cr_nonce stored) iss exp) (\<lambda>msg.
     if \<not> wl_verify w pk msg sg then Inl InvalidSignature
     else
       let P = (\<lambda>r. cr_challenge_id r = cid \<and> cr_consumed_at r = None \<and> t \<le> cr_expires_at r);
           changed = sql_count P (auth_challenges db);
           db1 = db\<lparr>auth_challenges := sql_update P (\<lambda>r. r\<lparr>cr_consumed_at := Some t\<rparr>) (auth_challenges db)\<rparr>
       in if changed \<noteq> 1 then Inl ChallengeConsumed
          else and_then (ok_or (checked_add now (session_ttl_secs cfg)) InvalidTimestamp) (\<lambda>sexp.
               let token = wl_encode w token_bytes
               in and_then (token_commitment w token) (\<lambda>tc.
                  and_then (timestamp sexp) (\<lambda>tsexp.
                    if sql_exists (\<lambda>r. sr_token_commitment r = word_bytes tc) (auth_sessions db1)
                    then Inl (StorageError ''UNIQUE constraint failed: auth_sessions.token_commitment'')
                    else Inr (\<lparr>bearer_token = token,
                               new_session = \<lparr>ses_user_id = user, ses_commitment = vc, ses_created_at = now, ses_expires_at = sexp\<rparr>\<rparr>,
                              db1\<lparr>auth_sessions := auth_sessions db1 @
                                    [\<lparr>sr_token_commitment = word_bytes tc, sr_user_id = user, sr_vault_commitment = word_bytes vc,
                                      sr_created_at = t, sr_expires_at = tsexp, sr_revoked_at = None\<rparr>]\<rparr>)))))))))"

definition authenticate ::
  "('pk, 'sg) wallet \<Rightarrow> auth_config \<Rightarrow> string \<Rightarrow> account_id \<Rightarrow> storage_word \<Rightarrow> 'pk \<Rightarrow> 'sg \<Rightarrow> u64 \<Rightarrow> bytes \<Rightarrow> auth_db
     \<Rightarrow> (auth_error + new_session) \<times> auth_db" where
  "authenticate w cfg cid user vc pk sg now token_bytes db =
     (if \<not> wl_ecdsa_key w pk \<or> \<not> wl_ecdsa_signature w sg then (Inl UnsupportedKeyScheme, db)
      else if wl_commitment w pk \<noteq> vc then (Inl WrongBinding, db)
      else case authenticate_tx w cfg cid user vc pk sg now token_bytes db of
             Inl e \<Rightarrow> (Inl e, db)
           | Inr (ns, db') \<Rightarrow> (Inr ns, db'))"

definition lookup_session :: "('pk, 'sg) wallet \<Rightarrow> string \<Rightarrow> u64 \<Rightarrow> auth_db \<Rightarrow> auth_error + auth_session option" where
  "lookup_session w token now db =
     and_then (token_commitment w token) (\<lambda>tc.
     and_then (timestamp now) (\<lambda>t.
     case find (\<lambda>r. sr_token_commitment r = word_bytes tc \<and> sr_revoked_at r = None \<and> t \<le> sr_expires_at r) (auth_sessions db) of
       None \<Rightarrow> Inr None
     | Some r \<Rightarrow>
         and_then (bytes_word (sr_vault_commitment r)) (\<lambda>vc.
         and_then (from_sql ''negative created_at'' (sr_created_at r)) (\<lambda>created.
         and_then (from_sql ''negative expires_at'' (sr_expires_at r)) (\<lambda>exp.
           Inr (Some \<lparr>ses_user_id = sr_user_id r, ses_commitment = vc, ses_created_at = created, ses_expires_at = exp\<rparr>))))))"

definition revoke_session :: "('pk, 'sg) wallet \<Rightarrow> string \<Rightarrow> u64 \<Rightarrow> auth_db \<Rightarrow> (auth_error + bool) \<times> auth_db" where
  "revoke_session w token now db =
     (case and_then (token_commitment w token) (\<lambda>tc. and_then (timestamp now) (\<lambda>t.
             Inr (\<lambda>r. sr_token_commitment r = word_bytes tc \<and> sr_revoked_at r = None, t))) of
        Inl e \<Rightarrow> (Inl e, db)
      | Inr (P, t) \<Rightarrow>
          (Inr (sql_count P (auth_sessions db) = 1),
           db\<lparr>auth_sessions := sql_update P (\<lambda>r. r\<lparr>sr_revoked_at := Some t\<rparr>) (auth_sessions db)\<rparr>))"

definition dead_challenge :: "int \<Rightarrow> challenge_row \<Rightarrow> bool" where
  "dead_challenge t r \<longleftrightarrow> cr_expires_at r < t \<or> cr_consumed_at r \<noteq> None"

definition dead_session :: "int \<Rightarrow> session_row \<Rightarrow> bool" where
  "dead_session t r \<longleftrightarrow> sr_expires_at r < t \<or> sr_revoked_at r \<noteq> None"

definition purge :: "u64 \<Rightarrow> auth_db \<Rightarrow> (auth_error + nat) \<times> auth_db" where
  "purge now db =
     (case timestamp now of
        Inl e \<Rightarrow> (Inl e, db)
      | Inr t \<Rightarrow>
          (Inr (sql_count (dead_challenge t) (auth_challenges db) + sql_count (dead_session t) (auth_sessions db)),
           \<lparr>auth_challenges = filter (\<lambda>r. \<not> dead_challenge t r) (auth_challenges db),
            auth_sessions = filter (\<lambda>r. \<not> dead_session t r) (auth_sessions db)\<rparr>))"

section \<open>Bearer headers\<close>

text \<open>The value of an \<open>Authorization\<close> header, when there is one that is text.\<close>

datatype bearer_parse_error = BearerMissing | BearerInvalid

datatype header_value = NoHeader | NotText | HeaderText string

definition ascii_whitespace :: "char \<Rightarrow> bool" where
  "ascii_whitespace x \<longleftrightarrow> x \<in> {CHR 0x20, CHR 0x09, CHR 0x0A, CHR 0x0C, CHR 0x0D}"

function split_ascii_whitespace :: "string \<Rightarrow> string list" where
  "split_ascii_whitespace [] = []"
| "split_ascii_whitespace (x # xs) =
     (if ascii_whitespace x then split_ascii_whitespace xs
      else (x # takeWhile (\<lambda>y. \<not> ascii_whitespace y) xs)
           # split_ascii_whitespace (dropWhile (\<lambda>y. \<not> ascii_whitespace y) xs))"
  by pat_completeness auto

termination split_ascii_whitespace
  by (relation "measure length") (auto simp: le_imp_less_Suc length_dropWhile_le)

definition ascii_lower :: "char \<Rightarrow> char" where
  "ascii_lower x = (let n = of_char x :: nat in if 65 \<le> n \<and> n \<le> 90 then char_of (n + 32) else x)"

definition parse_bearer :: "header_value \<Rightarrow> bearer_parse_error + string" where
  "parse_bearer h =
     (case h of
        NoHeader \<Rightarrow> Inl BearerMissing
      | NotText \<Rightarrow> Inl BearerInvalid
      | HeaderText value \<Rightarrow>
          (case split_ascii_whitespace value of
             [scheme, token] \<Rightarrow> if map ascii_lower scheme \<noteq> ''bearer'' then Inl BearerInvalid else Inr token
           | _ \<Rightarrow> Inl BearerInvalid))"

section \<open>Service credentials\<close>

record service_credentials =
  sc_primary :: string
  sc_next :: "string option"

definition blank :: "string \<Rightarrow> bool" where
  "blank s \<longleftrightarrow> list_all (\<lambda>x. ascii_whitespace x \<or> x = CHR 0x0B) s"

definition new_service_credentials :: "string \<Rightarrow> string option \<Rightarrow> service_credentials result" where
  "new_service_credentials prim nxt =
     (if blank prim then Inl (Anyhow ''primary credential must not be empty'')
      else if (case nxt of None \<Rightarrow> False | Some v \<Rightarrow> blank v)
      then Inl (Anyhow ''next credential must not be empty when configured'')
      else Inr \<lparr>sc_primary = prim, sc_next = nxt\<rparr>)"

definition service_bearer :: "header_value \<Rightarrow> string option" where
  "service_bearer h =
     (case h of
        HeaderText value \<Rightarrow>
          if take 7 value = ''Bearer '' \<and> drop 7 value \<noteq> [] then Some (drop 7 value) else None
      | _ \<Rightarrow> None)"

text \<open>Bytes and lengths differ in no position: the loop runs over the longer text whatever it finds.\<close>

definition byte_at :: "bytes \<Rightarrow> nat \<Rightarrow> u8" where
  "byte_at bs i = (if i < length bs then bs ! i else 0)"

definition constant_time_eq :: "string \<Rightarrow> string \<Rightarrow> bool" where
  "constant_time_eq candidate expected =
     (let a = ascii candidate; b = ascii expected;
          difference = foldl (\<lambda>d i. d OR unat (byte_at a i XOR byte_at b i)) (length a XOR length b)
                         [0..<max (length a) (length b)]
      in difference = 0)"

definition authorizes :: "service_credentials \<Rightarrow> header_value \<Rightarrow> bool" where
  "authorizes sc h =
     (case service_bearer h of
        None \<Rightarrow> False
      | Some candidate \<Rightarrow>
          constant_time_eq candidate (sc_primary sc)
          \<or> (case sc_next sc of None \<Rightarrow> False | Some nxt \<Rightarrow> constant_time_eq candidate nxt))"

end
