(* ===== verification/Auth_Properties.thy ===== *)
theory Auth_Properties
  imports Auth_Store
begin

text \<open>
  What wallet authentication promises: the field elements a wallet signs determine the login they were
  issued for and are never those of a swap order, every login is justified by a challenge that
  nothing else used, a session is found under its token until it expires or is revoked, and service
  credentials are accepted exactly when they are equal to a configured one.
\<close>

section \<open>Self-delimiting encodings\<close>

text \<open>A code whose words can be told apart in front of any continuation.\<close>

locale prefix_code =
  fixes enc :: "'a \<Rightarrow> u64 list" and ok :: "'a \<Rightarrow> bool"
  assumes delimits: "ok a \<Longrightarrow> ok b \<Longrightarrow> enc a @ xs = enc b @ ys \<Longrightarrow> a = b \<and> xs = ys"
begin

lemma append_eq: "ok a \<Longrightarrow> ok b \<Longrightarrow> enc a @ xs = enc b @ ys \<longleftrightarrow> a = b \<and> xs = ys"
  using delimits by blast

lemma enc_inject: "ok a \<Longrightarrow> ok b \<Longrightarrow> enc a = enc b \<longleftrightarrow> a = b"
  using append_eq [of a b "[]" "[]"] by simp

end

lemma from_be_bytes_inject:
  "8 * length a = LENGTH('a) \<Longrightarrow> 8 * length b = LENGTH('a) \<Longrightarrow>
   (from_be_bytes a :: 'a::len word) = from_be_bytes b \<longleftrightarrow> a = b"
  by (metis be_bytes_from_be_bytes)

lemma le_limb_inject: "length a \<le> 8 \<Longrightarrow> length a = length b \<Longrightarrow> le_limb a = le_limb b \<longleftrightarrow> a = b"
  by (simp add: le_limb_def from_be_bytes_inject)

lemma chunks_of_seven_Cons: "bs \<noteq> [] \<Longrightarrow> chunks_of_seven bs = take 7 bs # chunks_of_seven (drop 7 bs)"
  by (cases bs) simp_all

lemma limbs_delimit:
  "length a = length b \<Longrightarrow>
   map le_limb (chunks_of_seven a) @ xs = map le_limb (chunks_of_seven b) @ ys \<longleftrightarrow> a = b \<and> xs = ys"
proof (induction "length a" arbitrary: a b rule: less_induct)
  case less
  show ?case
  proof (cases "a = []")
    case True
    with less.prems show ?thesis by simp
  next
    case False
    with less.prems have b: "b \<noteq> []" by auto
    have "length (drop 7 a) < length a" using False by simp
    then have IH: "map le_limb (chunks_of_seven (drop 7 a)) @ xs = map le_limb (chunks_of_seven (drop 7 b)) @ ys
        \<longleftrightarrow> drop 7 a = drop 7 b \<and> xs = ys"
      using less.hyps less.prems by simp
    have "a = b \<longleftrightarrow> take 7 a = take 7 b \<and> drop 7 a = drop 7 b"
      by (metis append_take_drop_id)
    then show ?thesis
      using IH less.prems by (auto simp: chunks_of_seven_Cons [OF False] chunks_of_seven_Cons [OF b] le_limb_inject)
  qed
qed

definition short :: "bytes \<Rightarrow> bool" where
  "short bs \<longleftrightarrow> length bs < 2 ^ 64"

lemma of_nat_short: "short a \<Longrightarrow> short b \<Longrightarrow> (of_nat (length a) :: u64) = of_nat (length b) \<longleftrightarrow> length a = length b"
  by (auto simp: short_def dest!: arg_cong [of "of_nat (length a) :: u64" _ unat] simp: unat_of_nat)

interpretation pushed: prefix_code push_bytes short
  by unfold_locales (auto simp: push_bytes_def of_nat_short limbs_delimit)

interpretation words: prefix_code word_felts "\<lambda>_. True"
  by unfold_locales (auto simp: word_felts_def split: prod.splits)

interpretation felts8: prefix_code "\<lambda>e. [e]" "\<lambda>_. True"
  by unfold_locales auto

lemma ascii_inject [simp]: "ascii s = ascii t \<longleftrightarrow> s = t"
proof -
  have "inj (\<lambda>x :: char. of_nat (of_char x) :: u8)"
  proof (rule injI)
    fix x y :: char
    assume "(of_nat (of_char x) :: u8) = of_nat (of_char y)"
    moreover have "(of_char x :: nat) < 2 ^ LENGTH(8)" "(of_char y :: nat) < 2 ^ LENGTH(8)"
      by simp_all
    ultimately show "x = y" by (metis of_nat_inverse of_char_eq_iff)
  qed
  then show ?thesis by (simp add: ascii_def inj_map_eq_map)
qed

section \<open>What a challenge binds\<close>

lemma challenge_felts_eq:
  assumes "short (ascii (cfg_domain cfg))" "short (ascii (cfg_domain cfg'))"
    and "short (ascii (cfg_network cfg))" "short (ascii (cfg_network cfg'))" "short nonce" "short nonce'"
  shows "challenge_felts cfg user vc nonce iss exp = challenge_felts cfg' user' vc' nonce' iss' exp' \<longleftrightarrow>
    cfg_domain cfg = cfg_domain cfg' \<and> cfg_network cfg = cfg_network cfg'
    \<and> suffix user = suffix user' \<and> prefix user = prefix user' \<and> vc = vc' \<and> nonce = nonce' \<and> iss = iss' \<and> exp = exp'"
  by (simp add: challenge_felts_def pushed.append_eq pushed.enc_inject words.append_eq assms)

lemma purposes_differ:
  "CHALLENGE_PURPOSE \<noteq> TOKEN_PURPOSE" "CHALLENGE_PURPOSE \<noteq> SWAP_PURPOSE_TAG" "TOKEN_PURPOSE \<noteq> SWAP_PURPOSE_TAG"
  by code_simp+

lemma hd_challenge_felts: "hd (challenge_felts cfg user vc nonce iss exp) = CHALLENGE_PURPOSE"
  by (simp add: challenge_felts_def)

lemma hd_swap_felts: "hd (canonical_felts (new_swap user sell_asset sell_amt buy_asset buy_amt oid expiry)) = SWAP_PURPOSE_TAG"
  by (simp add: canonical_felts_def new_swap_def split: prod.splits)

text \<open>
  C24: A challenge binds exactly one login. The field elements hashed into the word a wallet signs
  determine the service's domain and network, the user, the vault key, the nonce and both timestamps;
  they are never the elements of a swap order, nor those of a bearer token, whatever the account,
  amounts, order id or token: a signature given to log in is not one over an order.
\<close>
theorem challenge_binds_login:
  assumes "length (cfg_domain cfg) < 2 ^ 64" "length (cfg_domain cfg') < 2 ^ 64"
    and "length (cfg_network cfg) < 2 ^ 64" "length (cfg_network cfg') < 2 ^ 64"
    and "length nonce = 32" "length nonce' = 32"
  shows "(challenge_felts cfg user vc nonce iss exp = challenge_felts cfg' user' vc' nonce' iss' exp' \<longleftrightarrow>
      cfg_domain cfg = cfg_domain cfg' \<and> cfg_network cfg = cfg_network cfg' \<and> suffix user = suffix user'
      \<and> prefix user = prefix user' \<and> vc = vc' \<and> nonce = nonce' \<and> iss = iss' \<and> exp = exp')
    \<and> challenge_felts cfg user vc nonce iss exp
        \<noteq> canonical_felts (new_swap account sell_asset sell_amt buy_asset buy_amt order_id expiry)
    \<and> challenge_felts cfg user vc nonce iss exp \<noteq> TOKEN_PURPOSE # push_bytes (ascii token)
    \<and> canonical_felts (new_swap account sell_asset sell_amt buy_asset buy_amt order_id expiry)
        \<noteq> TOKEN_PURPOSE # push_bytes (ascii token)"
proof -
  have "short (ascii (cfg_domain cfg))" "short (ascii (cfg_domain cfg'))" "short (ascii (cfg_network cfg))"
    "short (ascii (cfg_network cfg'))" "short nonce" "short nonce'"
    using assms by (simp_all add: short_def ascii_def)
  from challenge_felts_eq [OF this] show ?thesis
    using hd_challenge_felts [of cfg user vc nonce iss exp] hd_swap_felts purposes_differ
    by (metis list.sel(1))
qed

theorem challenge_binds_login_witness:
  "challenge_felts \<lparr>cfg_domain = ''minizeke'', cfg_network = ''testnet'', challenge_ttl_secs = 300, session_ttl_secs = 3600\<rparr>
      \<lparr>prefix = 7, suffix = 8\<rparr> (1, 2, 3, 4) (replicate 32 9) 100 400
   \<noteq> challenge_felts \<lparr>cfg_domain = ''minizeke'', cfg_network = ''devnet'', challenge_ttl_secs = 300, session_ttl_secs = 3600\<rparr>
      \<lparr>prefix = 7, suffix = 8\<rparr> (1, 2, 3, 4) (replicate 32 9) 100 400"
  using challenge_binds_login [of "\<lparr>cfg_domain = ''minizeke'', cfg_network = ''testnet'', challenge_ttl_secs = 300, session_ttl_secs = 3600\<rparr>"
      "\<lparr>cfg_domain = ''minizeke'', cfg_network = ''devnet'', challenge_ttl_secs = 300, session_ttl_secs = 3600\<rparr>"
      "replicate 32 9" "replicate 32 9" "\<lparr>prefix = 7, suffix = 8\<rparr>" "(1, 2, 3, 4)" 100 400
      "\<lparr>prefix = 7, suffix = 8\<rparr>" "(1, 2, 3, 4)" 100 400] by simp

section \<open>Stored words and timestamps\<close>

definition canonical_word :: "storage_word \<Rightarrow> bool" where
  "canonical_word vc \<longleftrightarrow> felts_valid (word_felts vc)"

lemma length_word_bytes [simp]: "length (word_bytes vc) = 32"
  by (simp add: word_bytes_def word_felts_def split: prod.splits)

lemma le_felt_bytes: "v < FELT_MODULUS \<Longrightarrow> le_felt (rev (be_bytes v)) = Inr v"
  by (simp add: le_felt_def from_be_bytes_be_bytes)

lemma bytes_word_bytes [simp]: "canonical_word vc \<Longrightarrow> bytes_word (word_bytes vc) = Inr vc"
  by (simp add: bytes_word_def canonical_word_def felts_valid_def word_bytes_def word_felts_def le_felt_bytes
      split: prod.splits)

lemma word_bytes_inject [simp]: "word_bytes a = word_bytes b \<longleftrightarrow> a = b"
proof
  assume *: "word_bytes a = word_bytes b"
  obtain a0 a1 a2 a3 where a: "a = (a0, a1, a2, a3)" by (cases a)
  obtain b0 b1 b2 b3 where b: "b = (b0, b1, b2, b3)" by (cases b)
  have inj: "be_bytes x = be_bytes y \<longleftrightarrow> x = y" for x y :: u64
  proof
    assume "be_bytes x = be_bytes y"
    then have "(from_be_bytes (be_bytes x) :: u64) = from_be_bytes (be_bytes y)" by simp
    then show "x = y" by (simp add: from_be_bytes_be_bytes)
  qed simp
  from * show "a = b" by (simp add: a b word_bytes_def word_felts_def inj)
qed simp

lemma timestamp_Inr [simp]: "timestamp v = Inr t \<longleftrightarrow> uint v < 2 ^ 63 \<and> t = uint v"
  by (auto simp: timestamp_def)

lemma from_sql_uint [simp]: "from_sql msg (uint v) = Inr v"
  by (simp add: from_sql_def)

section \<open>Histories of a store\<close>

datatype ('pk, 'sg) auth_op =
    Issue account_id storage_word u64 bytes bytes
  | Login string account_id storage_word 'pk 'sg u64 bytes
  | Lookup string u64
  | Revoke string u64
  | Purge u64

datatype ('pk, 'sg) auth_event =
    Issued auth_challenge
  | LoggedIn string account_id storage_word 'pk 'sg u64 new_session

text \<open>The store's mutex makes every operation one step; the events record what callers were told.\<close>

fun auth_step ::
  "('pk, 'sg) wallet \<Rightarrow> auth_config \<Rightarrow> ('pk, 'sg) auth_op \<Rightarrow> ('pk, 'sg) auth_event list \<times> auth_db
     \<Rightarrow> ('pk, 'sg) auth_event list \<times> auth_db" where
  "auth_step w cfg (Issue user vc now nonce id_bytes) (evs, db) =
     (case issue_challenge w cfg user vc now nonce id_bytes db of
        (Inl e, db') \<Rightarrow> (evs, db')
      | (Inr ch, db') \<Rightarrow> (evs @ [Issued ch], db'))"
| "auth_step w cfg (Login cid user vc pk sg now token_bytes) (evs, db) =
     (case authenticate w cfg cid user vc pk sg now token_bytes db of
        (Inl e, db') \<Rightarrow> (evs, db')
      | (Inr ns, db') \<Rightarrow> (evs @ [LoggedIn cid user vc pk sg now ns], db'))"
| "auth_step w cfg (Lookup token now) (evs, db) = (evs, db)"
| "auth_step w cfg (Revoke token now) (evs, db) = (evs, snd (revoke_session w token now db))"
| "auth_step w cfg (Purge now) (evs, db) = (evs, snd (purge now db))"

definition auth_run ::
  "('pk, 'sg) wallet \<Rightarrow> auth_config \<Rightarrow> ('pk, 'sg) auth_op list \<Rightarrow> ('pk, 'sg) auth_event list \<times> auth_db" where
  "auth_run w cfg ops = fold (auth_step w cfg) ops ([], open_auth_db)"

fun logs_in :: "string \<Rightarrow> account_id \<Rightarrow> storage_word \<Rightarrow> ('pk, 'sg) auth_event \<Rightarrow> bool" where
  "logs_in cid user vc (LoggedIn cid' user' vc' pk sg now ns) \<longleftrightarrow> cid' = cid \<and> user' = user \<and> vc' = vc"
| "logs_in cid user vc (Issued ch) \<longleftrightarrow> False"

fun issued_for :: "string \<Rightarrow> account_id \<Rightarrow> storage_word \<Rightarrow> ('pk, 'sg) auth_event \<Rightarrow> bool" where
  "issued_for cid user vc (Issued ch) \<longleftrightarrow> chal_id ch = cid \<and> chal_user_id ch = user \<and> chal_commitment ch = vc"
| "issued_for cid user vc (LoggedIn cid' user' vc' pk sg now ns) \<longleftrightarrow> False"

fun login_justified :: "('pk, 'sg) wallet \<Rightarrow> auth_config \<Rightarrow> ('pk, 'sg) auth_event list \<Rightarrow> ('pk, 'sg) auth_event \<Rightarrow> bool" where
  "login_justified w cfg evs (Issued ch) \<longleftrightarrow> True"
| "login_justified w cfg evs (LoggedIn cid user vc pk sg now ns) \<longleftrightarrow>
     ses_user_id (new_session ns) = user \<and> ses_commitment (new_session ns) = vc \<and> wl_commitment w pk = vc
     \<and> (\<exists>ch. Issued ch \<in> set evs \<and> chal_id ch = cid \<and> chal_user_id ch = user \<and> chal_commitment ch = vc
          \<and> now \<le> chal_expires_at ch
          \<and> challenge_word w cfg user vc (chal_nonce ch) (chal_issued_at ch) (chal_expires_at ch) = Inr (chal_message ch)
          \<and> wl_verify w pk (chal_message ch) sg)"

definition row_of :: "auth_challenge \<Rightarrow> challenge_row \<Rightarrow> bool" where
  "row_of ch r \<longleftrightarrow> cr_challenge_id r = chal_id ch \<and> cr_nonce r = chal_nonce ch \<and> cr_user_id r = chal_user_id ch
     \<and> cr_vault_commitment r = word_bytes (chal_commitment ch) \<and> cr_issued_at r = uint (chal_issued_at ch)
     \<and> cr_expires_at r = uint (chal_expires_at ch)"

definition open_for :: "string \<Rightarrow> account_id \<Rightarrow> storage_word \<Rightarrow> challenge_row \<Rightarrow> bool" where
  "open_for cid user vc r \<longleftrightarrow> cr_consumed_at r = None \<and> cr_challenge_id r = cid \<and> cr_user_id r = user
     \<and> cr_vault_commitment r = word_bytes vc"

section \<open>What a successful operation did\<close>

lemma issue_challenge_Inr:
  assumes "issue_challenge w cfg user vc now nonce id_bytes db = (Inr ch, db')"
  obtains r where "row_of ch r" "cr_consumed_at r = None" "\<forall>r'\<in>set (auth_challenges db). cr_challenge_id r' \<noteq> chal_id ch"
    "db' = db\<lparr>auth_challenges := auth_challenges db @ [r]\<rparr>" "chal_user_id ch = user" "chal_commitment ch = vc"
    "challenge_word w cfg user vc (chal_nonce ch) (chal_issued_at ch) (chal_expires_at ch) = Inr (chal_message ch)"
proof -
  from assms obtain exp msg where *: "checked_add now (challenge_ttl_secs cfg) = Some exp"
    "challenge_word w cfg user vc nonce now exp = Inr msg" "uint now < 2 ^ 63" "uint exp < 2 ^ 63"
    "\<forall>r'\<in>set (auth_challenges db). cr_challenge_id r' \<noteq> wl_encode w id_bytes"
    "ch = \<lparr>chal_id = wl_encode w id_bytes, chal_nonce = nonce, chal_user_id = user, chal_commitment = vc,
           chal_issued_at = now, chal_expires_at = exp, chal_message = msg\<rparr>"
    "db' = db\<lparr>auth_challenges := auth_challenges db @
       [\<lparr>cr_challenge_id = wl_encode w id_bytes, cr_nonce = nonce, cr_user_id = user, cr_vault_commitment = word_bytes vc,
         cr_issued_at = uint now, cr_expires_at = uint exp, cr_consumed_at = None\<rparr>]\<rparr>"
    by (auto simp: issue_challenge_def res_simps sql_simps Let_def split: sum.splits)
  show ?thesis
    by (rule that [OF _ _ _ *(7)]) (use * in \<open>simp_all add: row_of_def\<close>)
qed

lemma issue_challenge_Inl: "issue_challenge w cfg user vc now nonce id_bytes db = (Inl e, db') \<Longrightarrow> db' = db"
  by (simp add: issue_challenge_def split: sum.splits prod.splits)

lemma authenticate_Inl: "authenticate w cfg cid user vc pk sg now token_bytes db = (Inl e, db') \<Longrightarrow> db' = db"
  by (simp add: authenticate_def split: sum.splits prod.splits if_splits)

definition consumable :: "string \<Rightarrow> int \<Rightarrow> challenge_row \<Rightarrow> bool" where
  "consumable cid t r \<longleftrightarrow> cr_challenge_id r = cid \<and> cr_consumed_at r = None \<and> t \<le> cr_expires_at r"

definition consume :: "string \<Rightarrow> u64 \<Rightarrow> challenge_row list \<Rightarrow> challenge_row list" where
  "consume cid now = sql_update (consumable cid (uint now)) (\<lambda>r. r\<lparr>cr_consumed_at := Some (uint now)\<rparr>)"

lemma authenticate_Inr:
  assumes "authenticate w cfg cid user vc pk sg now token_bytes db = (Inr ns, db')"
  obtains r msg tc where "find (\<lambda>r. cr_challenge_id r = cid) (auth_challenges db) = Some r"
    "cr_consumed_at r = None" "uint now \<le> cr_expires_at r" "cr_user_id r = user" "cr_vault_commitment r = word_bytes vc"
    "challenge_word w cfg user vc (cr_nonce r) (word_of_int (cr_issued_at r)) (word_of_int (cr_expires_at r)) = Inr msg"
    "wl_verify w pk msg sg" "wl_commitment w pk = vc"
    "checked_add now (session_ttl_secs cfg) = Some (ses_expires_at (new_session ns))"
    "ses_user_id (new_session ns) = user" "ses_commitment (new_session ns) = vc" "ses_created_at (new_session ns) = now"
    "token_commitment w (bearer_token ns) = Inr tc" "uint now < 2 ^ 63" "uint (ses_expires_at (new_session ns)) < 2 ^ 63"
    "\<forall>s\<in>set (auth_sessions db). sr_token_commitment s \<noteq> word_bytes tc"
    "db' = db\<lparr>auth_challenges := consume cid now (auth_challenges db),
              auth_sessions := auth_sessions db @
              [\<lparr>sr_token_commitment = word_bytes tc, sr_user_id = user, sr_vault_commitment = word_bytes vc,
                sr_created_at = uint now, sr_expires_at = uint (ses_expires_at (new_session ns)), sr_revoked_at = None\<rparr>]\<rparr>"
proof -
  from assms have tx: "authenticate_tx w cfg cid user vc pk sg now token_bytes db = Inr (ns, db')"
    and k: "wl_commitment w pk = vc"
    by (auto simp: authenticate_def split: if_splits sum.splits)
  from tx obtain r iss exp msg sexp tc where *:
    "find (\<lambda>r. cr_challenge_id r = cid) (auth_challenges db) = Some r"
    "cr_consumed_at r = None" "uint now \<le> cr_expires_at r" "cr_user_id r = user" "cr_vault_commitment r = word_bytes vc"
    "from_sql ''negative issued_at'' (cr_issued_at r) = Inr iss" "from_sql ''negative expires_at'' (cr_expires_at r) = Inr exp"
    "challenge_word w cfg user vc (cr_nonce r) iss exp = Inr msg" "wl_verify w pk msg sg"
    "checked_add now (session_ttl_secs cfg) = Some sexp" "token_commitment w (wl_encode w token_bytes) = Inr tc"
    "uint now < 2 ^ 63" "uint sexp < 2 ^ 63" "\<forall>s\<in>set (auth_sessions db). sr_token_commitment s \<noteq> word_bytes tc"
    "ns = \<lparr>bearer_token = wl_encode w token_bytes,
           new_session = \<lparr>ses_user_id = user, ses_commitment = vc, ses_created_at = now, ses_expires_at = sexp\<rparr>\<rparr>"
    "db' = db\<lparr>auth_challenges := consume cid now (auth_challenges db),
              auth_sessions := auth_sessions db @
              [\<lparr>sr_token_commitment = word_bytes tc, sr_user_id = user, sr_vault_commitment = word_bytes vc,
                sr_created_at = uint now, sr_expires_at = uint sexp, sr_revoked_at = None\<rparr>]\<rparr>"
    unfolding authenticate_tx_def consume_def consumable_def [abs_def]
    by (clarsimp simp: res_simps Let_def sql_simps not_less)
  have "iss = word_of_int (cr_issued_at r)" "exp = word_of_int (cr_expires_at r)"
    using *(6,7) by (auto simp: from_sql_def split: if_splits)
  with * have "challenge_word w cfg user vc (cr_nonce r) (word_of_int (cr_issued_at r)) (word_of_int (cr_expires_at r)) = Inr msg"
    by simp
  with * k show ?thesis by (intro that [of r msg tc]) simp_all
qed

section \<open>Every login spends a challenge\<close>

lemma sql_count_spent:
  assumes "r \<in> set rows" "P r" "Q r" and "\<And>r. Q r \<Longrightarrow> \<not> P (f r)"
  shows "Suc (sql_count P (sql_update Q f rows)) \<le> sql_count P rows"
  using assms(1-3)
proof (induction rows)
  case (Cons x rows)
  have "sql_count P (sql_update Q f rows) \<le> sql_count P rows"
    by (rule sql_count_update_le) (use assms(4) in blast)
  with Cons show ?case using assms(4) by (auto simp: sql_count_def sql_update_def)
qed simp

lemma sql_count_filter: "sql_count P (filter Q rows) \<le> sql_count P rows"
  by (induction rows) (auto simp: sql_count_def)

definition agrees :: "('pk, 'sg) wallet \<Rightarrow> auth_config \<Rightarrow> ('pk, 'sg) auth_event list \<times> auth_db \<Rightarrow> bool" where
  "agrees w cfg = (\<lambda>(evs, db).
     distinct (map cr_challenge_id (auth_challenges db))
     \<and> (\<forall>r\<in>set (auth_challenges db). \<exists>ch. Issued ch \<in> set evs \<and> row_of ch r)
     \<and> (\<forall>ch. Issued ch \<in> set evs \<longrightarrow>
          challenge_word w cfg (chal_user_id ch) (chal_commitment ch) (chal_nonce ch) (chal_issued_at ch) (chal_expires_at ch)
            = Inr (chal_message ch))
     \<and> (\<forall>pre e post. evs = pre @ e # post \<longrightarrow> login_justified w cfg pre e)
     \<and> (\<forall>cid user vc. length (filter (logs_in cid user vc) evs) + sql_count (open_for cid user vc) (auth_challenges db)
          \<le> length (filter (issued_for cid user vc) evs)))"

lemma agreesD:
  assumes "agrees w cfg (evs, db)"
  shows "distinct (map cr_challenge_id (auth_challenges db))"
    "r \<in> set (auth_challenges db) \<Longrightarrow> \<exists>ch. Issued ch \<in> set evs \<and> row_of ch r"
    "Issued ch \<in> set evs \<Longrightarrow>
       challenge_word w cfg (chal_user_id ch) (chal_commitment ch) (chal_nonce ch) (chal_issued_at ch) (chal_expires_at ch)
         = Inr (chal_message ch)"
    "evs = pre @ e # post \<Longrightarrow> login_justified w cfg pre e"
    "length (filter (logs_in cid user vc) evs) + sql_count (open_for cid user vc) (auth_challenges db)
       \<le> length (filter (issued_for cid user vc) evs)"
  using assms unfolding agrees_def prod.case by blast+

lemma justified_snoc:
  assumes "\<And>pre e post. evs = pre @ e # post \<Longrightarrow> login_justified w cfg pre e" "login_justified w cfg evs e'"
    and "evs @ [e'] = pre @ e # post"
  shows "login_justified w cfg pre e"
proof (cases post rule: rev_cases)
  case Nil
  with assms(2,3) show ?thesis by simp
next
  case (snoc post' x)
  with assms(3) have "evs = pre @ e # post'" by (metis append.assoc append_Cons butlast_snoc)
  then show ?thesis by (rule assms(1))
qed

lemma agrees_fewer_rows:
  assumes "agrees w cfg (evs, db)" "auth_challenges db' = filter Q (auth_challenges db)"
  shows "agrees w cfg (evs, db')"
proof -
  note inv = agreesD [OF assms(1)]
  have "sql_count (open_for cid user vc) (auth_challenges db') \<le> sql_count (open_for cid user vc) (auth_challenges db)"
    for cid user vc by (simp add: assms(2) sql_count_filter)
  then have "length (filter (logs_in cid user vc) evs) + sql_count (open_for cid user vc) (auth_challenges db')
       \<le> length (filter (issued_for cid user vc) evs)" for cid user vc
    using inv(5) [of cid user vc] by (meson add_left_mono le_trans)
  then show ?thesis
    unfolding agrees_def prod.case
    using inv(1-4) by (simp add: assms(2) distinct_map_filter)
qed

lemma agrees_issue:
  assumes "agrees w cfg (evs, db)" "issue_challenge w cfg user vc now nonce id_bytes db = (Inr ch, db')"
  shows "agrees w cfg (evs @ [Issued ch], db')"
proof -
  note inv = agreesD [OF assms(1)]
  from assms(2) obtain r where r: "row_of ch r" "cr_consumed_at r = None"
    "\<forall>r'\<in>set (auth_challenges db). cr_challenge_id r' \<noteq> chal_id ch"
    "db' = db\<lparr>auth_challenges := auth_challenges db @ [r]\<rparr>" "chal_user_id ch = user" "chal_commitment ch = vc"
    "challenge_word w cfg user vc (chal_nonce ch) (chal_issued_at ch) (chal_expires_at ch) = Inr (chal_message ch)"
    by (rule issue_challenge_Inr)
  have "length (filter (logs_in cid user' vc') (evs @ [Issued ch])) + sql_count (open_for cid user' vc') (auth_challenges db')
      \<le> length (filter (issued_for cid user' vc') (evs @ [Issued ch]))" for cid user' vc'
    using inv(5) [of cid user' vc'] r(1,2) by (auto simp: r(4) sql_count_def open_for_def row_of_def)
  moreover have "distinct (map cr_challenge_id (auth_challenges db'))"
    using inv(1) r(1,3) by (auto simp: r(4) row_of_def)
  moreover have "\<forall>x\<in>set (auth_challenges db'). \<exists>y. Issued y \<in> set (evs @ [Issued ch]) \<and> row_of y x"
    using inv(2) r(1) by (auto simp: r(4))
  moreover have "login_justified w cfg pre e" if "evs @ [Issued ch] = pre @ e # post" for pre e post
    using inv(4) _ that by (rule justified_snoc) simp_all
  ultimately show ?thesis
    unfolding agrees_def prod.case using inv(3) r(5-7) by auto
qed

lemma consume_frame: "map cr_challenge_id (consume cid now rows) = map cr_challenge_id rows"
  by (simp add: consume_def map_sql_update_key)

lemma agrees_login:
  assumes "agrees w cfg (evs, db)" "authenticate w cfg cid user vc pk sg now token_bytes db = (Inr ns, db')"
  shows "agrees w cfg (evs @ [LoggedIn cid user vc pk sg now ns], db')" (is "agrees w cfg (?evs, db')")
proof -
  note inv = agreesD [OF assms(1)]
  from assms(2) obtain r msg where r: "find (\<lambda>r. cr_challenge_id r = cid) (auth_challenges db) = Some r"
    "cr_consumed_at r = None" "uint now \<le> cr_expires_at r" "cr_user_id r = user" "cr_vault_commitment r = word_bytes vc"
    "challenge_word w cfg user vc (cr_nonce r) (word_of_int (cr_issued_at r)) (word_of_int (cr_expires_at r)) = Inr msg"
    "wl_verify w pk msg sg" "wl_commitment w pk = vc"
    "ses_user_id (new_session ns) = user" "ses_commitment (new_session ns) = vc"
    "auth_challenges db' = consume cid now (auth_challenges db)"
    by (rule authenticate_Inr) simp
  have mem: "r \<in> set (auth_challenges db)" "cr_challenge_id r = cid" using find_SomeD [OF r(1)] by simp_all
  with inv(2) obtain ch where ch: "Issued ch \<in> set evs" "row_of ch r" by blast
  have just: "login_justified w cfg evs (LoggedIn cid user vc pk sg now ns)"
    using ch r(3-10) mem(2) inv(3) [OF ch(1)] by (auto simp: row_of_def word_le_def intro!: exI [of _ ch])
  have spent: "Suc (sql_count (open_for cid user vc) (auth_challenges db')) \<le> sql_count (open_for cid user vc) (auth_challenges db)"
    unfolding r(11) consume_def
    by (rule sql_count_spent [OF mem(1)]) (use r mem(2) in \<open>auto simp: open_for_def consumable_def\<close>)
  have "sql_count (open_for k u v) (auth_challenges db') \<le> sql_count (open_for k u v) (auth_challenges db)" for k u v
    unfolding r(11) consume_def by (rule sql_count_update_le) (simp add: open_for_def)
  note fewer = this
  have "length (filter (logs_in k u v) ?evs) + sql_count (open_for k u v) (auth_challenges db')
      \<le> length (filter (issued_for k u v) ?evs)" for k u v
  proof (cases "k = cid \<and> u = user \<and> v = vc")
    case True
    with inv(5) [of k u v] spent show ?thesis by simp
  next
    case False
    then have "filter (logs_in k u v) [LoggedIn cid user vc pk sg now ns] = []" by auto
    with inv(5) [of k u v] fewer [of k u v] show ?thesis by simp
  qed
  moreover have "\<forall>x\<in>set (auth_challenges db'). \<exists>y. Issued y \<in> set ?evs \<and> row_of y x"
    using inv(2) by (fastforce simp: r(11) consume_def sql_update_def row_of_def)
  moreover have "login_justified w cfg pre e" if "?evs = pre @ e # post" for pre e post
    using inv(4) just that by (rule justified_snoc)
  ultimately show ?thesis
    unfolding agrees_def prod.case using inv(1,3) by (auto simp: r(11) consume_frame)
qed

lemma agrees_step: "agrees w cfg s \<Longrightarrow> agrees w cfg (auth_step w cfg x s)"
proof (cases s)
  fix evs db
  assume "agrees w cfg s" and s: "s = (evs, db)"
  then have inv: "agrees w cfg (evs, db)" by simp
  have rows: "agrees w cfg (evs, db')" if "auth_challenges db' = filter Q (auth_challenges db)" for db' Q
    using agrees_fewer_rows [OF inv that] .
  show "agrees w cfg (auth_step w cfg x s)"
  proof (cases x)
    case (Issue user vc now nonce id_bytes)
    then show ?thesis
      using inv agrees_issue [OF inv] by (auto simp: s split: prod.splits sum.splits dest: issue_challenge_Inl)
  next
    case (Login cid user vc pk sg now token_bytes)
    then show ?thesis
      using inv agrees_login [OF inv] by (auto simp: s split: prod.splits sum.splits dest: authenticate_Inl)
  next
    case (Lookup token now)
    with inv show ?thesis by (simp add: s)
  next
    case (Revoke token now)
    have "auth_challenges (snd (revoke_session w token now db)) = filter (\<lambda>_. True) (auth_challenges db)"
      by (simp add: revoke_session_def split: sum.splits prod.splits)
    from rows [OF this] show ?thesis by (simp add: s Revoke)
  next
    case (Purge now)
    have "\<exists>Q. auth_challenges (snd (purge now db)) = filter Q (auth_challenges db)"
      by (auto simp: purge_def filter_True intro: exI [of _ "\<lambda>_. True"] split: sum.splits)
    then show ?thesis by (auto simp: s Purge intro: rows)
  qed
qed

lemma agrees_run: "agrees w cfg (auth_run w cfg ops)"
proof -
  have "agrees w cfg s \<Longrightarrow> agrees w cfg (fold (auth_step w cfg) ops s)" for s
    by (induction ops arbitrary: s) (simp_all add: agrees_step)
  moreover have "agrees w cfg ([], open_auth_db)"
    by (simp add: agrees_def open_auth_db_def sql_count_def)
  ultimately show ?thesis by (simp add: auth_run_def)
qed

text \<open>
  C11: Injective agreement of logins. Whatever operations a store went through (challenges issued,
  logins tried with any keys and signatures, sessions revoked, purges, in any order), each session that
  was opened is preceded by a challenge issued under the same id for the same user and vault key, which had
  not expired and whose word the login's key, the one the commitment names, verifies; and no id opened more
  sessions for a user and key than challenges were issued under it: a challenge is used once.
\<close>
theorem wallet_login_agrees:
  assumes "auth_run w cfg ops = (evs, db)"
  shows "(\<forall>pre cid user vc pk sg now ns post. evs = pre @ LoggedIn cid user vc pk sg now ns # post \<longrightarrow>
      ses_user_id (new_session ns) = user \<and> ses_commitment (new_session ns) = vc \<and> wl_commitment w pk = vc
      \<and> (\<exists>ch. Issued ch \<in> set pre \<and> chal_id ch = cid \<and> chal_user_id ch = user \<and> chal_commitment ch = vc
           \<and> now \<le> chal_expires_at ch
           \<and> challenge_word w cfg user vc (chal_nonce ch) (chal_issued_at ch) (chal_expires_at ch) = Inr (chal_message ch)
           \<and> wl_verify w pk (chal_message ch) sg))
    \<and> (\<forall>cid user vc. length (filter (logs_in cid user vc) evs) \<le> length (filter (issued_for cid user vc) evs))"
proof -
  have inv: "agrees w cfg (evs, db)" using agrees_run [of w cfg ops] by (simp add: assms)
  have "length (filter (logs_in cid user vc) evs) \<le> length (filter (issued_for cid user vc) evs)" for cid user vc
    using agreesD(5) [OF inv, of cid user vc] by simp
  with agreesD(4) [OF inv] show ?thesis by (metis login_justified.simps(2))
qed

definition example_config :: auth_config where
  "example_config = \<lparr>cfg_domain = ''minizeke'', cfg_network = ''testnet'', challenge_ttl_secs = 300, session_ttl_secs = 3600\<rparr>"

definition example_wallet :: "(unit, storage_word) wallet" where
  "example_wallet =
     \<lparr>wl_ecdsa_key = (\<lambda>_. True), wl_ecdsa_signature = (\<lambda>_. True), wl_commitment = (\<lambda>_. (1, 2, 3, 4)),
      wl_verify = (\<lambda>_ msg sg. msg = sg), wl_hash_elements = (\<lambda>felts. (of_nat (length felts), 0, 0, 0)),
      wl_encode = map (\<lambda>b. char_of (unat b))\<rparr>"

definition wallet_user :: account_id where
  "wallet_user = \<lparr>prefix = 7, suffix = 8\<rparr>"

definition example_ops :: "(unit, storage_word) auth_op list" where
  "example_ops =
     [Issue wallet_user (1, 2, 3, 4) 100 (replicate 32 9) [65, 66],
      Login ''AB'' wallet_user (1, 2, 3, 4) () (20, 0, 0, 0) 101 [67, 68],
      Login ''AB'' wallet_user (1, 2, 3, 4) () (20, 0, 0, 0) 102 [67, 69]]"

lemma example_auth_run:
  "fst (auth_run example_wallet example_config example_ops) =
     [Issued \<lparr>chal_id = ''AB'', chal_nonce = replicate 32 9, chal_user_id = wallet_user, chal_commitment = (1, 2, 3, 4),
        chal_issued_at = 100, chal_expires_at = 400, chal_message = (20, 0, 0, 0)\<rparr>,
      LoggedIn ''AB'' wallet_user (1, 2, 3, 4) () (20, 0, 0, 0) 101
        \<lparr>bearer_token = ''CD'',
         new_session = \<lparr>ses_user_id = wallet_user, ses_commitment = (1, 2, 3, 4), ses_created_at = 101, ses_expires_at = 3701\<rparr>\<rparr>]"
  by code_simp

theorem wallet_login_agrees_witness:
  "\<exists>ch :: auth_challenge. chal_id ch = ''AB'' \<and> 101 \<le> chal_expires_at ch \<and> wl_verify example_wallet () (chal_message ch) (20, 0, 0, 0)"
proof -
  obtain evs db where run: "auth_run example_wallet example_config example_ops = (evs, db)" by fastforce
  have "evs = [Issued \<lparr>chal_id = ''AB'', chal_nonce = replicate 32 9, chal_user_id = wallet_user,
        chal_commitment = (1, 2, 3, 4), chal_issued_at = 100, chal_expires_at = 400, chal_message = (20, 0, 0, 0)\<rparr>]
      @ LoggedIn ''AB'' wallet_user (1, 2, 3, 4) () (20, 0, 0, 0) 101
        \<lparr>bearer_token = ''CD'',
         new_session = \<lparr>ses_user_id = wallet_user, ses_commitment = (1, 2, 3, 4), ses_created_at = 101, ses_expires_at = 3701\<rparr>\<rparr>
      # []"
    using example_auth_run run by simp
  from wallet_login_agrees [OF run, THEN conjunct1, rule_format, OF this] show ?thesis by blast
qed

section \<open>Sessions\<close>

text \<open>Tokens name at most one row, so a lookup finds the row a login added.\<close>

lemma find_sessions_snoc:
  "\<forall>s\<in>set rows. \<not> P s \<Longrightarrow> find P (rows @ [s]) = (if P s then Some s else None)"
  by (induction rows) auto

lemma revoke_session_unfold:
  assumes "token_commitment w token = Inr tc" "uint now < 2 ^ 63"
  shows "revoke_session w token now db =
    (Inr (sql_count (\<lambda>r. sr_token_commitment r = word_bytes tc \<and> sr_revoked_at r = None) (auth_sessions db) = 1),
     db\<lparr>auth_sessions := sql_update (\<lambda>r. sr_token_commitment r = word_bytes tc \<and> sr_revoked_at r = None)
          (\<lambda>r. r\<lparr>sr_revoked_at := Some (uint now)\<rparr>) (auth_sessions db)\<rparr>)"
  using assms by (simp add: revoke_session_def timestamp_def)

text \<open>
  C31: A session is what its login said. After a successful login, the token it returned is looked up as
  exactly that session (user, vault key and both times) at every time up to and including its expiry, and as no
  session afterwards; revoking it reports that a session was revoked, a second revocation reports
  none, and no later lookup returns it.
\<close>
theorem session_roundtrip:
  assumes "authenticate w cfg cid user vc pk sg now token_bytes db = (Inr ns, db')"
    and "felts_valid (word_felts vc)" and "uint at < 2 ^ 63" "uint revoke_at < 2 ^ 63" "uint again_at < 2 ^ 63"
  shows "lookup_session w (bearer_token ns) at db' =
      Inr (if at \<le> ses_expires_at (new_session ns) then Some (new_session ns) else None)
    \<and> fst (revoke_session w (bearer_token ns) revoke_at db') = Inr True
    \<and> lookup_session w (bearer_token ns) at (snd (revoke_session w (bearer_token ns) revoke_at db')) = Inr None
    \<and> fst (revoke_session w (bearer_token ns) again_at (snd (revoke_session w (bearer_token ns) revoke_at db'))) = Inr False"
proof -
  from assms(1) obtain tc s where tc: "token_commitment w (bearer_token ns) = Inr tc"
    and fresh: "\<forall>s\<in>set (auth_sessions db). sr_token_commitment s \<noteq> word_bytes tc"
    and s: "s = \<lparr>sr_token_commitment = word_bytes tc, sr_user_id = user, sr_vault_commitment = word_bytes vc,
                sr_created_at = uint now, sr_expires_at = uint (ses_expires_at (new_session ns)), sr_revoked_at = None\<rparr>"
    and db': "auth_sessions db' = auth_sessions db @ [s]"
    and ns: "ses_user_id (new_session ns) = user" "ses_commitment (new_session ns) = vc" "ses_created_at (new_session ns) = now"
    by (rule authenticate_Inr) auto
  let ?live = "\<lambda>r. sr_token_commitment r = word_bytes tc \<and> sr_revoked_at r = None"
  have count: "sql_count ?live (auth_sessions db') = 1"
    using fresh by (auto simp: db' s sql_count_def filter_empty_conv)
  have revoked: "sql_update ?live f (auth_sessions db') = auth_sessions db @ [f s]" for f
    using fresh by (auto simp: db' s sql_update_def map_idI)
  have none: "sql_count ?live (auth_sessions db @ [s\<lparr>sr_revoked_at := Some t\<rparr>]) = 0" for t
    using fresh by (auto simp: sql_count_def filter_empty_conv)
  have session: "\<lparr>ses_user_id = user, ses_commitment = vc, ses_created_at = now, ses_expires_at = ses_expires_at (new_session ns)\<rparr>
      = new_session ns"
    by (simp add: ns flip: ns)
  have "find (\<lambda>r. ?live r \<and> uint at \<le> sr_expires_at r) (auth_sessions db @ [x]) =
      (if ?live x \<and> uint at \<le> sr_expires_at x then Some x else None)" for x
    using fresh by (intro find_sessions_snoc) simp
  note finds = this [simplified conj_assoc]
  have at: "timestamp at = Inr (uint at)" using assms(3) by simp
  have vc: "bytes_word (word_bytes vc) = Inr vc" using assms(2) by (simp add: canonical_word_def)
  show ?thesis
    using count
    by (simp add: lookup_session_def revoke_session_unfold [OF tc assms(4)] revoke_session_unfold [OF tc assms(5)]
          tc at revoked none)
       (simp add: db' finds s vc session word_le_def)
qed

definition example_login :: "(auth_error + new_session) \<times> auth_db" where
  "example_login = authenticate example_wallet example_config ''AB'' wallet_user (1, 2, 3, 4) () (20, 0, 0, 0) 101 [67, 68]
     (snd (issue_challenge example_wallet example_config wallet_user (1, 2, 3, 4) 100 (replicate 32 9) [65, 66] open_auth_db))"

lemma example_login_Inr:
  "fst example_login = Inr \<lparr>bearer_token = ''CD'',
     new_session = \<lparr>ses_user_id = wallet_user, ses_commitment = (1, 2, 3, 4), ses_created_at = 101, ses_expires_at = 3701\<rparr>\<rparr>"
  by code_simp

theorem session_roundtrip_witness:
  "lookup_session example_wallet ''CD'' 3701 (snd example_login) =
     Inr (Some \<lparr>ses_user_id = wallet_user, ses_commitment = (1, 2, 3, 4), ses_created_at = 101, ses_expires_at = 3701\<rparr>)"
  using session_roundtrip [OF prod.collapse [of example_login, unfolded example_login_Inr, unfolded example_login_def, symmetric],
      of 3701 0 0]
  by (simp add: example_login_def felts_valid_def word_felts_def FELT_MODULUS_def)

section \<open>Stored rows are well typed\<close>

lemma le_limb_less: "length bs \<le> 7 \<Longrightarrow> le_limb bs < FELT_MODULUS"
proof -
  assume len: "length bs \<le> 7"
  have "take_bit 56 (le_limb bs) = le_limb bs"
  proof (rule bit_word_eqI)
    fix n assume n: "n < LENGTH(64)"
    have "bit (le_limb bs) n \<Longrightarrow> n < 56"
    proof (rule ccontr)
      assume "bit (le_limb bs) n" "\<not> n < 56"
      with n have "n div 8 = 7" by simp
      with len n \<open>bit (le_limb bs) n\<close> show False
        by (simp add: le_limb_def bit_from_be_bytes rev_nth nth_append)
    qed
    then show "bit (take_bit 56 (le_limb bs)) n \<longleftrightarrow> bit (le_limb bs) n"
      by (auto simp: bit_take_bit_iff)
  qed
  then have "unat (le_limb bs) < 2 ^ 56" by (metis take_bit_nat_less_exp unsigned_take_bit_eq)
  then show ?thesis by (simp add: word_less_nat_alt FELT_MODULUS_def)
qed

lemma limbs_valid: "list_all (\<lambda>v. v < FELT_MODULUS) (map le_limb (chunks_of_seven bs))"
  by (induction bs rule: chunks_of_seven.induct) (simp_all add: le_limb_less)

lemma push_bytes_valid: "length bs < 2 ^ 32 \<Longrightarrow> felts_valid (push_bytes bs)"
proof -
  assume "length bs < 2 ^ 32"
  then have "(of_nat (length bs) :: u64) < FELT_MODULUS"
    by (simp add: word_less_nat_alt unat_of_nat FELT_MODULUS_def)
  then show ?thesis using limbs_valid [of bs] by (simp add: felts_valid_def push_bytes_def)
qed

lemma token_commitment_total: "length token < 2 ^ 32 \<Longrightarrow> \<exists>tc. token_commitment w token = Inr tc"
  using push_bytes_valid [of "ascii token"]
  by (simp add: token_commitment_def hash_felts_def felts_valid_def ascii_def TOKEN_PURPOSE_def FELT_MODULUS_def
      del: split_paired_Ex)

definition typed_config :: "auth_config \<Rightarrow> bool" where
  "typed_config cfg \<longleftrightarrow> length (cfg_domain cfg) < 2 ^ 32 \<and> length (cfg_network cfg) < 2 ^ 32"

definition typed_user :: "account_id \<Rightarrow> bool" where
  "typed_user user \<longleftrightarrow> prefix user < FELT_MODULUS \<and> suffix user < FELT_MODULUS"

lemma challenge_word_total:
  assumes "typed_config cfg" "typed_user user" "canonical_word vc" "length nonce = 32"
    "uint iss < 2 ^ 63" "uint exp < 2 ^ 63"
  shows "\<exists>msg. challenge_word w cfg user vc nonce iss exp = Inr msg"
proof -
  have "iss < FELT_MODULUS" "exp < FELT_MODULUS"
    using assms(5,6) by (simp_all add: word_less_def FELT_MODULUS_def)
  moreover have "felts_valid (push_bytes (ascii (cfg_domain cfg)))" "felts_valid (push_bytes (ascii (cfg_network cfg)))"
    "felts_valid (push_bytes nonce)"
    using assms by (auto intro!: push_bytes_valid simp: typed_config_def ascii_def)
  ultimately show ?thesis
    using assms(2,3)
    by (simp add: challenge_word_def hash_felts_def challenge_felts_def felts_valid_def typed_user_def canonical_word_def
        CHALLENGE_PURPOSE_def FELT_MODULUS_def del: split_paired_Ex)
qed

definition typed_time :: "int \<Rightarrow> bool" where
  "typed_time t \<longleftrightarrow> 0 \<le> t \<and> t < 2 ^ 63"

definition typed_db :: "auth_db \<Rightarrow> bool" where
  "typed_db db \<longleftrightarrow>
     (\<forall>r\<in>set (auth_challenges db). length (cr_nonce r) = 32 \<and> typed_time (cr_issued_at r) \<and> typed_time (cr_expires_at r))
     \<and> (\<forall>s\<in>set (auth_sessions db). (\<exists>vc. canonical_word vc \<and> sr_vault_commitment s = word_bytes vc)
          \<and> typed_time (sr_created_at s) \<and> typed_time (sr_expires_at s))"

text \<open>What Rust's types say of an operation's arguments: a nonce array has 32 bytes, a word four field elements.\<close>

fun typed_op :: "('pk, 'sg) auth_op \<Rightarrow> bool" where
  "typed_op (Issue user vc now nonce id_bytes) \<longleftrightarrow> length nonce = 32"
| "typed_op (Login cid user vc pk sg now token_bytes) \<longleftrightarrow> canonical_word vc"
| "typed_op _ \<longleftrightarrow> True"

lemma typed_uint: "uint (v :: u64) < 2 ^ 63 \<Longrightarrow> typed_time (uint v)"
  by (simp add: typed_time_def)

lemma typed_authenticate:
  assumes "typed_db db" "canonical_word vc" "authenticate w cfg cid user vc pk sg now token_bytes db = (Inr ns, db')"
  shows "typed_db db'"
  using assms(3)
proof (rule authenticate_Inr)
  fix tc
  assume "uint now < 2 ^ 63" "uint (ses_expires_at (new_session ns)) < 2 ^ 63"
    "db' = db\<lparr>auth_challenges := consume cid now (auth_challenges db),
              auth_sessions := auth_sessions db @
              [\<lparr>sr_token_commitment = word_bytes tc, sr_user_id = user, sr_vault_commitment = word_bytes vc,
                sr_created_at = uint now, sr_expires_at = uint (ses_expires_at (new_session ns)), sr_revoked_at = None\<rparr>]\<rparr>"
  then show ?thesis
    using assms(1,2) by (auto simp: typed_db_def consume_def set_sql_update typed_uint simp del: split_paired_Ex)
qed

lemma typed_issue:
  assumes "typed_db db" "length nonce = 32" "issue_challenge w cfg user vc now nonce id_bytes db = (Inr ch, db')"
  shows "typed_db db'"
  using assms by (auto simp: issue_challenge_def typed_db_def res_simps typed_uint Let_def split: sum.splits if_splits)

lemma typed_step: "typed_op x \<Longrightarrow> typed_db (snd s) \<Longrightarrow> typed_db (snd (auth_step w cfg x s))"
proof (cases s)
  fix evs db
  assume x: "typed_op x" and "typed_db (snd s)" and s: "s = (evs, db)"
  then have db: "typed_db db" by simp
  show ?thesis
  proof (cases x)
    case (Issue user vc now nonce id_bytes)
    obtain r db' where run: "issue_challenge w cfg user vc now nonce id_bytes db = (r, db')" by fastforce
    show ?thesis
    proof (cases r)
      case (Inl e)
      with run have "db' = db" by (simp add: issue_challenge_Inl)
      with run db Inl show ?thesis by (simp add: s Issue)
    next
      case (Inr ch)
      with run db x show ?thesis by (simp add: s Issue typed_issue)
    qed
  next
    case (Login cid user vc pk sg now token_bytes)
    obtain r db' where run: "authenticate w cfg cid user vc pk sg now token_bytes db = (r, db')" by fastforce
    show ?thesis
    proof (cases r)
      case (Inl e)
      with run have "db' = db" by (simp add: authenticate_Inl)
      with run db Inl show ?thesis by (simp add: s Login)
    next
      case (Inr ns)
      have "canonical_word vc" using x by (simp add: Login)
      then have "typed_db db'" using run unfolding Inr by (rule typed_authenticate [OF db])
      with run Inr show ?thesis by (simp add: s Login)
    qed
  next
    case (Purge now)
    with db show ?thesis by (auto simp: s purge_def typed_db_def split: sum.splits)
  next
    case (Revoke token now)
    with db show ?thesis by (auto simp: s revoke_session_def typed_db_def set_sql_update split: sum.splits)
  next
    case (Lookup token now)
    with db show ?thesis by (simp add: s)
  qed
qed

lemma typed_run: "list_all typed_op ops \<Longrightarrow> typed_db (snd (auth_run w cfg ops))"
proof -
  have "list_all typed_op ops \<Longrightarrow> typed_db (snd s) \<Longrightarrow> typed_db (snd (fold (auth_step w cfg) ops s))" for s
    by (induction ops arbitrary: s) (simp_all add: typed_step)
  moreover have "typed_db open_auth_db" by (simp add: typed_db_def open_auth_db_def)
  ultimately show "list_all typed_op ops \<Longrightarrow> typed_db (snd (auth_run w cfg ops))" by (simp add: auth_run_def)
qed

lemma from_sql_typed: "typed_time t \<Longrightarrow> \<exists>v. from_sql msg t = Inr v \<and> uint v < 2 ^ 63"
  by (simp add: from_sql_def typed_time_def uint_word_of_int)

lemma result_Inl:
  "and_then r f = Inl e \<longleftrightarrow> r = Inl e \<or> (\<exists>x. r = Inr x \<and> f x = Inl e)"
  "(if P then Inl a else r) = Inl e \<longleftrightarrow> (if P then a = e else r = Inl e)"
  "ok_or x a = Inl e \<longleftrightarrow> x = None \<and> a = e"
  "timestamp v = Inl a \<longleftrightarrow> \<not> uint v < 2 ^ 63 \<and> a = InvalidTimestamp"
  by (auto simp: timestamp_def ok_or_def and_then_def split: sum.splits option.splits)

lemma typed_lookup:
  assumes "typed_db db" "length token < 2 ^ 32" "lookup_session w token now db = Inl e"
  shows "e = InvalidTimestamp"
proof (rule ccontr)
  assume e: "e \<noteq> InvalidTimestamp"
  obtain tc where tc: "token_commitment w token = Inr tc" using token_commitment_total [OF assms(2)] by blast
  let ?P = "\<lambda>r. sr_token_commitment r = word_bytes tc \<and> sr_revoked_at r = None \<and> uint now \<le> sr_expires_at r"
  have now: "timestamp now = Inr (uint now)" using assms(3) e by (cases "uint now < 2 ^ 63") (simp_all add: lookup_session_def tc timestamp_def)
  show False
  proof (cases "find ?P (auth_sessions db)")
    case None
    with assms(3) show ?thesis by (simp add: lookup_session_def tc now)
  next
    case (Some s)
    from find_SomeD [OF Some] assms(1) have s: "\<exists>vc'. canonical_word vc' \<and> sr_vault_commitment s = word_bytes vc'"
      "typed_time (sr_created_at s)" "typed_time (sr_expires_at s)"
      unfolding typed_db_def by blast+
    obtain vc' where "canonical_word vc'" "sr_vault_commitment s = word_bytes vc'" using s(1) by blast
    moreover obtain iss where "from_sql ''negative created_at'' (sr_created_at s) = Inr iss" using from_sql_typed [OF s(2)] by blast
    moreover obtain exp where "from_sql ''negative expires_at'' (sr_expires_at s) = Inr exp" using from_sql_typed [OF s(3)] by blast
    ultimately show ?thesis using assms(3) by (simp add: lookup_session_def tc now Some)
  qed
qed

definition login_errors :: "auth_error set" where
  "login_errors =
     {UnsupportedKeyScheme, WrongBinding, ChallengeNotFound, ChallengeConsumed, ChallengeExpired, InvalidTimestamp,
      InvalidSignature, StorageError ''UNIQUE constraint failed: auth_sessions.token_commitment''}"

lemma login_errorsI [simp]:
  "WrongBinding \<in> login_errors" "ChallengeNotFound \<in> login_errors" "ChallengeConsumed \<in> login_errors"
  "ChallengeExpired \<in> login_errors" "InvalidTimestamp \<in> login_errors" "InvalidSignature \<in> login_errors"
  "UnsupportedKeyScheme \<in> login_errors"
  "StorageError ''UNIQUE constraint failed: auth_sessions.token_commitment'' \<in> login_errors"
  by (simp_all add: login_errors_def)

lemma typed_login:
  assumes "typed_db db" "typed_config cfg" "typed_user user" "canonical_word vc" "length (wl_encode w token_bytes) < 2 ^ 32"
    and "authenticate_tx w cfg cid user vc pk sg now token_bytes db = Inl e"
  shows "e \<in> login_errors"
proof (cases "find (\<lambda>r. cr_challenge_id r = cid) (auth_challenges db)")
  case None
  with assms(6) show ?thesis by (auto simp: authenticate_tx_def)
next
  case (Some r)
  from find_SomeD [OF Some] assms(1) have r: "length (cr_nonce r) = 32" "typed_time (cr_issued_at r)" "typed_time (cr_expires_at r)"
    unfolding typed_db_def by blast+
  obtain iss where iss: "from_sql ''negative issued_at'' (cr_issued_at r) = Inr iss" "uint iss < 2 ^ 63"
    using from_sql_typed [OF r(2)] by blast
  obtain exp where exp: "from_sql ''negative expires_at'' (cr_expires_at r) = Inr exp" "uint exp < 2 ^ 63"
    using from_sql_typed [OF r(3)] by blast
  obtain msg where msg: "challenge_word w cfg user vc (cr_nonce r) iss exp = Inr msg"
    using challenge_word_total [OF assms(2,3,4) r(1) iss(2) exp(2)] by blast
  obtain tk where tk: "token_commitment w (wl_encode w token_bytes) = Inr tk"
    using token_commitment_total [OF assms(5)] by blast
  show ?thesis
    using assms(6)
    by (auto simp: authenticate_tx_def Some iss(1) exp(1) msg tk r(1) Let_def result_Inl split: if_split_asm)
qed

text \<open>
  C29: What the store reads back is well typed. Along every history of operations with well-typed
  arguments, a lookup fails only on a time beyond 63 bits, never on a stored word, time or field
  element; and a login fails only for the reasons a caller can cause, or on a token that is already in use:
  the errors about stored rows and the panics on field elements cannot be reached.
\<close>
theorem stored_rows_well_typed:
  assumes "auth_run w cfg ops = (evs, db)" and "list_all typed_op ops"
    and "typed_config cfg" "typed_user user" "felts_valid (word_felts vc)"
    and "length token < 2 ^ 32" "length (wl_encode w token_bytes) < 2 ^ 32"
  shows "(\<forall>e. lookup_session w token now db = Inl e \<longrightarrow> e = InvalidTimestamp)
    \<and> (\<forall>e db'. authenticate w cfg cid user vc pk sg now token_bytes db = (Inl e, db') \<longrightarrow>
         e \<in> {UnsupportedKeyScheme, WrongBinding, ChallengeNotFound, ChallengeConsumed, ChallengeExpired, InvalidTimestamp,
              InvalidSignature, StorageError ''UNIQUE constraint failed: auth_sessions.token_commitment''})"
proof -
  have db: "typed_db db" using typed_run [OF assms(2), of w cfg] by (simp add: assms(1))
  have "canonical_word vc" using assms(5) by (simp add: canonical_word_def)
  note login = typed_login [OF db assms(3,4) this assms(7)]
  have "e \<in> login_errors" if "authenticate w cfg cid user vc pk sg now token_bytes db = (Inl e, db')" for e db'
    using that login [of cid pk sg now e] by (auto simp: authenticate_def split: if_splits sum.splits)
  with typed_lookup [OF db assms(6)] show ?thesis unfolding login_errors_def by blast
qed

lemma example_late_lookup:
  "\<exists>e. lookup_session example_wallet ''CD'' (2 ^ 63) db = Inl e"
proof -
  have "\<exists>tc. token_commitment example_wallet ''CD'' = Inr tc" by (rule exI [of _ "(3, 0, 0, 0)"]) code_simp
  then show ?thesis by (auto simp: lookup_session_def timestamp_def to_i64_def)
qed

theorem stored_rows_well_typed_witness:
  "lookup_session example_wallet ''CD'' (2 ^ 63) (snd (auth_run example_wallet example_config example_ops)) = Inl InvalidTimestamp"
proof -
  have "e = InvalidTimestamp"
    if "lookup_session example_wallet ''CD'' (2 ^ 63) (snd (auth_run example_wallet example_config example_ops)) = Inl e" for e
    using that stored_rows_well_typed [of example_wallet example_config example_ops, OF surjective_pairing _ _ _ _ _ _,
        of wallet_user "(1, 2, 3, 4)" "''CD''" "[67, 69]" "2 ^ 63"]
    by (simp add: example_ops_def example_config_def wallet_user_def typed_config_def typed_user_def canonical_word_def
        felts_valid_def word_felts_def FELT_MODULUS_def example_wallet_def)
  with example_late_lookup show ?thesis by blast
qed

section \<open>Service credentials\<close>

lemma or_fold_0:
  "foldl (\<lambda>d i. d OR f i) (a :: nat) is = 0 \<longleftrightarrow> a = 0 \<and> (\<forall>i\<in>set is. f i = 0)"
  by (induction "is" arbitrary: a) (auto simp: or_eq_0_iff)

lemma xor_nat_0: "(a :: nat) XOR b = 0 \<longleftrightarrow> a = b"
  by (metis xor.assoc xor.right_neutral xor_self_eq)

lemma xor_word_0: "(a :: 'a::len word) XOR b = 0 \<longleftrightarrow> a = b"
  by (metis xor.assoc xor.right_neutral xor_self_eq)

text \<open>
  C38: The comparison that does not stop early decides equality: whatever the lengths, its loop over the longer of
  both texts ends with no difference exactly when they are the same text. So a bearer credential is accepted
  exactly when it is the primary or the configured next one, and a header that is missing, no text, of another
  scheme or empty never is.
\<close>
theorem authorizes_configured_credentials:
  "(constant_time_eq candidate expected \<longleftrightarrow> candidate = expected)
   \<and> (authorizes sc h \<longleftrightarrow>
       (\<exists>token. h = HeaderText (''Bearer '' @ token) \<and> token \<noteq> [] \<and> (token = sc_primary sc \<or> sc_next sc = Some token)))"
proof -
  have eq: "constant_time_eq s t \<longleftrightarrow> s = t" for s t
  proof
    assume "constant_time_eq s t"
    then have *: "length (ascii s) = length (ascii t)"
      "\<forall>i<length (ascii s). byte_at (ascii s) i = byte_at (ascii t) i"
      by (auto simp: constant_time_eq_def Let_def or_fold_0 xor_nat_0 unat_eq_0 xor_word_0)
    then have "ascii s = ascii t" by (intro nth_equalityI) (auto simp: byte_at_def)
    then show "s = t" by simp
  qed (auto simp: constant_time_eq_def Let_def or_fold_0)
  have bearer: "service_bearer h = Some token \<longleftrightarrow> h = HeaderText (''Bearer '' @ token) \<and> token \<noteq> []" for token
  proof (cases h)
    case (HeaderText v)
    have "take 7 v = ''Bearer '' \<Longrightarrow> v = ''Bearer '' @ drop 7 v" by (metis append_take_drop_id)
    then show ?thesis by (auto simp: HeaderText service_bearer_def)
  qed (simp_all add: service_bearer_def)
  show ?thesis
  proof (cases "service_bearer h")
    case None
    then have "h \<noteq> HeaderText (''Bearer '' @ token) \<or> token = []" for token using bearer [of token] by auto
    with None show ?thesis by (auto simp: eq authorizes_def)
  next
    case (Some t)
    then have "h = HeaderText (''Bearer '' @ t)" "t \<noteq> []" using bearer by auto
    with Some show ?thesis by (auto simp: eq authorizes_def split: option.splits)
  qed
qed

end
