(* ===== verification/Ingress.thy ===== *)
theory Ingress
  imports Auth_Store
begin

text \<open>
  The bounded-ingress policy (\<open>src/src/ingress.rs\<close>): its configuration from the environment, the
  origin and client-address rules, the fixed-window rate limiter, the middleware that applies them and
  the non-blocking worker permits. Instants and durations are counted in nanoseconds; the environment,
  the parser and the printer of IP addresses and the hash of a token are arguments. The limiter's map is
  a list of keys and buckets, and one request at a time goes through it.
\<close>

section \<open>Configuration\<close>

definition NANOS_PER_SEC :: nat where
  "NANOS_PER_SEC = 1000000000"

record ingress_config =
  allowed_origins :: "string list"
  request_body_bytes :: nat
  request_timeout :: nat
  db_concurrency :: nat
  rpc_concurrency :: nat
  ws_queue_capacity :: nat
  ws_global_cap :: nat
  ws_per_ip_cap :: nat
  ws_message_bytes :: nat
  ws_max_subscriptions :: nat
  ws_session_recheck :: nat
  ws_ping_interval :: nat
  ws_pong_timeout :: nat
  ws_write_timeout :: nat
  trust_proxy :: bool
  proxy_tls_terminated :: bool
  public_rate :: nat
  auth_rate :: nat
  mutation_rate :: nat
  max_rate_keys :: nat
  window :: nat

text \<open>\<open>str::parse\<close> of an unsigned integer of a given width: an optional plus sign and digits.\<close>

definition digit :: "char \<Rightarrow> nat option" where
  "digit x = (let n = of_char x :: nat in if 48 \<le> n \<and> n \<le> 57 then Some (n - 48) else None)"

fun parse_digits :: "nat \<Rightarrow> string \<Rightarrow> nat option" where
  "parse_digits acc [] = Some acc"
| "parse_digits acc (x # xs) = (case digit x of None \<Rightarrow> None | Some d \<Rightarrow> parse_digits (10 * acc + d) xs)"

definition parse_unsigned :: "nat \<Rightarrow> string \<Rightarrow> nat option" where
  "parse_unsigned bits s =
     (let ds = (case s of [] \<Rightarrow> [] | x # xs \<Rightarrow> if x = CHR ''+'' then xs else s)
      in if ds = [] then None
         else (case parse_digits 0 ds of None \<Rightarrow> None | Some n \<Rightarrow> if n < 2 ^ bits then Some n else None))"

definition parse_bool :: "string \<Rightarrow> bool option" where
  "parse_bool s = (if s = ''true'' then Some True else if s = ''false'' then Some False else None)"

type_synonym env = "string \<Rightarrow> string option"

definition number :: "nat \<Rightarrow> env \<Rightarrow> string \<Rightarrow> nat \<Rightarrow> nat" where
  "number bits env name fallback =
     (case Option.bind (env name) (parse_unsigned bits) of None \<Rightarrow> fallback | Some n \<Rightarrow> n)"

definition flag :: "env \<Rightarrow> string \<Rightarrow> bool \<Rightarrow> bool" where
  "flag env name fallback = (case Option.bind (env name) parse_bool of None \<Rightarrow> fallback | Some v \<Rightarrow> v)"

function split_on :: "char \<Rightarrow> string \<Rightarrow> string list" where
  "split_on x s =
     (let rest = dropWhile (\<lambda>y. y \<noteq> x) s
      in takeWhile (\<lambda>y. y \<noteq> x) s # (if rest = [] then [] else split_on x (tl rest)))"
  by pat_completeness auto

termination split_on
proof (relation "measure (\<lambda>(x, s). length s)")
  fix x s and rest :: string
  assume "rest = dropWhile (\<lambda>y. y \<noteq> x) s" "rest \<noteq> []"
  then have "length (tl rest) < length rest" "length rest \<le> length s" by (simp_all add: length_dropWhile_le)
  then show "((x, tl rest), (x, s)) \<in> measure (\<lambda>(x, s). length s)" by simp
qed simp

declare split_on.simps [simp del]

definition whitespace :: "char \<Rightarrow> bool" where
  "whitespace x \<longleftrightarrow> ascii_whitespace x \<or> x = CHR 0x0B"

definition trim :: "string \<Rightarrow> string" where
  "trim s = rev (dropWhile whitespace (rev (dropWhile whitespace s)))"

definition csv :: "env \<Rightarrow> string \<Rightarrow> string \<Rightarrow> string list" where
  "csv env name fallback =
     filter (\<lambda>v. v \<noteq> [])
       (map trim (split_on (CHR '','') (case env name of None \<Rightarrow> fallback | Some v \<Rightarrow> v)))"

definition from_secs :: "nat \<Rightarrow> nat" where
  "from_secs n = n * NANOS_PER_SEC"

definition ingress_from_env :: "env \<Rightarrow> ingress_config" where
  "ingress_from_env env =
     \<lparr>allowed_origins = csv env ''CORS_ALLOWED_ORIGINS''
        ''http://localhost:3000,http://localhost:5173,https://minizeke.b-cdn.net'',
      request_body_bytes = number 64 env ''HTTP_MAX_BODY_BYTES'' 1048576,
      request_timeout = from_secs (number 64 env ''HTTP_REQUEST_TIMEOUT_SECS'' 15),
      db_concurrency = max (number 64 env ''DB_MAX_CONCURRENCY'' 8) 1,
      rpc_concurrency = max (number 64 env ''MIDEN_RPC_MAX_CONCURRENCY'' 8) 1,
      ws_queue_capacity = max (number 64 env ''WS_QUEUE_CAPACITY'' 128) 1,
      ws_global_cap = max (number 64 env ''WS_GLOBAL_CONNECTION_CAP'' 2000) 1,
      ws_per_ip_cap = max (number 64 env ''WS_PER_IP_CONNECTION_CAP'' 256) 1,
      ws_message_bytes = max (number 64 env ''WS_MAX_MESSAGE_BYTES'' 65536) 1,
      ws_max_subscriptions = max (number 64 env ''WS_MAX_SUBSCRIPTIONS'' 64) 1,
      ws_session_recheck = from_secs (number 64 env ''WS_SESSION_RECHECK_SECS'' 30),
      ws_ping_interval = from_secs (number 64 env ''WS_PING_INTERVAL_SECS'' 20),
      ws_pong_timeout = from_secs (number 64 env ''WS_PONG_TIMEOUT_SECS'' 60),
      ws_write_timeout = from_secs (number 64 env ''WS_WRITE_TIMEOUT_SECS'' 10),
      trust_proxy = flag env ''TRUST_PROXY_HEADERS'' False,
      proxy_tls_terminated = flag env ''TRUST_PROXY_TLS_TERMINATED'' False,
      public_rate = number 32 env ''RATE_LIMIT_PUBLIC_PER_MINUTE'' 240,
      auth_rate = number 32 env ''RATE_LIMIT_AUTH_PER_MINUTE'' 20,
      mutation_rate = number 32 env ''RATE_LIMIT_MUTATION_PER_MINUTE'' 60,
      max_rate_keys = max (number 64 env ''RATE_LIMIT_MAX_KEYS'' 100000) 1,
      window = from_secs 60\<rparr>"

section \<open>Requests\<close>

datatype http_method = GET | OtherMethod

record 'ip http_request =
  rq_method :: http_method
  rq_path :: string
  rq_origin :: header_value
  rq_forwarded_for :: header_value
  rq_authorization :: header_value
  rq_peer :: "'ip option"

definition origin_allowed :: "ingress_config \<Rightarrow> header_value \<Rightarrow> bool" where
  "origin_allowed cfg h =
     (case h of
        NoHeader \<Rightarrow> True
      | NotText \<Rightarrow> False
      | HeaderText origin \<Rightarrow> list_ex (\<lambda>allowed. allowed = origin) (allowed_origins cfg))"

definition client_ip :: "(string \<Rightarrow> 'ip option) \<Rightarrow> ingress_config \<Rightarrow> header_value \<Rightarrow> 'ip option \<Rightarrow> 'ip option" where
  "client_ip parse_ip cfg forwarded peer =
     (if trust_proxy cfg \<and> proxy_tls_terminated cfg
      then (case forwarded of
              HeaderText value \<Rightarrow>
                (case parse_ip (trim (hd (split_on (CHR '','') value))) of Some ip \<Rightarrow> Some ip | None \<Rightarrow> peer)
            | _ \<Rightarrow> peer)
      else peer)"

section \<open>Rate limiter\<close>

record bucket =
  started :: nat
  used :: nat

type_synonym buckets = "(string \<times> bucket) list"

text \<open>A request that is let through has the result None; another is told how many seconds to wait.\<close>

definition put_bucket :: "string \<Rightarrow> bucket \<Rightarrow> buckets \<Rightarrow> buckets" where
  "put_bucket key b bs = (key, b) # filter (\<lambda>(k, _). k \<noteq> key) bs"

definition allow :: "ingress_config \<Rightarrow> nat \<Rightarrow> string \<Rightarrow> nat \<Rightarrow> buckets \<Rightarrow> nat option \<times> buckets" where
  "allow cfg now key limit bs =
     (let bs1 = (if map_of bs key = None \<and> max_rate_keys cfg \<le> length bs
                 then filter (\<lambda>(_, b). now - started b < window cfg) bs else bs)
      in if map_of bs key = None \<and> max_rate_keys cfg \<le> length bs \<and> max_rate_keys cfg \<le> length bs1
         then (Some 1, bs1)
         else let b0 = (case map_of bs1 key of Some b \<Rightarrow> b | None \<Rightarrow> \<lparr>started = now, used = 0\<rparr>);
                  b = (if window cfg \<le> now - started b0 then \<lparr>started = now, used = 0\<rparr> else b0)
              in if limit \<le> used b
                 then (Some (max ((window cfg - (now - started b)) div NANOS_PER_SEC) 1), put_bucket key b bs1)
                 else (None, put_bucket key (b\<lparr>used := used b + 1\<rparr>) bs1))"

section \<open>Middleware\<close>

datatype verdict =
    Forbidden string
  | TooManyRequests string nat
  | Passed

fun decimal :: "nat \<Rightarrow> string" where
  "decimal n = (if n < 10 then [char_of (48 + n)] else decimal (n div 10) @ [char_of (48 + n mod 10)])"

declare decimal.simps [simp del]

definition route_class :: "ingress_config \<Rightarrow> 'ip http_request \<Rightarrow> string \<times> nat" where
  "route_class cfg rq =
     (if take 6 (rq_path rq) = ''/auth/'' then (''auth'', auth_rate cfg)
      else if rq_method rq \<noteq> GET then (''mutation'', mutation_rate cfg)
      else (''public'', public_rate cfg))"

definition rate_key ::
  "(string \<Rightarrow> 'ip option) \<Rightarrow> ('ip \<Rightarrow> string) \<Rightarrow> (string \<Rightarrow> u64) \<Rightarrow> ingress_config \<Rightarrow> 'ip http_request \<Rightarrow> string" where
  "rate_key parse_ip show_ip token_fingerprint cfg rq =
     (let ip = (case client_ip parse_ip cfg (rq_forwarded_for rq) (rq_peer rq) of Some a \<Rightarrow> show_ip a | None \<Rightarrow> ''unknown'');
          identity = (case rq_authorization rq of HeaderText t \<Rightarrow> token_fingerprint t | _ \<Rightarrow> 0)
      in fst (route_class cfg rq) @ '':'' @ ip @ '':'' @ decimal (unat identity))"

definition enforce ::
  "(string \<Rightarrow> 'ip option) \<Rightarrow> ('ip \<Rightarrow> string) \<Rightarrow> (string \<Rightarrow> u64) \<Rightarrow> ingress_config \<Rightarrow> nat \<Rightarrow> 'ip http_request \<Rightarrow> buckets
     \<Rightarrow> verdict \<times> buckets" where
  "enforce parse_ip show_ip token_fingerprint cfg now rq bs =
     (if \<not> origin_allowed cfg (rq_origin rq) then (Forbidden ''origin is not allowed'', bs)
      else case allow cfg now (rate_key parse_ip show_ip token_fingerprint cfg rq) (snd (route_class cfg rq)) bs of
             (Some retry_after, bs') \<Rightarrow> (TooManyRequests ''rate limit exceeded'' retry_after, bs')
           | (None, bs') \<Rightarrow> (Passed, bs'))"

section \<open>Worker permits\<close>

record work_limits =
  db_permits :: nat
  rpc_permits :: nat

definition new_work_limits :: "ingress_config \<Rightarrow> work_limits" where
  "new_work_limits cfg = \<lparr>db_permits = db_concurrency cfg, rpc_permits = rpc_concurrency cfg\<rparr>"

definition acquire :: "nat \<Rightarrow> nat result" where
  "acquire permits = (if permits = 0 then Inl (Anyhow ''bounded worker pool is saturated'') else Inr (permits - 1))"

text \<open>
  \<open>permits\<close> is the number of free permits when the work is asked for; a panic of the blocking worker
  is an error of its caller, one of the RPC future is the caller's own.
\<close>

definition database :: "nat \<Rightarrow> 'a result \<Rightarrow> 'a result" where
  "database permits work =
     and_then (acquire permits) (\<lambda>_.
       case work of
         Inl (Panic p) \<Rightarrow> Inl (Anyhow ''database worker failed'')
       | _ \<Rightarrow> work)"

definition rpc :: "nat \<Rightarrow> 'a result \<Rightarrow> 'a result" where
  "rpc permits future = and_then (acquire permits) (\<lambda>_. future)"

end
