(* ===== verification/Ingress_Properties.thy ===== *)
theory Ingress_Properties
  imports Ingress
begin

text \<open>
  What the rate limiter promises: bounded memory, and for each client key a bound on the requests
  let through in any interval of one window. The proof assigns each admitted request the start of the
  bucket that counted it: starts of one key are a window apart, and a bucket counts at most the limit.
\<close>

section \<open>Windows of one key\<close>

text \<open>\<open>H\<close> lists the admitted requests of a key, each with the start of the bucket that counted it.\<close>

definition windows :: "nat \<Rightarrow> nat \<Rightarrow> nat \<Rightarrow> (nat \<times> nat) list \<Rightarrow> bucket option \<Rightarrow> bool" where
  "windows W L T H ob \<longleftrightarrow>
     (\<forall>(t, s)\<in>set H. s \<le> t \<and> t < s + W \<and> t \<le> T)
     \<and> (\<forall>(t, s)\<in>set H. \<forall>(t', s')\<in>set H. s < s' \<longrightarrow> s + W \<le> s')
     \<and> (\<forall>s. length (filter (\<lambda>(_, s'). s' = s) H) \<le> L)
     \<and> (case ob of
          None \<Rightarrow> \<forall>(_, s)\<in>set H. s + W \<le> T
        | Some b \<Rightarrow> started b \<le> T \<and> used b = length (filter (\<lambda>(_, s). s = started b) H)
            \<and> (\<forall>(_, s)\<in>set H. s = started b \<or> s + W \<le> started b))"

lemma windows_mono: "windows W L T H ob \<Longrightarrow> T \<le> T' \<Longrightarrow> windows W L T' H ob"
  unfolding windows_def by (cases ob) (fastforce intro: order_trans)+

lemma windows_expire: "windows W L T H (Some b) \<Longrightarrow> W \<le> T - started b \<Longrightarrow> windows W L T H None"
  unfolding windows_def by fastforce

lemma windows_fresh: "windows W L T H None \<Longrightarrow> 0 < W \<Longrightarrow> windows W L T H (Some \<lparr>started = T, used = 0\<rparr>)"
  unfolding windows_def by (fastforce simp: filter_empty_conv)

lemma windows_admit:
  assumes "windows W L T H (Some b)" "T - started b < W" "used b < L"
  shows "windows W L T (H @ [(T, started b)]) (Some (b\<lparr>used := used b + 1\<rparr>))"
proof -
  have "length (filter (\<lambda>(_, s'). s' = s) (H @ [(T, started b)])) \<le> L" for s
    using assms by (cases "s = started b") (auto simp: windows_def)
  then show ?thesis using assms unfolding windows_def by fastforce
qed

lemma windows_interval:
  assumes "windows W L T H ob"
  shows "length (filter (\<lambda>(t, s). a \<le> t \<and> t < a + W) H) \<le> 2 * L"
proof -
  let ?I = "filter (\<lambda>(t, s). a \<le> t \<and> t < a + W) H"
  have sub: "length (filter P (filter Q H)) \<le> length (filter P H)" for P Q
    by (induction H) auto
  have each: "length (filter (\<lambda>(_, s'). s' = s) ?I) \<le> L" for s
    using assms sub unfolding windows_def by (meson le_trans)
  have one_of_two: "length xs \<le> length (filter P xs) + length (filter Q xs)"
    if "\<forall>x\<in>set xs. P x \<or> Q x" for xs :: "(nat \<times> nat) list" and P Q
    using that by (induction xs) auto
  show ?thesis
  proof (cases "?I = []")
    case False
    define s1 where "s1 = Min (snd ` set ?I)"
    have "s1 \<in> snd ` set ?I" unfolding s1_def using False by (intro Min_in) (simp_all del: set_filter)
    then obtain t1 where t1: "(t1, s1) \<in> set H" "a \<le> t1" "t1 < a + W" by auto
    have least: "s1 \<le> s" if "(t, s) \<in> set ?I" for t s
      unfolding s1_def using that by (intro Min_le) (auto simp: image_iff intro!: bexI [of _ "(t, s)"])
    have apart: "s + W \<le> s'" if "(t, s) \<in> set H" "(t', s') \<in> set H" "s < s'" for t s t' s'
      using assms that unfolding windows_def by blast
    have inside: "s \<le> t \<and> t < s + W" if "(t, s) \<in> set H" for t s
      using assms that unfolding windows_def by blast
    have "\<exists>s2. \<forall>(t, s)\<in>set ?I. s = s1 \<or> s = s2"
    proof (cases "\<exists>(t, s)\<in>set ?I. s \<noteq> s1")
      case True
      then obtain t2 s2 where I2: "(t2, s2) \<in> set ?I" "s2 \<noteq> s1" by blast
      have "s = s1 \<or> s = s2" if I: "(t, s) \<in> set ?I" for t s
      proof (rule ccontr)
        assume *: "\<not> (s = s1 \<or> s = s2)"
        have H: "(t, s) \<in> set H" "(t2, s2) \<in> set H" "t < a + W" "t2 < a + W" using I I2(1) by auto
        have lt: "s1 < s" "s1 < s2" using least [OF I] least [OF I2(1)] * I2(2) by simp_all
        have "s1 + W \<le> s" "s1 + W \<le> s2" using apart [OF t1(1) H(1)] apart [OF t1(1) H(2)] lt by simp_all
        moreover have "s + W \<le> s2 \<or> s2 + W \<le> s"
          using apart [OF H(1,2)] apart [OF H(2,1)] * by (meson linorder_neqE_nat)
        moreover have "s \<le> t" "s2 \<le> t2" "t1 < s1 + W" using inside H(1,2) t1(1) by blast+
        ultimately show False using H(3,4) t1(2) by linarith
      qed
      then show ?thesis by blast
    qed auto
    then obtain s2 where "\<forall>(t, s)\<in>set ?I. s = s1 \<or> s = s2" by blast
    then have "length ?I \<le> length (filter (\<lambda>(_, s'). s' = s1) ?I) + length (filter (\<lambda>(_, s'). s' = s2) ?I)"
      by (intro one_of_two) auto
    with each [of s1] each [of s2] show ?thesis by linarith
  qed simp
qed

section \<open>The limiter\<close>

text \<open>What a request does to the buckets: a full map is swept, the key's bucket is renewed when its window is over.\<close>

definition swept :: "ingress_config \<Rightarrow> nat \<Rightarrow> string \<Rightarrow> buckets \<Rightarrow> buckets" where
  "swept cfg now key bs =
     (if map_of bs key = None \<and> max_rate_keys cfg \<le> length bs
      then filter (\<lambda>(_, b). now - started b < window cfg) bs else bs)"

definition renewed :: "ingress_config \<Rightarrow> nat \<Rightarrow> bucket option \<Rightarrow> bucket" where
  "renewed cfg now ob =
     (case ob of
        None \<Rightarrow> \<lparr>started = now, used = 0\<rparr>
      | Some b \<Rightarrow> if window cfg \<le> now - started b then \<lparr>started = now, used = 0\<rparr> else b)"

lemma map_of_filter_live:
  "distinct (map fst bs) \<Longrightarrow> map_of (filter (\<lambda>(_, b). P b) bs) k = (case map_of bs k of None \<Rightarrow> None | Some b \<Rightarrow> if P b then Some b else None)"
proof (induction bs)
  case (Cons x bs)
  obtain k' b where x: "x = (k', b)" by fastforce
  have "k' \<notin> fst ` set bs" using Cons.prems by (simp add: x)
  then have "map_of bs k' = None" by (simp add: map_of_eq_None_iff)
  then show ?case using Cons by (auto simp: x split: option.splits)
qed simp

lemma map_of_put_bucket: "map_of (put_bucket key b bs) k = (if k = key then Some b else map_of bs k)"
proof -
  have "k \<noteq> key \<Longrightarrow> map_of (filter (\<lambda>(k, _). k \<noteq> key) bs) k = map_of bs k"
    by (induction bs) auto
  then show ?thesis by (simp add: put_bucket_def)
qed

lemma put_bucket_wf:
  assumes "distinct (map fst bs)"
  shows "distinct (map fst (put_bucket key b bs))"
    and "map_of bs key \<noteq> None \<Longrightarrow> length (put_bucket key b bs) \<le> length bs"
    and "length (put_bucket key b bs) \<le> Suc (length bs)"
proof -
  show "distinct (map fst (put_bucket key b bs))"
    using assms by (auto simp: put_bucket_def distinct_map_filter)
  show "length (put_bucket key b bs) \<le> Suc (length bs)" by (simp add: put_bucket_def)
  assume "map_of bs key \<noteq> None"
  then obtain b' where "(key, b') \<in> set bs" by (auto dest: map_of_SomeD)
  then have "length (filter (\<lambda>(k, _). k \<noteq> key) bs) < length bs" by (rule length_filter_less) simp
  then show "length (put_bucket key b bs) \<le> length bs" by (simp add: put_bucket_def)
qed

lemma renewed_alt:
  "renewed cfg now ob =
     (let b0 = (case ob of Some b \<Rightarrow> b | None \<Rightarrow> \<lparr>started = now, used = 0\<rparr>)
      in if window cfg \<le> now - started b0 then \<lparr>started = now, used = 0\<rparr> else b0)"
  by (simp add: renewed_def split: option.split)

lemma allow_unfold:
  "allow cfg now key limit bs =
     (if map_of bs key = None \<and> max_rate_keys cfg \<le> length bs \<and> max_rate_keys cfg \<le> length (swept cfg now key bs)
      then (Some 1, swept cfg now key bs)
      else let b = renewed cfg now (map_of (swept cfg now key bs) key)
           in if limit \<le> used b
              then (Some (max ((window cfg - (now - started b)) div NANOS_PER_SEC) 1), put_bucket key b (swept cfg now key bs))
              else (None, put_bucket key (b\<lparr>used := used b + 1\<rparr>) (swept cfg now key bs)))"
  by (simp only: allow_def swept_def renewed_alt Let_def)

lemma swept_wf: "distinct (map fst bs) \<Longrightarrow> distinct (map fst (swept cfg now key bs))"
  by (simp add: swept_def distinct_map_filter)

lemma length_swept: "length (swept cfg now key bs) \<le> length bs"
  by (simp add: swept_def)

lemma allow_wf:
  assumes "distinct (map fst bs)" "length bs \<le> max_rate_keys cfg" "0 < max_rate_keys cfg"
  shows "distinct (map fst (snd (allow cfg now key limit bs)))" "length (snd (allow cfg now key limit bs)) \<le> max_rate_keys cfg"
proof -
  note wf = put_bucket_wf [OF swept_wf [OF assms(1), of cfg now key], where key = key]
  show "distinct (map fst (snd (allow cfg now key limit bs)))"
    using wf(1) swept_wf [OF assms(1)] by (simp add: allow_unfold Let_def)
  have le: "length (swept cfg now key bs) \<le> max_rate_keys cfg" using length_swept assms(2) le_trans by blast
  have "length (put_bucket key b (swept cfg now key bs)) \<le> max_rate_keys cfg"
    if "\<not> (map_of bs key = None \<and> max_rate_keys cfg \<le> length bs \<and> max_rate_keys cfg \<le> length (swept cfg now key bs))" for b
  proof (cases "map_of bs key")
    case None
    then have "length (swept cfg now key bs) < max_rate_keys cfg" using that by (auto simp: swept_def)
    with wf(3) [of b] show ?thesis by linarith
  next
    case (Some b')
    then have "swept cfg now key bs = bs" by (simp add: swept_def)
    with wf(2) [of b] Some le show ?thesis by simp
  qed
  then show "length (snd (allow cfg now key limit bs)) \<le> max_rate_keys cfg"
    using le by (simp add: allow_unfold Let_def)
qed

lemma windows_swept:
  assumes "distinct (map fst bs)" "windows (window cfg) L now H (map_of bs k)"
  shows "windows (window cfg) L now H (map_of (swept cfg now key bs) k)"
  using assms windows_expire
  by (auto simp: swept_def map_of_filter_live not_less split: option.splits)

lemma windows_renewed:
  assumes "windows (window cfg) L now H ob" "0 < window cfg"
  shows "windows (window cfg) L now H (Some (renewed cfg now ob))"
proof (cases ob)
  case None
  with assms show ?thesis by (simp add: renewed_def windows_fresh)
next
  case (Some b)
  with assms show ?thesis by (simp add: renewed_def windows_fresh windows_expire [of _ L now H b])
qed

lemma renewed_live: "0 < window cfg \<Longrightarrow> now - started (renewed cfg now ob) < window cfg"
  by (simp add: renewed_def split: option.splits)

text \<open>One request keeps the windows of every key, its own extended when it is let through.\<close>

lemma windows_allow:
  assumes "distinct (map fst bs)" "0 < window cfg" "windows (window cfg) L now H (map_of bs k)" "k = key \<longrightarrow> limit = L"
    and "allow cfg now key limit bs = (r, bs')"
  shows "if k = key \<and> r = None then \<exists>s. windows (window cfg) L now (H @ [(now, s)]) (map_of bs' k)
         else windows (window cfg) L now H (map_of bs' k)"
proof -
  let ?sw = "swept cfg now key bs"
  let ?b = "renewed cfg now (map_of ?sw key)"
  have sw: "windows (window cfg) L now H (map_of ?sw k)" by (rule windows_swept [OF assms(1,3)])
  have own: "k = key \<Longrightarrow> windows (window cfg) L now H (Some ?b)" using windows_renewed [OF sw assms(2)] by simp
  have admit: "windows (window cfg) L now (H @ [(now, started ?b)]) (Some (?b\<lparr>used := used ?b + 1\<rparr>))"
    if "k = key" "used ?b < limit"
    using that assms(4) by (intro windows_admit own renewed_live assms(2)) simp_all
  show ?thesis
    using assms(5) sw own admit
    by (auto simp: allow_unfold Let_def map_of_put_bucket split: if_splits)
qed

section \<open>Requests through the middleware\<close>

text \<open>The key starts with the class of the route, so requests of one key share a limit.\<close>

lemma rate_key_route:
  assumes "rate_key parse_ip show_ip fp cfg rq = rate_key parse_ip show_ip fp cfg rq'"
  shows "route_class cfg rq = route_class cfg rq'"
proof -
  have head: "takeWhile (\<lambda>x. x \<noteq> CHR '':'') (rate_key parse_ip show_ip fp cfg q) = fst (route_class cfg q)" for q
    by (simp add: rate_key_def Let_def route_class_def)
  have "fst (route_class cfg rq) = fst (route_class cfg rq')" using head assms by metis
  then show ?thesis by (auto simp: route_class_def split: if_splits)
qed

fun ingress_step ::
  "(string \<Rightarrow> 'ip option) \<Rightarrow> ('ip \<Rightarrow> string) \<Rightarrow> (string \<Rightarrow> u64) \<Rightarrow> ingress_config \<Rightarrow> nat \<times> 'ip http_request
     \<Rightarrow> (nat \<times> 'ip http_request \<times> verdict) list \<times> buckets \<Rightarrow> (nat \<times> 'ip http_request \<times> verdict) list \<times> buckets" where
  "ingress_step parse_ip show_ip fp cfg (now, rq) (hist, bs) =
     (let (v, bs') = enforce parse_ip show_ip fp cfg now rq bs in (hist @ [(now, rq, v)], bs'))"

definition ingress_run ::
  "(string \<Rightarrow> 'ip option) \<Rightarrow> ('ip \<Rightarrow> string) \<Rightarrow> (string \<Rightarrow> u64) \<Rightarrow> ingress_config \<Rightarrow> (nat \<times> 'ip http_request) list
     \<Rightarrow> (nat \<times> 'ip http_request \<times> verdict) list \<times> buckets" where
  "ingress_run parse_ip show_ip fp cfg reqs = fold (ingress_step parse_ip show_ip fp cfg) reqs ([], [])"

lemma ingress_from_env_positive [simp]:
  "window (ingress_from_env env) = 60 * NANOS_PER_SEC" "0 < max_rate_keys (ingress_from_env env)"
  by (simp_all add: ingress_from_env_def from_secs_def)

text \<open>The times of the requests of \<open>rq\<close>'s key that were let through.\<close>

definition passed_times ::
  "(string \<Rightarrow> 'ip option) \<Rightarrow> ('ip \<Rightarrow> string) \<Rightarrow> (string \<Rightarrow> u64) \<Rightarrow> ingress_config \<Rightarrow> string
     \<Rightarrow> (nat \<times> 'ip http_request \<times> verdict) list \<Rightarrow> nat list" where
  "passed_times parse_ip show_ip fp cfg key hist =
     map fst (filter (\<lambda>(_, rq, v). v = Passed \<and> rate_key parse_ip show_ip fp cfg rq = key) hist)"

definition limited ::
  "(string \<Rightarrow> 'ip option) \<Rightarrow> ('ip \<Rightarrow> string) \<Rightarrow> (string \<Rightarrow> u64) \<Rightarrow> ingress_config \<Rightarrow> 'ip http_request \<Rightarrow> nat
     \<Rightarrow> (nat \<times> 'ip http_request \<times> verdict) list \<times> buckets \<Rightarrow> bool" where
  "limited parse_ip show_ip fp cfg rq T = (\<lambda>(hist, bs).
     distinct (map fst bs) \<and> length bs \<le> max_rate_keys cfg
     \<and> (\<exists>H. map fst H = passed_times parse_ip show_ip fp cfg (rate_key parse_ip show_ip fp cfg rq) hist
          \<and> windows (window cfg) (snd (route_class cfg rq)) T H (map_of bs (rate_key parse_ip show_ip fp cfg rq))))"

lemma limited_step:
  assumes "limited parse_ip show_ip fp cfg rq T s" "T \<le> now" "0 < window cfg" "0 < max_rate_keys cfg"
  shows "limited parse_ip show_ip fp cfg rq now (ingress_step parse_ip show_ip fp cfg (now, rq') s)"
proof -
  let ?key = "rate_key parse_ip show_ip fp cfg"
  obtain hist bs where s: "s = (hist, bs)" by fastforce
  obtain H where wf: "distinct (map fst bs)" "length bs \<le> max_rate_keys cfg"
    and H: "map fst H = passed_times parse_ip show_ip fp cfg (?key rq) hist"
    and win: "windows (window cfg) (snd (route_class cfg rq)) now H (map_of bs (?key rq))"
    using assms(1,2) windows_mono by (fastforce simp: s limited_def)
  show ?thesis
  proof (cases "origin_allowed cfg (rq_origin rq')")
    case False
    with wf H win show ?thesis by (auto simp: s limited_def enforce_def passed_times_def)
  next
    case True
    obtain r bs' where allow: "allow cfg now (?key rq') (snd (route_class cfg rq')) bs = (r, bs')" by fastforce
    have wf': "distinct (map fst bs')" "length bs' \<le> max_rate_keys cfg"
      using allow_wf [OF wf assms(4), of now "?key rq'" "snd (route_class cfg rq')"] by (simp_all add: allow)
    have "?key rq = ?key rq' \<longrightarrow> snd (route_class cfg rq') = snd (route_class cfg rq)"
      using rate_key_route by metis
    from windows_allow [OF wf(1) assms(3) win this allow]
    show ?thesis
      using wf' H True
      by (cases r) (auto simp: s limited_def enforce_def allow passed_times_def split: if_splits
          intro: exI [of _ H] exI [of _ "H @ [(now, s)]" for s])
  qed
qed

lemma limited_run:
  assumes "sorted (map fst reqs)" "\<forall>(now, _)\<in>set reqs. T \<le> now" "0 < window cfg" "0 < max_rate_keys cfg"
    and "limited parse_ip show_ip fp cfg rq T s"
  shows "\<exists>T'. limited parse_ip show_ip fp cfg rq T' (fold (ingress_step parse_ip show_ip fp cfg) reqs s)"
  using assms
proof (induction reqs arbitrary: T s)
  case (Cons x reqs)
  obtain now rq' where x: "x = (now, rq')" by fastforce
  have "limited parse_ip show_ip fp cfg rq now (ingress_step parse_ip show_ip fp cfg x s)"
    using Cons.prems limited_step [of parse_ip show_ip fp cfg rq T s now rq'] by (auto simp: x)
  then have "\<exists>T'. limited parse_ip show_ip fp cfg rq T'
      (fold (ingress_step parse_ip show_ip fp cfg) reqs (ingress_step parse_ip show_ip fp cfg x s))"
    using Cons.prems by (intro Cons.IH [of now]) (auto simp: x)
  then show ?case by simp
qed auto

lemma origin_run:
  "\<forall>(_, rq, v)\<in>set (fst s). v = Passed \<longrightarrow> origin_allowed cfg (rq_origin rq) \<Longrightarrow>
   \<forall>(_, rq, v)\<in>set (fst (fold (ingress_step parse_ip show_ip fp cfg) reqs s)). v = Passed \<longrightarrow> origin_allowed cfg (rq_origin rq)"
proof (induction reqs arbitrary: s)
  case (Cons x reqs)
  obtain now rq where x: "x = (now, rq)" by fastforce
  have "\<forall>(_, rq, v)\<in>set (fst (ingress_step parse_ip show_ip fp cfg x s)). v = Passed \<longrightarrow> origin_allowed cfg (rq_origin rq)"
    using Cons.prems by (cases s) (auto simp: x enforce_def split: prod.splits option.splits if_splits)
  with Cons.IH show ?case by simp
qed simp

text \<open>
  C21: Ingress is bounded. Whatever requests arrive, in the order of their times, under any environment's
  configuration: the limiter never holds more buckets than its maximum; in any interval of one window
  (a minute) the requests let through for one client key (route class, address and token) are at most
  twice the limit of their route, the limit per fixed window; and none is let through from an origin that
  is not allowed.
\<close>
theorem ingress_bounded:
  assumes "ingress_run parse_ip show_ip fp (ingress_from_env env) reqs = (hist, bs)" and "sorted (map fst reqs)"
  shows "length bs \<le> max_rate_keys (ingress_from_env env)
    \<and> length (filter (\<lambda>(now, rq', v). v = Passed
          \<and> rate_key parse_ip show_ip fp (ingress_from_env env) rq' = rate_key parse_ip show_ip fp (ingress_from_env env) rq
          \<and> a \<le> now \<and> now < a + window (ingress_from_env env)) hist) \<le> 2 * snd (route_class (ingress_from_env env) rq)
    \<and> (\<forall>(_, rq', v)\<in>set hist. v = Passed \<longrightarrow> origin_allowed (ingress_from_env env) (rq_origin rq'))"
proof -
  let ?cfg = "ingress_from_env env"
  have pos: "0 < window ?cfg" "0 < max_rate_keys ?cfg" by (simp_all add: NANOS_PER_SEC_def)
  have "limited parse_ip show_ip fp ?cfg rq 0 ([], [])"
    by (auto simp: limited_def passed_times_def windows_def)
  with limited_run [OF assms(2) _ pos, of 0 parse_ip show_ip fp rq "([], [])"]
  obtain T where "limited parse_ip show_ip fp ?cfg rq T (hist, bs)"
    using assms(1) by (auto simp: ingress_run_def)
  then obtain H where le: "length bs \<le> max_rate_keys ?cfg"
    and H: "map fst H = passed_times parse_ip show_ip fp ?cfg (rate_key parse_ip show_ip fp ?cfg rq) hist"
    and win: "windows (window ?cfg) (snd (route_class ?cfg rq)) T H (map_of bs (rate_key parse_ip show_ip fp ?cfg rq))"
    by (auto simp: limited_def)
  have "length (filter (\<lambda>(now, rq', v). v = Passed \<and> rate_key parse_ip show_ip fp ?cfg rq' = rate_key parse_ip show_ip fp ?cfg rq
          \<and> a \<le> now \<and> now < a + window ?cfg) hist)
      = length (filter (\<lambda>t. a \<le> t \<and> t < a + window ?cfg)
          (passed_times parse_ip show_ip fp ?cfg (rate_key parse_ip show_ip fp ?cfg rq) hist))"
    by (auto simp: passed_times_def filter_map o_def case_prod_unfold intro: arg_cong [where f = length] filter_cong)
  also have "\<dots> = length (filter (\<lambda>(t, s). a \<le> t \<and> t < a + window ?cfg) H)"
    unfolding H [symmetric] by (simp add: filter_map o_def case_prod_unfold)
  also have "\<dots> \<le> 2 * snd (route_class ?cfg rq)" by (rule windows_interval [OF win])
  finally have bound: "length (filter (\<lambda>(now, rq', v). v = Passed \<and> rate_key parse_ip show_ip fp ?cfg rq' = rate_key parse_ip show_ip fp ?cfg rq
          \<and> a \<le> now \<and> now < a + window ?cfg) hist) \<le> 2 * snd (route_class ?cfg rq)" .
  have "\<forall>(_, rq', v)\<in>set hist. v = Passed \<longrightarrow> origin_allowed ?cfg (rq_origin rq')"
    using origin_run [of "([], [])" ?cfg parse_ip show_ip fp reqs] assms(1) by (simp add: ingress_run_def)
  with le bound show ?thesis by blast
qed

definition example_request :: "string http_request" where
  "example_request = \<lparr>rq_method = GET, rq_path = ''/pools'', rq_origin = NoHeader, rq_forwarded_for = NoHeader,
     rq_authorization = NoHeader, rq_peer = Some ''10.0.0.1''\<rparr>"

theorem ingress_bounded_witness:
  "length (snd (ingress_run (\<lambda>_. None) (\<lambda>a. a) (\<lambda>_. 5) (ingress_from_env (\<lambda>_. None)) [(0, example_request), (7, example_request)]))
     \<le> max_rate_keys (ingress_from_env (\<lambda>_. None))"
proof -
  obtain hist bs where run: "ingress_run (\<lambda>_. None) (\<lambda>a. a) (\<lambda>_. 5) (ingress_from_env (\<lambda>_. None))
      [(0, example_request), (7, example_request)] = (hist, bs)" by fastforce
  have "sorted (map fst [(0 :: nat, example_request), (7, example_request)])" by simp
  from ingress_bounded [OF run this, of example_request 0] show ?thesis by (simp add: run)
qed

end
