(* ===== verification/Connections.thy ===== *)
theory Connections
  imports Ingress Processing
begin

text \<open>
  The WebSocket server: the connection manager (\<open>src/src/websocket/connection_manager.rs\<close>), the
  messages and channels it speaks (\<open>src/src/message_broker/messages.rs\<close>) and the handlers of a
  connection (\<open>src/src/websocket/handlers.rs\<close>). A connection's bounded sender queue, its coalescing map
  and its metadata are one record; sockets, JSON, the printers of identifiers and the order history are
  arguments. Times are in nanoseconds.
\<close>

section \<open>Channels and messages\<close>

datatype subscription_channel =
    OrderUpdates "string option"
  | PoolStateCh "string option"
  | OraclePrices "string option"
  | UserEventCh "string option"
  | Analytics "string option"
  | AmmEventCh
  | StatsCh
  | Trades

definition covers :: "string option \<Rightarrow> string option \<Rightarrow> bool" where
  "covers a b \<longleftrightarrow> a = None \<or> a = b"

definition channel_matches :: "subscription_channel \<Rightarrow> subscription_channel \<Rightarrow> bool" where
  "channel_matches self other =
     (case self of
        OrderUpdates a \<Rightarrow> (case other of OrderUpdates b \<Rightarrow> covers a b | _ \<Rightarrow> False)
      | PoolStateCh a \<Rightarrow> (case other of PoolStateCh b \<Rightarrow> covers a b | _ \<Rightarrow> False)
      | OraclePrices a \<Rightarrow> (case other of OraclePrices b \<Rightarrow> covers a b | _ \<Rightarrow> False)
      | UserEventCh a \<Rightarrow> (case other of UserEventCh b \<Rightarrow> covers a b | _ \<Rightarrow> False)
      | Analytics a \<Rightarrow> (case other of Analytics b \<Rightarrow> covers a b | _ \<Rightarrow> False)
      | AmmEventCh \<Rightarrow> other = AmmEventCh
      | StatsCh \<Rightarrow> other = StatsCh
      | Trades \<Rightarrow> other = Trades)"

datatype client_message =
    Authenticate string
  | Subscribe "subscription_channel list"
  | Unsubscribe "subscription_channel list"
  | PingMsg

datatype server_message =
    Subscribed subscription_channel
  | Unsubscribed subscription_channel
  | Authenticated string u64
  | OrderUpdate string order_status u64
  | PoolStateUpdate string pool_state u64
  | OraclePriceUpdate string string u64 u64
  | StatsUpdate nat nat nat "order_status \<Rightarrow> nat" u64
  | UserUpdate string string u64
  | AnalyticsUpdate string u64
  | Trade string string string string u64 u64 u64 u64
  | AmmUpdate amm_event
  | Pong
  | ErrorMsg string

definition stats_update :: "order_stats \<Rightarrow> u64 \<Rightarrow> server_message" where
  "stats_update st ts = StatsUpdate (stats_total st) (stats_open st) (stats_closed st) (stats_by_status st) ts"

datatype ws_message = WsText string | WsPing

section \<open>Connections\<close>

record connection =
  cn_queue :: "ws_message list"
  cn_closed :: bool
  cn_coalesced :: "(subscription_channel \<times> ws_message) list"
  cn_ip :: "string option"
  cn_user :: "string option"
  cn_token :: "string option"
  cn_last_pong :: nat

record manager =
  connections :: "(uuid \<times> connection) list"
  subscriptions :: "(subscription_channel \<times> uuid list) list"

definition new_manager :: manager where
  "new_manager = \<lparr>connections = [], subscriptions = []\<rparr>"

text \<open>A hash map's insert, remove and update in place.\<close>

definition map_put :: "'k \<Rightarrow> 'v \<Rightarrow> ('k \<times> 'v) list \<Rightarrow> ('k \<times> 'v) list" where
  "map_put k v m = (k, v) # filter (\<lambda>(k', _). k' \<noteq> k) m"

definition map_remove :: "'k \<Rightarrow> ('k \<times> 'v) list \<Rightarrow> ('k \<times> 'v) list" where
  "map_remove k m = filter (\<lambda>(k', _). k' \<noteq> k) m"

definition update_connection :: "uuid \<Rightarrow> (connection \<Rightarrow> connection) \<Rightarrow> manager \<Rightarrow> manager" where
  "update_connection cid f mgr =
     mgr\<lparr>connections := map (\<lambda>(k, v). if k = cid then (k, f v) else (k, v)) (connections mgr)\<rparr>"

definition can_accept :: "ingress_config \<Rightarrow> string option \<Rightarrow> manager \<Rightarrow> bool" where
  "can_accept cfg ip mgr \<longleftrightarrow>
     length (connections mgr) < ws_global_cap cfg
     \<and> (case ip of None \<Rightarrow> True
        | Some a \<Rightarrow> length (filter (\<lambda>(_, x). cn_ip x = Some a) (connections mgr)) < ws_per_ip_cap cfg)"

definition add_connection :: "ingress_config \<Rightarrow> nat \<Rightarrow> uuid \<Rightarrow> string option \<Rightarrow> manager \<Rightarrow> bool \<times> manager" where
  "add_connection cfg now cid ip mgr =
     (if \<not> can_accept cfg ip mgr then (False, mgr)
      else (True, mgr\<lparr>connections := map_put cid
              \<lparr>cn_queue = [], cn_closed = False, cn_coalesced = [], cn_ip = ip, cn_user = None, cn_token = None,
               cn_last_pong = now\<rparr> (connections mgr)\<rparr>))"

definition remove_connection :: "uuid \<Rightarrow> manager \<Rightarrow> manager" where
  "remove_connection cid mgr =
     \<lparr>connections = map_remove cid (connections mgr),
      subscriptions = filter (\<lambda>(_, ids). ids \<noteq> []) (map (\<lambda>(ch, ids). (ch, removeAll cid ids)) (subscriptions mgr))\<rparr>"

definition subscribers :: "subscription_channel \<Rightarrow> manager \<Rightarrow> uuid list" where
  "subscribers ch mgr = (case map_of (subscriptions mgr) ch of None \<Rightarrow> [] | Some ids \<Rightarrow> ids)"

definition is_subscribed :: "uuid \<Rightarrow> subscription_channel \<Rightarrow> manager \<Rightarrow> bool" where
  "is_subscribed cid ch mgr \<longleftrightarrow> cid \<in> set (subscribers ch mgr)"

definition subscription_count :: "uuid \<Rightarrow> manager \<Rightarrow> nat" where
  "subscription_count cid mgr = length (filter (\<lambda>(_, ids). cid \<in> set ids) (subscriptions mgr))"

definition subscribe :: "ingress_config \<Rightarrow> uuid \<Rightarrow> subscription_channel \<Rightarrow> manager \<Rightarrow> bool \<times> manager" where
  "subscribe cfg cid ch mgr =
     (if ws_max_subscriptions cfg \<le> subscription_count cid mgr \<and> \<not> is_subscribed cid ch mgr then (False, mgr)
      else (True, mgr\<lparr>subscriptions := map_put ch (List.insert cid (subscribers ch mgr)) (subscriptions mgr)\<rparr>))"

definition unsubscribe :: "uuid \<Rightarrow> subscription_channel \<Rightarrow> manager \<Rightarrow> manager" where
  "unsubscribe cid ch mgr =
     mgr\<lparr>subscriptions := map (\<lambda>(k, ids). if k = ch then (k, removeAll cid ids) else (k, ids)) (subscriptions mgr)\<rparr>"

definition set_authenticated_user :: "uuid \<Rightarrow> string \<Rightarrow> string \<Rightarrow> manager \<Rightarrow> manager" where
  "set_authenticated_user cid user token = update_connection cid (\<lambda>x. x\<lparr>cn_user := Some user, cn_token := Some token\<rparr>)"

definition authenticated_user :: "uuid \<Rightarrow> manager \<Rightarrow> string option" where
  "authenticated_user cid mgr = Option.bind (map_of (connections mgr) cid) cn_user"

definition session_token :: "uuid \<Rightarrow> manager \<Rightarrow> string option" where
  "session_token cid mgr = Option.bind (map_of (connections mgr) cid) cn_token"

definition disconnect_session :: "string \<Rightarrow> manager \<Rightarrow> manager" where
  "disconnect_session token mgr =
     foldl (\<lambda>m cid. remove_connection cid m) mgr
       (map fst (filter (\<lambda>(_, x). cn_token x = Some token) (connections mgr)))"

definition take_coalesced :: "uuid \<Rightarrow> manager \<Rightarrow> ws_message list \<times> manager" where
  "take_coalesced cid mgr =
     ((case map_of (connections mgr) cid of None \<Rightarrow> [] | Some x \<Rightarrow> map snd (cn_coalesced x)),
      update_connection cid (\<lambda>x. x\<lparr>cn_coalesced := []\<rparr>) mgr)"

definition update_last_pong :: "nat \<Rightarrow> uuid \<Rightarrow> manager \<Rightarrow> manager" where
  "update_last_pong now cid = update_connection cid (\<lambda>x. x\<lparr>cn_last_pong := now\<rparr>)"

section \<open>Sending\<close>

datatype send_error = Full | Closed

definition try_send :: "ingress_config \<Rightarrow> ws_message \<Rightarrow> connection \<Rightarrow> send_error + connection" where
  "try_send cfg m x =
     (if cn_closed x then Inl Closed
      else if ws_queue_capacity cfg \<le> length (cn_queue x) then Inl Full
      else Inr (x\<lparr>cn_queue := cn_queue x @ [m]\<rparr>))"

definition send_to_connection ::
  "ingress_config \<Rightarrow> (server_message \<Rightarrow> string option) \<Rightarrow> uuid \<Rightarrow> server_message \<Rightarrow> manager \<Rightarrow> manager" where
  "send_to_connection cfg to_json cid msg mgr =
     (case map_of (connections mgr) cid of
        None \<Rightarrow> mgr
      | Some x \<Rightarrow>
          let json = (case to_json msg of
                        Some j \<Rightarrow> j
                      | None \<Rightarrow> (case to_json (ErrorMsg ''Failed to serialize message'') of Some j \<Rightarrow> j | None \<Rightarrow> []))
          in case try_send cfg (WsText json) x of
               Inl _ \<Rightarrow> remove_connection cid mgr
             | Inr x' \<Rightarrow> update_connection cid (\<lambda>y. y\<lparr>cn_queue := cn_queue x'\<rparr>) mgr)"

definition coalescing :: "subscription_channel \<Rightarrow> bool" where
  "coalescing ch = (case ch of OraclePrices _ \<Rightarrow> True | PoolStateCh _ \<Rightarrow> True | StatsCh \<Rightarrow> True | _ \<Rightarrow> False)"

text \<open>One subscriber of a broadcast; the list collects the connections too slow for it.\<close>

definition broadcast_one ::
  "ingress_config \<Rightarrow> subscription_channel \<Rightarrow> ws_message \<Rightarrow> manager \<times> uuid list \<Rightarrow> uuid \<Rightarrow> manager \<times> uuid list" where
  "broadcast_one cfg ch m = (\<lambda>(mgr, slow) cid.
     case map_of (connections mgr) cid of
       None \<Rightarrow> (mgr, slow)
     | Some x \<Rightarrow>
         (case try_send cfg m x of
            Inr x' \<Rightarrow> (update_connection cid (\<lambda>y. y\<lparr>cn_queue := cn_queue x'\<rparr>) mgr, slow)
          | Inl Full \<Rightarrow>
              if coalescing ch
              then (update_connection cid (\<lambda>x. x\<lparr>cn_coalesced := map_put ch m (cn_coalesced x)\<rparr>) mgr, slow)
              else (mgr, slow @ [cid])
          | Inl Closed \<Rightarrow> (mgr, slow @ [cid])))"

definition broadcast_to_channel ::
  "ingress_config \<Rightarrow> (server_message \<Rightarrow> string option) \<Rightarrow> subscription_channel \<Rightarrow> server_message \<Rightarrow> manager \<Rightarrow> manager" where
  "broadcast_to_channel cfg to_json ch msg mgr =
     (if subscribers ch mgr = [] then mgr
      else case to_json msg of
             None \<Rightarrow> mgr
           | Some json \<Rightarrow>
               let (mgr', slow) = foldl (broadcast_one cfg ch (WsText json)) (mgr, []) (subscribers ch mgr)
               in foldl (\<lambda>m cid. remove_connection cid m) mgr' slow)"

definition check_stale_connections :: "ingress_config \<Rightarrow> nat \<Rightarrow> manager \<Rightarrow> manager" where
  "check_stale_connections cfg now mgr =
     (let stale = map fst (filter (\<lambda>(_, x). ws_pong_timeout cfg < now - cn_last_pong x) (connections mgr));
          mgr' = foldl (\<lambda>m cid. remove_connection cid m) mgr stale
      in mgr'\<lparr>connections := map (\<lambda>(k, x). (k, case try_send cfg WsPing x of Inr x' \<Rightarrow> x' | Inl _ \<Rightarrow> x)) (connections mgr')\<rparr>)"

section \<open>Client messages\<close>

record history_order =
  ho_id :: string
  ho_user_id :: string
  ho_status :: string
  ho_last_updated_at :: u64

text \<open>What a handler reads besides the manager: the stores, the clocks and the library functions.\<close>

record ('pk, 'sg) ws_env =
  we_config :: ingress_config
  we_wallet :: "('pk, 'sg) wallet"
  we_auth :: auth_db
  we_permits :: nat
  we_secs :: u64
  we_millis :: u64
  we_instant :: nat
  we_to_json :: "server_message \<Rightarrow> string option"
  we_to_hex :: "account_id \<Rightarrow> string"
  we_show_uuid :: "uuid \<Rightarrow> string"
  we_parse_uuid :: "string \<Rightarrow> uuid option"
  we_show_error :: "error \<Rightarrow> string"
  we_history :: "uuid \<Rightarrow> history_order option"
  we_stats :: order_stats

abbreviation reply :: "('pk, 'sg) ws_env \<Rightarrow> uuid \<Rightarrow> server_message \<Rightarrow> manager \<Rightarrow> manager" where
  "reply env \<equiv> send_to_connection (we_config env) (we_to_json env)"

definition ws_session :: "('pk, 'sg) ws_env \<Rightarrow> string \<Rightarrow> auth_session option result" where
  "ws_session env token =
     database (we_permits env) (from_auth (lookup_session (we_wallet env) token (we_secs env) (we_auth env)))"

definition handle_authenticate :: "('pk, 'sg) ws_env \<Rightarrow> uuid \<Rightarrow> string \<Rightarrow> manager \<Rightarrow> manager" where
  "handle_authenticate env cid token mgr =
     (case ws_session env token of
        Inr (Some session) \<Rightarrow>
          reply env cid (Authenticated (we_to_hex env (ses_user_id session)) (ses_expires_at session))
            (set_authenticated_user cid (we_to_hex env (ses_user_id session)) token mgr)
      | Inr None \<Rightarrow> reply env cid (ErrorMsg ''expired or invalid session'') mgr
      | Inl e \<Rightarrow> reply env cid (ErrorMsg (''authentication unavailable: '' @ we_show_error env e)) mgr)"

definition parse_status :: "string \<Rightarrow> order_status option" where
  "parse_status s =
     find (\<lambda>st. status_str st = s) [SCreated, SProcessing, SProcessed, SSubmitted, SConfirmed, SExecuted, SSettled, SFailed]"

text \<open>Whether the connection may subscribe, and the current state of an order it may see.\<close>

definition private_allowed ::
  "('pk, 'sg) ws_env \<Rightarrow> string option \<Rightarrow> subscription_channel \<Rightarrow> bool \<times> server_message option" where
  "private_allowed env user ch =
     (case ch of
        UserEventCh (Some u) \<Rightarrow> (user = Some u, None)
      | UserEventCh None \<Rightarrow> (False, None)
      | Analytics (Some u) \<Rightarrow> (user = Some u, None)
      | Analytics None \<Rightarrow> (False, None)
      | OrderUpdates (Some oid) \<Rightarrow>
          (case we_parse_uuid env oid of
             None \<Rightarrow> (False, None)
           | Some i \<Rightarrow>
               (case we_history env i of
                  None \<Rightarrow> (False, None)
                | Some ord \<Rightarrow>
                    if user = Some (ho_user_id ord)
                    then (True, map_option (\<lambda>st. OrderUpdate (ho_id ord) st (ho_last_updated_at ord)) (parse_status (ho_status ord)))
                    else (False, None)))
      | OrderUpdates None \<Rightarrow> (False, None)
      | _ \<Rightarrow> (True, None))"

definition handle_subscribe :: "('pk, 'sg) ws_env \<Rightarrow> uuid \<Rightarrow> subscription_channel \<Rightarrow> manager \<Rightarrow> manager" where
  "handle_subscribe env cid ch mgr =
     (let (allowed, current_order) = private_allowed env (authenticated_user cid mgr) ch
      in if \<not> allowed then reply env cid (ErrorMsg ''authentication does not authorize this subscription'') mgr
         else case subscribe (we_config env) cid ch mgr of
                (False, mgr1) \<Rightarrow> reply env cid (ErrorMsg ''subscription limit exceeded'') mgr1
              | (True, mgr1) \<Rightarrow>
                  let mgr2 = reply env cid (Subscribed ch) mgr1;
                      mgr3 = (case current_order of None \<Rightarrow> mgr2 | Some update \<Rightarrow> reply env cid update mgr2)
                  in if ch = StatsCh then reply env cid (stats_update (we_stats env) (we_millis env)) mgr3 else mgr3)"

definition handle_unsubscribe :: "('pk, 'sg) ws_env \<Rightarrow> uuid \<Rightarrow> subscription_channel \<Rightarrow> manager \<Rightarrow> manager" where
  "handle_unsubscribe env cid ch mgr = reply env cid (Unsubscribed ch) (unsubscribe cid ch mgr)"

definition handle_client_message :: "('pk, 'sg) ws_env \<Rightarrow> uuid \<Rightarrow> client_message \<Rightarrow> manager \<Rightarrow> manager" where
  "handle_client_message env cid msg mgr =
     (case msg of
        Authenticate token \<Rightarrow> handle_authenticate env cid token mgr
      | Subscribe channels \<Rightarrow> foldl (\<lambda>m ch. handle_subscribe env cid ch m) mgr channels
      | Unsubscribe channels \<Rightarrow> foldl (\<lambda>m ch. handle_unsubscribe env cid ch m) mgr channels
      | PingMsg \<Rightarrow> update_last_pong (we_instant env) cid (reply env cid Pong mgr))"

definition revalidate_session :: "('pk, 'sg) ws_env \<Rightarrow> uuid \<Rightarrow> manager \<Rightarrow> bool \<times> manager" where
  "revalidate_session env cid mgr =
     (case session_token cid mgr of
        None \<Rightarrow> (True, mgr)
      | Some token \<Rightarrow>
          (case ws_session env token of
             Inr (Some _) \<Rightarrow> (True, mgr)
           | Inr None \<Rightarrow> (False, disconnect_session token mgr)
           | Inl _ \<Rightarrow> (False, mgr)))"

section \<open>A connection's tasks\<close>

text \<open>A text frame comes with its length and what it parses to.\<close>

datatype ws_input =
    TextFrame nat "client_message option"
  | PingFrame
  | PongFrame
  | CloseFrame
  | BinaryFrame
  | SocketError
  | SocketEnd
  | SessionTick
  | SenderStopped

definition handle_input :: "('pk, 'sg) ws_env \<Rightarrow> uuid \<Rightarrow> ws_input \<Rightarrow> manager \<Rightarrow> bool \<times> manager" where
  "handle_input env cid inp mgr =
     (case inp of
        TextFrame len msg \<Rightarrow>
          if ws_message_bytes (we_config env) < len then (False, mgr)
          else (True, (case msg of None \<Rightarrow> mgr | Some m \<Rightarrow> handle_client_message env cid m mgr))
      | PingFrame \<Rightarrow> (True, update_last_pong (we_instant env) cid mgr)
      | PongFrame \<Rightarrow> (True, update_last_pong (we_instant env) cid mgr)
      | CloseFrame \<Rightarrow> (False, mgr)
      | BinaryFrame \<Rightarrow> (True, mgr)
      | SocketError \<Rightarrow> (False, mgr)
      | SocketEnd \<Rightarrow> (False, mgr)
      | SessionTick \<Rightarrow> revalidate_session env cid mgr
      | SenderStopped \<Rightarrow> (False, mgr))"

text \<open>One turn of the connection's loop, with the cleanup after a break.\<close>

definition connection_turn :: "('pk, 'sg) ws_env \<Rightarrow> uuid \<Rightarrow> ws_input \<Rightarrow> manager \<Rightarrow> bool \<times> manager" where
  "connection_turn env cid inp mgr =
     (let (go, mgr') = handle_input env cid inp mgr
      in (go, if go then mgr' else remove_connection cid mgr'))"

definition open_connection :: "('pk, 'sg) ws_env \<Rightarrow> uuid \<Rightarrow> string option \<Rightarrow> manager \<Rightarrow> bool \<times> manager" where
  "open_connection env cid ip mgr =
     (if \<not> can_accept (we_config env) ip mgr then (False, mgr)
      else add_connection (we_config env) (we_instant env) cid ip mgr)"

text \<open>The sender task takes a queued message, or flushes the coalesced ones; a failed write ends it.\<close>

definition sender_recv :: "uuid \<Rightarrow> bool \<Rightarrow> manager \<Rightarrow> ws_message option \<times> manager" where
  "sender_recv cid sent mgr =
     (case map_of (connections mgr) cid of
        None \<Rightarrow> (None, mgr)
      | Some x \<Rightarrow>
          (case cn_queue x of
             [] \<Rightarrow> (None, mgr)
           | m # ms \<Rightarrow>
               if cn_closed x then (None, mgr) else (Some m, update_connection cid (\<lambda>y. y\<lparr>cn_queue := ms, cn_closed := \<not> sent\<rparr>) mgr)))"

definition sender_flush :: "uuid \<Rightarrow> bool \<Rightarrow> manager \<Rightarrow> ws_message list \<times> manager" where
  "sender_flush cid sent mgr =
     (let (ms, mgr') = take_coalesced cid mgr
      in (ms, if ms = [] \<or> sent then mgr' else update_connection cid (\<lambda>y. y\<lparr>cn_closed := True\<rparr>) mgr'))"

section \<open>Event forwarding\<close>

record trade_event =
  te_order_id :: string
  te_pair :: string
  te_asset_in :: string
  te_asset_out :: string
  te_amount_in :: u64
  te_amount_out :: u64
  te_price :: u64
  te_timestamp :: u64

datatype ('sg, 'ok) broker_event =
    BrOrder "('sg, 'ok) order_update"
  | BrPoolState "(account_id \<times> pool_state) list"
  | BrOracle oracle_price_event
  | BrStats order_stats u64
  | BrAmm amm_event
  | BrUser account_id account_id u64
  | BrAnalytics account_id u64
  | BrTrade trade_event

text \<open>The channels each event goes to, in order.\<close>

definition forwarded :: "('pk, 'sg) ws_env \<Rightarrow> ('s, 'ok) broker_event \<Rightarrow> (subscription_channel \<times> server_message) list" where
  "forwarded env ev =
     (case ev of
        BrOrder u \<Rightarrow>
          let oid = we_show_uuid env (update_id u);
              m = OrderUpdate oid (update_status u) (we_millis env)
          in [(OrderUpdates None, m), (OrderUpdates (Some oid), m)]
      | BrPoolState states \<Rightarrow>
          concat (map (\<lambda>(f, st).
            let m = PoolStateUpdate (we_to_hex env f) st (we_millis env)
            in [(PoolStateCh None, m), (PoolStateCh (Some (we_to_hex env f)), m)]) states)
      | BrOracle e \<Rightarrow>
          let m = OraclePriceUpdate (ope_oracle_id e) (ope_faucet_id e) (ope_price e) (ope_timestamp e)
          in [(OraclePrices None, m), (OraclePrices (Some (ope_oracle_id e)), m)]
      | BrStats st ts \<Rightarrow> [(StatsCh, stats_update st ts)]
      | BrAmm e \<Rightarrow> [(AmmEventCh, AmmUpdate e)]
      | BrUser u f amount \<Rightarrow>
          let m = UserUpdate (we_to_hex env u) (we_to_hex env f) amount
          in [(UserEventCh None, m), (UserEventCh (Some (we_to_hex env u)), m)]
      | BrAnalytics u ts \<Rightarrow> [(Analytics (Some (we_to_hex env u)), AnalyticsUpdate (we_to_hex env u) ts)]
      | BrTrade t \<Rightarrow>
          [(Trades, Trade (te_order_id t) (te_pair t) (te_asset_in t) (te_asset_out t) (te_amount_in t) (te_amount_out t)
              (te_price t) (te_timestamp t))])"

definition forward_event :: "('pk, 'sg) ws_env \<Rightarrow> ('s, 'ok) broker_event \<Rightarrow> manager \<Rightarrow> manager" where
  "forward_event env ev mgr =
     foldl (\<lambda>m (ch, msg). broadcast_to_channel (we_config env) (we_to_json env) ch msg m) mgr (forwarded env ev)"

end
