(* ===== verification/Connections_Properties.thy ===== *)
theory Connections_Properties
  imports Connections Auth_Properties
begin

text \<open>
  What the WebSocket server promises along every history of its tasks: the caps on connections,
  addresses and subscriptions hold, and the events of a user reach only connections that presented a
  session of that user. Both are invariants of the manager; the operations that only send, drop or
  touch a connection keep any such invariant, which the locales say once.
\<close>

section \<open>Invariants of the manager\<close>

text \<open>An invariant that dropping a connection keeps, and that reads addresses, users and subscriptions only.\<close>

locale manager_invariant =
  fixes I :: "manager \<Rightarrow> bool"
  assumes remove: "I mgr \<Longrightarrow> I (remove_connection cid mgr)"
    and touch: "I mgr \<Longrightarrow> (\<And>k x. cn_ip (f k x) = cn_ip x \<and> cn_user (f k x) = cn_user x) \<Longrightarrow>
      I (mgr\<lparr>connections := map (\<lambda>(k, x). (k, f k x)) (connections mgr)\<rparr>)"
begin

lemma update:
  assumes "I mgr" "\<And>x. cn_ip (g x) = cn_ip x \<and> cn_user (g x) = cn_user x"
  shows "I (update_connection cid g mgr)"
proof -
  have "update_connection cid g mgr =
      mgr\<lparr>connections := map (\<lambda>(k, x). (k, if k = cid then g x else x)) (connections mgr)\<rparr>"
    unfolding update_connection_def by (auto intro!: arg_cong [where f = "\<lambda>xs. mgr\<lparr>connections := xs\<rparr>"])
  with touch [of mgr "\<lambda>k x. if k = cid then g x else x"] assms show ?thesis by simp
qed

lemma remove_all: "I mgr \<Longrightarrow> I (foldl (\<lambda>m cid. remove_connection cid m) mgr cids)"
  by (induction cids arbitrary: mgr) (simp_all add: remove)

lemma disconnect: "I mgr \<Longrightarrow> I (disconnect_session token mgr)"
  by (simp add: disconnect_session_def remove_all)

lemma send: "I mgr \<Longrightarrow> I (send_to_connection cfg to_json cid msg mgr)"
  by (auto simp: send_to_connection_def Let_def remove update split: option.splits sum.splits)

lemma broadcast_one: "I (fst s) \<Longrightarrow> I (fst (broadcast_one cfg ch m s cid))"
  by (cases s) (auto simp: broadcast_one_def update split: option.splits sum.splits send_error.splits)

lemma broadcast: "I mgr \<Longrightarrow> I (broadcast_to_channel cfg to_json ch msg mgr)"
proof -
  have "I (fst s) \<Longrightarrow> I (fst (foldl (broadcast_one cfg ch m) s cids))" for s m cids
    by (induction cids arbitrary: s) (simp_all add: broadcast_one)
  then show "I mgr \<Longrightarrow> I (broadcast_to_channel cfg to_json ch msg mgr)"
    by (auto simp: broadcast_to_channel_def split: option.splits prod.splits intro!: remove_all) (metis fst_conv)
qed

lemma forward: "I mgr \<Longrightarrow> I (forward_event env ev mgr)"
proof -
  have "I mgr \<Longrightarrow> I (foldl (\<lambda>m (ch, msg). broadcast_to_channel (we_config env) (we_to_json env) ch msg m) mgr xs)" for mgr xs
    by (induction xs arbitrary: mgr) (auto simp: broadcast)
  then show "I mgr \<Longrightarrow> I (forward_event env ev mgr)" by (simp add: forward_event_def)
qed

lemma coalesced: "I mgr \<Longrightarrow> I (snd (take_coalesced cid mgr))"
  by (simp add: take_coalesced_def update)

lemma pong: "I mgr \<Longrightarrow> I (update_last_pong now cid mgr)"
  by (simp add: update_last_pong_def update)

lemma stale: "I mgr \<Longrightarrow> I (check_stale_connections cfg now mgr)"
  unfolding check_stale_connections_def Let_def
  by (intro touch remove_all) (auto simp: try_send_def split: sum.splits)

lemma sender_recv: "I mgr \<Longrightarrow> I (snd (sender_recv cid sent mgr))"
  by (auto simp: sender_recv_def intro!: update split: option.split list.split)

lemma sender_flush: "I mgr \<Longrightarrow> I (snd (sender_flush cid sent mgr))"
  using coalesced [of mgr cid]
  by (cases "take_coalesced cid mgr") (simp add: sender_flush_def update)

lemma revalidate: "I mgr \<Longrightarrow> I (snd (revalidate_session env cid mgr))"
  by (auto simp: revalidate_session_def disconnect split: option.splits sum.splits)

end

text \<open>An invariant that the client messages of a connection keep too; \<open>presented\<close> holds of its tokens.\<close>

locale connection_invariant = manager_invariant +
  fixes env :: "('pk, 'sg) ws_env" and cid :: uuid and presented :: "string \<Rightarrow> bool"
  assumes subscribed: "I mgr \<Longrightarrow> fst (private_allowed env (authenticated_user cid mgr) ch) \<Longrightarrow>
      I (snd (subscribe (we_config env) cid ch mgr))"
    and unsubscribed: "I mgr \<Longrightarrow> I (unsubscribe cid ch mgr)"
    and authenticated: "I mgr \<Longrightarrow> presented token \<Longrightarrow> ws_session env token = Inr (Some s) \<Longrightarrow>
      I (set_authenticated_user cid (we_to_hex env (ses_user_id s)) token mgr)"
begin

lemma subscribe_handler: "I mgr \<Longrightarrow> I (handle_subscribe env cid ch mgr)"
proof -
  assume I: "I mgr"
  obtain allowed current where p: "private_allowed env (authenticated_user cid mgr) ch = (allowed, current)" by fastforce
  obtain ok mgr1 where sub: "subscribe (we_config env) cid ch mgr = (ok, mgr1)" by fastforce
  show ?thesis
    using I subscribed [OF I, of ch]
    by (cases ok) (auto simp: handle_subscribe_def p sub send Let_def split: option.splits)
qed

lemma client_message:
  assumes "I mgr" and "\<And>token. msg = Authenticate token \<Longrightarrow> presented token"
  shows "I (handle_client_message env cid msg mgr)"
proof (cases msg)
  case (Authenticate token)
  with assms show ?thesis
    by (auto simp: handle_client_message_def handle_authenticate_def send authenticated split: sum.splits option.splits)
next
  case (Subscribe channels)
  have "I m \<Longrightarrow> I (foldl (\<lambda>m ch. handle_subscribe env cid ch m) m channels)" for m
    by (induction channels arbitrary: m) (simp_all add: subscribe_handler)
  with Subscribe assms(1) show ?thesis by (simp add: handle_client_message_def)
next
  case (Unsubscribe channels)
  have "I m \<Longrightarrow> I (foldl (\<lambda>m ch. handle_unsubscribe env cid ch m) m channels)" for m
    by (induction channels arbitrary: m) (simp_all add: handle_unsubscribe_def send unsubscribed)
  with Unsubscribe assms(1) show ?thesis by (simp add: handle_client_message_def)
next
  case PingMsg
  with assms(1) show ?thesis by (simp add: handle_client_message_def pong send)
qed

lemma turn:
  assumes "I mgr" and "\<And>len token. inp = TextFrame len (Some (Authenticate token)) \<Longrightarrow> presented token"
  shows "I (snd (connection_turn env cid inp mgr))"
proof -
  have "I (snd (handle_input env cid inp mgr))"
    using assms by (auto simp: handle_input_def pong revalidate intro!: client_message split: ws_input.splits option.splits)
  then show ?thesis by (auto simp: connection_turn_def remove split: prod.splits)
qed

end

section \<open>Capacities\<close>

definition capped :: "ingress_config \<Rightarrow> manager \<Rightarrow> bool" where
  "capped cfg mgr \<longleftrightarrow>
     distinct (map fst (connections mgr)) \<and> length (connections mgr) \<le> ws_global_cap cfg
     \<and> (\<forall>ip. length (filter (\<lambda>(_, x). cn_ip x = Some ip) (connections mgr)) \<le> ws_per_ip_cap cfg)
     \<and> distinct (map fst (subscriptions mgr))
     \<and> (\<forall>cid. subscription_count cid mgr \<le> ws_max_subscriptions cfg)"

lemma cappedD:
  assumes "capped cfg mgr"
  shows "distinct (map fst (connections mgr))" "length (connections mgr) \<le> ws_global_cap cfg"
    "length (filter (\<lambda>(_, x). cn_ip x = Some ip) (connections mgr)) \<le> ws_per_ip_cap cfg"
    "distinct (map fst (subscriptions mgr))" "subscription_count cid mgr \<le> ws_max_subscriptions cfg"
  using assms by (auto simp: capped_def)

lemma length_filter_map_le:
  "(\<And>x. P (h x) \<Longrightarrow> Q x) \<Longrightarrow> length (filter P (filter R (map h xs))) \<le> length (filter Q xs)"
  by (induction xs) auto

lemma length_filter_filter: "length (filter P (filter Q xs)) \<le> length (filter P xs)"
  by (induction xs) auto

lemma count_split:
  "distinct (map fst m) \<Longrightarrow>
   length (filter P m) = length (filter P (map_remove k m))
     + (case map_of m k of None \<Rightarrow> 0 | Some v \<Rightarrow> if P (k, v) then 1 else 0)"
proof (induction m)
  case (Cons x m)
  obtain k' v where x: "x = (k', v)" by fastforce
  show ?case
  proof (cases "k' = k")
    case True
    with Cons.prems have "k \<notin> fst ` set m" by (simp add: x)
    then have "map_remove k m = m" "map_of m k = None"
      by (force simp: map_remove_def map_of_eq_None_iff intro!: filter_True)+
    with True show ?thesis by (simp add: x map_remove_def)
  next
    case False
    with Cons show ?thesis by (simp add: x map_remove_def)
  qed
qed (simp add: map_remove_def)

lemma map_put_remove: "map_put k v m = (k, v) # map_remove k m"
  by (simp add: map_put_def map_remove_def)

lemma distinct_map_put: "distinct (map fst m) \<Longrightarrow> distinct (map fst (map_put k v m))"
  by (auto simp: map_put_def distinct_map_filter)

lemma fst_keep [simp]: "fst \<circ> (\<lambda>(k, v). (k, f k v)) = fst"
  by auto

lemma filter_ip_keep:
  "(\<And>k x. cn_ip (f k x) = cn_ip x) \<Longrightarrow>
   length (filter (\<lambda>(_, x). cn_ip x = Some ip) (map (\<lambda>(k, x). (k, f k x)) m)) = length (filter (\<lambda>(_, x). cn_ip x = Some ip) m)"
  by (induction m) auto

lemma capped_connections:
  assumes "capped cfg mgr" "\<And>k x. cn_ip (f k x) = cn_ip x"
  shows "capped cfg (mgr\<lparr>connections := map (\<lambda>(k, x). (k, f k x)) (connections mgr)\<rparr>)"
  using assms(1) filter_ip_keep [of f, OF assms(2)]
  by (simp add: capped_def subscription_count_def)

lemma capped_subscriptions:
  assumes "capped cfg mgr" "\<And>k v. set (f k v) \<subseteq> set v"
  shows "capped cfg (mgr\<lparr>subscriptions := map (\<lambda>(k, v). (k, f k v)) (subscriptions mgr)\<rparr>)"
proof -
  have "length (filter (\<lambda>(_, ids). cid \<in> set ids) (map (\<lambda>(k, v). (k, f k v)) xs))
      \<le> length (filter (\<lambda>(_, ids). cid \<in> set ids) xs)" for cid xs
    using assms(2) by (induction xs) auto
  then have "subscription_count cid (mgr\<lparr>subscriptions := map (\<lambda>(k, v). (k, f k v)) (subscriptions mgr)\<rparr>) \<le> subscription_count cid mgr" for cid
    by (simp add: subscription_count_def)
  moreover have "subscription_count cid mgr \<le> ws_max_subscriptions cfg" for cid using assms(1) by (simp add: capped_def)
  ultimately have "subscription_count cid (mgr\<lparr>subscriptions := map (\<lambda>(k, v). (k, f k v)) (subscriptions mgr)\<rparr>)
      \<le> ws_max_subscriptions cfg" for cid by (rule le_trans)
  with assms(1) show ?thesis by (simp add: capped_def)
qed

lemma filter_map_remove: "length (filter P (map_remove k m)) \<le> length (filter P m)"
  unfolding map_remove_def by (rule length_filter_filter)

lemma capped_remove: "capped cfg mgr \<Longrightarrow> capped cfg (remove_connection cid mgr)"
proof -
  assume c: "capped cfg mgr"
  let ?mgr = "remove_connection cid mgr"
  have "subscription_count k ?mgr \<le> subscription_count k mgr" for k
    unfolding subscription_count_def remove_connection_def by (simp only: manager.simps) (rule length_filter_map_le, auto)
  then have "subscription_count k ?mgr \<le> ws_max_subscriptions cfg" for k
    using cappedD(5) [OF c] le_trans by blast
  moreover have "distinct (map fst (subscriptions ?mgr))"
    using cappedD(4) [OF c] unfolding remove_connection_def by (simp only: manager.simps) (rule distinct_map_filter, simp)
  moreover have "distinct (map fst (connections ?mgr))"
    using cappedD(1) [OF c] by (simp add: remove_connection_def map_remove_def distinct_map_filter)
  moreover have "length (connections ?mgr) \<le> length (connections mgr)"
    by (simp add: remove_connection_def map_remove_def)
  moreover have "length (filter P (connections ?mgr)) \<le> length (filter P (connections mgr))" for P
    by (simp add: remove_connection_def filter_map_remove)
  ultimately show ?thesis
    unfolding capped_def using cappedD(2,3) [OF c] le_trans by meson
qed

lemma capped_add: "capped cfg mgr \<Longrightarrow> capped cfg (snd (add_connection cfg now cid ip mgr))"
proof (cases "can_accept cfg ip mgr")
  case True
  assume c: "capped cfg mgr"
  let ?mgr = "snd (add_connection cfg now cid ip mgr)"
  have conns: "\<exists>x. cn_ip x = ip \<and> connections ?mgr = (cid, x) # map_remove cid (connections mgr)"
    using True by (simp add: add_connection_def map_put_remove)
  have "length (map_remove cid (connections mgr)) \<le> length (connections mgr)" by (simp add: map_remove_def)
  then have "length (connections ?mgr) \<le> ws_global_cap cfg"
    using conns True by (auto simp: can_accept_def)
  moreover have "length (filter (\<lambda>(_, x). cn_ip x = Some a) (connections ?mgr)) \<le> ws_per_ip_cap cfg" for a
    using conns True cappedD(3) [OF c, of a] filter_map_remove [of "\<lambda>(_, x). cn_ip x = Some a" cid "connections mgr"]
    by (auto simp: can_accept_def)
  moreover have "distinct (map fst (connections ?mgr))"
    using cappedD(1) [OF c] True by (simp add: add_connection_def distinct_map_put)
  moreover have "subscriptions ?mgr = subscriptions mgr" by (simp add: add_connection_def)
  ultimately show ?thesis
    unfolding capped_def subscription_count_def using cappedD(4,5) [OF c] by (simp add: subscription_count_def)
qed (simp add: add_connection_def)

lemma capped_subscribe: "capped cfg mgr \<Longrightarrow> capped cfg (snd (subscribe cfg cid ch mgr))"
proof -
  assume c: "capped cfg mgr"
  let ?P = "\<lambda>k. \<lambda>(_ :: subscription_channel, ids). k \<in> set ids"
  have split: "subscription_count k mgr = length (filter (?P k) (map_remove ch (subscriptions mgr)))
      + (if k \<in> set (subscribers ch mgr) then 1 else 0)" for k
  proof -
    have "distinct (map fst (subscriptions mgr))" using c by (simp add: capped_def)
    from count_split [OF this, of "?P k" ch] show ?thesis
      by (simp add: subscription_count_def subscribers_def split: option.splits)
  qed
  have "subscription_count k (mgr\<lparr>subscriptions := map_put ch (List.insert cid (subscribers ch mgr)) (subscriptions mgr)\<rparr>)
      = (if k = cid \<and> \<not> is_subscribed cid ch mgr then Suc (subscription_count k mgr) else subscription_count k mgr)" for k
    unfolding split by (simp add: subscription_count_def map_put_remove is_subscribed_def)
  then show ?thesis
    using c distinct_map_put by (auto simp: subscribe_def capped_def not_le Suc_le_eq)
qed

interpretation capped: manager_invariant "capped cfg" for cfg
  by unfold_locales (auto intro: capped_remove capped_connections)

lemma capped_unsubscribe: "capped cfg mgr \<Longrightarrow> capped cfg (unsubscribe cid ch mgr)"
proof -
  assume "capped cfg mgr"
  from capped_subscriptions [OF this, of "\<lambda>k v. if k = ch then removeAll cid v else v"] show ?thesis
    unfolding unsubscribe_def by (simp add: if_distrib [of "Pair _"] cong: if_cong)
qed

lemma capped_user: "capped cfg mgr \<Longrightarrow> capped cfg (set_authenticated_user cid u token mgr)"
proof -
  assume "capped cfg mgr"
  from capped_connections [OF this, of "\<lambda>k x. if k = cid then x\<lparr>cn_user := Some u, cn_token := Some token\<rparr> else x"]
  show ?thesis
    unfolding set_authenticated_user_def update_connection_def by (simp add: if_distrib [of "Pair _"] cong: if_cong)
qed

interpretation capped_env: connection_invariant "capped (we_config env)" env cid "\<lambda>_. True" for env cid
  by unfold_locales (auto intro: capped_subscribe capped_unsubscribe capped_user)

section \<open>Histories\<close>

datatype ('pk, 'sg, 's, 'ok) ws_event =
    OpenConnection "('pk, 'sg) ws_env" uuid "string option"
  | Turn "('pk, 'sg) ws_env" uuid ws_input
  | Forward "('pk, 'sg) ws_env" "('s, 'ok) broker_event"
  | SenderRecv uuid bool
  | SenderFlush uuid bool
  | Logout string
  | Heartbeat "('pk, 'sg) ws_env"

fun ws_step :: "('pk, 'sg, 's, 'ok) ws_event \<Rightarrow> manager \<Rightarrow> manager" where
  "ws_step (OpenConnection env cid ip) mgr = snd (open_connection env cid ip mgr)"
| "ws_step (Turn env cid inp) mgr = snd (connection_turn env cid inp mgr)"
| "ws_step (Forward env ev) mgr = forward_event env ev mgr"
| "ws_step (SenderRecv cid sent) mgr = snd (sender_recv cid sent mgr)"
| "ws_step (SenderFlush cid sent) mgr = snd (sender_flush cid sent mgr)"
| "ws_step (Logout token) mgr = disconnect_session token mgr"
| "ws_step (Heartbeat env) mgr = check_stale_connections (we_config env) (we_instant env) mgr"

definition ws_run :: "('pk, 'sg, 's, 'ok) ws_event list \<Rightarrow> manager" where
  "ws_run evs = fold ws_step evs new_manager"

lemma ws_run_snoc [simp]: "ws_run (evs @ [e]) = ws_step e (ws_run evs)" "ws_run [] = new_manager"
  by (simp_all add: ws_run_def)

fun event_config :: "('pk, 'sg, 's, 'ok) ws_event \<Rightarrow> ingress_config option" where
  "event_config (OpenConnection env cid ip) = Some (we_config env)"
| "event_config (Turn env cid inp) = Some (we_config env)"
| "event_config (Forward env ev) = Some (we_config env)"
| "event_config (Heartbeat env) = Some (we_config env)"
| "event_config _ = None"

lemma capped_step: "capped cfg mgr \<Longrightarrow> event_config e \<in> {None, Some cfg} \<Longrightarrow> capped cfg (ws_step e mgr)"
proof (cases e)
  case (OpenConnection env cid ip)
  assume "capped cfg mgr" "event_config e \<in> {None, Some cfg}"
  then show ?thesis by (auto simp: OpenConnection open_connection_def capped_add)
next
  case (Turn env cid inp)
  assume "capped cfg mgr" "event_config e \<in> {None, Some cfg}"
  then show ?thesis using capped_env.turn [of env mgr inp cid] by (auto simp: Turn)
qed (simp_all add: capped.forward capped.sender_recv capped.sender_flush capped.disconnect capped.stale)

text \<open>
  C35: The caps of the WebSocket server. Along every history of connections opened and closed, client
  messages, forwarded events, writes, logouts and heartbeats under one configuration, the server never
  holds more connections than the global cap, nor more of one address than the cap per address, and no
  connection is subscribed to more channels than the maximum.
\<close>
theorem websocket_caps:
  assumes "\<forall>e\<in>set evs. event_config e \<in> {None, Some cfg}"
  shows "length (connections (ws_run evs)) \<le> ws_global_cap cfg
    \<and> length (filter (\<lambda>(_, x). cn_ip x = Some ip) (connections (ws_run evs))) \<le> ws_per_ip_cap cfg
    \<and> length (filter (\<lambda>(_, ids). cid \<in> set ids) (subscriptions (ws_run evs))) \<le> ws_max_subscriptions cfg"
proof -
  have "capped cfg (ws_run evs)"
    using assms
  proof (induction evs rule: rev_induct)
    case Nil
    then show ?case by (simp add: capped_def new_manager_def subscription_count_def)
  next
    case (snoc e evs)
    then show ?case by (simp add: capped_step del: insert_iff)
  qed
  then show ?thesis by (auto simp: capped_def subscription_count_def)
qed

definition example_session :: session_row where
  "example_session =
     \<lparr>sr_token_commitment = word_bytes (3, 0, 0, 0), sr_user_id = wallet_user, sr_vault_commitment = word_bytes (1, 2, 3, 4),
      sr_created_at = 101, sr_expires_at = 3701, sr_revoked_at = None\<rparr>"

definition example_env :: "(unit, storage_word) ws_env" where
  "example_env =
     \<lparr>we_config = ingress_from_env (\<lambda>_. None), we_wallet = example_wallet,
      we_auth = \<lparr>auth_challenges = [], auth_sessions = [example_session]\<rparr>, we_permits = 1,
      we_secs = 200, we_millis = 0, we_instant = 0, we_to_json = (\<lambda>_. Some ''json''), we_to_hex = (\<lambda>_. ''0x78''),
      we_show_uuid = (\<lambda>_. []), we_parse_uuid = (\<lambda>_. None), we_show_error = (\<lambda>_. []), we_history = (\<lambda>_. None),
      we_stats = \<lparr>stats_total = 0, stats_open = 0, stats_closed = 0, stats_by_status = (\<lambda>_. 0)\<rparr>\<rparr>"

definition example_events :: "(unit, storage_word, unit, unit) ws_event list" where
  "example_events =
     [OpenConnection example_env 1 (Some ''10.0.0.1''),
      Turn example_env 1 (TextFrame 40 (Some (Authenticate ''CD''))),
      Turn example_env 1 (TextFrame 40 (Some (Subscribe [UserEventCh (Some ''0x78'')])))]"

theorem websocket_caps_witness:
  "length (connections (ws_run example_events)) \<le> ws_global_cap (we_config example_env)"
proof -
  have "\<forall>e\<in>set example_events. event_config e \<in> {None, Some (we_config example_env)}"
    by (simp add: example_events_def)
  from websocket_caps [OF this] show ?thesis by blast
qed

section \<open>Privacy\<close>

text \<open>A connection presented a session of the user, in an earlier message.\<close>

definition presented_session :: "('pk, 'sg, 's, 'ok) ws_event list \<Rightarrow> uuid \<Rightarrow> string \<Rightarrow> bool" where
  "presented_session evs cid u \<longleftrightarrow>
     (\<exists>env len token s. Turn env cid (TextFrame len (Some (Authenticate token))) \<in> set evs
        \<and> ws_session env token = Inr (Some s) \<and> u = we_to_hex env (ses_user_id s))"

text \<open>The history showed an order of that identifier as the user's.\<close>

definition owned_order :: "('pk, 'sg, 's, 'ok) ws_event list \<Rightarrow> string \<Rightarrow> string \<Rightarrow> bool" where
  "owned_order evs oid u \<longleftrightarrow>
     (\<exists>env cid inp i ord. Turn env cid inp \<in> set evs \<and> we_parse_uuid env oid = Some i \<and> we_history env i = Some ord
        \<and> ho_user_id ord = u)"

definition may_see :: "('pk, 'sg, 's, 'ok) ws_event list \<Rightarrow> uuid \<Rightarrow> subscription_channel \<Rightarrow> bool" where
  "may_see evs cid ch =
     (case ch of
        UserEventCh None \<Rightarrow> False
      | UserEventCh (Some u) \<Rightarrow> presented_session evs cid u
      | Analytics None \<Rightarrow> False
      | Analytics (Some u) \<Rightarrow> presented_session evs cid u
      | OrderUpdates None \<Rightarrow> False
      | OrderUpdates (Some oid) \<Rightarrow> \<exists>u. presented_session evs cid u \<and> owned_order evs oid u
      | _ \<Rightarrow> True)"

definition confidential :: "('pk, 'sg, 's, 'ok) ws_event list \<Rightarrow> manager \<Rightarrow> bool" where
  "confidential evs mgr \<longleftrightarrow>
     (\<forall>(cid, x)\<in>set (connections mgr). \<forall>u. cn_user x = Some u \<longrightarrow> presented_session evs cid u)
     \<and> (\<forall>(ch, ids)\<in>set (subscriptions mgr). \<forall>cid\<in>set ids. may_see evs cid ch)"

lemma presented_mono: "presented_session evs cid u \<Longrightarrow> presented_session (evs @ [e]) cid u"
  unfolding presented_session_def by (metis Un_iff set_append)

lemma may_see_mono: "may_see evs cid ch \<Longrightarrow> may_see (evs @ [e]) cid ch"
proof -
  have "owned_order evs oid u \<Longrightarrow> owned_order (evs @ [e]) oid u" for oid u
    unfolding owned_order_def by (metis Un_iff set_append)
  then show "may_see evs cid ch \<Longrightarrow> may_see (evs @ [e]) cid ch"
    using presented_mono [of evs cid _ e] by (auto simp: may_see_def split: subscription_channel.splits option.splits)
qed

lemma confidential_mono: "confidential evs mgr \<Longrightarrow> confidential (evs @ [e]) mgr"
  unfolding confidential_def using presented_mono may_see_mono by fast

interpretation confidential: manager_invariant "confidential evs" for evs
  by unfold_locales (auto simp: confidential_def remove_connection_def map_remove_def)

lemma confidential_subscribe:
  assumes "confidential evs mgr" "may_see evs cid ch"
  shows "confidential evs (snd (subscribe cfg cid ch mgr))"
proof -
  have "k \<in> set (subscribers ch mgr) \<Longrightarrow> may_see evs k ch" for k
    using assms(1) unfolding confidential_def subscribers_def
    by (cases "map_of (subscriptions mgr) ch") (auto dest!: map_of_SomeD)
  with assms show ?thesis by (auto simp: confidential_def subscribe_def map_put_def)
qed

lemma confidential_add: "confidential evs mgr \<Longrightarrow> confidential evs (snd (add_connection cfg now cid ip mgr))"
  by (auto simp: confidential_def add_connection_def map_put_def)

lemma confidential_authenticate:
  assumes "confidential evs mgr" "presented_session evs cid u"
  shows "confidential evs (set_authenticated_user cid u token mgr)"
  using assms by (fastforce simp: confidential_def set_authenticated_user_def update_connection_def split: if_splits)

lemma confidential_unsubscribe: "confidential evs mgr \<Longrightarrow> confidential evs (unsubscribe cid ch mgr)"
  by (fastforce simp: confidential_def unsubscribe_def split: if_splits)

text \<open>What the handler allows, the connection may see: its user presented a session.\<close>

lemma allowed_may_see:
  assumes "confidential evs mgr" "Turn env cid inp \<in> set evs" "fst (private_allowed env (authenticated_user cid mgr) ch)"
  shows "may_see evs cid ch"
proof -
  have user: "presented_session evs cid u" if "authenticated_user cid mgr = Some u" for u
    using assms(1) that unfolding confidential_def authenticated_user_def
    by (auto simp: bind_eq_Some_conv dest!: map_of_SomeD)
  have owner: "owned_order evs oid (ho_user_id ord)" if "we_parse_uuid env oid = Some i" "we_history env i = Some ord" for oid i ord
    using assms(2) that unfolding owned_order_def by blast
  from assms(3) show ?thesis
    by (cases ch) (auto simp: private_allowed_def may_see_def intro: user owner split: option.splits if_splits)
qed

interpretation confidential_env:
  connection_invariant "confidential (evs @ [Turn env cid inp])" env cid "\<lambda>token. \<exists>len. inp = TextFrame len (Some (Authenticate token))"
  for evs env cid inp
proof
  fix mgr ch
  assume "confidential (evs @ [Turn env cid inp]) mgr" "fst (private_allowed env (authenticated_user cid mgr) ch)"
  then show "confidential (evs @ [Turn env cid inp]) (snd (subscribe (we_config env) cid ch mgr))"
    by (intro confidential_subscribe allowed_may_see [of _ mgr env cid inp]) simp_all
next
  fix mgr token s
  assume "confidential (evs @ [Turn env cid inp]) mgr" "\<exists>len. inp = TextFrame len (Some (Authenticate token))"
    "ws_session env token = Inr (Some s)"
  then show "confidential (evs @ [Turn env cid inp]) (set_authenticated_user cid (we_to_hex env (ses_user_id s)) token mgr)"
    by (intro confidential_authenticate) (auto simp: presented_session_def)
qed (rule confidential_unsubscribe)

lemma confidential_step: "confidential evs mgr \<Longrightarrow> confidential (evs @ [e]) (ws_step e mgr)"
proof (cases e)
  case (OpenConnection env cid ip)
  assume "confidential evs mgr"
  then have "confidential (evs @ [e]) mgr" by (rule confidential_mono)
  then show ?thesis by (auto simp: OpenConnection open_connection_def intro: confidential_add)
next
  case (Turn env cid inp)
  assume "confidential evs mgr"
  then have "confidential (evs @ [e]) mgr" by (rule confidential_mono)
  then show ?thesis unfolding Turn ws_step.simps by (intro confidential_env.turn) auto
qed (auto dest: confidential_mono intro: confidential.forward confidential.sender_recv confidential.sender_flush confidential.disconnect confidential.stale)

lemma confidential_run: "confidential evs (ws_run evs)"
proof (induction evs rule: rev_induct)
  case Nil
  show ?case by (simp add: confidential_def new_manager_def)
next
  case (snoc e evs)
  then show ?case by (simp add: confidential_step)
qed

text \<open>A broadcast changes what is queued for subscribers only.\<close>

definition outbox :: "uuid \<Rightarrow> manager \<Rightarrow> (ws_message list \<times> (subscription_channel \<times> ws_message) list) set" where
  "outbox cid mgr = (\<lambda>(_, x). (cn_queue x, cn_coalesced x)) ` set (filter (\<lambda>(k, _). k = cid) (connections mgr))"

lemma outbox_remove: "outbox k (remove_connection cid mgr) \<subseteq> outbox k mgr"
  by (auto simp: outbox_def remove_connection_def map_remove_def)

lemma outbox_remove_all: "outbox k (foldl (\<lambda>m cid. remove_connection cid m) mgr cids) \<subseteq> outbox k mgr"
  by (induction cids arbitrary: mgr) (auto dest: subsetD [OF outbox_remove])

lemma outbox_update: "k \<noteq> cid \<Longrightarrow> outbox k (update_connection cid f mgr) = outbox k mgr"
  by (force simp: outbox_def update_connection_def image_iff split: if_splits)

lemma outbox_broadcast_one: "k \<noteq> cid \<Longrightarrow> outbox k (fst (broadcast_one cfg ch m s cid)) = outbox k (fst s)"
  by (cases s) (auto simp: broadcast_one_def outbox_update split: option.splits sum.splits send_error.splits)

lemma outbox_broadcast:
  assumes "k \<notin> set (subscribers ch mgr)"
  shows "outbox k (broadcast_to_channel cfg to_json ch msg mgr) \<subseteq> outbox k mgr"
proof -
  have fold: "k \<notin> set cids \<Longrightarrow> outbox k (fst (foldl (broadcast_one cfg ch m) s cids)) = outbox k (fst s)" for m s cids
    by (induction cids arbitrary: s) (simp_all add: outbox_broadcast_one)
  show ?thesis
  proof (cases "to_json msg")
    case (Some json)
    obtain mgr' slow where run: "foldl (broadcast_one cfg ch (WsText json)) (mgr, []) (subscribers ch mgr) = (mgr', slow)"
      by fastforce
    have "outbox k mgr' = outbox k mgr" using fold [OF assms, of "WsText json" "(mgr, [])"] by (simp add: run)
    with outbox_remove_all [of k mgr' slow] show ?thesis by (simp add: broadcast_to_channel_def Some run)
  qed (simp add: broadcast_to_channel_def)
qed

text \<open>
  C14: Private events reach their owner only. Along every history, an event on a user's own channel (balance or
  analytics) leaves what is queued for a connection unchanged, unless the connection presented a session
  of that very user in an earlier message; an event on an order's channel, unless it presented a session
  of a user whose order the history showed; and the channels of everyone's orders, balances or analytics
  have no subscriber at all.
\<close>
theorem private_events_reach_owner:
  fixes evs :: "('pk, 'sg, 's, 'ok) ws_event list"
  assumes "\<not> outbox cid (broadcast_to_channel cfg to_json ch msg (ws_run evs)) \<subseteq> outbox cid (ws_run evs)"
  shows "(\<forall>u. ch = UserEventCh (Some u) \<or> ch = Analytics (Some u) \<longrightarrow> presented_session evs cid u)
    \<and> (\<forall>oid. ch = OrderUpdates (Some oid) \<longrightarrow> (\<exists>u. presented_session evs cid u \<and> owned_order evs oid u))
    \<and> ch \<notin> {UserEventCh None, Analytics None, OrderUpdates None}"
proof -
  have "cid \<in> set (subscribers ch (ws_run evs))" using assms outbox_broadcast by metis
  then obtain ids where "(ch, ids) \<in> set (subscriptions (ws_run evs))" "cid \<in> set ids"
    by (cases "map_of (subscriptions (ws_run evs)) ch") (auto simp: subscribers_def dest: map_of_SomeD)
  with confidential_run [of evs] have "may_see evs cid ch" by (fastforce simp: confidential_def)
  then show ?thesis by (auto simp: may_see_def)
qed

lemma example_token: "token_commitment example_wallet ''CD'' = Inr (3, 0, 0, 0)"
  by code_simp

lemma example_ws_session:
  "ws_session example_env ''CD'' = Inr (Some \<lparr>ses_user_id = wallet_user, ses_commitment = (1, 2, 3, 4),
     ses_created_at = 101, ses_expires_at = 3701\<rparr>)"
  by (simp add: ws_session_def example_env_def database_def acquire_def from_auth_def lookup_session_def example_token
      example_session_def timestamp_def from_sql_def canonical_word_def felts_valid_def word_felts_def FELT_MODULUS_def)

lemma example_caps:
  "ws_queue_capacity (we_config example_env) = 128" "ws_message_bytes (we_config example_env) = 65536"
  "ws_max_subscriptions (we_config example_env) = 64" "ws_global_cap (we_config example_env) = 2000"
  "ws_per_ip_cap (we_config example_env) = 256" "we_to_json example_env m = Some ''json''" "we_to_hex example_env u = ''0x78''"
  by (simp_all add: example_env_def ingress_from_env_def number_def)

lemmas ws_defs = ws_run_def new_manager_def open_connection_def can_accept_def add_connection_def map_put_def
  connection_turn_def handle_input_def handle_client_message_def handle_authenticate_def set_authenticated_user_def
  update_connection_def send_to_connection_def try_send_def handle_subscribe_def private_allowed_def authenticated_user_def
  subscribe_def subscription_count_def is_subscribed_def subscribers_def broadcast_to_channel_def broadcast_one_def

theorem private_events_reach_owner_witness: "presented_session example_events 1 ''0x78''"
proof -
  have "\<not> outbox 1 (broadcast_to_channel (we_config example_env) (we_to_json example_env) (UserEventCh (Some ''0x78''))
      (UserUpdate ''0x78'' ''0x99'' 5) (ws_run example_events)) \<subseteq> outbox 1 (ws_run example_events)"
    by (simp add: example_events_def ws_defs example_caps example_ws_session outbox_def Let_def)
  from private_events_reach_owner [OF this] show ?thesis by simp
qed

end
