(* ===== verification/Order_Api.thy ===== *)
theory Order_Api
  imports Connections
begin

text \<open>
  The handlers of the HTTP API that change the server's state (\<open>src/src/api.rs\<close>): challenges, logins and
  logouts, nonce leases and new orders. A request comes with the permits its calls find free and the
  registration storage its RPC fetches; the router answers 408 when its timeout expires first, in one of
  three ways with respect to the handler's work (\<open>expiry\<close>); parsed payloads, the codec of signatures and keys, the wallet's
  library functions and the printer of errors are arguments.
\<close>

section \<open>Replies\<close>

datatype status = BAD_REQUEST | UNAUTHORIZED | FORBIDDEN | NOT_FOUND | CONFLICT | SERVICE_UNAVAILABLE

text \<open>\<open>Retry\<close> is a 503 with a \<open>Retry-After\<close> header, \<open>InternalError\<close> a 500, \<open>Aborted\<close> a panic of the handler.\<close>

datatype 'a reply =
    Failure status string
  | Retry string
  | InternalError error
  | Aborted
  | NoContent
  | Success 'a

definition error_reply :: "'a reply \<Rightarrow> bool" where
  "error_reply r \<longleftrightarrow> (case r of Success _ \<Rightarrow> False | NoContent \<Rightarrow> False | _ \<Rightarrow> True)"

section \<open>Requests and state\<close>

record ('sg, 'pk) api_state =
  api_auth :: auth_db
  api_execution :: execution_db
  api_manager :: manager
  api_published :: "('sg, 'pk) order_update list"

record ('sg, 'pk) api_env =
  ae_config :: auth_config
  ae_wallet :: "('pk, 'sg) wallet"
  ae_codec :: "('sg, 'pk) codec"
  ae_show_error :: "error \<Rightarrow> string"
  ae_account_from_hex :: "string \<Rightarrow> account_id result"
  ae_max_orders :: "nat option"
  ae_auth_domain :: "string option"
  ae_miden_network :: "string option"
  ae_secs :: u64
  ae_millis :: u64
  ae_instant :: date_time
  ae_session_permits :: nat
  ae_rpc_permits :: nat
  ae_db_permits :: nat
  ae_registration_storage :: "account_id \<Rightarrow> account_storage result"
  ae_random :: bytes
  ae_random_id :: bytes
  ae_random_uuid :: uuid
  ae_random_tail :: "96 word"

definition registration_storage :: "('sg, 'pk) api_env \<Rightarrow> account_id \<Rightarrow> account_storage result" where
  "registration_storage env user = rpc (ae_rpc_permits env) (ae_registration_storage env user)"

section \<open>Challenges, logins and logouts\<close>

text \<open>
  A database closure that runs an operation of the authentication store: no free permit, no operation;
  a panic of the worker is an error of the request.
\<close>

definition auth_work ::
  "nat \<Rightarrow> (auth_db \<Rightarrow> (auth_error + 'a) \<times> auth_db) \<Rightarrow> ('sg, 'pk) api_state \<Rightarrow> 'a result \<times> ('sg, 'pk) api_state" where
  "auth_work permits f st =
     (case acquire permits of
        Inl e \<Rightarrow> (Inl e, st)
      | Inr _ \<Rightarrow>
          let (r, db') = f (api_auth st)
          in (database permits (from_auth r), st\<lparr>api_auth := db'\<rparr>))"

definition auth_challenge ::
  "('sg, 'pk) api_env \<Rightarrow> string \<Rightarrow> ('sg, 'pk) api_state \<Rightarrow> auth_challenge reply \<times> ('sg, 'pk) api_state" where
  "auth_challenge env user_hex st =
     (case ae_account_from_hex env user_hex of
        Inl e \<Rightarrow> (Failure BAD_REQUEST (''invalid user_id: '' @ ae_show_error env e), st)
      | Inr user \<Rightarrow>
     (case registration_storage env user of
        Inl (Panic p) \<Rightarrow> (Aborted, st)
      | Inl e \<Rightarrow> (Retry (''vault unavailable: '' @ ae_show_error env e), st)
      | Inr storage \<Rightarrow>
     (case vault_user_registration storage user of
        Inl e \<Rightarrow> (Failure SERVICE_UNAVAILABLE (ae_show_error env e), st)
      | Inr None \<Rightarrow> (Failure NOT_FOUND ''user has no registered trading key'', st)
      | Inr (Some commitment) \<Rightarrow>
     (case auth_work (ae_db_permits env)
             (issue_challenge (ae_wallet env) (ae_config env) user commitment (ae_secs env) (ae_random env) (ae_random_id env)) st of
        (Inl e, st') \<Rightarrow> (Failure SERVICE_UNAVAILABLE (ae_show_error env e), st')
      | (Inr ch, st') \<Rightarrow> (Success ch, st')))))"

record login_request =
  lr_challenge_id :: string
  lr_user_id :: string
  lr_pubkey :: string
  lr_signature :: string

definition auth_login ::
  "('sg, 'pk) api_env \<Rightarrow> login_request \<Rightarrow> ('sg, 'pk) api_state \<Rightarrow> new_session reply \<times> ('sg, 'pk) api_state" where
  "auth_login env rq st =
     (case ae_account_from_hex env (lr_user_id rq) of
        Inl e \<Rightarrow> (Failure BAD_REQUEST (''invalid user_id: '' @ ae_show_error env e), st)
      | Inr user \<Rightarrow>
     (case and_then (b64_decode (ae_codec env) (lr_pubkey rq)) (pk_from_bytes (ae_codec env)) of
        Inl e \<Rightarrow> (Failure BAD_REQUEST ''invalid public key'', st)
      | Inr pk \<Rightarrow>
     (case and_then (b64_decode (ae_codec env) (lr_signature rq)) (sig_from_bytes (ae_codec env)) of
        Inl e \<Rightarrow> (Failure BAD_REQUEST ''invalid signature'', st)
      | Inr sg \<Rightarrow>
     (case registration_storage env user of
        Inl (Panic p) \<Rightarrow> (Aborted, st)
      | Inl e \<Rightarrow> (Retry (''vault unavailable: '' @ ae_show_error env e), st)
      | Inr storage \<Rightarrow>
     (case vault_user_registration storage user of
        Inl e \<Rightarrow> (Failure SERVICE_UNAVAILABLE (ae_show_error env e), st)
      | Inr None \<Rightarrow> (Failure NOT_FOUND ''user has no registered trading key'', st)
      | Inr (Some commitment) \<Rightarrow>
     (case auth_work (ae_db_permits env)
             (authenticate (ae_wallet env) (ae_config env) (lr_challenge_id rq) user commitment pk sg (ae_secs env) (ae_random env)) st of
        (Inl e, st') \<Rightarrow> (Failure UNAUTHORIZED (ae_show_error env e), st')
      | (Inr session, st') \<Rightarrow> (Success session, st')))))))"

definition auth_logout ::
  "('sg, 'pk) api_env \<Rightarrow> header_value \<Rightarrow> ('sg, 'pk) api_state \<Rightarrow> unit reply \<times> ('sg, 'pk) api_state" where
  "auth_logout env h st =
     (case parse_bearer h of
        Inl _ \<Rightarrow> (Failure UNAUTHORIZED ''missing or invalid bearer token'', st)
      | Inr token \<Rightarrow>
     (case auth_work (ae_db_permits env) (revoke_session (ae_wallet env) token (ae_secs env)) st of
        (Inr True, st') \<Rightarrow> (NoContent, st'\<lparr>api_manager := disconnect_session token (api_manager st')\<rparr>)
      | (Inr False, st') \<Rightarrow> (Failure UNAUTHORIZED ''expired or revoked session'', st')
      | (Inl e, st') \<Rightarrow> (Retry (ae_show_error env e), st')))"

text \<open>The user of a request, or the reply that refuses it.\<close>

definition request_user ::
  "('sg, 'pk) api_env \<Rightarrow> header_value \<Rightarrow> ('sg, 'pk) api_state \<Rightarrow> 'a reply + account_id" where
  "request_user env h st =
     (case parse_bearer h of
        Inl _ \<Rightarrow> Inl (Failure UNAUTHORIZED ''missing or invalid bearer token'')
      | Inr token \<Rightarrow>
     (case database (ae_session_permits env) (from_auth (lookup_session (ae_wallet env) token (ae_secs env) (api_auth st))) of
        Inl e \<Rightarrow> Inl (Retry (ae_show_error env e))
      | Inr None \<Rightarrow> Inl (Failure UNAUTHORIZED ''expired or revoked session'')
      | Inr (Some session) \<Rightarrow> Inr (ses_user_id session)))"

section \<open>Orders\<close>

definition execution_work ::
  "nat \<Rightarrow> (execution_db \<Rightarrow> 'a result \<times> execution_db) \<Rightarrow> ('sg, 'pk) api_state \<Rightarrow> 'a result \<times> ('sg, 'pk) api_state" where
  "execution_work permits f st =
     (case acquire permits of
        Inl e \<Rightarrow> (Inl e, st)
      | Inr _ \<Rightarrow>
          let (r, db') = f (api_execution st)
          in (database permits r, st\<lparr>api_execution := db'\<rparr>))"

definition order_nonce_handler ::
  "('sg, 'pk) api_env \<Rightarrow> header_value \<Rightarrow> ('sg, 'pk) api_state \<Rightarrow> nonce_lease reply \<times> ('sg, 'pk) api_state" where
  "order_nonce_handler env h st =
     (case request_user env h st of
        Inl refused \<Rightarrow> (refused, st)
      | Inr user \<Rightarrow>
     (case execution_work (ae_db_permits env) (allocate_nonce_lease user (ae_random_tail env) (ae_millis env)) st of
        (Inl e, st') \<Rightarrow> (Retry (ae_show_error env e), st')
      | (Inr lease, st') \<Rightarrow> (Success lease, st')))"

record new_order_request =
  no_version :: u8
  no_client_order_id :: uuid
  no_expires_at :: u64
  no_details :: order_details
  no_order_type :: order_type
  no_user_id :: account_id
  no_signed_intent :: string
  no_pubkey :: string

definition hex_digit :: "nat \<Rightarrow> char" where
  "hex_digit n = char_of (if n < 10 then 48 + n else 87 + n)"

definition hex16 :: "u64 \<Rightarrow> string" where
  "hex16 v = map (\<lambda>i. hex_digit (unat (drop_bit (4 * i) v) mod 16)) (rev [0..<16])"

definition intent_commitment :: "storage_word \<Rightarrow> string" where
  "intent_commitment word = concat (map hex16 (word_felts word))"

definition intent_of :: "new_order_request \<Rightarrow> intent" where
  "intent_of rq =
     new_swap (no_user_id rq) (asset_in (no_details rq)) (amount_in (no_details rq)) (asset_out (no_details rq))
       (min_amount_out (no_details rq)) (no_client_order_id rq) (no_expires_at rq)"

definition contains :: "string \<Rightarrow> string \<Rightarrow> bool" where
  "contains pat s \<longleftrightarrow> list_ex (\<lambda>i. take (length pat) (drop i s) = pat) [0..<Suc (length s)]"

text \<open>The reply to an admission that failed.\<close>

definition admit_failure :: "('sg, 'pk) api_env \<Rightarrow> error \<Rightarrow> 'a reply" where
  "admit_failure env e =
     (if e = QueueFull \<or> contains ''execution queue is full'' (ae_show_error env e) then Retry ''execution queue is full''
      else if e = UnknownNonceLease
      then Failure CONFLICT ''client_order_id was not leased; call POST /orders/nonce first''
      else if e = NonceLeaseConflict
      then Failure CONFLICT ''client_order_id lease does not match the signed intent''
      else Retry (ae_show_error env e))"

text \<open>The checks before the vault is asked.\<close>

definition precheck ::
  "('sg, 'pk) api_env \<Rightarrow> header_value \<Rightarrow> new_order_request \<Rightarrow> ('sg, 'pk) api_state \<Rightarrow> 'a reply + 'sg \<times> 'pk" where
  "precheck env h rq st =
     (if no_version rq \<noteq> INTENT_VERSION then Inl (Failure BAD_REQUEST ''only signed intent version 3 is accepted'')
      else if no_order_type rq \<noteq> Spot then Inl (Failure BAD_REQUEST ''v3 currently supports only spot swap intents'')
      else if (case ae_auth_domain env of None \<Rightarrow> ''minizeke'' | Some d \<Rightarrow> d) \<noteq> ''minizeke''
              \<or> (case ae_miden_network env of None \<Rightarrow> ''testnet'' | Some n \<Rightarrow> n) \<noteq> ''testnet''
      then Inl (Failure SERVICE_UNAVAILABLE ''v3 pool intents require AUTH_DOMAIN=minizeke and MIDEN_NETWORK=testnet'')
      else if is_expired_at (no_expires_at rq) (ae_secs env) then Inl (Failure BAD_REQUEST ''signed intent has expired'')
      else case request_user env h st of
             Inl refused \<Rightarrow> Inl refused
           | Inr user \<Rightarrow>
               if user \<noteq> no_user_id rq then Inl (Failure FORBIDDEN ''order user_id does not match bearer session'')
               else case b64_decode (ae_codec env) (no_signed_intent rq) of
                 Inl e \<Rightarrow> Inl (Failure BAD_REQUEST (''invalid signature encoding: '' @ ae_show_error env e))
               | Inr sb \<Rightarrow>
               (case sig_from_bytes (ae_codec env) sb of
                 Inl e \<Rightarrow> Inl (Failure BAD_REQUEST (''invalid signature: '' @ ae_show_error env e))
               | Inr sg \<Rightarrow>
               (case b64_decode (ae_codec env) (no_pubkey rq) of
                 Inl e \<Rightarrow> Inl (Failure BAD_REQUEST (''invalid public key encoding: '' @ ae_show_error env e))
               | Inr pb \<Rightarrow>
               (case pk_from_bytes (ae_codec env) pb of
                 Inl e \<Rightarrow> Inl (Failure BAD_REQUEST (''invalid public key: '' @ ae_show_error env e))
               | Inr pk \<Rightarrow> Inr (sg, pk)))))"

text \<open>The checks against the vault: the key is the registered one and signs the intent.\<close>

definition check_signature ::
  "('sg, 'pk) api_env \<Rightarrow> new_order_request \<Rightarrow> 'sg \<Rightarrow> 'pk \<Rightarrow> 'a reply + storage_word" where
  "check_signature env rq sg pk =
     (case registration_storage env (no_user_id rq) of
        Inl (Panic p) \<Rightarrow> Inl Aborted
      | Inl e \<Rightarrow> Inl (Retry (ae_show_error env e))
      | Inr storage \<Rightarrow>
     (case vault_user_registration storage (no_user_id rq) of
        Inl e \<Rightarrow> Inl (InternalError e)
      | Inr None \<Rightarrow> Inl (InternalError (Anyhow ''user has no registered trading key''))
      | Inr (Some registered) \<Rightarrow>
          if wl_commitment (ae_wallet env) pk \<noteq> registered
          then Inl (Failure UNAUTHORIZED ''public key is not registered for this user'')
          else case intent_message_word (wl_hash_elements (ae_wallet env)) (intent_of rq) of
                 Inl e \<Rightarrow> Inl Aborted
               | Inr word \<Rightarrow>
                   if \<not> wl_verify (ae_wallet env) pk word sg then Inl (Failure UNAUTHORIZED ''invalid signed intent'')
                   else Inr word))"

definition order_new ::
  "('sg, 'pk) api_env \<Rightarrow> header_value \<Rightarrow> new_order_request option \<Rightarrow> ('sg, 'pk) api_state
     \<Rightarrow> ('sg, 'pk, created) order reply \<times> ('sg, 'pk) api_state" where
  "order_new env h payload st =
     (case payload of
        None \<Rightarrow> (Failure BAD_REQUEST ''invalid order payload'', st)
      | Some rq \<Rightarrow>
     (case precheck env h rq st of
        Inl refused \<Rightarrow> (refused, st)
      | Inr (sg, pk) \<Rightarrow>
     (case check_signature env rq sg pk of
        Inl refused \<Rightarrow> (refused, st)
      | Inr word \<Rightarrow>
          let candidate = new_with_id (ae_instant env) (ae_random_uuid env) sg (no_user_id rq) (no_details rq) pk (intent_of rq)
          in case execution_work (ae_db_permits env)
                    (admit_order (ae_max_orders env) (ae_codec env) (no_client_order_id rq) (intent_commitment word) candidate
                       (ae_millis env)) st of
               (Inl e, st') \<Rightarrow> (admit_failure env e, st')
             | (Inr RConflict, st') \<Rightarrow>
                 (Failure CONFLICT ''client_order_id is already reserved for a different signed intent'', st')
             | (Inr (RNew oid), st') \<Rightarrow>
                 let ord = candidate\<lparr>order_id := oid\<rparr>
                 in (Success ord, st'\<lparr>api_published := api_published st' @ [UNew ord]\<rparr>)
             | (Inr (RExisting oid), st') \<Rightarrow> (Success (candidate\<lparr>order_id := oid\<rparr>), st'))))"

section \<open>The request timeout\<close>

text \<open>
  The router answers 408 when a request takes too long and drops the handler where it waits. The work of
  a handler that changes a store is one closure on a blocking thread; once it was started it runs to its
  end, but what the handler would have done with its result, publishing an order or disconnecting a
  session, is not done. \<open>BeforeWork\<close> is a handler dropped before that closure started, \<open>DuringWork\<close>
  one dropped while it runs.
\<close>

datatype expiry = InTime | BeforeWork | DuringWork

datatype 'a served = Replied "'a reply" | RequestTimeout

definition with_timeout ::
  "expiry \<Rightarrow> (('sg, 'pk) api_state \<Rightarrow> 'a reply \<times> ('sg, 'pk) api_state) \<Rightarrow> ('sg, 'pk) api_state
     \<Rightarrow> 'a served \<times> ('sg, 'pk) api_state" where
  "with_timeout x handler st =
     (case x of
        InTime \<Rightarrow> let (r, st') = handler st in (Replied r, st')
      | BeforeWork \<Rightarrow> (RequestTimeout, st)
      | DuringWork \<Rightarrow>
          let (r, st') = handler st
          in (RequestTimeout, st\<lparr>api_auth := api_auth st', api_execution := api_execution st'\<rparr>))"

end
