(* ===== verification/Order_Api_Properties.thy ===== *)
theory Order_Api_Properties
  imports Order_Api Auth_Properties Execution_Properties
begin

text \<open>
  What the API adds to its stores: an order enters the execution store only for a user who logged in,
  whose registered key signed this very intent, and who leased its nonce; and a refused request leaves
  every store as it was, unless it was answered 408 while its work went on.
\<close>

section \<open>Sessions come from logins\<close>

definition logged_session :: "('pk, 'sg) wallet \<Rightarrow> ('pk, 'sg) auth_event list \<Rightarrow> session_row \<Rightarrow> bool" where
  "logged_session w evs s \<longleftrightarrow>
     (\<exists>cid user vc pk sg t ns tc. LoggedIn cid user vc pk sg t ns \<in> set evs
        \<and> token_commitment w (bearer_token ns) = Inr tc \<and> sr_token_commitment s = word_bytes tc
        \<and> sr_user_id s = user \<and> sr_expires_at s = uint (ses_expires_at (new_session ns)))"

definition sessions_logged :: "('pk, 'sg) wallet \<Rightarrow> ('pk, 'sg) auth_event list \<times> auth_db \<Rightarrow> bool" where
  "sessions_logged w = (\<lambda>(evs, db). \<forall>s\<in>set (auth_sessions db). logged_session w evs s)"

lemma logged_session_mono: "logged_session w evs s \<Longrightarrow> set evs \<subseteq> set evs' \<Longrightarrow> logged_session w evs' s"
  unfolding logged_session_def by blast

lemma logged_session_revoked [simp]: "logged_session w evs (s\<lparr>sr_revoked_at := r\<rparr>) = logged_session w evs s"
  by (simp add: logged_session_def)

lemma issue_keeps_sessions: "issue_challenge w cfg user vc now nonce id_bytes db = (r, db') \<Longrightarrow> auth_sessions db' = auth_sessions db"
proof (cases r)
  case (Inl e)
  assume "issue_challenge w cfg user vc now nonce id_bytes db = (r, db')"
  then have "issue_challenge w cfg user vc now nonce id_bytes db = (Inl e, db')" by (simp add: Inl)
  from issue_challenge_Inl [OF this] show ?thesis by simp
next
  case (Inr ch)
  assume "issue_challenge w cfg user vc now nonce id_bytes db = (r, db')"
  then have "issue_challenge w cfg user vc now nonce id_bytes db = (Inr ch, db')" by (simp add: Inr)
  then show ?thesis by (rule issue_challenge_Inr) simp
qed

lemma sessions_logged_step: "sessions_logged w s \<Longrightarrow> sessions_logged w (auth_step w cfg x s)"
proof (cases s)
  fix evs db
  assume "sessions_logged w s" and s: "s = (evs, db)"
  then have inv: "\<forall>s\<in>set (auth_sessions db). logged_session w evs s" by (simp add: sessions_logged_def)
  show ?thesis
  proof (cases x)
    case (Issue user vc now nonce id_bytes)
    obtain r db' where run: "issue_challenge w cfg user vc now nonce id_bytes db = (r, db')" by fastforce
    have more: "logged_session w (evs @ e) s" if "s \<in> set (auth_sessions db')" for e s
      using issue_keeps_sessions [OF run] inv that logged_session_mono [of w evs s "evs @ e"] by simp
    show ?thesis
    proof (cases r)
      case (Inl e)
      with more [of _ "[]"] show ?thesis by (simp add: s Issue run sessions_logged_def)
    next
      case (Inr ch)
      with more show ?thesis by (simp add: s Issue run sessions_logged_def)
    qed
  next
    case (Login cid user vc pk sg now token_bytes)
    obtain r db' where run: "authenticate w cfg cid user vc pk sg now token_bytes db = (r, db')" by fastforce
    show ?thesis
    proof (cases r)
      case (Inl e)
      with run have "db' = db" by (simp add: authenticate_Inl)
      with run Inl inv show ?thesis by (simp add: s Login sessions_logged_def)
    next
      case (Inr ns)
      let ?evs = "evs @ [LoggedIn cid user vc pk sg now ns]"
      from run [unfolded Inr] obtain row tc where row: "auth_sessions db' = auth_sessions db @ [row]"
        "token_commitment w (bearer_token ns) = Inr tc" "sr_token_commitment row = word_bytes tc" "sr_user_id row = user"
        "sr_expires_at row = uint (ses_expires_at (new_session ns))"
        by (rule authenticate_Inr) auto
      have "logged_session w ?evs row"
        unfolding logged_session_def
        by (rule exI [of _ cid], rule exI [of _ user], rule exI [of _ vc], rule exI [of _ pk], rule exI [of _ sg],
            rule exI [of _ now], rule exI [of _ ns], rule exI [of _ tc]) (simp add: row)
      moreover have "logged_session w ?evs s" if "s \<in> set (auth_sessions db)" for s
        using inv that by (auto intro: logged_session_mono)
      ultimately show ?thesis using row(1) by (simp add: s Login run Inr sessions_logged_def)
    qed
  next
    case (Lookup token now)
    with inv show ?thesis by (simp add: s sessions_logged_def)
  next
    case (Revoke token now)
    with inv show ?thesis by (auto simp: s sessions_logged_def revoke_session_def set_sql_update split: sum.splits)
  next
    case (Purge now)
    with inv show ?thesis by (auto simp: s sessions_logged_def purge_def split: sum.splits)
  qed
qed

lemma sessions_logged_run: "sessions_logged w (auth_run w cfg ops)"
proof -
  have "sessions_logged w s \<Longrightarrow> sessions_logged w (fold (auth_step w cfg) ops s)" for s
    by (induction ops arbitrary: s) (simp_all add: sessions_logged_step)
  then show ?thesis by (simp add: auth_run_def sessions_logged_def open_auth_db_def)
qed

lemma lookup_logged:
  assumes "auth_run w cfg ops = (evs, db)" "list_all typed_op ops" "lookup_session w token now db = Inr (Some s)"
  shows "\<exists>cid vc pk sg t ns. LoggedIn cid (ses_user_id s) vc pk sg t ns \<in> set evs
    \<and> token_commitment w (bearer_token ns) = token_commitment w token \<and> now \<le> ses_expires_at (new_session ns)"
proof -
  obtain tc where tc: "token_commitment w token = Inr tc" and now: "timestamp now = Inr (uint now)"
    using assms(3) by (auto simp: lookup_session_def res_simps)
  let ?P = "\<lambda>r. sr_token_commitment r = word_bytes tc \<and> sr_revoked_at r = None \<and> uint now \<le> sr_expires_at r"
  obtain row where row: "find ?P (auth_sessions db) = Some row" and s: "ses_user_id s = sr_user_id row"
    using assms(3) by (cases "find ?P (auth_sessions db)") (auto simp: lookup_session_def tc now res_simps)
  have mem: "row \<in> set (auth_sessions db)" "?P row" using find_SomeD [OF row] by simp_all
  have "logged_session w evs row"
    using sessions_logged_run [of w cfg ops] mem(1) by (simp add: assms(1) sessions_logged_def)
  then obtain cid user vc pk sg t ns tc' where *: "LoggedIn cid user vc pk sg t ns \<in> set evs"
    "token_commitment w (bearer_token ns) = Inr tc'" "sr_token_commitment row = word_bytes tc'" "sr_user_id row = user"
    "sr_expires_at row = uint (ses_expires_at (new_session ns))"
    unfolding logged_session_def by blast
  have "tc' = tc" using *(3) mem(2) by simp
  then have "token_commitment w (bearer_token ns) = token_commitment w token" using *(2) tc by simp
  moreover have "LoggedIn cid (ses_user_id s) vc pk sg t ns \<in> set evs" using *(1,4) s by simp
  moreover have "now \<le> ses_expires_at (new_session ns)" using mem(2) *(5) by (simp add: word_le_def)
  ultimately show ?thesis by blast
qed

section \<open>Admission through the API\<close>

lemma database_Inr: "database permits r = Inr x \<Longrightarrow> r = Inr x"
  by (auto simp: database_def acquire_def and_then_def split: if_splits sum.splits error.splits)

lemma database_Inl: "database permits r = Inl e \<Longrightarrow> permits \<noteq> 0 \<Longrightarrow> \<exists>e'. r = Inl e'"
  by (auto simp: database_def acquire_def split: sum.splits error.splits)

lemma from_auth_Inr: "from_auth r = Inr x \<longleftrightarrow> r = Inr x"
  by (auto simp: from_auth_def split: sum.splits auth_error.splits)

lemma check_signature_Inr:
  assumes "(check_signature env rq sg pk :: 'e reply + _) = Inr word"
  obtains storage where "ae_registration_storage env (no_user_id rq) = Inr storage"
    "vault_user_registration storage (no_user_id rq) = Inr (Some (wl_commitment (ae_wallet env) pk))"
    "intent_message_word (wl_hash_elements (ae_wallet env)) (intent_of rq) = Inr word" "wl_verify (ae_wallet env) pk word sg"
proof -
  from assms obtain storage where s: "registration_storage env (no_user_id rq) = Inr storage"
    "vault_user_registration storage (no_user_id rq) = Inr (Some (wl_commitment (ae_wallet env) pk))"
    "intent_message_word (wl_hash_elements (ae_wallet env)) (intent_of rq) = Inr word" "wl_verify (ae_wallet env) pk word sg"
    unfolding check_signature_def by (auto split: sum.split_asm option.split_asm error.split_asm if_split_asm)
  have "ae_registration_storage env (no_user_id rq) = Inr storage"
    using s(1) by (simp add: registration_storage_def rpc_def res_simps)
  with s(2-4) show ?thesis by (intro that)
qed

lemma execution_work_cases:
  assumes "execution_work permits f st = (r, st')"
  obtains (saturated) e where "r = Inl e" "st' = st"
  | (ran) r' db' where "f (api_execution st) = (r', db')" "permits \<noteq> 0" "r = database permits r'" "st' = st\<lparr>api_execution := db'\<rparr>"
proof (cases "acquire permits")
  case (Inl e)
  with assms show ?thesis by (intro saturated [of e]) (simp_all add: execution_work_def)
next
  case (Inr p)
  obtain r' db' where "f (api_execution st) = (r', db')" by fastforce
  with Inr assms show ?thesis by (intro ran [of r' db']) (auto simp: execution_work_def acquire_def split: if_splits)
qed

lemma auth_work_cases:
  assumes "auth_work permits f st = (r, st')"
  obtains (saturated) e where "r = Inl e" "st' = st"
  | (ran) r' db' where "f (api_auth st) = (r', db')" "permits \<noteq> 0" "r = database permits (from_auth r')" "st' = st\<lparr>api_auth := db'\<rparr>"
proof (cases "acquire permits")
  case (Inl e)
  with assms show ?thesis by (intro saturated [of e]) (simp_all add: auth_work_def)
next
  case (Inr p)
  obtain r' db' where "f (api_auth st) = (r', db')" by fastforce
  with Inr assms show ?thesis by (intro ran [of r' db']) (auto simp: auth_work_def acquire_def split: if_splits)
qed

text \<open>An admission that fails, or meets a conflict, stores nothing.\<close>

lemma admit_order_unchanged:
  "admit_order env cd client commitment ord now db = (Inl e, db') \<Longrightarrow> db' = db"
  "admit_order env cd client commitment ord now db = (Inr RConflict, db') \<Longrightarrow> db' = db"
proof -
  show "admit_order env cd client commitment ord now db = (Inl e, db') \<Longrightarrow> db' = db"
    using atomically_Inl by (metis admit_order_def admit_order_with_limit_def fst_conv snd_conv)
  assume "admit_order env cd client commitment ord now db = (Inr RConflict, db')"
  then have "admit_tx client commitment (durable cd ord) now (max_admitted_orders env) db = Inr (RConflict, db')"
    by (simp add: admit_order_def admit_order_with_limit_def atomically_Inr)
  then show "db' = db"
    unfolding admit_tx_def Let_def by (auto simp: res_simps split: option.split_asm if_split_asm)
qed

lemma precheck_Inr:
  assumes "(precheck env h rq st :: 'e reply + _) = Inr (sg, pk)"
  obtains token session where "parse_bearer h = Inr token"
    "lookup_session (ae_wallet env) token (ae_secs env) (api_auth st) = Inr (Some session)" "ses_user_id session = no_user_id rq"
    "\<not> is_expired_at (no_expires_at rq) (ae_secs env)"
    "and_then (b64_decode (ae_codec env) (no_signed_intent rq)) (sig_from_bytes (ae_codec env)) = Inr sg"
    "and_then (b64_decode (ae_codec env) (no_pubkey rq)) (pk_from_bytes (ae_codec env)) = Inr pk"
proof -
  from assms obtain user sb pb where r: "\<not> is_expired_at (no_expires_at rq) (ae_secs env)"
    "request_user env h st = (Inr user :: 'e reply + account_id)" "user = no_user_id rq"
    "b64_decode (ae_codec env) (no_signed_intent rq) = Inr sb" "sig_from_bytes (ae_codec env) sb = Inr sg"
    "b64_decode (ae_codec env) (no_pubkey rq) = Inr pb" "pk_from_bytes (ae_codec env) pb = Inr pk"
    unfolding precheck_def by (simp split: if_split_asm sum.split_asm)
  from r(2) obtain token session where "parse_bearer h = Inr token" "user = ses_user_id session"
    "database (ae_session_permits env) (from_auth (lookup_session (ae_wallet env) token (ae_secs env) (api_auth st)))
       = Inr (Some session)"
    unfolding request_user_def by (auto split: sum.split_asm option.split_asm)
  then have "lookup_session (ae_wallet env) token (ae_secs env) (api_auth st) = Inr (Some session)"
    by (auto dest!: database_Inr simp: from_auth_Inr)
  with r show ?thesis by (intro that) (simp_all add: \<open>parse_bearer h = Inr token\<close> \<open>user = ses_user_id session\<close>)
qed

lemma precheck_refuses: "precheck env h rq st = Inl r \<Longrightarrow> error_reply r"
  unfolding precheck_def request_user_def error_reply_def
  by (auto split: if_split_asm sum.split_asm option.split_asm)

lemma check_signature_refuses: "check_signature env rq sg pk = Inl r \<Longrightarrow> error_reply r"
  unfolding check_signature_def error_reply_def
  by (auto split: if_split_asm sum.split_asm option.split_asm error.split_asm)

lemma error_replies [simp]: "error_reply (admit_failure env e)" "error_reply (Failure s m)" "error_reply (Retry m)"
  "\<not> error_reply (Success x)" "error_reply Aborted"
  by (simp_all add: admit_failure_def error_reply_def)

text \<open>A new-order request is refused and changes nothing, or passes every check and is reserved.\<close>

lemma order_new_cases:
  fixes env :: "('sg, 'pk) api_env"
  assumes "order_new env h payload st = (r, st')"
  obtains (refused) "error_reply r" "st' = st"
  | (reserved) rq sg pk word oid x where "payload = Some rq" "precheck env h rq st = (Inr (sg, pk) :: ('sg, 'pk, created) order reply + _)"
      "check_signature env rq sg pk = (Inr word :: ('sg, 'pk, created) order reply + _)"
      "r = Success (new_with_id (ae_instant env) oid sg (no_user_id rq) (no_details rq) pk (intent_of rq))"
      "x \<in> {RNew oid, RExisting oid}"
      "admit_order (ae_max_orders env) (ae_codec env) (no_client_order_id rq) (intent_commitment word)
         (new_with_id (ae_instant env) (ae_random_uuid env) sg (no_user_id rq) (no_details rq) pk (intent_of rq))
         (ae_millis env) (api_execution st) = (Inr x, api_execution st')"
      "api_published st' = (case x of RNew _ \<Rightarrow> api_published st @
         [UNew (new_with_id (ae_instant env) oid sg (no_user_id rq) (no_details rq) pk (intent_of rq))] | _ \<Rightarrow> api_published st)"
proof (cases payload)
  case None
  with assms show ?thesis by (intro refused) (auto simp: order_new_def)
next
  case (Some rq)
  show ?thesis
  proof (cases "precheck env h rq st :: ('sg, 'pk, created) order reply + 'sg \<times> 'pk")
    case (Inl refusal)
    with assms precheck_refuses [OF Inl] show ?thesis by (intro refused) (simp_all add: order_new_def Some)
  next
    case pre: (Inr keys)
    obtain sg pk where keys: "keys = (sg, pk)" by fastforce
    show ?thesis
    proof (cases "check_signature env rq sg pk :: ('sg, 'pk, created) order reply + storage_word")
      case (Inl refusal)
      with assms check_signature_refuses [OF Inl] show ?thesis
        by (intro refused) (simp_all add: order_new_def Some pre keys)
    next
      case sig: (Inr word)
      let ?cand = "new_with_id (ae_instant env) (ae_random_uuid env) sg (no_user_id rq) (no_details rq) pk (intent_of rq)"
      let ?f = "admit_order (ae_max_orders env) (ae_codec env) (no_client_order_id rq) (intent_commitment word) ?cand (ae_millis env)"
      have id: "?cand\<lparr>order_id := oid\<rparr>
          = new_with_id (ae_instant env) oid sg (no_user_id rq) (no_details rq) pk (intent_of rq)" for oid
        by (simp add: new_with_id_def)
      obtain res st1 where work: "execution_work (ae_db_permits env) ?f st = (res, st1)" by fastforce
      note run = assms [unfolded order_new_def Some option.case pre keys sum.case prod.case sig Let_def work id]
      show ?thesis
      proof (cases res)
        case (Inl e)
        from work have "st1 = st"
        proof (cases rule: execution_work_cases)
          case (ran r' db')
          obtain e' where "r' = Inl e'" using database_Inl [OF ran(3) [symmetric, unfolded Inl] ran(2)] by blast
          with ran(1) have "db' = api_execution st" by (simp add: admit_order_unchanged(1))
          with ran(4) show ?thesis by simp
        qed
        with run Inl show ?thesis by (intro refused) auto
      next
        case (Inr x)
        from work have "\<exists>db'. ?f (api_execution st) = (Inr x, db') \<and> st1 = st\<lparr>api_execution := db'\<rparr>"
        proof (cases rule: execution_work_cases)
          case (saturated e)
          with Inr show ?thesis by simp
        next
          case (ran r' db')
          from database_Inr [OF ran(3) [symmetric, unfolded Inr]] ran(1,4) show ?thesis by blast
        qed
        then obtain db' where adm: "?f (api_execution st) = (Inr x, db')" "st1 = st\<lparr>api_execution := db'\<rparr>" by blast
        show ?thesis
        proof (cases x)
          case RConflict
          with adm admit_order_unchanged(2) have "st1 = st" by fastforce
          with run Inr RConflict show ?thesis by (intro refused) auto
        next
          case (RNew oid)
          with run Inr adm show ?thesis
            by (intro reserved [of rq sg pk word oid x]) (auto simp: Some pre keys sig)
        next
          case (RExisting oid)
          with run Inr adm show ?thesis
            by (intro reserved [of rq sg pk word oid x]) (auto simp: Some pre keys sig)
        qed
      qed
    qed
  qed
qed

text \<open>
  C6: Every order in the engine was authorised by its user. Whatever the history of the authentication
  store, when a new-order request changes the execution store, publishes an order or is answered with
  one: its bearer token belongs to a session that a login of the order's user opened and that has
  not expired; the vault has the request's public key registered for that user, and this key's signature
  covers the word of the very intent the order carries, made of its user, assets, amounts, client id and
  expiry; the intent has not expired; and the nonce of its client id is leased to that user.
\<close>
theorem admitted_order_authorised:
  fixes env :: "('sg, 'pk) api_env"
  assumes "order_new env h payload st = (r, st')"
    and "auth_run (ae_wallet env) cfg ops = (evs, api_auth st)" "list_all typed_op ops"
    and "api_execution st' \<noteq> api_execution st \<or> api_published st' \<noteq> api_published st \<or> \<not> error_reply r"
  shows "\<exists>rq token cid vc pk\<^sub>0 sg\<^sub>0 t ns storage word ord.
      payload = Some rq \<and> r = Success ord \<and> ae_secs env < no_expires_at rq
    \<and> parse_bearer h = Inr token \<and> LoggedIn cid (no_user_id rq) vc pk\<^sub>0 sg\<^sub>0 t ns \<in> set evs
    \<and> token_commitment (ae_wallet env) (bearer_token ns) = token_commitment (ae_wallet env) token
    \<and> ae_secs env \<le> ses_expires_at (new_session ns)
    \<and> ae_registration_storage env (no_user_id rq) = Inr storage
    \<and> vault_user_registration storage (no_user_id rq) = Inr (Some (wl_commitment (ae_wallet env) (order_pubkey ord)))
    \<and> order_intent ord = intent_of rq \<and> order_user_id ord = no_user_id rq \<and> order_details ord = no_details rq
    \<and> intent_message_word (wl_hash_elements (ae_wallet env)) (order_intent ord) = Inr word
    \<and> wl_verify (ae_wallet env) (order_pubkey ord) word (signed_order ord)
    \<and> validate_nonce_lease (api_execution st) (no_client_order_id rq) (no_user_id rq)
        = Inr (nonce_from_client_order_id (no_client_order_id rq))"
  using assms(1)
proof (cases rule: order_new_cases)
  case refused
  with assms(4) show ?thesis by simp
next
  case (reserved rq sg pk word oid x)
  let ?ord = "new_with_id (ae_instant env) oid sg (no_user_id rq) (no_details rq) pk (intent_of rq)"
  from reserved(2) obtain token session where session: "parse_bearer h = Inr token"
    "lookup_session (ae_wallet env) token (ae_secs env) (api_auth st) = Inr (Some session)" "ses_user_id session = no_user_id rq"
    "\<not> is_expired_at (no_expires_at rq) (ae_secs env)"
    by (rule precheck_Inr)
  from lookup_logged [OF assms(2,3) session(2)] obtain cid vc pk\<^sub>0 sg\<^sub>0 t ns where login:
    "LoggedIn cid (no_user_id rq) vc pk\<^sub>0 sg\<^sub>0 t ns \<in> set evs"
    "token_commitment (ae_wallet env) (bearer_token ns) = token_commitment (ae_wallet env) token"
    "ae_secs env \<le> ses_expires_at (new_session ns)"
    unfolding session(3) by blast
  from reserved(3) obtain storage where sig: "ae_registration_storage env (no_user_id rq) = Inr storage"
    "vault_user_registration storage (no_user_id rq) = Inr (Some (wl_commitment (ae_wallet env) pk))"
    "intent_message_word (wl_hash_elements (ae_wallet env)) (intent_of rq) = Inr word" "wl_verify (ae_wallet env) pk word sg"
    by (rule check_signature_Inr)
  have "\<exists>nonce. validate_nonce_lease (api_execution st) (no_client_order_id rq) (no_user_id rq) = Inr nonce"
    using reserved(6) by (auto simp: admit_order_def admit_order_with_limit_def atomically_Inr admit_tx_def res_simps
        durable_def new_with_id_def)
  then have lease: "validate_nonce_lease (api_execution st) (no_client_order_id rq) (no_user_id rq)
      = Inr (nonce_from_client_order_id (no_client_order_id rq))"
    by (auto simp: validate_nonce_lease_def res_simps split: option.splits)
  have ord: "order_pubkey ?ord = pk" "signed_order ?ord = sg" "order_intent ?ord = intent_of rq"
    "order_user_id ?ord = no_user_id rq" "order_details ?ord = no_details rq"
    by (simp_all add: new_with_id_def)
  have "ae_secs env < no_expires_at rq" using session(4) by (simp add: is_expired_at_def not_le)
  with reserved(1,4) session(1) login sig lease ord show ?thesis
    by (intro exI [of _ rq] exI [of _ token] exI [of _ cid] exI [of _ vc] exI [of _ pk\<^sub>0] exI [of _ sg\<^sub>0] exI [of _ t] exI [of _ ns]
        exI [of _ storage] exI [of _ word] exI [of _ ?ord]) (simp only: simp_thms)
qed

definition example_api_codec :: "(storage_word, unit) codec" where
  "example_api_codec =
     \<lparr>b64_encode = (\<lambda>_. []), b64_decode = (\<lambda>_. Inr []), sig_to_bytes = (\<lambda>_. []), sig_from_bytes = (\<lambda>_. Inr (16, 0, 0, 0)),
      pk_to_bytes = (\<lambda>_. []), pk_from_bytes = (\<lambda>_. Inr ())\<rparr>"

definition example_api_env :: "(storage_word, unit) api_env" where
  "example_api_env =
     \<lparr>ae_config = example_config, ae_wallet = example_wallet, ae_codec = example_api_codec, ae_show_error = (\<lambda>_. []),
      ae_account_from_hex = (\<lambda>_. Inr wallet_user), ae_max_orders = None, ae_auth_domain = None, ae_miden_network = None,
      ae_secs = 200, ae_millis = 200000, ae_instant = 0, ae_session_permits = 1, ae_rpc_permits = 1, ae_db_permits = 1,
      ae_registration_storage = (\<lambda>_. Inr \<lparr>get_map_item = (\<lambda>_ _. Inr (1, 2, 3, 4)), slots = []\<rparr>),
      ae_random = [], ae_random_id = [], ae_random_uuid = 42, ae_random_tail = 5\<rparr>"

definition example_order_request :: new_order_request where
  "example_order_request =
     \<lparr>no_version = 3, no_client_order_id = example_cid, no_expires_at = 300, no_details = example_details, no_order_type = Spot,
      no_user_id = wallet_user, no_signed_intent = [], no_pubkey = []\<rparr>"

definition example_api_state :: "(storage_word, unit) api_state" where
  "example_api_state =
     \<lparr>api_auth = snd (auth_run example_wallet example_config example_ops),
      api_execution = open_db\<lparr>nonce_leases := [\<lparr>nl_client_order_id = example_cid, nl_user_id = wallet_user, nl_nonce = 0, nl_created_at = 1000\<rparr>]\<rparr>,
      api_manager = new_manager, api_published = []\<rparr>"

lemma example_lookup:
  "lookup_session example_wallet ''CD'' 200 (snd (auth_run example_wallet example_config example_ops)) =
     Inr (Some \<lparr>ses_user_id = wallet_user, ses_commitment = (1, 2, 3, 4), ses_created_at = 101, ses_expires_at = 3701\<rparr>)"
  by code_simp

lemma example_bearer: "parse_bearer (HeaderText ''Bearer CD'') = Inr ''CD''"
  by code_simp

lemma example_precheck:
  "precheck example_api_env (HeaderText ''Bearer CD'') example_order_request example_api_state = Inr ((16, 0, 0, 0), ())"
  by (simp add: precheck_def request_user_def example_bearer example_lookup example_api_env_def example_order_request_def
      example_api_state_def example_api_codec_def INTENT_VERSION_def is_expired_at_def database_def acquire_def from_auth_def)

lemma example_intent_word:
  "intent_message_word (wl_hash_elements example_wallet) (intent_of example_order_request) = Inr (16, 0, 0, 0)"
  by code_simp

lemma example_signature:
  "check_signature example_api_env example_order_request (16, 0, 0, 0) () = Inr (16, 0, 0, 0)"
  using example_intent_word
  by (simp add: check_signature_def registration_storage_def rpc_def acquire_def vault_user_registration_def example_api_env_def
      example_wallet_def)

lemma example_admission:
  "\<exists>db. execution_work (ae_db_permits example_api_env)
     (admit_order (ae_max_orders example_api_env) (ae_codec example_api_env) (no_client_order_id example_order_request) commitment
        (new_with_id (ae_instant example_api_env) (ae_random_uuid example_api_env) sg (no_user_id example_order_request)
           (no_details example_order_request) pk i) (ae_millis example_api_env)) example_api_state
     = (Inr (RNew 42), example_api_state\<lparr>api_execution := db\<rparr>)"
  by (simp add: execution_work_def database_def acquire_def admit_order_def admit_order_with_limit_def max_admitted_orders_def
      atomically_def admit_tx_def open_db_def example_api_state_def sql_exists_def sql_count_def and_then_def to_u32_def to_i64_def
      ok_or_def validate_nonce_lease_def usize_i64_def insert_order_def append_event_def enqueue_outbox_def new_with_id_def
      durable_def Let_def example_cid_def nonce_of_client_order_id example_api_env_def example_order_request_def)

theorem admitted_order_authorised_witness:
  "\<exists>cid vc pk\<^sub>0 sg\<^sub>0 t ns. LoggedIn cid wallet_user vc pk\<^sub>0 sg\<^sub>0 t ns
     \<in> set (fst (auth_run example_wallet example_config example_ops))"
proof -
  let ?h = "HeaderText ''Bearer CD''"
  obtain r st' where run: "order_new example_api_env ?h (Some example_order_request) example_api_state = (r, st')" by fastforce
  obtain db where "execution_work (ae_db_permits example_api_env)
     (admit_order (ae_max_orders example_api_env) (ae_codec example_api_env) (no_client_order_id example_order_request)
        (intent_commitment (16, 0, 0, 0))
        (new_with_id (ae_instant example_api_env) (ae_random_uuid example_api_env) (16, 0, 0, 0) (no_user_id example_order_request)
           (no_details example_order_request) () (intent_of example_order_request)) (ae_millis example_api_env)) example_api_state
     = (Inr (RNew 42), example_api_state\<lparr>api_execution := db\<rparr>)" using example_admission by blast
  with run have success: "\<not> error_reply r"
    by (auto simp: order_new_def example_precheck example_signature Let_def)
  have history: "auth_run (ae_wallet example_api_env) example_config example_ops
      = (fst (auth_run example_wallet example_config example_ops), api_auth example_api_state)"
    by (simp add: example_api_env_def example_api_state_def)
  have typed: "list_all typed_op example_ops"
    by (simp add: example_ops_def canonical_word_def felts_valid_def word_felts_def FELT_MODULUS_def)
  obtain rq cid vc pk\<^sub>0 sg\<^sub>0 t ns where "Some example_order_request = Some rq"
    "LoggedIn cid (no_user_id rq) vc pk\<^sub>0 sg\<^sub>0 t ns \<in> set (fst (auth_run example_wallet example_config example_ops))"
    using admitted_order_authorised [OF run history typed disjI2 [OF disjI2 [OF success]]]
    by (elim exE conjE) (rule that; assumption)
  moreover have "no_user_id example_order_request = wallet_user" by (simp add: example_order_request_def)
  ultimately show ?thesis by (simp only: option.inject) blast
qed

lemma execution_work_failed:
  assumes "execution_work permits f st = (Inl e, st')" "\<And>e db'. f (api_execution st) = (Inl e, db') \<Longrightarrow> db' = api_execution st"
  shows "st' = st"
  using assms(1)
proof (cases rule: execution_work_cases)
  case (ran r' db')
  obtain e' where "r' = Inl e'" using database_Inl [OF ran(3) [symmetric] ran(2)] by blast
  with ran(1) assms(2) have "db' = api_execution st" by simp
  with ran(4) show ?thesis by simp
qed

lemma auth_work_failed:
  assumes "auth_work permits f st = (Inl e, st')" "\<And>e db'. f (api_auth st) = (Inl e, db') \<Longrightarrow> db' = api_auth st"
  shows "st' = st"
  using assms(1)
proof (cases rule: auth_work_cases)
  case (ran r' db')
  obtain e' where "from_auth r' = Inl e'" using database_Inl [OF ran(3) [symmetric] ran(2)] by blast
  then obtain a where "r' = Inl a" by (cases r') (auto simp: from_auth_def)
  with ran(1) assms(2) have "db' = api_auth st" by simp
  with ran(4) show ?thesis by simp
qed

lemma order_nonce_refused: "order_nonce_handler env h st = (r, st') \<Longrightarrow> error_reply r \<Longrightarrow> st' = st"
proof (cases "request_user env h st :: nonce_lease reply + account_id")
  case (Inr user)
  let ?f = "allocate_nonce_lease user (ae_random_tail env) (ae_millis env)"
  assume run: "order_nonce_handler env h st = (r, st')" and "error_reply r"
  obtain x st1 where work: "execution_work (ae_db_permits env) ?f st = (x, st1)" by fastforce
  have keep: "?f db = (Inl e, db') \<Longrightarrow> db' = db" for e db db'
    using atomically_Inl by (metis allocate_nonce_lease_def fst_conv snd_conv)
  show ?thesis
  proof (cases x)
    case (Inl e)
    have "st1 = st" by (rule execution_work_failed [OF work [unfolded Inl] keep])
    with run Inl work show ?thesis by (simp add: order_nonce_handler_def Inr)
  next
    case (Inr lease)
    with run work \<open>error_reply r\<close> \<open>request_user env h st = Inr user\<close> show ?thesis by (auto simp: order_nonce_handler_def)
  qed
qed (simp add: order_nonce_handler_def)

lemma auth_login_refused: "auth_login env rq st = (r, st') \<Longrightarrow> error_reply r \<Longrightarrow> st' = st"
  unfolding auth_login_def
  by (auto split: sum.split_asm option.split_asm error.split_asm prod.split_asm dest!: auth_work_failed dest: authenticate_Inl)

lemma auth_challenge_refused: "auth_challenge env user_hex st = (r, st') \<Longrightarrow> error_reply r \<Longrightarrow> st' = st"
  unfolding auth_challenge_def
  by (auto split: sum.split_asm option.split_asm error.split_asm prod.split_asm dest!: auth_work_failed dest: issue_challenge_Inl)

text \<open>What a request may have done when its answer is not a success: nothing, if the handler answered; if the
  router answered for it, nothing or the store changes of a run of the handler that succeeded, with
  nothing published and no connection closed.\<close>

definition failure_is_clean ::
  "expiry \<Rightarrow> (('sg, 'pk) api_state \<Rightarrow> 'a reply \<times> ('sg, 'pk) api_state) \<Rightarrow> ('sg, 'pk) api_state \<Rightarrow> bool" where
  "failure_is_clean x handler st \<longleftrightarrow>
     (case with_timeout x handler st of
        (Replied r, st') \<Rightarrow> error_reply r \<longrightarrow> st' = st
      | (RequestTimeout, st') \<Rightarrow>
          st' = st
          \<or> (let (r, done_st) = handler st
             in \<not> error_reply r \<and> st' = st\<lparr>api_auth := api_auth done_st, api_execution := api_execution done_st\<rparr>))"

lemma failure_is_cleanI:
  assumes "\<And>r st'. handler st = (r, st') \<Longrightarrow> error_reply r \<Longrightarrow> st' = st"
  shows "failure_is_clean x handler st"
  using assms [OF surjective_pairing] by (cases x) (auto simp: failure_is_clean_def with_timeout_def split: prod.splits)

text \<open>
  C30: A refused request changes nothing. When a new order, a nonce lease, a login or a challenge is
  answered by its handler with an error, every store, the published updates and the connections are as
  before. When the router answers with a timeout instead, they are as before or, where the work had been
  started, the stores are exactly as a successful run leaves them, with nothing published and no
  connection changed.
\<close>
theorem refused_requests_change_nothing:
  "failure_is_clean x (order_new env h payload) st
   \<and> failure_is_clean x (order_nonce_handler env h) st
   \<and> failure_is_clean x (auth_login env rq) st
   \<and> failure_is_clean x (auth_challenge env user_hex) st"
proof -
  have "st' = st" if "order_new env h payload st = (r, st')" "error_reply r" for r st'
    using that by (elim order_new_cases) simp_all
  then show ?thesis
    by (intro conjI failure_is_cleanI) (simp_all add: order_nonce_refused auth_login_refused auth_challenge_refused)
qed

theorem refused_requests_change_nothing_witness:
  "with_timeout InTime (order_new example_api_env NoHeader (Some example_order_request)) example_api_state
     = (Replied (Failure UNAUTHORIZED ''missing or invalid bearer token''), example_api_state)"
proof -
  obtain r st' where run: "order_new example_api_env NoHeader (Some example_order_request) example_api_state = (r, st')" by fastforce
  then have r: "r = Failure UNAUTHORIZED ''missing or invalid bearer token''"
    by (simp add: order_new_def precheck_def request_user_def parse_bearer_def example_api_env_def example_order_request_def
        INTENT_VERSION_def is_expired_at_def)
  from run r refused_requests_change_nothing [THEN conjunct1, of InTime example_api_env NoHeader "Some example_order_request"
      example_api_state] show ?thesis by (simp add: failure_is_clean_def with_timeout_def)
qed

text \<open>An order answered with a timeout is stored and not published.\<close>

lemma timed_out_order_is_admitted:
  assumes "order_new env h payload st = (Success ord, st')"
  shows "\<exists>st''. with_timeout DuringWork (order_new env h payload) st = (RequestTimeout, st'')
    \<and> api_execution st'' = api_execution st' \<and> api_published st'' = api_published st"
  using assms by (simp add: with_timeout_def)

end
