(* ===== verification/Spec2Isabelle.thy ===== *)
theory Spec2Isabelle
  imports Nonce_Window Intent Curve Pool Swap_Quote Orders Execution_Store Execution_Invariants Execution_Steps Execution_Example Execution_Properties Fee_Store Lp_Store
    Pool_Registry Oracle Processing Processing_Properties Stateful Submissions Outbox_Keys Finality_Observer Finality_Properties Server Exec_Script Miden_Execution Miden_Execution_Properties
    Auth_Store Auth_Properties Ingress Ingress_Properties Connections Connections_Properties Order_Api Order_Api_Properties
begin

text \<open>
  A verification development of the minizeke exchange server, the Rust crate under \<open>src/src\<close>.

  \<^bold>\<open>The program.\<close> Users log in with the key registered on their vault (\<open>auth.rs\<close>), lease a nonce and post
  signed swap intents to the HTTP API (\<open>api.rs\<close>) through a rate limiter (\<open>ingress.rs\<close>); the API admits them as
  durable orders into a SQLite store (\<open>execution_store.rs\<close>). The processing engine (\<open>processing.rs\<close>) claims admitted
  orders, quotes them on the pools with the curve (\<open>curve.rs\<close>, \<open>pool.rs\<close>), keeps the mirror of pools and
  spendable balances and writes a batch back. The execution worker (\<open>miden_execution.rs\<close>) claims the batch, routes
  its orders to the pool shard of each user, packs them into transactions of the Miden chain and
  records each submission. The finality observer (\<open>finality_observer.rs\<close>) confirms or fails the submissions and
  announces finished batches. Deposits and withdrawals of liquidity arrive as notes consumed on the chain and pass
  through their own journal (\<open>lp.rs\<close>, \<open>lp_store.rs\<close>). Broker events reach clients over WebSocket connections
  (\<open>websocket/connection_manager.rs\<close>, \<open>websocket/handlers.rs\<close>).

  \<^bold>\<open>Conventions.\<close> Native integers are words of their width and 256-bit integers are \<open>256 word\<close>; operators wrap, and
  saturating, checked and converting operations are those of \<open>Prelude\<close>. A fallible function returns a sum whose
  left part is an error or a panic; a stateful one takes its state and returns it, changed, beside the result.
  A SQL transaction is a function on a record of tables that gives the old record back when it fails. Clocks,
  random bytes and fresh identifiers are arguments. A map or table is a list of rows in insertion order where the
  code iterates over it or an order or duplicate may matter, a HOL map otherwise.

  \<^bold>\<open>Theories and code.\<close>
  \<^item> \<open>Prelude\<close>: integers, results, SQL statements over lists of rows, reachability and the locale of one-step
    invariants. \<open>Stateful\<close>: the composition operators of the workers and the locale of relations they keep.
  \<^item> \<open>Nonce_Window\<close> (\<open>nonce_window.rs\<close>): the sliding window as a base and three limbs, and its meaning as a base and
    a set of consumed nonces, which every operation refines; no accepted nonce is accepted again.
  \<^item> \<open>Intent\<close> (\<open>intent.rs\<close>): the sixteen field elements that are signed; they determine the intent.
  \<^item> \<open>Curve\<close>, \<open>Swap_Quote\<close> (\<open>curve.rs\<close>, \<open>market.rs\<close>): fixed-point arithmetic, the Newton square root (the floor, on the
    whole domain), the inverses of the curve (return in stated ranges), quotes that conserve assets.
  \<^item> \<open>Pool\<close> (\<open>pool.rs\<close>, the storage slots of \<open>vault.rs\<close>): minting and redeeming shares at once pays
    at most what the deposit added to the liabilities, which leaves the others' claim whole.
  \<^item> \<open>Orders\<close> (\<open>order.rs\<close>): typestates, durable snapshots and the order book with one status for each id.
  \<^item> \<open>Execution_Store\<close> (\<open>execution_store.rs\<close>): every operation of the store. \<open>Execution_Invariants\<close> and \<open>Execution_Steps\<close>
    hold its step relation and the invariant each step keeps, \<open>Execution_Properties\<close> the theorems, on the
    concrete run of \<open>Execution_Example\<close>; \<open>Submissions\<close> shows that a submission is resolved once, \<open>Outbox_Keys\<close> that an
    announcement is queued once and names each of its orders once.
  \<^item> \<open>Fee_Store\<close> (\<open>fee_store.rs\<close>) and \<open>Lp_Store\<close> (\<open>lp_store.rs\<close>, \<open>lp.rs\<close>): versioned fee batches; the liquidity
    journal, in which every operation is applied once.
  \<^item> \<open>Pool_Registry\<close> (\<open>pool_registry.rs\<close>, \<open>pool_manager.rs\<close>): the pools a server serves and the provisioning journal.
    \<open>Oracle\<close> (\<open>oracle_sse.rs\<close>, \<open>price.rs\<close>, \<open>websocket/oracle_throttle.rs\<close>): latest prices and their throttling.
  \<^item> \<open>Processing\<close>, \<open>Processing_Properties\<close> (\<open>processing.rs\<close>): the engine, what settling an order does and what
    rolling it back undoes on the pools and balances of that later moment.
  \<^item> \<open>Exec_Script\<close>, \<open>Miden_Execution\<close>, \<open>Miden_Execution_Properties\<close> (\<open>execution_script.rs\<close>, \<open>miden_execution.rs\<close>): the
    script of a transaction, packing, routing and submission; recorded transactions carry the signed
    intents of live orders on the pool the vault placed their users on, and no order of a batch is left behind.
  \<^item> \<open>Finality_Observer\<close>, \<open>Finality_Properties\<close> (\<open>finality_observer.rs\<close>): confirmation only of committed transactions,
    failure of overdue ones, announcements from the outbox.
  \<^item> \<open>Server\<close>: engine, worker, observer, API and recovery interleaved on one store: the store invariant and
    the order lifecycle hold in whatever order their events arrive.
  \<^item> \<open>Auth_Store\<close>, \<open>Auth_Properties\<close> (\<open>auth.rs\<close>, \<open>service_auth.rs\<close>): challenges, sessions and service credentials; logins agree
    injectively with challenges, and what a wallet signs determines the login.
  \<^item> \<open>Ingress\<close>, \<open>Ingress_Properties\<close> (\<open>ingress.rs\<close>): configuration, client addresses, the limiter and the permits of
    blocking work; bounded memory and a bound on the requests of a client key in any window.
  \<^item> \<open>Connections\<close>, \<open>Connections_Properties\<close> (\<open>websocket/\<close>, \<open>message_broker/messages.rs\<close>): the connection manager, the handlers
    and the forwarding of events; private events reach their owner only, and the caps hold.
  \<^item> \<open>Order_Api\<close>, \<open>Order_Api_Properties\<close> (\<open>api.rs\<close>): the handlers that change state; an admitted order was authorised
    by a session, a registered key, a signature and a nonce lease, and a refused request changes nothing, except that
    a request answered 408 by the router's timeout may still be carried out.

  \<^bold>\<open>Interfaces.\<close> The contracts between components are locales, each interpreted on the model: a state machine with an
  invariant of one step (the stores), a replay guard (the nonce window), a relation that stateful operations keep
  (the workers over the store), prefix codes (the byte encodings under a signature), and invariants of the
  connection manager (caps and confidentiality).

  \<^bold>\<open>Bounds and termination.\<close> Every definition is total, and no fuel is used where the code has no bound of its own.
  The search for the shares of a withdrawal terminates by the size of its interval; the splitting of
  header and environment text by its length; the Newton square root runs the seven rounds the code writes out, which
  the theorem shows to be enough on the whole domain; the three attempts of a chain synchronisation are counted
  down as in the code. All other recursion is structural on a list. The loops of the
  workers, the engine and the connections are step functions: one event, round or message each, so that every
  statement about a run is one about all finite sequences of steps.

  \<^bold>\<open>Parameters.\<close> Library code is an argument: the Poseidon2 hash, signatures, keys and base64 (records \<open>wallet\<close> and
  \<open>codec\<close>), the Miden client (records \<open>node\<close> and \<open>chain\<close>), RPC answers, JSON and the printers of identifiers and errors.
  Where a theorem relies on one of them, what it relies on is a hypothesis of it.

  \<^bold>\<open>Not modelled.\<close> The fee updater, a separate process that estimates volatility with floating-point
  logarithms; history and analytics, reporting tables that nothing of the core reads back except the
  ownership of an order, which is an argument; the read-only endpoints, proxies and, but for its timeout, the router of the API; the
  building of accounts, notes and assembly, which are calls of the Miden library; the broadcast
  channels of the asynchronous runtime; the faucet, the command-line programs and the trading simulator.
  Threads are interleaved at the granularity of a message or a round, in \<open>Server\<close> as well; since each turn
  is shown to be a run of single steps of the stores, their invariants hold between its transactions too.
\<close>

end
